(* ===== verification/Go_Prelude.thy ===== *)
theory Go_Prelude
  imports Main "HOL-Library.Finite_Map" "HOL-Library.Char_ord" "HOL-Library.List_Lexorder"
begin

text \<open>
  The shared vocabulary of the development: the Go types the models use, how an error, a panic
  and a two's complement integer are written, and the generic lemmas every component needs.

  \<^item> A Go \<open>string\<close> is a sequence of bytes, so it is an Isabelle \<open>string\<close>, whose characters are
    bytes; \<open>''''\<close> is Go's empty string.
  \<^item> A Go \<open>error\<close> is \<open>None\<close> for \<open>nil\<close> and \<open>Some\<close> of its text otherwise.
  \<^item> A function that may panic returns an \<open>outcome\<close>.
  \<^item> \<open>int\<close> and \<open>time.Duration\<close> are 64 bits wide: a value is an \<open>int\<close> in that range, and
    \<open>wrap64\<close> is what the machine keeps of a result outside it.
  \<^item> A slice that is only read, appended to or updated in range is a list; a nil slice and an
    empty one are the same list, and where the code tells them apart the model says so.
  \<^item> A \<open>map[string]bool\<close> used as a set of names is a \<open>string set\<close>; one loop step adds a name with
    \<open>insert\<close>, and \<open>len\<close> is \<open>card\<close>.
  \<^item> A \<open>map[string]string\<close> of an object's metadata is a finite map.
\<close>

named_theorems go_defs \<open>definitions of the model unfolded when a program is evaluated\<close>

type_synonym error = "string option"

abbreviation nil :: error where
  "nil \<equiv> None"

datatype 'a outcome = Ret 'a | Panic

primrec is_panic :: "'a outcome \<Rightarrow> bool" where
  "is_panic (Ret x) = False"
| "is_panic Panic = True"

lemma is_panic_iff [simp]: "is_panic r \<longleftrightarrow> r = Panic"
  by (cases r) auto

text \<open>A chain of checks, each of which ends the function with its error, passes when all pass.\<close>

lemma case_error_None [simp]:
  "(case x of None \<Rightarrow> y | Some e \<Rightarrow> Some (f e)) = None \<longleftrightarrow> x = None \<and> y = None"
  by (cases x) auto

type_synonym str_map = "(string, string) fmap"

subsection \<open>64-bit integers\<close>

abbreviation max_int64 :: int where
  "max_int64 \<equiv> 9223372036854775807"

abbreviation min_int64 :: int where
  "min_int64 \<equiv> -9223372036854775808"

definition in_int64 :: "int \<Rightarrow> bool" where
  "in_int64 x \<longleftrightarrow> min_int64 \<le> x \<and> x \<le> max_int64"

definition wrap64 :: "int \<Rightarrow> int" where
  "wrap64 x = (x + 9223372036854775808) mod 18446744073709551616 - 9223372036854775808"

lemma in_int64_wrap64 [simp]: "in_int64 (wrap64 x)"
proof -
  have "0 \<le> (x + 9223372036854775808) mod 18446744073709551616"
    and "(x + 9223372036854775808) mod 18446744073709551616 < 18446744073709551616"
    by simp_all
  then show ?thesis unfolding in_int64_def wrap64_def by linarith
qed

lemma wrap64_id: "in_int64 x \<Longrightarrow> wrap64 x = x"
  by (simp add: wrap64_def in_int64_def)

subsection \<open>Lists\<close>

lemma nth_append_drop: "i < length xs \<Longrightarrow> drop i xs = xs ! i # drop (Suc i) xs"
  by (rule Cons_nth_drop_Suc [symmetric])

lemma card_le_list_length: "card (set xs) \<le> length xs"
  by (rule card_length)

lemma finite_Union_set_map: "finite (\<Union>x\<in>set xs. f x)" if "\<And>x. finite (f x)"
  using that by simp

lemma find_Some_iff': "find P xs = Some x \<Longrightarrow> x \<in> set xs \<and> P x"
  by (auto simp: find_Some_iff)

lemma map_fst_upd_last_distinct:
  "distinct (map f xs) \<Longrightarrow> f y \<notin> f ` set xs \<Longrightarrow> distinct (map f (xs @ [y]))"
  by auto

text \<open>
  Two lists that agree at every position of the first are the shape of an update that keeps the
  list's length: the webhook and the command line client compare objects this way.
\<close>

lemma list_all2_nthI:
  "length xs = length ys \<Longrightarrow> (\<And>i. i < length xs \<Longrightarrow> P (xs ! i) (ys ! i)) \<Longrightarrow> list_all2 P xs ys"
  by (simp add: list_all2_conv_all_nth)

lemma length_fold_update [simp]:
  "(\<And>x zs. length (f x zs) = length zs) \<Longrightarrow> length (fold f ys xs) = length xs"
  by (induction ys arbitrary: xs) auto

end
