(* ===== verification/Go_Strings.thy ===== *)
theory Go_Strings
  imports Go_Prelude
begin

text \<open>
  What the program uses of the packages \<open>unicode/utf8\<close>, \<open>strings\<close>, \<open>strconv\<close> and \<open>fmt\<close> of the
  standard library: decoding of runes, \<open>TrimSpace\<close>, \<open>HasPrefix\<close>, \<open>Contains\<close>, \<open>SplitN\<close> at the
  first separator, \<open>Itoa\<close>/\<open>%d\<close>, \<open>Atoi\<close> and the lower-case hexadecimal of \<open>%x\<close>.
\<close>

subsection \<open>Runes\<close>

abbreviation bytes_of :: "string \<Rightarrow> nat list" where
  "bytes_of s \<equiv> map of_char s"

definition RuneError :: nat where
  "RuneError = 65533"

definition is_cont :: "nat \<Rightarrow> bool" where
  "is_cont b \<longleftrightarrow> 128 \<le> b \<and> b \<le> 191"

fun DecodeRune2 :: "nat \<Rightarrow> nat list \<Rightarrow> nat \<times> nat" where
  "DecodeRune2 b0 (b1 # _) =
     (if is_cont b1 then ((b0 - 192) * 64 + (b1 - 128), 2) else (RuneError, 1))"
| "DecodeRune2 b0 [] = (RuneError, 1)"

fun DecodeRune3 :: "nat \<Rightarrow> nat list \<Rightarrow> nat \<times> nat" where
  "DecodeRune3 b0 (b1 # b2 # _) =
     (if (if b0 = 224 then 160 else 128) \<le> b1 \<and> b1 \<le> (if b0 = 237 then 159 else 191) \<and> is_cont b2
      then ((b0 - 224) * 4096 + (b1 - 128) * 64 + (b2 - 128), 3) else (RuneError, 1))"
| "DecodeRune3 b0 _ = (RuneError, 1)"

fun DecodeRune4 :: "nat \<Rightarrow> nat list \<Rightarrow> nat \<times> nat" where
  "DecodeRune4 b0 (b1 # b2 # b3 # _) =
     (if (if b0 = 240 then 144 else 128) \<le> b1 \<and> b1 \<le> (if b0 = 244 then 143 else 191)
         \<and> is_cont b2 \<and> is_cont b3
      then ((b0 - 240) * 262144 + (b1 - 128) * 4096 + (b2 - 128) * 64 + (b3 - 128), 4)
      else (RuneError, 1))"
| "DecodeRune4 b0 _ = (RuneError, 1)"

fun DecodeRune :: "nat list \<Rightarrow> nat \<times> nat" where
  "DecodeRune [] = (RuneError, 0)"
| "DecodeRune (b0 # bs) =
     (if b0 < 128 then (b0, 1)
      else if 194 \<le> b0 \<and> b0 \<le> 223 then DecodeRune2 b0 bs
      else if 224 \<le> b0 \<and> b0 \<le> 239 then DecodeRune3 b0 bs
      else if 240 \<le> b0 \<and> b0 \<le> 244 then DecodeRune4 b0 bs
      else (RuneError, 1))"

text \<open>A \<open>range\<close> over a string: the runes in order, each with the bytes it was decoded from.\<close>

function runes :: "string \<Rightarrow> (nat \<times> string) list" where
  "runes [] = []"
| "runes (c # cs) =
     (let (r, n) = DecodeRune (bytes_of (c # cs))
      in (r, c # take (n - 1) cs) # runes (drop (n - 1) cs))"
  by pat_completeness auto
termination
  by (relation "measure length") auto

lemma runes_Cons:
  "\<exists>r n. runes (c # cs) = (r, c # take n cs) # runes (drop n cs)"
  by (cases "DecodeRune (bytes_of (c # cs))") (auto simp del: DecodeRune.simps)

lemma runes_concat: "concat (map snd (runes s)) = s"
proof (induction "length s" arbitrary: s rule: less_induct)
  case less
  show ?case
  proof (cases s)
    case (Cons c cs)
    obtain r n where rn: "runes (c # cs) = (r, c # take n cs) # runes (drop n cs)"
      using runes_Cons by blast
    have "concat (map snd (runes (drop n cs))) = drop n cs"
      by (rule less) (simp add: Cons)
    then show ?thesis unfolding Cons rn by simp
  qed simp
qed

lemma runes_Nil_iff [simp]: "runes s = [] \<longleftrightarrow> s = []"
  by (metis concat.simps(1) list.simps(8) runes.simps(1) runes_concat)

lemma runes_ascii: "\<forall>c \<in> set s. of_char c < (128::nat) \<Longrightarrow> runes s = map (\<lambda>c. (of_char c, [c])) s"
  by (induction s) auto

text \<open>\<open>unicode.IsSpace\<close>.\<close>

definition IsSpace :: "nat \<Rightarrow> bool" where
  "IsSpace r \<longleftrightarrow> (9 \<le> r \<and> r \<le> 13) \<or> r = 32 \<or> r = 133 \<or> r = 160 \<or> r = 5760
     \<or> (8192 \<le> r \<and> r \<le> 8202) \<or> r = 8232 \<or> r = 8233 \<or> r = 8239 \<or> r = 8287 \<or> r = 12288"

definition TrimSpace :: "string \<Rightarrow> string" where
  "TrimSpace s = (let sp = (\<lambda>(r, _). IsSpace r)
     in concat (map snd (rev (dropWhile sp (rev (dropWhile sp (runes s)))))))"

definition blank :: "string \<Rightarrow> bool" where
  "blank s \<longleftrightarrow> list_all (\<lambda>(r, _). IsSpace r) (runes s)"

lemma snd_runes_nonempty: "p \<in> set (runes s) \<Longrightarrow> snd p \<noteq> []"
proof (induction "length s" arbitrary: s rule: less_induct)
  case less
  show ?case
  proof (cases s)
    case (Cons c cs)
    obtain r n where rn: "runes (c # cs) = (r, c # take n cs) # runes (drop n cs)"
      using runes_Cons by blast
    have sub: "p \<in> set (runes (drop n cs)) \<Longrightarrow> snd p \<noteq> []"
      by (rule less(1)) (simp_all add: Cons)
    from less(2) show ?thesis unfolding Cons rn by (auto dest: sub)
  qed (use less in simp)
qed

lemma dropWhile_Nil_list_all: "dropWhile P xs = [] \<longleftrightarrow> list_all P xs"
  by (simp add: list_all_iff)

lemma dropWhile_rev_dropWhile_Nil:
  "dropWhile P (rev (dropWhile P xs)) = [] \<longleftrightarrow> list_all P xs"
proof (cases "dropWhile P xs")
  case Nil
  then show ?thesis by (simp only: dropWhile_Nil_list_all [symmetric]) simp
next
  case (Cons y ys)
  then have "\<not> P y" by (metis dropWhile_eq_Cons_conv)
  then have "\<not> list_all P (rev (dropWhile P xs))"
    unfolding Cons by (simp add: list_all_iff)
  moreover have "\<not> list_all P xs"
    using Cons by (simp only: dropWhile_Nil_list_all [symmetric]) simp
  ultimately show ?thesis by (simp only: dropWhile_Nil_list_all)
qed

theorem TrimSpace_empty_iff: "TrimSpace s = [] \<longleftrightarrow> blank s"
proof -
  let ?sp = "\<lambda>(r, _::string). IsSpace r"
  let ?ps = "rev (dropWhile ?sp (rev (dropWhile ?sp (runes s))))"
  have sub: "set ?ps \<subseteq> set (runes s)"
    by (auto dest!: set_dropWhileD)
  have "TrimSpace s = [] \<longleftrightarrow> (\<forall>p \<in> set ?ps. snd p = [])"
    by (simp add: TrimSpace_def Let_def)
  also have "\<dots> \<longleftrightarrow> ?ps = []"
  proof
    assume all: "\<forall>p \<in> set ?ps. snd p = []"
    show "?ps = []"
    proof (rule ccontr)
      assume "?ps \<noteq> []"
      then obtain p where "p \<in> set ?ps" by (meson last_in_set)
      with all sub snd_runes_nonempty show False by blast
    qed
  qed (simp only: list.set ball_empty)
  also have "\<dots> \<longleftrightarrow> blank s"
    by (simp only: rev_is_Nil_conv dropWhile_rev_dropWhile_Nil blank_def)
  finally show ?thesis .
qed

lemma blank_Nil [simp]: "blank []"
  by (simp add: blank_def)

lemma not_blank_ascii:
  "c \<in> set s \<Longrightarrow> \<not> IsSpace (of_char c) \<Longrightarrow> \<forall>c \<in> set s. of_char c < (128::nat) \<Longrightarrow> \<not> blank s"
  by (auto simp: blank_def runes_ascii list_all_iff)

subsection \<open>Prefixes, substrings, splitting\<close>

definition HasPrefix :: "string \<Rightarrow> string \<Rightarrow> bool" where
  "HasPrefix s p \<longleftrightarrow> take (length p) s = p"

lemma HasPrefix_append: "HasPrefix s p \<longleftrightarrow> (\<exists>t. s = p @ t)"
  unfolding HasPrefix_def by (metis append_eq_conv_conj append_take_drop_id)

fun Contains :: "string \<Rightarrow> string \<Rightarrow> bool" where
  "Contains [] sub \<longleftrightarrow> sub = []"
| "Contains (c # cs) sub \<longleftrightarrow> HasPrefix (c # cs) sub \<or> Contains cs sub"

lemma Contains_iff: "Contains s sub \<longleftrightarrow> (\<exists>p q. s = p @ sub @ q)"
proof (induction s)
  case (Cons c cs)
  show ?case (is "?l \<longleftrightarrow> ?r")
  proof
    assume ?l
    then show ?r
      using Cons by (metis Contains.simps(2) HasPrefix_append append_Cons append_Nil)
  next
    assume ?r
    then obtain p q where pq: "c # cs = p @ sub @ q" by blast
    show ?l
    proof (cases p)
      case Nil
      with pq have "HasPrefix (c # cs) sub" by (simp only: HasPrefix_append) auto
      then show ?thesis by simp
    next
      case p: (Cons d ds)
      with pq have "cs = ds @ sub @ q" by simp
      then have "Contains cs sub" using Cons.IH by blast
      then show ?thesis by simp
    qed
  qed
qed simp

lemma Contains_char: "Contains s [c] \<longleftrightarrow> c \<in> set s"
  by (auto simp: Contains_iff in_set_conv_decomp)

text \<open>\<open>strings.SplitN(s, sep, 2)\<close> for a separator of one byte.\<close>

fun SplitN2 :: "string \<Rightarrow> char \<Rightarrow> string list" where
  "SplitN2 [] sep = [[]]"
| "SplitN2 (c # cs) sep =
     (if c = sep then [[], cs]
      else case SplitN2 cs sep of [] \<Rightarrow> [[c]] | a # rest \<Rightarrow> (c # a) # rest)"

lemma SplitN2_first: "sep \<notin> set p \<Longrightarrow> SplitN2 (p @ sep # q) sep = [p, q]"
  by (induction p) auto

lemma SplitN2_none: "sep \<notin> set s \<Longrightarrow> SplitN2 s sep = [s]"
  by (induction s) auto

lemma SplitN2_group: "SplitN2 (''group:'' @ g) CHR '':'' = [''group'', g]"
  using SplitN2_first [of "CHR '':''" "''group''" g] by simp

subsection \<open>Decimal numbers\<close>

definition digit :: "nat \<Rightarrow> char" where
  "digit d = char_of (48 + d)"

fun FormatUint :: "nat \<Rightarrow> string" where
  "FormatUint n = (if n < 10 then [digit n] else FormatUint (n div 10) @ [digit (n mod 10)])"

declare FormatUint.simps [simp del]

definition Itoa :: "int \<Rightarrow> string" where
  "Itoa i = (if i < 0 then CHR ''-'' # FormatUint (nat (- i)) else FormatUint (nat i))"

datatype num_error = ErrSyntax | ErrRange

definition max_uint64 :: nat where
  "max_uint64 = 18446744073709551615"

text \<open>The loop of \<open>strconv.ParseUint\<close> in base 10: the cut-off is \<open>maxUint64/10 + 1\<close>.\<close>

fun ParseUint_loop :: "nat \<Rightarrow> string \<Rightarrow> num_error + nat" where
  "ParseUint_loop n [] = Inr n"
| "ParseUint_loop n (c # cs) =
     (let b = of_char c in
      if b < 48 \<or> 57 < b then Inl ErrSyntax
      else if max_uint64 div 10 + 1 \<le> n then Inl ErrRange
      else if max_uint64 < n * 10 + (b - 48) then Inl ErrRange
      else ParseUint_loop (n * 10 + (b - 48)) cs)"

definition ParseUint :: "string \<Rightarrow> num_error + nat" where
  "ParseUint s = (if s = [] then Inl ErrSyntax else ParseUint_loop 0 s)"

definition Atoi :: "string \<Rightarrow> num_error + int" where
  "Atoi s =
     (let neg = HasPrefix s ''-'';
          t = (if HasPrefix s ''-'' \<or> HasPrefix s ''+'' then drop 1 s else s)
      in case ParseUint t of
           Inl e \<Rightarrow> Inl e
         | Inr u \<Rightarrow>
             if \<not> neg \<and> 9223372036854775808 \<le> u then Inl ErrRange
             else if neg \<and> 9223372036854775808 < u then Inl ErrRange
             else Inr (if neg then - int u else int u))"

lemma Atoi_range: "Atoi s = Inr n \<Longrightarrow> in_int64 n"
  by (auto simp: Atoi_def in_int64_def Let_def split: sum.splits if_splits)

lemma of_char_digit: "d < 10 \<Longrightarrow> of_char (digit d) = (48 + d :: nat)"
  by (simp add: digit_def)

lemma FormatUint_nonempty [simp]: "FormatUint n \<noteq> []"
  by (subst FormatUint.simps) simp

lemma FormatUint_digits: "c \<in> set (FormatUint n) \<Longrightarrow> 48 \<le> (of_char c :: nat) \<and> (of_char c :: nat) \<le> 57"
proof (induction n rule: FormatUint.induct)
  case (1 n)
  show ?case
  proof (cases "n < 10")
    case True
    with 1 show ?thesis by (simp add: FormatUint.simps of_char_digit)
  next
    case False
    with 1 show ?thesis by (auto simp: FormatUint.simps [of n] of_char_digit)
  qed
qed

lemma ParseUint_loop_append:
  "ParseUint_loop n (xs @ ys) =
     (case ParseUint_loop n xs of Inl e \<Rightarrow> Inl e | Inr m \<Rightarrow> ParseUint_loop m ys)"
  by (induction n xs rule: ParseUint_loop.induct) (auto simp: Let_def)

lemma ParseUint_loop_digit:
  assumes "d < 10" and "n * 10 + d \<le> max_uint64"
  shows "ParseUint_loop n [digit d] = Inr (n * 10 + d)"
proof -
  have "n < max_uint64 div 10 + 1"
    using assms by (auto simp: max_uint64_def)
  with assms show ?thesis by (simp add: of_char_digit Let_def)
qed

lemma ParseUint_loop_FormatUint: "n \<le> max_uint64 \<Longrightarrow> ParseUint_loop 0 (FormatUint n) = Inr n"
proof (induction n rule: FormatUint.induct)
  case (1 n)
  show ?case
  proof (cases "n < 10")
    case True
    with 1 show ?thesis
      using ParseUint_loop_digit [of n 0] by (simp add: FormatUint.simps)
  next
    case False
    then have "ParseUint_loop 0 (FormatUint (n div 10)) = Inr (n div 10)"
      using 1 by (simp add: max_uint64_def)
    moreover have "ParseUint_loop (n div 10) [digit (n mod 10)] = Inr n"
      using ParseUint_loop_digit [of "n mod 10" "n div 10"] 1 by simp
    ultimately show ?thesis
      using False by (simp add: FormatUint.simps [of n] ParseUint_loop_append)
  qed
qed

lemma FormatUint_no_sign:
  "\<not> HasPrefix (FormatUint n) ''-''" "\<not> HasPrefix (FormatUint n) ''+''"
proof -
  have hd: "48 \<le> (of_char (hd (FormatUint n)) :: nat)"
    using FormatUint_digits [of "hd (FormatUint n)" n] hd_in_set [of "FormatUint n"] by simp
  have "HasPrefix (FormatUint n) [c] \<Longrightarrow> hd (FormatUint n) = c" for c
    by (auto simp: HasPrefix_append)
  with hd show "\<not> HasPrefix (FormatUint n) ''-''" "\<not> HasPrefix (FormatUint n) ''+''"
    by fastforce+
qed

theorem Atoi_Itoa: "in_int64 i \<Longrightarrow> Atoi (Itoa i) = Inr i"
  by (cases "i < 0")
    (auto simp: Atoi_def Itoa_def in_int64_def ParseUint_def ParseUint_loop_FormatUint max_uint64_def
      FormatUint_no_sign HasPrefix_def [of "CHR ''-'' # FormatUint (nat (- i))"] Let_def)

subsection \<open>Hexadecimal\<close>

definition hex_digit :: "nat \<Rightarrow> char" where
  "hex_digit d = (if d < 10 then char_of (48 + d) else char_of (87 + d))"

definition hex :: "string \<Rightarrow> string" where
  "hex s = concat (map (\<lambda>c. [hex_digit (of_char c div 16), hex_digit (of_char c mod 16)]) s)"

end
