(* ===== verification/Go_Fmt.thy ===== *)
theory Go_Fmt
  imports Go_Strings
begin

text \<open>
  \<open>fmt.Sprintf\<close> of a format with no arguments, as \<open>doPrintf\<close> of the standard library computes it.
  The reconciler passes finished messages where a format string is expected
  (\<open>MarkCustomRunFailed(reason, detailedMsg)\<close>), so what reaches the condition of the run is
  this function of the message: text without a percent sign is kept, and each verb in it, for
  which there is no argument, becomes an error marker.
\<close>

subsection \<open>The pieces of a verb\<close>

definition is_flag :: "char \<Rightarrow> bool" where
  "is_flag c \<longleftrightarrow> c \<in> set ''#0+- ''"

definition is_digit :: "char \<Rightarrow> bool" where
  "is_digit c \<longleftrightarrow> 48 \<le> (of_char c :: nat) \<and> (of_char c :: nat) \<le> 57"

text \<open>\<open>parsenum\<close>: the number, whether there is one, and what is left; it gives up above a million.\<close>

fun parsenum :: "nat \<Rightarrow> bool \<Rightarrow> string \<Rightarrow> nat \<times> bool \<times> string" where
  "parsenum n b [] = (n, b, [])"
| "parsenum n b (c # cs) =
     (if is_digit c
      then (if 1000000 < n then (0, False, []) else parsenum (n * 10 + (of_char c - 48)) True cs)
      else (n, b, c # cs))"

text \<open>
  \<open>argNumber\<close> with no arguments: an index in brackets is never in range. The result is what is
  left of the format, whether the argument number is still good, and whether an index was found.
\<close>

definition argNumber :: "bool \<Rightarrow> string \<Rightarrow> string \<times> bool \<times> bool" where
  "argNumber good s =
     (case s of
        c # t \<Rightarrow>
          if c \<noteq> CHR ''['' then (s, good, False)
          else if length s < 3 \<or> CHR '']'' \<notin> set t then (t, False, False)
          else let inner = takeWhile (\<lambda>x. x \<noteq> CHR '']'') t;
                   (_, isnum, rest) = parsenum 0 False inner
               in (drop (Suc (length inner)) t, False, isnum \<and> rest = [])
      | [] \<Rightarrow> (s, good, False))"

definition width_part :: "string \<Rightarrow> bool \<Rightarrow> bool \<Rightarrow> string \<times> string \<times> bool \<times> bool" where
  "width_part s good after =
     (if HasPrefix s ''*'' then (''%!(BADWIDTH)'', tl s, good, False)
      else let (_, present, t) = parsenum 0 False s
           in ([], t, good \<and> \<not> (after \<and> present), after))"

definition precision_part :: "string \<Rightarrow> bool \<Rightarrow> bool \<Rightarrow> string \<times> string \<times> bool \<times> bool" where
  "precision_part s good after =
     (if HasPrefix s ''.''
      then let (t, good2, after2) = argNumber (good \<and> \<not> after) (tl s)
           in if HasPrefix t ''*'' then (''%!(BADPREC)'', tl t, good2, False)
              else let (_, _, u) = parsenum 0 False t in ([], u, good2, after2)
      else ([], s, good, after))"

text \<open>The verb itself; a byte that starts no rune is printed as the replacement character.\<close>

definition verb_part :: "bool \<Rightarrow> string \<Rightarrow> string \<times> string" where
  "verb_part good s =
     (let (r, n) = DecodeRune (bytes_of s);
          shown = (if r = RuneError \<and> n = 1 then [CHR 0xEF, CHR 0xBF, CHR 0xBD] else take n s)
      in if r = 37 then (''%'', drop n s)
         else if \<not> good then (''%!'' @ shown @ ''(BADINDEX)'', drop n s)
         else (''%!'' @ shown @ ''(MISSING)'', drop n s))"

definition verb :: "string \<Rightarrow> string \<times> string" where
  "verb cs =
     (let (s2, good2, after2) = argNumber True (dropWhile is_flag cs);
          (out3, s3, good3, after3) = width_part s2 good2 after2;
          (out4, s4, good4, after4) = precision_part s3 good3 after3;
          (s5, good5, _) = (if after4 then (s4, good4, after4) else argNumber good4 s4)
      in if s5 = [] then (out3 @ out4 @ ''%!(NOVERB)'', [])
         else let (out, rest) = verb_part good5 s5 in (out3 @ out4 @ out, rest))"

subsection \<open>The rest of the format is never longer\<close>

lemma length_parsenum: "length (snd (snd (parsenum n b s))) \<le> length s"
  by (induction n b s rule: parsenum.induct) auto

lemma length_argNumber: "length (fst (argNumber good s)) \<le> length s"
  by (auto simp: argNumber_def Let_def split: list.split prod.split)

lemma length_width_part: "length (fst (snd (width_part s good after))) \<le> length s"
  using length_parsenum [of 0 False s] by (auto simp: width_part_def split: prod.split)

lemma length_precision_part: "length (fst (snd (precision_part s good after))) \<le> length s"
proof -
  obtain t2 g2 a2 where a: "argNumber (good \<and> \<not> after) (tl s) = (t2, g2, a2)"
    by (metis prod.exhaust)
  have "length t2 \<le> length s"
    using length_argNumber [of "good \<and> \<not> after" "tl s"] a by simp
  then show ?thesis
    using length_parsenum [of 0 False t2] by (auto simp: precision_part_def a split: prod.split)
qed

lemma length_verb: "length (snd (verb cs)) \<le> length cs"
proof -
  obtain s2 g2 a2 where 2: "argNumber True (dropWhile is_flag cs) = (s2, g2, a2)"
    by (metis prod.exhaust)
  obtain o3 s3 g3 a3 where 3: "width_part s2 g2 a2 = (o3, s3, g3, a3)"
    by (metis prod.exhaust)
  obtain o4 s4 g4 a4 where 4: "precision_part s3 g3 a3 = (o4, s4, g4, a4)"
    by (metis prod.exhaust)
  obtain s5 g5 a5 where 5: "(if a4 then (s4, g4, a4) else argNumber g4 s4) = (s5, g5, a5)"
    by (metis prod.exhaust)
  have "length (dropWhile is_flag cs) \<le> length cs"
    by (rule length_dropWhile_le)
  moreover have "length s2 \<le> length (dropWhile is_flag cs)"
    using length_argNumber [of True "dropWhile is_flag cs"] 2 by simp
  moreover have "length s3 \<le> length s2"
    using length_width_part [of s2 g2 a2] 3 by simp
  moreover have "length s4 \<le> length s3"
    using length_precision_part [of s3 g3 a3] 4 by simp
  moreover have "length s5 \<le> length s4"
    using length_argNumber [of g4 s4] 5 by (simp split: if_splits)
  ultimately show ?thesis
    by (auto simp: verb_def 2 3 4 5 verb_part_def Let_def split: prod.split)
qed

subsection \<open>The format loop\<close>

function Sprintf0 :: "string \<Rightarrow> string" where
  "Sprintf0 [] = []"
| "Sprintf0 (c # cs) =
     (if c = CHR ''%'' then (let (out, rest) = verb cs in out @ Sprintf0 rest)
      else c # Sprintf0 cs)"
  by pat_completeness auto
termination
proof (relation "measure length", goal_cases)
  case (2 c cs p out rest)
  then show ?case using length_verb [of cs] by (metis in_measure le_imp_less_Suc length_Cons snd_conv)
qed auto

lemma Sprintf0_id: "CHR ''%'' \<notin> set s \<Longrightarrow> Sprintf0 s = s"
  by (induction s) auto

lemma Sprintf0_percent_d: "Sprintf0 ''a %d'' = ''a %!d(MISSING)''"
  by (simp add: verb_def argNumber_def width_part_def precision_part_def verb_part_def is_flag_def
      is_digit_def RuneError_def HasPrefix_def)

end
