(* ===== verification/Knative_Conditions.thy ===== *)
theory Knative_Conditions
  imports Go_Fmt
begin

text \<open>
  The status conditions of a resource and their manager: \<open>ConditionSet\<close> of
  \<open>knative.dev/pkg/apis/condition_set.go\<close> with the accessors of \<open>condition_types.go\<close>. The reading of
  the wall clock that \<open>SetCondition\<close> makes is an argument (\<open>now\<close>). Times are nanoseconds since
  Go's zero time, which is 0.
\<close>

type_synonym time = int

type_synonym duration = int

definition IsZero :: "time option \<Rightarrow> bool" where
  "IsZero t \<longleftrightarrow> t = None \<or> t = Some 0"

text \<open>\<open>Time.Sub\<close> saturates at the ends of the range of a duration.\<close>

definition TimeSub :: "time \<Rightarrow> time \<Rightarrow> duration" where
  "TimeSub t u = max min_int64 (min max_int64 (t - u))"

lemma TimeSub_range [simp]: "in_int64 (TimeSub t u)"
  by (auto simp: TimeSub_def in_int64_def)

subsection \<open>Conditions\<close>

abbreviation (input) "ConditionSucceeded \<equiv> ''Succeeded''"
abbreviation (input) "ConditionTrue \<equiv> ''True''"
abbreviation (input) "ConditionFalse \<equiv> ''False''"
abbreviation (input) "ConditionUnknown \<equiv> ''Unknown''"
abbreviation (input) "ConditionSeverityError \<equiv> ''''"
abbreviation (input) "ConditionSeverityInfo \<equiv> ''Info''"

record condition =
  cond_Type :: string
  cond_Status :: string
  cond_Severity :: string
  LastTransitionTime :: time
  cond_Reason :: string
  cond_Message :: string

definition new_condition :: "string \<Rightarrow> string \<Rightarrow> string \<Rightarrow> string \<Rightarrow> string \<Rightarrow> condition" where
  "new_condition t st sev rs msg =
     \<lparr>cond_Type = t, cond_Status = st, cond_Severity = sev, LastTransitionTime = 0,
      cond_Reason = rs, cond_Message = msg\<rparr>"

lemma new_condition_sel [simp]:
  "cond_Type (new_condition t st sev rs msg) = t"
  "cond_Status (new_condition t st sev rs msg) = st"
  "cond_Severity (new_condition t st sev rs msg) = sev"
  "LastTransitionTime (new_condition t st sev rs msg) = 0"
  "cond_Reason (new_condition t st sev rs msg) = rs"
  "cond_Message (new_condition t st sev rs msg) = msg"
  by (simp_all add: new_condition_def)

fun IsTrue :: "condition option \<Rightarrow> bool" where
  "IsTrue None = False"
| "IsTrue (Some c) = (cond_Status c = ConditionTrue)"

fun IsFalse :: "condition option \<Rightarrow> bool" where
  "IsFalse None = False"
| "IsFalse (Some c) = (cond_Status c = ConditionFalse)"

fun IsUnknown :: "condition option \<Rightarrow> bool" where
  "IsUnknown None = True"
| "IsUnknown (Some c) = (cond_Status c = ConditionUnknown)"

type_synonym conditions = "condition list"

subsection \<open>The condition set\<close>

record condition_set =
  happy :: string
  dependents :: "string list"

fun newConditionSet_loop :: "string \<Rightarrow> string list \<Rightarrow> string list \<Rightarrow> string list" where
  "newConditionSet_loop h deps [] = deps"
| "newConditionSet_loop h deps (d # ds) =
     newConditionSet_loop h (if d = h \<or> d \<in> set deps then deps else deps @ [d]) ds"

definition newConditionSet :: "string \<Rightarrow> string list \<Rightarrow> condition_set" where
  "newConditionSet h ds = \<lparr>happy = h, dependents = newConditionSet_loop h [] ds\<rparr>"

definition NewBatchConditionSet :: "string list \<Rightarrow> condition_set" where
  "NewBatchConditionSet ds = newConditionSet ConditionSucceeded ds"

fun GetCondition :: "string \<Rightarrow> conditions \<Rightarrow> condition option" where
  "GetCondition t [] = None"
| "GetCondition t (c # cs) = (if cond_Type c = t then Some c else GetCondition t cs)"

text \<open>
  \<open>SetCondition\<close>: the loop keeps the conditions of other types and returns early (\<open>None\<close>) when
  only the transition time would change. \<open>sort.Slice\<close> by type is a stable sort of so few entries.
\<close>

fun SetCondition_loop :: "condition \<Rightarrow> conditions \<Rightarrow> conditions \<Rightarrow> conditions option" where
  "SetCondition_loop cond acc [] = Some acc"
| "SetCondition_loop cond acc (c # cs) =
     (if cond_Type c \<noteq> cond_Type cond then SetCondition_loop cond (acc @ [c]) cs
      else let cond' = cond\<lparr>LastTransitionTime := LastTransitionTime c\<rparr>
           in if cond' = c then None else SetCondition_loop cond' acc cs)"

definition SetCondition :: "time \<Rightarrow> condition \<Rightarrow> conditions \<Rightarrow> conditions" where
  "SetCondition now cond conds =
     (case SetCondition_loop cond [] conds of
        None \<Rightarrow> conds
      | Some kept \<Rightarrow> sort_key cond_Type (kept @ [cond\<lparr>LastTransitionTime := now\<rparr>]))"

definition isTerminal :: "condition_set \<Rightarrow> string \<Rightarrow> bool" where
  "isTerminal r t \<longleftrightarrow> t \<in> set (dependents r) \<or> t = happy r"

definition severity :: "condition_set \<Rightarrow> string \<Rightarrow> string" where
  "severity r t = (if isTerminal r t then ConditionSeverityError else ConditionSeverityInfo)"

definition findUnhappyDependent :: "condition_set \<Rightarrow> conditions \<Rightarrow> condition option" where
  "findUnhappyDependent r conds =
     (if dependents r = [] then None
      else let cs = sort_key (\<lambda>c. - LastTransitionTime c)
                      (filter (\<lambda>c. cond_Severity c = ConditionSeverityError \<and> cond_Type c \<noteq> happy r) conds)
           in case find (\<lambda>c. IsFalse (Some c)) cs of
                Some c \<Rightarrow> Some c
              | None \<Rightarrow>
                  (case find (\<lambda>c. IsUnknown (Some c)) cs of
                     Some c \<Rightarrow> Some c
                   | None \<Rightarrow>
                       if length cs < length (dependents r)
                       then Some (new_condition '''' ConditionUnknown '''' '''' '''')
                       else None))"

definition recomputeHappiness :: "condition_set \<Rightarrow> time \<Rightarrow> string \<Rightarrow> conditions \<Rightarrow> conditions" where
  "recomputeHappiness r now t conds =
     (case findUnhappyDependent r conds of
        Some c \<Rightarrow> SetCondition now
          (new_condition (happy r) (cond_Status c) (severity r (happy r)) (cond_Reason c) (cond_Message c))
          conds
      | None \<Rightarrow>
          if t \<noteq> happy r
          then SetCondition now (new_condition (happy r) ConditionTrue (severity r (happy r)) '''' '''') conds
          else conds)"

definition MarkTrueWithReason ::
  "condition_set \<Rightarrow> time \<Rightarrow> string \<Rightarrow> string \<Rightarrow> string \<Rightarrow> conditions \<Rightarrow> conditions" where
  "MarkTrueWithReason r now t reason message conds =
     recomputeHappiness r now t
       (SetCondition now (new_condition t ConditionTrue (severity r t) reason message) conds)"

text \<open>\<open>MarkFalse\<close> marks \<open>t\<close>, and the happy condition once per dependent equal to \<open>t\<close>.\<close>

definition MarkFalse ::
  "condition_set \<Rightarrow> time \<Rightarrow> string \<Rightarrow> string \<Rightarrow> string \<Rightarrow> conditions \<Rightarrow> conditions" where
  "MarkFalse r now t reason message conds =
     fold (\<lambda>u. SetCondition now (new_condition u ConditionFalse (severity r u) reason message))
       (t # map (\<lambda>_. happy r) (filter (\<lambda>d. d = t) (dependents r))) conds"

definition initializeTerminalCondition :: "time \<Rightarrow> string \<Rightarrow> string \<Rightarrow> conditions \<Rightarrow> conditions" where
  "initializeTerminalCondition now status t conds =
     (case GetCondition t conds of
        Some _ \<Rightarrow> conds
      | None \<Rightarrow> SetCondition now (new_condition t status ConditionSeverityError '''' '''') conds)"

definition InitializeConditionSet :: "condition_set \<Rightarrow> time \<Rightarrow> conditions \<Rightarrow> conditions" where
  "InitializeConditionSet r now conds =
     (let init = new_condition (happy r) ConditionUnknown ConditionSeverityError '''' '''';
          (h, conds1) = (case GetCondition (happy r) conds of
                           Some h \<Rightarrow> (h, conds)
                         | None \<Rightarrow> (init, SetCondition now init conds));
          status = (if cond_Status h = ConditionTrue then ConditionTrue else ConditionUnknown)
      in fold (initializeTerminalCondition now status) (dependents r) conds1)"

subsection \<open>What the manager does to a condition\<close>

lemma GetCondition_append:
  "GetCondition t (xs @ ys) = (case GetCondition t xs of None \<Rightarrow> GetCondition t ys | Some c \<Rightarrow> Some c)"
  by (induction xs) auto

lemma GetCondition_type: "GetCondition t cs = Some c \<Longrightarrow> cond_Type c = t \<and> c \<in> set cs"
  by (induction cs) (auto split: if_splits)

lemma GetCondition_None_iff: "GetCondition t cs = None \<longleftrightarrow> (\<forall>c \<in> set cs. cond_Type c \<noteq> t)"
  by (induction cs) auto

lemma GetCondition_filter: "GetCondition t cs = GetCondition t (filter (\<lambda>c. cond_Type c = t) cs)"
  by (induction cs) auto

lemma filter_insort_key_same:
  "filter (\<lambda>x. f x = k) (insort_key f a xs) =
     (if f a = k then a # filter (\<lambda>x. f x = k) xs else filter (\<lambda>x. f x = k) xs)"
  if "sorted (map f xs)"
  using that by (induction xs) auto

lemma GetCondition_sort: "GetCondition t (sort_key cond_Type cs) = GetCondition t cs"
  by (metis (mono_tags, lifting) GetCondition_filter filter_cong sort_key_stable)

lemma SetCondition_loop_Some:
  "SetCondition_loop cond acc cs = Some kept \<Longrightarrow>
     kept = acc @ filter (\<lambda>c. cond_Type c \<noteq> cond_Type cond) cs"
  by (induction cond acc cs rule: SetCondition_loop.induct) (auto simp: Let_def split: if_splits)

lemma SetCondition_loop_None:
  "SetCondition_loop cond acc cs = None \<Longrightarrow> \<exists>c \<in> set cs. \<exists>t. c = cond\<lparr>LastTransitionTime := t\<rparr>"
  by (induction cond acc cs rule: SetCondition_loop.induct) (fastforce simp: Let_def split: if_splits)+

lemma GetCondition_filter_other:
  "t \<noteq> u \<Longrightarrow> GetCondition t (filter (\<lambda>c. cond_Type c \<noteq> u) cs) = GetCondition t cs"
  by (induction cs) auto

lemma GetCondition_filter_same: "GetCondition t (filter (\<lambda>c. cond_Type c \<noteq> t) cs) = None"
  by (induction cs) auto

lemma SetCondition_other: "t \<noteq> cond_Type cond \<Longrightarrow> GetCondition t (SetCondition now cond cs) = GetCondition t cs"
  by (auto simp: SetCondition_def GetCondition_sort GetCondition_append GetCondition_filter_other
      dest!: SetCondition_loop_Some split: option.split)

text \<open>
  A well-formed list of conditions holds one condition of a type. On such a list, after
  \<open>SetCondition\<close> the condition of its type is the new one, up to the transition time.
\<close>

definition conditions_ok :: "conditions \<Rightarrow> bool" where
  "conditions_ok cs \<longleftrightarrow> distinct (map cond_Type cs)"

lemma GetCondition_in: "conditions_ok cs \<Longrightarrow> c \<in> set cs \<Longrightarrow> GetCondition (cond_Type c) cs = Some c"
  by (induction cs) (auto simp: conditions_ok_def)

lemma SetCondition_same:
  assumes "conditions_ok cs"
  shows "\<exists>t. GetCondition (cond_Type cond) (SetCondition now cond cs) = Some (cond\<lparr>LastTransitionTime := t\<rparr>)"
proof (cases "SetCondition_loop cond [] cs")
  case None
  then obtain c t where "c \<in> set cs" "c = cond\<lparr>LastTransitionTime := t\<rparr>"
    using SetCondition_loop_None by blast
  with assms GetCondition_in [of cs c] None show ?thesis
    by (auto simp: SetCondition_def)
next
  case (Some kept)
  then have "GetCondition (cond_Type cond) kept = None"
    using SetCondition_loop_Some [OF Some] by (simp add: GetCondition_filter_same)
  with Some show ?thesis
    by (auto simp: SetCondition_def GetCondition_sort GetCondition_append)
qed

lemma SetCondition_ok: "conditions_ok cs \<Longrightarrow> conditions_ok (SetCondition now cond cs)"
proof (cases "SetCondition_loop cond [] cs")
  case (Some kept)
  assume "conditions_ok cs"
  then have "distinct (map cond_Type (kept @ [cond\<lparr>LastTransitionTime := now\<rparr>]))"
    using SetCondition_loop_Some [OF Some] by (auto simp: conditions_ok_def distinct_map_filter)
  then have "distinct (map cond_Type (sort_key cond_Type (kept @ [cond\<lparr>LastTransitionTime := now\<rparr>])))"
    by (simp only: distinct_map distinct_sort set_sort)
  with Some show ?thesis by (simp add: SetCondition_def conditions_ok_def)
qed (simp add: SetCondition_def)

end
