(* ===== verification/Go_Json.thy ===== *)
theory Go_Json
  imports Go_Strings
begin

text \<open>
  What the program uses of \<open>encoding/json\<close> for output: the escaping of strings with HTML escaping
  on (the default of \<open>json.Marshal\<close>), objects with their fields in order, arrays, and the value
  that \<open>json.Unmarshal\<close> into an \<open>interface{}\<close> gives. A float64 is carried as the text
  \<open>json.Marshal\<close> prints for it; an object as its key-sorted association list, since a Go map is
  printed with its keys sorted.
\<close>

datatype json =
    JNull
  | JBool bool
  | JNumber string
  | JString string
  | JArray "json list"
  | JObject "(string \<times> json) list"

fun Join :: "string list \<Rightarrow> string \<Rightarrow> string" where
  "Join [] sep = []"
| "Join [x] sep = x"
| "Join (x # y # ys) sep = x @ sep @ Join (y # ys) sep"

definition json_escape :: "nat \<times> string \<Rightarrow> string" where
  "json_escape = (\<lambda>(r, bs).
     if r < 128 then
       (if r = 34 then [CHR 0x5C, CHR 0x22]
        else if r = 92 then [CHR 0x5C, CHR 0x5C]
        else if r = 8 then [CHR 0x5C, CHR ''b'']
        else if r = 12 then [CHR 0x5C, CHR ''f'']
        else if r = 10 then [CHR 0x5C, CHR ''n'']
        else if r = 13 then [CHR 0x5C, CHR ''r'']
        else if r = 9 then [CHR 0x5C, CHR ''t'']
        else if r < 32 \<or> r = 60 \<or> r = 62 \<or> r = 38
          then CHR 0x5C # ''u00'' @ [hex_digit (r div 16), hex_digit (r mod 16)]
        else bs)
     else if r = RuneError \<and> length bs = 1 then CHR 0x5C # ''ufffd''
     else if r = 8232 \<or> r = 8233 then CHR 0x5C # ''u202'' @ [hex_digit (r mod 16)]
     else bs)"

definition marshal_string :: "string \<Rightarrow> string" where
  "marshal_string s = CHR 0x22 # concat (map json_escape (runes s)) @ [CHR 0x22]"

definition marshal_object :: "(string \<times> string) list \<Rightarrow> string" where
  "marshal_object fs =
     ''{'' @ Join (map (\<lambda>(k, v). marshal_string k @ '':'' @ v) fs) '','' @ ''}''"

definition marshal_array :: "string list \<Rightarrow> string" where
  "marshal_array vs = ''['' @ Join vs '','' @ '']''"

text \<open>A field tagged \<open>omitempty\<close> is left out when its string is empty.\<close>

definition omitempty :: "string \<Rightarrow> string \<Rightarrow> (string \<times> string) list" where
  "omitempty k s = (if s = [] then [] else [(k, marshal_string s)])"

fun marshal_json :: "json \<Rightarrow> string" where
  "marshal_json JNull = ''null''"
| "marshal_json (JBool b) = (if b then ''true'' else ''false'')"
| "marshal_json (JNumber t) = t"
| "marshal_json (JString s) = marshal_string s"
| "marshal_json (JArray vs) = marshal_array (map marshal_json vs)"
| "marshal_json (JObject kvs) = marshal_object (map (\<lambda>kv. (fst kv, marshal_json (snd kv))) kvs)"

lemma marshal_string_plain:
  assumes "\<forall>c \<in> set s. of_char c < (128::nat) \<and> 32 \<le> (of_char c :: nat)
             \<and> of_char c \<noteq> (34::nat) \<and> of_char c \<noteq> (92::nat) \<and> of_char c \<noteq> (60::nat)
             \<and> of_char c \<noteq> (62::nat) \<and> of_char c \<noteq> (38::nat)"
  shows "marshal_string s = CHR 0x22 # s @ [CHR 0x22]"
proof -
  have "\<forall>c \<in> set s. json_escape (of_char c, [c]) = [c]"
    using assms by (auto simp: json_escape_def)
  then have "concat (map (\<lambda>c. json_escape (of_char c, [c])) s) = s"
    by (induction s) auto
  moreover have "runes s = map (\<lambda>c. (of_char c, [c])) s"
    using assms by (intro runes_ascii) blast
  ultimately show ?thesis
    by (simp add: marshal_string_def comp_def)
qed

end
