(* ===== verification/Api_Types.thy ===== *)
theory Api_Types
  imports Knative_Conditions Go_Json
begin

text \<open>
  The API objects of \<open>pkg/apis/approvaltask/v1alpha1\<close> (\<open>approvaltask_types.go\<close>, \<open>register.go\<close>,
  \<open>approvaltask_validation.go\<close>) with the part of Kubernetes' object metadata the program reads or
  writes. Fields keep their Go names behind a prefix, since several structs have a \<open>Name\<close>.
\<close>

subsection \<open>Metadata\<close>

record owner_reference =
  or_APIVersion :: string
  or_Kind :: string
  or_Name :: string
  or_UID :: string
  or_BlockOwnerDeletion :: bool
  or_Controller :: bool

text \<open>A nil \<open>Labels\<close> or \<open>Annotations\<close> map is \<open>None\<close>: the code tells it from an empty one.\<close>

record object_meta =
  om_Name :: string
  om_Namespace :: string
  om_UID :: string
  om_Labels :: "str_map option"
  om_Annotations :: "str_map option"
  om_CreationTimestamp :: time
  om_OwnerReferences :: "owner_reference list"

definition empty_meta :: object_meta where
  "empty_meta = \<lparr>om_Name = [], om_Namespace = [], om_UID = [], om_Labels = None,
     om_Annotations = None, om_CreationTimestamp = 0, om_OwnerReferences = []\<rparr>"

text \<open>Reading a key of a possibly nil map of strings: a missing key is the empty string.\<close>

definition map_index :: "str_map option \<Rightarrow> string \<Rightarrow> string" where
  "map_index m k = (case m of None \<Rightarrow> [] | Some f \<Rightarrow> (case fmlookup f k of None \<Rightarrow> [] | Some v \<Rightarrow> v))"

lemma map_index_simps [simp]:
  "map_index None k = []"
  "map_index (Some f) k = (case fmlookup f k of None \<Rightarrow> [] | Some v \<Rightarrow> v)"
  by (simp_all add: map_index_def)

text \<open>A loop that copies every entry of one map into another, or into a fresh one.\<close>

definition copy_entries :: "str_map option \<Rightarrow> str_map \<Rightarrow> str_map" where
  "copy_entries src dst = (case src of None \<Rightarrow> dst | Some f \<Rightarrow> fmadd dst f)"

subsection \<open>Group and version\<close>

abbreviation (input) "GroupName \<equiv> ''openshift-pipelines.org''"
abbreviation (input) "ControllerName \<equiv> ''ApprovalTask''"

record group_version =
  gv_Group :: string
  gv_Version :: string

definition SchemeGroupVersion :: group_version where
  "SchemeGroupVersion = \<lparr>gv_Group = GroupName, gv_Version = ''v1alpha1''\<rparr>"

definition GroupVersion_String :: "group_version \<Rightarrow> string" where
  "GroupVersion_String gv =
     (if gv_Group gv \<noteq> [] then gv_Group gv @ ''/'' @ gv_Version gv else gv_Version gv)"

subsection \<open>Spec\<close>

record user_details =
  ud_Name :: string
  ud_Input :: string
  ud_Message :: string

record approver_details =
  ad_Name :: string
  ad_Input :: string
  ad_Message :: string
  ad_Type :: string
  ad_Users :: "user_details list"

record approval_task_spec =
  sp_Approvers :: "approver_details list"
  sp_NumberOfApprovalsRequired :: int
  sp_Description :: string

definition empty_spec :: approval_task_spec where
  "empty_spec = \<lparr>sp_Approvers = [], sp_NumberOfApprovalsRequired = 0, sp_Description = []\<rparr>"

subsection \<open>Status\<close>

record group_member_state =
  gm_Name :: string
  gm_Response :: string
  gm_Message :: string

record approver_state =
  as_Name :: string
  as_Response :: string
  as_Message :: string
  as_Type :: string
  as_GroupMembers :: "group_member_state list"

record approval_task_status =
  st_State :: string
  st_Approvers :: "string list"
  st_ApproversResponse :: "approver_state list"
  st_StartTime :: "time option"
  st_ApprovalsRequired :: int
  st_ApprovalsReceived :: int

definition empty_status :: approval_task_status where
  "empty_status = \<lparr>st_State = [], st_Approvers = [], st_ApproversResponse = [], st_StartTime = None,
     st_ApprovalsRequired = 0, st_ApprovalsReceived = 0\<rparr>"

record approval_task =
  at_Meta :: object_meta
  at_Spec :: approval_task_spec
  at_Status :: approval_task_status

definition empty_task :: approval_task where
  "empty_task = \<lparr>at_Meta = empty_meta, at_Spec = empty_spec, at_Status = empty_status\<rparr>"

record approval_task_list =
  atl_Items :: "approval_task list"

record approval_task_run_status =
  rs_ApprovalTaskSpec :: "approval_task_spec option"

text \<open>
  The type of an approver, with the default of tasks stored by version 0.6.0. Like every reader of
  the type in the program, the predicates \<open>is_user\<close> and \<open>is_group\<close> go through the default.
\<close>

definition DefaultedApproverType :: "string \<Rightarrow> string" where
  "DefaultedApproverType t = (if t = [] then ''User'' else t)"

definition is_user :: "approver_details \<Rightarrow> bool" where
  "is_user a \<longleftrightarrow> DefaultedApproverType (ad_Type a) = ''User''"

definition is_group :: "approver_details \<Rightarrow> bool" where
  "is_group a \<longleftrightarrow> DefaultedApproverType (ad_Type a) = ''Group''"

lemma DefaultedApproverType_idem [simp]:
  "DefaultedApproverType (DefaultedApproverType t) = DefaultedApproverType t"
  by (simp add: DefaultedApproverType_def)

lemma DefaultedApproverType_consts [simp]:
  "DefaultedApproverType [] = ''User''"
  "DefaultedApproverType ''User'' = ''User''"
  "DefaultedApproverType ''Group'' = ''Group''"
  by (simp_all add: DefaultedApproverType_def)

lemma is_user_not_group: "is_user a \<Longrightarrow> \<not> is_group a"
  by (simp add: is_user_def is_group_def)

lemma is_group_not_user: "is_group a \<Longrightarrow> \<not> is_user a"
  by (simp add: is_user_def is_group_def)

subsection \<open>Reasons of the run's condition\<close>

datatype approval_task_run_reason =
    ReasonStarted | ReasonRunning | ReasonFailed | ReasonSucceeded | ReasonCouldntCancel
  | ReasonCouldntGetApprovalTask | ReasonFailedValidation | ReasonInternalError

fun reason_String :: "approval_task_run_reason \<Rightarrow> string" where
  "reason_String ReasonStarted = ''Started''"
| "reason_String ReasonRunning = ''Running''"
| "reason_String ReasonFailed = ''Failed''"
| "reason_String ReasonSucceeded = ''Succeeded''"
| "reason_String ReasonCouldntCancel = ''ApprovalTaskRunCouldntCancel''"
| "reason_String ReasonCouldntGetApprovalTask = ''CouldntGetApprovalTask''"
| "reason_String ReasonFailedValidation = ''ApprovalTaskValidationFailed''"
| "reason_String ReasonInternalError = ''ApprovalTaskInternalError''"

subsection \<open>Methods of a task\<close>

definition HasStarted :: "approval_task \<Rightarrow> bool" where
  "HasStarted task \<longleftrightarrow> st_StartTime (at_Status task) \<noteq> None"

text \<open>\<open>c.Since(t)\<close> is the difference between the clock's reading and \<open>t\<close>.\<close>

definition ApprovalTaskHasTimedOut :: "approval_task \<Rightarrow> time \<Rightarrow> duration \<Rightarrow> bool" where
  "ApprovalTaskHasTimedOut task clock timeout =
     (case st_StartTime (at_Status task) of
        None \<Rightarrow> False
      | Some t \<Rightarrow> if t = 0 then False else timeout < TimeSub clock t)"

subsection \<open>The JSON of a spec\<close>

definition marshal_user_details :: "user_details \<Rightarrow> string" where
  "marshal_user_details u = marshal_object
     ([(''name'', marshal_string (ud_Name u)), (''input'', marshal_string (ud_Input u))]
      @ omitempty ''message'' (ud_Message u))"

definition marshal_approver_details :: "approver_details \<Rightarrow> string" where
  "marshal_approver_details a = marshal_object
     ([(''name'', marshal_string (ad_Name a)), (''input'', marshal_string (ad_Input a))]
      @ omitempty ''message'' (ad_Message a)
      @ [(''type'', marshal_string (ad_Type a))]
      @ (if ad_Users a = [] then [] else [(''users'', marshal_array (map marshal_user_details (ad_Users a)))]))"

text \<open>A slice that was never appended to is nil, and prints as \<open>null\<close>.\<close>

definition marshal_approvers :: "approver_details list \<Rightarrow> string" where
  "marshal_approvers xs =
     (if xs = [] then ''null'' else marshal_array (map marshal_approver_details xs))"

definition marshal_spec :: "approval_task_spec \<Rightarrow> string" where
  "marshal_spec s = marshal_object
     ([(''approvers'', marshal_approvers (sp_Approvers s)),
       (''numberOfApprovalsRequired'', Itoa (sp_NumberOfApprovalsRequired s))]
      @ omitempty ''description'' (sp_Description s))"

definition marshal_run_status :: "approval_task_run_status \<Rightarrow> string" where
  "marshal_run_status rs =
     (case rs_ApprovalTaskSpec rs of
        None \<Rightarrow> marshal_object []
      | Some s \<Rightarrow> marshal_object [(''taskLoopSpec'', marshal_spec s)])"

end
