(* ===== verification/Custom_Run.thy ===== *)
theory Custom_Run
  imports Api_Types
begin

text \<open>
  The \<open>CustomRun\<close> of Tekton that an ApprovalTask belongs to: the fields of
  \<open>customrun_types.go\<close> and \<open>customrunstatus_types.go\<close> the program uses, the status operations of
  the latter, and the emission of Kubernetes events for a change of condition
  (\<open>k8sevent/event.go\<close>).
\<close>

subsection \<open>Data\<close>

record param_value =
  pv_StringVal :: string
  pv_ArrayVal :: "string list"
  pv_ObjectVal :: "(string \<times> string) list"

record param =
  p_Name :: string
  p_Value :: param_value

record task_ref =
  tr_APIVersion :: string
  tr_Kind :: string

record embedded_spec =
  es_APIVersion :: string
  es_Kind :: string
  es_Raw :: string

record custom_run_status =
  crs_Conditions :: conditions
  crs_StartTime :: "time option"
  crs_CompletionTime :: "time option"
  crs_ExtraFields :: string

record custom_run =
  cr_Meta :: object_meta
  cr_CustomRef :: "task_ref option"
  cr_CustomSpec :: "embedded_spec option"
  cr_Params :: "param list"
  cr_Timeout :: "duration option"
  cr_Status :: custom_run_status

definition StringParam :: "string \<Rightarrow> string \<Rightarrow> param" where
  "StringParam n v = \<lparr>p_Name = n, p_Value = \<lparr>pv_StringVal = v, pv_ArrayVal = [], pv_ObjectVal = []\<rparr>\<rparr>"

definition ArrayParam :: "string \<Rightarrow> string list \<Rightarrow> param" where
  "ArrayParam n vs = \<lparr>p_Name = n, p_Value = \<lparr>pv_StringVal = [], pv_ArrayVal = vs, pv_ObjectVal = []\<rparr>\<rparr>"

subsection \<open>Status\<close>

definition customRunCondSet :: condition_set where
  "customRunCondSet = NewBatchConditionSet []"

definition run_condition :: "custom_run \<Rightarrow> condition option" where
  "run_condition run = GetCondition ConditionSucceeded (crs_Conditions (cr_Status run))"

definition IsDone :: "custom_run \<Rightarrow> bool" where
  "IsDone run \<longleftrightarrow> \<not> IsUnknown (run_condition run)"

definition IsSuccessful :: "custom_run \<Rightarrow> bool" where
  "IsSuccessful run \<longleftrightarrow> IsTrue (run_condition run)"

definition IsFailure :: "custom_run \<Rightarrow> bool" where
  "IsFailure run \<longleftrightarrow> IsFalse (run_condition run)"

definition run_HasStarted :: "custom_run \<Rightarrow> bool" where
  "run_HasStarted run \<longleftrightarrow> \<not> IsZero (crs_StartTime (cr_Status run))"

definition InitializeConditions :: "time \<Rightarrow> custom_run_status \<Rightarrow> custom_run_status" where
  "InitializeConditions now st =
     (let started = IsZero (crs_StartTime st);
          conds = InitializeConditionSet customRunCondSet now (crs_Conditions st);
          conds' = (if started
                    then case GetCondition ConditionSucceeded conds of
                           Some c \<Rightarrow> SetCondition now (c\<lparr>cond_Reason := ''Started''\<rparr>) conds
                         | None \<Rightarrow> conds
                    else conds)
      in st\<lparr>crs_StartTime := (if started then Some now else crs_StartTime st),
            crs_Conditions := conds'\<rparr>)"

definition MarkCustomRunSucceeded ::
  "time \<Rightarrow> string \<Rightarrow> string \<Rightarrow> custom_run_status \<Rightarrow> custom_run_status" where
  "MarkCustomRunSucceeded now reason message st =
     (let conds = MarkTrueWithReason customRunCondSet now ConditionSucceeded reason message (crs_Conditions st)
      in st\<lparr>crs_Conditions := conds,
            crs_CompletionTime := map_option LastTransitionTime (GetCondition ConditionSucceeded conds)\<rparr>)"

definition MarkCustomRunFailed ::
  "time \<Rightarrow> string \<Rightarrow> string \<Rightarrow> custom_run_status \<Rightarrow> custom_run_status" where
  "MarkCustomRunFailed now reason message st =
     (let conds = MarkFalse customRunCondSet now ConditionSucceeded reason message (crs_Conditions st)
      in st\<lparr>crs_Conditions := conds,
            crs_CompletionTime := map_option LastTransitionTime (GetCondition ConditionSucceeded conds)\<rparr>)"

text \<open>\<open>json.Unmarshal\<close> into the run status struct is the argument \<open>unmarshal\<close>.\<close>

definition DecodeExtraFields ::
  "(string \<Rightarrow> approval_task_run_status \<Rightarrow> approval_task_run_status \<times> error) \<Rightarrow> custom_run_status
     \<Rightarrow> approval_task_run_status \<Rightarrow> approval_task_run_status \<times> error" where
  "DecodeExtraFields unmarshal st into =
     (if crs_ExtraFields st = [] then (into, nil) else unmarshal (crs_ExtraFields st) into)"

definition EncodeExtraFields :: "approval_task_run_status \<Rightarrow> custom_run_status \<Rightarrow> custom_run_status" where
  "EncodeExtraFields rs st = st\<lparr>crs_ExtraFields := marshal_run_status rs\<rparr>"

subsection \<open>Events\<close>

record event =
  ev_Type :: string
  ev_Reason :: string
  ev_Message :: string

text \<open>Semantic equality of two conditions does not look at the transition time.\<close>

fun cond_semantic_eq :: "condition option \<Rightarrow> condition option \<Rightarrow> bool" where
  "cond_semantic_eq None None = True"
| "cond_semantic_eq (Some a) (Some b) = (a\<lparr>LastTransitionTime := 0\<rparr> = b\<lparr>LastTransitionTime := 0\<rparr>)"
| "cond_semantic_eq _ _ = False"

definition Emit :: "condition option \<Rightarrow> condition option \<Rightarrow> event list \<Rightarrow> event list" where
  "Emit before after evs =
     (case after of
        None \<Rightarrow> evs
      | Some c \<Rightarrow>
          if cond_semantic_eq before after then evs
          else if cond_Status c = ConditionTrue
            then evs @ [\<lparr>ev_Type = ''Normal'', ev_Reason = ''Succeeded'', ev_Message = cond_Message c\<rparr>]
          else if cond_Status c = ConditionFalse
            then evs @ [\<lparr>ev_Type = ''Warning'', ev_Reason = ''Failed'', ev_Message = cond_Message c\<rparr>]
          else if cond_Status c = ConditionUnknown
            then (if before = None
                  then evs @ [\<lparr>ev_Type = ''Normal'', ev_Reason = ''Started'', ev_Message = []\<rparr>]
                  else evs @ [\<lparr>ev_Type = ''Normal'', ev_Reason = cond_Reason c, ev_Message = cond_Message c\<rparr>])
          else evs)"

subsection \<open>Marking a run\<close>

text \<open>The run's conditions are well formed when they hold one condition of each type.\<close>

definition run_conditions_ok :: "custom_run \<Rightarrow> bool" where
  "run_conditions_ok run \<longleftrightarrow> conditions_ok (crs_Conditions (cr_Status run))"

lemma customRunCondSet_simps [simp]:
  "happy customRunCondSet = ConditionSucceeded"
  "dependents customRunCondSet = []"
  "severity customRunCondSet ConditionSucceeded = ConditionSeverityError"
  by (simp_all add: customRunCondSet_def NewBatchConditionSet_def newConditionSet_def severity_def
      isTerminal_def)

lemma recompute_customRun [simp]:
  "recomputeHappiness customRunCondSet now ConditionSucceeded conds = conds"
  by (simp add: recomputeHappiness_def findUnhappyDependent_def)

lemma MarkTrue_customRun:
  "MarkTrueWithReason customRunCondSet now ConditionSucceeded reason message conds =
     SetCondition now (new_condition ConditionSucceeded ConditionTrue '''' reason message) conds"
  by (simp add: MarkTrueWithReason_def)

lemma MarkFalse_customRun:
  "MarkFalse customRunCondSet now ConditionSucceeded reason message conds =
     SetCondition now (new_condition ConditionSucceeded ConditionFalse '''' reason message) conds"
  by (simp add: MarkFalse_def)

lemma SetCondition_Succeeded:
  assumes "conditions_ok conds"
  obtains t where "GetCondition ConditionSucceeded
      (SetCondition now (new_condition ConditionSucceeded st sev reason message) conds) =
      Some ((new_condition ConditionSucceeded st sev reason message)\<lparr>LastTransitionTime := t\<rparr>)"
  using SetCondition_same [OF assms, of "new_condition ConditionSucceeded st sev reason message" now]
  by auto

text \<open>What is observable of a mark: the run is done, with this status, reason and message.\<close>

definition run_marked :: "custom_run \<Rightarrow> string \<Rightarrow> string \<Rightarrow> string \<Rightarrow> bool" where
  "run_marked run status reason message \<longleftrightarrow>
     (case run_condition run of
        None \<Rightarrow> False
      | Some c \<Rightarrow> cond_Status c = status \<and> cond_Reason c = reason \<and> cond_Message c = message)"

lemma MarkCustomRunSucceeded_marked:
  assumes "run_conditions_ok run"
  shows "run_marked (run\<lparr>cr_Status := MarkCustomRunSucceeded now reason message (cr_Status run)\<rparr>)
           ConditionTrue reason message"
proof -
  obtain t where "GetCondition ConditionSucceeded (SetCondition now
      (new_condition ConditionSucceeded ConditionTrue '''' reason message) (crs_Conditions (cr_Status run))) =
      Some ((new_condition ConditionSucceeded ConditionTrue '''' reason message)\<lparr>LastTransitionTime := t\<rparr>)"
    using SetCondition_Succeeded assms unfolding run_conditions_ok_def by blast
  then show ?thesis
    by (simp add: run_marked_def run_condition_def MarkCustomRunSucceeded_def MarkTrue_customRun Let_def)
qed

lemma MarkCustomRunFailed_marked:
  assumes "run_conditions_ok run"
  shows "run_marked (run\<lparr>cr_Status := MarkCustomRunFailed now reason message (cr_Status run)\<rparr>)
           ConditionFalse reason message"
proof -
  obtain t where "GetCondition ConditionSucceeded (SetCondition now
      (new_condition ConditionSucceeded ConditionFalse '''' reason message) (crs_Conditions (cr_Status run))) =
      Some ((new_condition ConditionSucceeded ConditionFalse '''' reason message)\<lparr>LastTransitionTime := t\<rparr>)"
    using SetCondition_Succeeded assms unfolding run_conditions_ok_def by blast
  then show ?thesis
    by (simp add: run_marked_def run_condition_def MarkCustomRunFailed_def MarkFalse_customRun Let_def)
qed

lemma run_marked_done:
  "run_marked run ConditionTrue reason message \<Longrightarrow> IsDone run \<and> IsSuccessful run"
  "run_marked run ConditionFalse reason message \<Longrightarrow> IsDone run \<and> IsFailure run"
  by (auto simp: run_marked_def IsDone_def IsSuccessful_def IsFailure_def split: option.splits)

lemma Mark_conditions_ok:
  assumes "conditions_ok (crs_Conditions st)"
  shows "conditions_ok (crs_Conditions (MarkCustomRunSucceeded now reason message st))"
    and "conditions_ok (crs_Conditions (MarkCustomRunFailed now reason message st))"
  using assms by (simp_all add: MarkCustomRunSucceeded_def MarkCustomRunFailed_def MarkTrue_customRun
      MarkFalse_customRun Let_def SetCondition_ok)

lemma Mark_start_time [simp]:
  "crs_StartTime (MarkCustomRunSucceeded now reason message st) = crs_StartTime st"
  "crs_StartTime (MarkCustomRunFailed now reason message st) = crs_StartTime st"
  by (simp_all add: MarkCustomRunSucceeded_def MarkCustomRunFailed_def Let_def)

lemma InitializeConditions_ok:
  "conditions_ok (crs_Conditions st) \<Longrightarrow> conditions_ok (crs_Conditions (InitializeConditions now st))"
  by (auto simp: InitializeConditions_def InitializeConditionSet_def Let_def
      intro!: SetCondition_ok split: option.split)

end
