(* ===== verification/Param_Validation.thy ===== *)
theory Param_Validation
  imports Custom_Run
begin

text \<open>
  Validation of the parameters of a CustomRun before anything is created
  (\<open>pkg/reconciler/approvaltask/utils.go\<close>, \<open>validateApproverParameter\<close> to
  \<open>checkCustomRunReferencesApprovalTask\<close>). Error texts are the code's. \<open>json.Unmarshal\<close> of a string
  parameter into an \<open>interface{}\<close> is the argument \<open>unmarshal\<close>.
\<close>

abbreviation (input) "allApprovers \<equiv> ''approvers''"
abbreviation (input) "approvalsRequired \<equiv> ''numberOfApprovalsRequired''"
abbreviation (input) "description \<equiv> ''description''"
abbreviation (input) "timeoutParam \<equiv> ''timeout''"

abbreviation (input) quoted :: "string \<Rightarrow> string" where
  "quoted s \<equiv> [CHR 0x27] @ s @ [CHR 0x27]"

definition at_index :: "nat \<Rightarrow> string \<Rightarrow> string" where
  "at_index i msg = ''approvers['' @ Itoa (int i) @ '']: '' @ msg"

subsection \<open>One approver\<close>

definition validateGroupSyntax :: "string \<Rightarrow> nat \<Rightarrow> error" where
  "validateGroupSyntax paramValue i =
     (let parts = SplitN2 paramValue CHR '':'' in
      if length parts \<noteq> 2 \<or> TrimSpace (parts ! 1) = []
      then Some (at_index i (''invalid group format '' @ quoted paramValue
                  @ '' - group name cannot be empty after '' @ quoted ''group:''))
      else let groupName = parts ! 1 in
        if TrimSpace groupName = [] then Some (at_index i ''group name cannot be empty'')
        else if Contains groupName '':''
          then Some (at_index i (''group name '' @ quoted groupName @ '' cannot contain colons''))
        else if Contains groupName '' ''
          then Some (at_index i (''group name '' @ quoted groupName @ '' cannot contain spaces''))
        else nil)"

definition validateUserSyntax :: "string \<Rightarrow> nat \<Rightarrow> error" where
  "validateUserSyntax paramValue i =
     (if TrimSpace paramValue = [] then Some (at_index i ''username cannot be empty'') else nil)"

definition validateApproverParameter :: "string \<Rightarrow> nat \<Rightarrow> error" where
  "validateApproverParameter paramValue i =
     (if TrimSpace paramValue = [] then Some (at_index i ''approver name cannot be empty'')
      else if Contains paramValue '' :'' \<or> Contains paramValue '': ''
        then Some (at_index i (''invalid group format '' @ quoted paramValue
               @ '' - use 'group:groupname' format (remove spaces around colon)''))
      else if HasPrefix paramValue ''group:'' then validateGroupSyntax paramValue i
      else validateUserSyntax paramValue i)"

subsection \<open>The approvers parameter\<close>

text \<open>
  The list of approvers and the errors so far. Strings of an array come first, then the object (as
  a map to \<open>interface{}\<close>), and the string value is parsed as JSON only when there is neither.
\<close>

definition parseApproversList ::
  "(string \<Rightarrow> string + json) \<Rightarrow> param_value \<Rightarrow> string list \<Rightarrow> json list \<times> string list" where
  "parseApproversList unmarshal v errs =
     (let l1 = map JString (pv_ArrayVal v);
          l2 = (if pv_ObjectVal v \<noteq> []
                then l1 @ [JObject (map (\<lambda>(k, x). (k, JString x)) (pv_ObjectVal v))] else l1)
      in if pv_StringVal v \<noteq> [] \<and> l2 = []
         then (case unmarshal (pv_StringVal v) of
                 Inl e \<Rightarrow> (l2, errs @ [''failed to parse JSON '' @ quoted (pv_StringVal v) @ '' - '' @ e])
               | Inr (JArray arr) \<Rightarrow> (arr, errs)
               | Inr _ \<Rightarrow> (l2, errs @ [''expected an array of approvers'']))
         else (l2, errs))"

definition validateMalformedObjectApprover :: "(string \<times> json) list \<Rightarrow> nat \<Rightarrow> string" where
  "validateMalformedObjectApprover approver i =
     (case map_of approver ''group'' of
        Some (JString g) \<Rightarrow>
          at_index i (''invalid group format '' @ ''{'' @ [CHR 0x22] @ ''group'' @ [CHR 0x22] @ '':'' @ [CHR 0x22]
            @ g @ [CHR 0x22] @ ''}'' @ '' - use '' @ quoted (''group:'' @ g) @ '' format instead'')
      | Some _ \<Rightarrow> at_index i ''invalid group specification''
      | None \<Rightarrow> at_index i (''invalid object format '' @ marshal_json (JObject approver)
            @ '' - approver must be a string, not an object''))"

fun validateApprovers_loop :: "nat \<Rightarrow> json list \<Rightarrow> nat \<times> string list \<Rightarrow> nat \<times> string list" where
  "validateApprovers_loop i [] acc = acc"
| "validateApprovers_loop i (approver # rest) (count, errs) =
     validateApprovers_loop (Suc i) rest
       (case approver of
          JString val \<Rightarrow>
            (case validateApproverParameter val i of
               Some e \<Rightarrow> (count, errs @ [e])
             | None \<Rightarrow> (Suc count, errs))
        | JObject kvs \<Rightarrow> (count, errs @ [validateMalformedObjectApprover kvs i])
        | _ \<Rightarrow> (count, errs @ [at_index i ''invalid approver format - must be a string'']))"

definition validateApproversParam :: "(string \<Rightarrow> string + json) \<Rightarrow> param \<Rightarrow> nat \<times> string list" where
  "validateApproversParam unmarshal p =
     (let (approverList, errs) = parseApproversList unmarshal (p_Value p) []
      in validateApprovers_loop 0 approverList (0, errs))"

definition validateApprovalsRequired :: "string \<Rightarrow> error" where
  "validateApprovalsRequired v =
     (case Atoi v of
        Inl _ \<Rightarrow> Some (''invalid numberOfApprovalsRequired parameter: '' @ quoted v @ '' is not a valid integer'')
      | Inr n \<Rightarrow>
          if n \<le> 0
          then Some (''invalid numberOfApprovalsRequired parameter: must be greater than 0, got '' @ Itoa n)
          else nil)"

subsection \<open>All parameters\<close>

fun ValidateParams_loop ::
  "(string \<Rightarrow> string + json) \<Rightarrow> param list \<Rightarrow> bool \<times> nat \<times> string list
     \<Rightarrow> string + bool \<times> nat \<times> string list" where
  "ValidateParams_loop unmarshal [] acc = Inr acc"
| "ValidateParams_loop unmarshal (p # ps) (hasApprovers, count, errs) =
     (if p_Name p = allApprovers
      then (let (count', errs') = validateApproversParam unmarshal p
            in ValidateParams_loop unmarshal ps (True, count', errs @ errs'))
      else if p_Name p = approvalsRequired
      then (case validateApprovalsRequired (pv_StringVal (p_Value p)) of
              Some e \<Rightarrow> Inl e
            | None \<Rightarrow> ValidateParams_loop unmarshal ps (hasApprovers, count, errs))
      else ValidateParams_loop unmarshal ps (hasApprovers, count, errs))"

definition ValidateCustomRunParameters :: "(string \<Rightarrow> string + json) \<Rightarrow> custom_run \<Rightarrow> error" where
  "ValidateCustomRunParameters unmarshal run =
     (case ValidateParams_loop unmarshal (cr_Params run) (False, 0, []) of
        Inl e \<Rightarrow> Some e
      | Inr (hasApprovers, count, errs) \<Rightarrow>
          if errs \<noteq> [] then Some (''invalid approvers parameter: '' @ hd errs)
          else if \<not> hasApprovers
            then Some ''no valid approvers found - at least one approver is required''
          else if count = 0
            then Some ''no valid approvers found - at least one approver is required''
          else nil)"

definition checkCustomRunReferencesApprovalTask :: "custom_run \<Rightarrow> error" where
  "checkCustomRunReferencesApprovalTask run =
     (let (apiVersion, kind) =
            (case cr_CustomRef run of
               Some r \<Rightarrow> (tr_APIVersion r, tr_Kind r)
             | None \<Rightarrow>
                 (case cr_CustomSpec run of
                    Some s \<Rightarrow> (es_APIVersion s, es_Kind s)
                  | None \<Rightarrow> ([], [])))
      in if apiVersion \<noteq> GroupVersion_String SchemeGroupVersion \<or> kind \<noteq> ControllerName
         then Some (''Received control for a Run '' @ om_Namespace (cr_Meta run) @ ''/'' @ om_Name (cr_Meta run)
                @ '' that does not reference a ApprovalTask custom CRD'')
         else nil)"

subsection \<open>What a valid approver is\<close>

text \<open>A declarative reading of the checks on one approver string.\<close>

definition group_name_ok :: "string \<Rightarrow> bool" where
  "group_name_ok g \<longleftrightarrow> \<not> blank g \<and> CHR '':'' \<notin> set g \<and> CHR '' '' \<notin> set g"

definition approver_param_ok :: "string \<Rightarrow> bool" where
  "approver_param_ok v \<longleftrightarrow>
     \<not> blank v \<and> \<not> Contains v '' :'' \<and> \<not> Contains v '': '' \<and> (\<forall>g. v = ''group:'' @ g \<longrightarrow> group_name_ok g)"

lemma validateGroupSyntax_ok: "validateGroupSyntax (''group:'' @ g) i = None \<longleftrightarrow> group_name_ok g"
  unfolding validateGroupSyntax_def SplitN2_group
  by (auto simp: TrimSpace_empty_iff Contains_char group_name_ok_def Let_def)

lemma validateApproverParameter_ok: "validateApproverParameter v i = None \<longleftrightarrow> approver_param_ok v"
proof (cases "HasPrefix v ''group:''")
  case True
  then obtain g where v: "v = ''group:'' @ g"
    by (auto simp: HasPrefix_append)
  show ?thesis
    using validateGroupSyntax_ok [of g i] True
    unfolding v validateApproverParameter_def approver_param_ok_def TrimSpace_empty_iff
    by (simp del: append.simps)
next
  case False
  then have "\<nexists>g. v = ''group:'' @ g"
    by (auto simp: HasPrefix_append)
  with False show ?thesis
    by (simp add: validateApproverParameter_def approver_param_ok_def validateUserSyntax_def
        TrimSpace_empty_iff)
qed

subsection \<open>What accepted parameters look like\<close>

lemma validateApprovers_loop_errs:
  "\<exists>more. snd (validateApprovers_loop i xs (n, errs)) = errs @ more"
proof (induction xs arbitrary: i n errs)
  case (Cons x xs)
  obtain n' more where
    "validateApprovers_loop i (x # xs) (n, errs) = validateApprovers_loop (Suc i) xs (n', errs @ more)"
  proof (cases x)
    case (JString v)
    show ?thesis
    proof (cases "validateApproverParameter v i")
      case None
      with JString show ?thesis using that [of "Suc n" "[]"] by simp
    next
      case (Some e)
      with JString show ?thesis using that [of n "[e]"] by simp
    qed
  qed (auto intro: that)
  with Cons.IH [of "Suc i" n' "errs @ more"] show ?case by auto
qed simp

lemma validateApprovers_loop_no_errs:
  assumes "validateApprovers_loop i xs (n, []) = (m, [])"
  shows "m = n + length xs \<and> (\<forall>x \<in> set xs. \<exists>v. x = JString v \<and> approver_param_ok v)"
  using assms
proof (induction xs arbitrary: i n)
  case (Cons x xs)
  have no_err: "validateApprovers_loop (Suc i) xs (n, [e]) \<noteq> (m, [])" for e
    using validateApprovers_loop_errs [of "Suc i" xs n "[e]"] by auto
  have "\<exists>v. x = JString v \<and> approver_param_ok v"
    using Cons.prems no_err
    by (cases x) (auto dest: validateApproverParameter_ok [THEN iffD1] split: option.splits)
  then obtain v where v: "x = JString v" "approver_param_ok v" by blast
  then have "validateApproverParameter v i = None"
    by (simp only: validateApproverParameter_ok)
  with Cons.prems v(1) have "validateApprovers_loop (Suc i) xs (Suc n, []) = (m, [])"
    by simp
  from Cons.IH [OF this] v show ?case by simp
qed simp

definition array_only :: "param \<Rightarrow> bool" where
  "array_only p \<longleftrightarrow> pv_StringVal (p_Value p) = []"

lemma validateApproversParam_array:
  assumes "array_only p" and "validateApproversParam unmarshal p = (n, [])"
  shows "pv_ObjectVal (p_Value p) = []" and "n = length (pv_ArrayVal (p_Value p))"
    and "\<forall>v \<in> set (pv_ArrayVal (p_Value p)). approver_param_ok v"
proof -
  let ?xs = "map JString (pv_ArrayVal (p_Value p)) @
    (if pv_ObjectVal (p_Value p) \<noteq> []
     then [JObject (map (\<lambda>(k, x). (k, JString x)) (pv_ObjectVal (p_Value p)))] else [])"
  have loop: "validateApprovers_loop 0 ?xs (0, []) = (n, [])"
    using assms by (auto simp: validateApproversParam_def parseApproversList_def array_only_def Let_def
        split: if_splits)
  note all = validateApprovers_loop_no_errs [OF this]
  from all show obj: "pv_ObjectVal (p_Value p) = []"
    by (cases "pv_ObjectVal (p_Value p) = []") auto
  with all show "n = length (pv_ArrayVal (p_Value p))" by simp
  from all show "\<forall>v \<in> set (pv_ArrayVal (p_Value p)). approver_param_ok v" by auto
qed

definition required_ok :: "param \<Rightarrow> bool" where
  "required_ok p \<longleftrightarrow> (\<exists>n. Atoi (pv_StringVal (p_Value p)) = Inr n \<and> 0 < n)"

lemma validateApprovalsRequired_ok: "validateApprovalsRequired (pv_StringVal (p_Value p)) = None \<longleftrightarrow> required_ok p"
  by (auto simp: validateApprovalsRequired_def required_ok_def split: sum.split)

lemma ValidateParams_loop_errs:
  "ValidateParams_loop unmarshal ps (h, n, errs) = Inr (h', n', errs') \<Longrightarrow> \<exists>more. errs' = errs @ more"
proof (induction ps arbitrary: h n errs)
  case (Cons p ps)
  then show ?case
    by (fastforce simp: Let_def split: if_splits option.splits prod.splits)
qed simp

lemma ValidateParams_loop_ok:
  assumes "ValidateParams_loop unmarshal ps (h, n, []) = Inr (h', n', [])"
    and "\<forall>p \<in> set ps. p_Name p = allApprovers \<longrightarrow> array_only p"
  shows "(\<forall>p \<in> set ps. p_Name p = allApprovers \<longrightarrow>
            pv_ObjectVal (p_Value p) = [] \<and> (\<forall>v \<in> set (pv_ArrayVal (p_Value p)). approver_param_ok v))
       \<and> (\<forall>p \<in> set ps. p_Name p = approvalsRequired \<longrightarrow> required_ok p)
       \<and> (n' = n \<or> (\<exists>p \<in> set ps. p_Name p = allApprovers \<and> n' = length (pv_ArrayVal (p_Value p))))
       \<and> (h' \<longrightarrow> h \<or> (\<exists>p \<in> set ps. p_Name p = allApprovers))"
  using assms
proof (induction ps arbitrary: h n)
  case (Cons p ps)
  consider (approvers) "p_Name p = allApprovers" | (required) "p_Name p = approvalsRequired"
    | (other) "p_Name p \<noteq> allApprovers" "p_Name p \<noteq> approvalsRequired" by blast
  then show ?case
  proof cases
    case approvers
    obtain c es where v: "validateApproversParam unmarshal p = (c, es)" by force
    with Cons.prems approvers have loop: "ValidateParams_loop unmarshal ps (True, c, es) = Inr (h', n', [])"
      by simp
    with ValidateParams_loop_errs have "es = []" by blast
    with v loop Cons.prems approvers validateApproversParam_array [of p unmarshal c] Cons.IH [of True c]
    show ?thesis by auto
  next
    case required
    with Cons.prems Cons.IH [of h n] show ?thesis
      by (auto simp: validateApprovalsRequired_ok [symmetric] split: option.splits)
  next
    case other
    with Cons.prems Cons.IH [of h n] show ?thesis by auto
  qed
qed simp

text \<open>Everything later components need to know of a run whose parameters were accepted.\<close>

lemma ValidateCustomRunParameters_ok:
  assumes "ValidateCustomRunParameters unmarshal run = None"
    and "\<forall>p \<in> set (cr_Params run). p_Name p = allApprovers \<longrightarrow> array_only p"
  shows "\<forall>p \<in> set (cr_Params run). p_Name p = allApprovers \<longrightarrow>
           (\<forall>v \<in> set (pv_ArrayVal (p_Value p)). approver_param_ok v)"
    and "\<forall>p \<in> set (cr_Params run). p_Name p = approvalsRequired \<longrightarrow> required_ok p"
    and "\<exists>p \<in> set (cr_Params run). p_Name p = allApprovers \<and> pv_ArrayVal (p_Value p) \<noteq> []"
proof -
  obtain h n where loop: "ValidateParams_loop unmarshal (cr_Params run) (False, 0, []) = Inr (h, n, [])"
    and n: "0 < n"
    using assms(1) by (auto simp: ValidateCustomRunParameters_def split: sum.splits if_splits)
  note all = ValidateParams_loop_ok [OF loop assms(2)]
  show "\<forall>p \<in> set (cr_Params run). p_Name p = allApprovers \<longrightarrow>
           (\<forall>v \<in> set (pv_ArrayVal (p_Value p)). approver_param_ok v)"
    using all by blast
  show "\<forall>p \<in> set (cr_Params run). p_Name p = approvalsRequired \<longrightarrow> required_ok p"
    using all by blast
  show "\<exists>p \<in> set (cr_Params run). p_Name p = allApprovers \<and> pv_ArrayVal (p_Value p) \<noteq> []"
    using all n by force
qed

end
