(* ===== verification/Go_Errors.thy ===== *)
theory Go_Errors
  imports Knative_Conditions
begin

text \<open>
  Errors that are more than a text: the status errors of the Kubernetes API
  (\<open>k8s.io/apimachinery/pkg/api/errors\<close>), the errors that tell the work queue what to do with a
  key (\<open>knative.dev/pkg/controller/controller.go\<close>), wrapping, and \<open>go-multierror\<close>. \<open>errors.As\<close> and
  \<open>errors.Is\<close> walk an error's chain, which is the list \<open>err_chain\<close>.
\<close>

subsection \<open>Status errors\<close>

text \<open>The fields of \<open>metav1.Status\<close> that tell errors apart; the message is text for a log.\<close>

record status_error =
  se_Code :: int
  se_Reason :: string
  se_Kind :: string
  se_Name :: string

definition NewNotFound :: "string \<Rightarrow> string \<Rightarrow> status_error" where
  "NewNotFound resource name =
     \<lparr>se_Code = 404, se_Reason = ''NotFound'', se_Kind = resource, se_Name = name\<rparr>"

definition NewAlreadyExists :: "string \<Rightarrow> string \<Rightarrow> status_error" where
  "NewAlreadyExists resource name =
     \<lparr>se_Code = 409, se_Reason = ''AlreadyExists'', se_Kind = resource, se_Name = name\<rparr>"

definition NewBadRequest :: status_error where
  "NewBadRequest = \<lparr>se_Code = 400, se_Reason = ''BadRequest'', se_Kind = [], se_Name = []\<rparr>"

definition NewConflict :: "string \<Rightarrow> string \<Rightarrow> status_error" where
  "NewConflict resource name =
     \<lparr>se_Code = 409, se_Reason = ''Conflict'', se_Kind = resource, se_Name = name\<rparr>"

definition knownReasons :: "string list" where
  "knownReasons =
     [''Unauthorized'', ''Forbidden'', ''NotFound'', ''AlreadyExists'', ''Conflict'', ''Gone'',
      ''Invalid'', ''ServerTimeout'', ''StorageReadError'', ''Timeout'', ''TooManyRequests'',
      ''BadRequest'', ''MethodNotAllowed'', ''NotAcceptable'', ''RequestEntityTooLarge'',
      ''UnsupportedMediaType'', ''InternalError'', ''Expired'', ''ServiceUnavailable'']"

subsection \<open>Errors and their chains\<close>

datatype go_error =
    PlainErr string
  | NumErr string num_error
  | StatusErr status_error
  | RequeueErr duration
  | SkipKeyErr string
  | PermanentErr go_error
  | WrapErr string go_error
  | TextErr string go_error
  | MultiErr "go_error list"

text \<open>
  \<open>NumErr\<close> is the \<open>*NumError\<close> of \<open>strconv\<close>: the text that did not parse and why. \<open>WrapErr\<close> is an error
  made with \<open>%w\<close>, \<open>TextErr\<close> one made with \<open>%v\<close>, which shows the text of an error but does not wrap it.
  An error followed by what it wraps, depth first: \<open>Unwrap\<close> of a multierror goes through its
  errors in order, and \<open>As\<close> of its chain descends into each of them.
\<close>

fun err_chain :: "go_error \<Rightarrow> go_error list" where
  "err_chain (PermanentErr e) = PermanentErr e # err_chain e"
| "err_chain (WrapErr s e) = WrapErr s e # err_chain e"
| "err_chain (MultiErr es) = MultiErr es # concat (map err_chain es)"
| "err_chain e = [e]"

fun as_status :: "go_error \<Rightarrow> status_error option" where
  "as_status (StatusErr s) = Some s"
| "as_status _ = None"

fun as_requeue :: "go_error \<Rightarrow> duration option" where
  "as_requeue (RequeueErr d) = Some d"
| "as_requeue _ = None"

fun is_skip :: "go_error \<Rightarrow> bool" where
  "is_skip (SkipKeyErr k) = True"
| "is_skip _ = False"

fun is_permanent :: "go_error \<Rightarrow> bool" where
  "is_permanent (PermanentErr e) = True"
| "is_permanent _ = False"

fun first_some :: "('a \<Rightarrow> 'b option) \<Rightarrow> 'a list \<Rightarrow> 'b option" where
  "first_some f [] = None"
| "first_some f (x # xs) = (case f x of Some y \<Rightarrow> Some y | None \<Rightarrow> first_some f xs)"

definition reasonAndCodeForError :: "go_error \<Rightarrow> string \<times> int" where
  "reasonAndCodeForError e =
     (case first_some as_status (err_chain e) of
        Some s \<Rightarrow> (se_Reason s, se_Code s)
      | None \<Rightarrow> ([], 0))"

definition IsNotFound :: "go_error \<Rightarrow> bool" where
  "IsNotFound e \<longleftrightarrow>
     (let (reason, code) = reasonAndCodeForError e
      in reason = ''NotFound'' \<or> reason \<notin> set knownReasons \<and> code = 404)"

definition IsConflict :: "go_error \<Rightarrow> bool" where
  "IsConflict e \<longleftrightarrow>
     (let (reason, code) = reasonAndCodeForError e
      in reason = ''Conflict'' \<or> reason \<notin> set knownReasons \<and> code = 409)"

definition IsSkipKey :: "go_error \<Rightarrow> bool" where
  "IsSkipKey e \<longleftrightarrow> list_ex is_skip (err_chain e)"

definition IsPermanentError :: "go_error \<Rightarrow> bool" where
  "IsPermanentError e \<longleftrightarrow> list_ex is_permanent (err_chain e)"

definition NewRequeueAfter :: "duration \<Rightarrow> go_error" where
  "NewRequeueAfter d = RequeueErr d"

definition IsRequeueKey :: "go_error \<Rightarrow> bool \<times> duration" where
  "IsRequeueKey e =
     (case first_some as_requeue (err_chain e) of
        Some d \<Rightarrow> (True, d)
      | None \<Rightarrow> (False, 0))"

subsection \<open>multierror\<close>

fun flatten_error :: "go_error option \<Rightarrow> go_error list" where
  "flatten_error None = []"
| "flatten_error (Some (MultiErr es)) = es"
| "flatten_error (Some e) = [e]"

definition multierror_Append :: "go_error option \<Rightarrow> go_error option list \<Rightarrow> go_error" where
  "multierror_Append err errs = MultiErr (concat (map flatten_error (err # errs)))"

subsection \<open>What the work queue does with a key\<close>

datatype queue_action = Forget | AddAfter duration | AddRateLimited

definition handleErr :: "bool \<Rightarrow> go_error \<Rightarrow> queue_action" where
  "handleErr shutting_down err =
     (if IsSkipKey err \<or> shutting_down then Forget
      else let (ok, delay) = IsRequeueKey err
           in if ok then AddAfter delay
              else if IsConflict err then AddRateLimited
              else if \<not> IsPermanentError err then AddRateLimited
              else Forget)"

definition processNextWorkItem :: "bool \<Rightarrow> go_error option \<Rightarrow> queue_action" where
  "processNextWorkItem shutting_down err =
     (case err of Some e \<Rightarrow> handleErr shutting_down e | None \<Rightarrow> Forget)"

subsection \<open>Lemmas\<close>

lemma IsNotFound_NewNotFound [simp]: "IsNotFound (StatusErr (NewNotFound r n))"
  by (simp add: IsNotFound_def reasonAndCodeForError_def NewNotFound_def)

lemma IsNotFound_other [simp]:
  "\<not> IsNotFound (StatusErr (NewAlreadyExists r n))" "\<not> IsNotFound (StatusErr NewBadRequest)"
  "\<not> IsNotFound (StatusErr (NewConflict r n))"
  by (simp_all add: IsNotFound_def reasonAndCodeForError_def NewAlreadyExists_def NewBadRequest_def
      NewConflict_def knownReasons_def)

lemma handleErr_requeue [simp]:
  "handleErr False (MultiErr [RequeueErr d]) = AddAfter d"
  "handleErr False (RequeueErr d) = AddAfter d"
  by (simp_all add: handleErr_def IsSkipKey_def IsRequeueKey_def)

lemma multierror_Append_one [simp]:
  "multierror_Append None [Some (RequeueErr d)] = MultiErr [RequeueErr d]"
  "multierror_Append None [Some (StatusErr s)] = MultiErr [StatusErr s]"
  "multierror_Append None [Some (PlainErr t)] = MultiErr [PlainErr t]"
  by (simp_all add: multierror_Append_def)

text \<open>An error of the API, however wrapped, makes the queue try the key again.\<close>

lemma handleErr_status [simp]:
  "handleErr False (MultiErr [StatusErr s]) = AddRateLimited"
  "handleErr False (MultiErr [PlainErr t]) = AddRateLimited"
  by (simp_all add: handleErr_def IsSkipKey_def IsRequeueKey_def IsPermanentError_def)

end
