(* ===== verification/At_Client.thy ===== *)
theory At_Client
  imports Api_Types Go_Errors
begin

text \<open>
  The client the program reads and writes ApprovalTasks with. The API server is not part of the
  program: \<open>at_client\<close> is the record of its operations on a state \<open>'s\<close> that the model never looks
  into, so a read may find a state that other clients have changed. The generated typed client
  (\<open>k8s.io/client-go/gentype\<close>) hands back an empty object beside an error, which \<open>typed_result\<close>
  writes out.

  The locale \<open>task_store\<close> is the contract the reconciler's end-to-end properties rest on: what
  a read returns after a write when nobody interferes. It is discharged on the object tracker of
  \<open>k8s.io/client-go/testing/fixture.go\<close>, the store behind the generated fake client set.
\<close>

text \<open>
  An error of a call is a status that the server answered with, or the text of one that occurred
  before any answer: a request that is not well formed, a connection that failed.
\<close>

datatype api_error = Answered status_error | Unanswered string

fun api_go :: "api_error \<Rightarrow> go_error" where
  "api_go (Answered e) = StatusErr e"
| "api_go (Unanswered msg) = PlainErr msg"

record 's at_client =
  cl_Get :: "string \<Rightarrow> string \<Rightarrow> 's \<Rightarrow> (api_error + approval_task) \<times> 's"
  cl_Create :: "string \<Rightarrow> approval_task \<Rightarrow> 's \<Rightarrow> (api_error + approval_task) \<times> 's"
  cl_Update :: "string \<Rightarrow> approval_task \<Rightarrow> 's \<Rightarrow> (api_error + approval_task) \<times> 's"
  cl_UpdateStatus :: "string \<Rightarrow> approval_task \<Rightarrow> 's \<Rightarrow> (api_error + approval_task) \<times> 's"

definition typed_result :: "api_error + approval_task \<Rightarrow> approval_task \<times> go_error option" where
  "typed_result r = (case r of Inl e \<Rightarrow> (empty_task, Some (api_go e)) | Inr t \<Rightarrow> (t, None))"

definition ApprovalTasks_Get :: "'s at_client \<Rightarrow> string \<Rightarrow> string \<Rightarrow> 's \<Rightarrow> (approval_task \<times> go_error option) \<times> 's" where
  "ApprovalTasks_Get cl ns name s = (let (r, s') = cl_Get cl ns name s in (typed_result r, s'))"

definition ApprovalTasks_Create :: "'s at_client \<Rightarrow> string \<Rightarrow> approval_task \<Rightarrow> 's \<Rightarrow> (approval_task \<times> go_error option) \<times> 's" where
  "ApprovalTasks_Create cl ns task s = (let (r, s') = cl_Create cl ns task s in (typed_result r, s'))"

definition ApprovalTasks_Update :: "'s at_client \<Rightarrow> string \<Rightarrow> approval_task \<Rightarrow> 's \<Rightarrow> (approval_task \<times> go_error option) \<times> 's" where
  "ApprovalTasks_Update cl ns task s = (let (r, s') = cl_Update cl ns task s in (typed_result r, s'))"

definition ApprovalTasks_UpdateStatus :: "'s at_client \<Rightarrow> string \<Rightarrow> approval_task \<Rightarrow> 's \<Rightarrow> (approval_task \<times> go_error option) \<times> 's" where
  "ApprovalTasks_UpdateStatus cl ns task s = (let (r, s') = cl_UpdateStatus cl ns task s in (typed_result r, s'))"

lemma typed_result_simps [simp]:
  "typed_result (Inl e) = (empty_task, Some (api_go e))"
  "typed_result (Inr t) = (t, None)"
  by (simp_all add: typed_result_def)

abbreviation at_name :: "approval_task \<Rightarrow> string" where
  "at_name t \<equiv> om_Name (at_Meta t)"

abbreviation at_namespace :: "approval_task \<Rightarrow> string" where
  "at_namespace t \<equiv> om_Namespace (at_Meta t)"

subsection \<open>The contract of a store\<close>

text \<open>
  \<open>lookup s ns n\<close> is the stored task. A created object keeps the fields the client sent (the
  server may set others, such as the creation timestamp: \<open>stamp\<close>); a status write of an object that is
  otherwise the stored one changes the status alone.
\<close>

definition same_sent :: "approval_task \<Rightarrow> approval_task \<Rightarrow> bool" where
  "same_sent t u \<longleftrightarrow>
     at_Spec t = at_Spec u \<and> at_name t = at_name u \<and> at_namespace t = at_namespace u
     \<and> om_Labels (at_Meta t) = om_Labels (at_Meta u)
     \<and> om_Annotations (at_Meta t) = om_Annotations (at_Meta u)
     \<and> om_OwnerReferences (at_Meta t) = om_OwnerReferences (at_Meta u)"

locale task_store =
  fixes cl :: "'s at_client"
    and lookup :: "'s \<Rightarrow> string \<Rightarrow> string \<Rightarrow> approval_task option"
    and stamp :: "'s \<Rightarrow> time \<Rightarrow> time"
  assumes get_hit: "lookup s ns n = Some t \<Longrightarrow> cl_Get cl ns n s = (Inr t, s)"
    and get_miss: "lookup s ns n = None \<Longrightarrow> \<exists>e. cl_Get cl ns n s = (Inl e, s) \<and> IsNotFound (api_go e)"
    and create_fresh: "lookup s ns (at_name t) = None \<Longrightarrow> at_namespace t = ns \<Longrightarrow>
      \<exists>t' s'. cl_Create cl ns t s = (Inr t', s') \<and> same_sent t' t
        \<and> om_CreationTimestamp (at_Meta t') = stamp s (om_CreationTimestamp (at_Meta t))
        \<and> (\<forall>ns' n'. lookup s' ns' n' =
              (if ns' = ns \<and> n' = at_name t then Some t' else lookup s ns' n'))"
    and create_taken: "lookup s ns (at_name t) \<noteq> None \<Longrightarrow> at_namespace t = ns \<Longrightarrow>
      \<exists>e. cl_Create cl ns t s = (Inl e, s) \<and> \<not> IsNotFound (api_go e)"
    and status_hit: "lookup s ns (at_name t) = Some old \<Longrightarrow> at_namespace t = ns \<Longrightarrow>
      at_Meta t = at_Meta old \<Longrightarrow> at_Spec t = at_Spec old \<Longrightarrow>
      \<exists>s'. cl_UpdateStatus cl ns t s = (Inr t, s')
        \<and> (\<forall>ns' n'. lookup s' ns' n' =
              (if ns' = ns \<and> n' = at_name t then Some t else lookup s ns' n'))"
    and status_miss: "lookup s ns (at_name t) = None \<Longrightarrow> at_namespace t = ns \<Longrightarrow>
      \<exists>e. cl_UpdateStatus cl ns t s = (Inl e, s)"
begin

lemma Get_hit: "lookup s ns n = Some t \<Longrightarrow> ApprovalTasks_Get cl ns n s = ((t, None), s)"
  by (simp add: ApprovalTasks_Get_def get_hit)

lemma Get_miss:
  assumes "lookup s ns n = None"
  obtains e where "ApprovalTasks_Get cl ns n s = ((empty_task, Some (api_go e)), s)" "IsNotFound (api_go e)"
  using get_miss [OF assms] by (auto simp: ApprovalTasks_Get_def)

lemma Create_fresh:
  assumes "lookup s ns (at_name t) = None" and "at_namespace t = ns"
  obtains t' s' where "ApprovalTasks_Create cl ns t s = ((t', None), s')" "same_sent t' t"
    "om_CreationTimestamp (at_Meta t') = stamp s (om_CreationTimestamp (at_Meta t))"
    "\<And>ns' n'. lookup s' ns' n' = (if ns' = ns \<and> n' = at_name t then Some t' else lookup s ns' n')"
  using create_fresh [OF assms] by (auto simp: ApprovalTasks_Create_def)

lemma UpdateStatus_hit:
  assumes "lookup s ns (at_name t) = Some old" and "at_namespace t = ns"
    and "at_Meta t = at_Meta old" and "at_Spec t = at_Spec old"
  obtains s' where "ApprovalTasks_UpdateStatus cl ns t s = ((t, None), s')"
    "\<And>ns' n'. lookup s' ns' n' = (if ns' = ns \<and> n' = at_name t then Some t else lookup s ns' n')"
  using status_hit [OF assms] by (auto simp: ApprovalTasks_UpdateStatus_def)

end

text \<open>
  A store whose objects clients edit: an update of an object that is otherwise the stored one changes
  the spec alone (the main resource leaves the status to the subresource).
\<close>

locale task_editor = task_store +
  assumes update_hit: "lookup s ns (at_name t) = Some old \<Longrightarrow> at_namespace t = ns \<Longrightarrow>
      at_Meta t = at_Meta old \<Longrightarrow> at_Status t = at_Status old \<Longrightarrow>
      \<exists>s'. cl_Update cl ns t s = (Inr t, s')
        \<and> (\<forall>ns' n'. lookup s' ns' n' =
              (if ns' = ns \<and> n' = at_name t then Some t else lookup s ns' n'))"
begin

lemma Update_hit:
  assumes "lookup s ns (at_name t) = Some old" and "at_namespace t = ns"
    and "at_Meta t = at_Meta old" and "at_Status t = at_Status old"
  obtains s' where "ApprovalTasks_Update cl ns t s = ((t, None), s')"
    "\<And>ns' n'. lookup s' ns' n' = (if ns' = ns \<and> n' = at_name t then Some t else lookup s ns' n')"
  using update_hit [OF assms] by (auto simp: ApprovalTasks_Update_def)

end

subsection \<open>The object tracker\<close>

type_synonym tracker = "(string \<times> string, approval_task) fmap"

definition tracker_Get :: "string \<Rightarrow> string \<Rightarrow> tracker \<Rightarrow> api_error + approval_task" where
  "tracker_Get ns name objs =
     (case fmlookup objs (ns, name) of
        None \<Rightarrow> Inl (Answered (NewNotFound ''approvaltasks'' name))
      | Some obj \<Rightarrow> Inr obj)"

definition tracker_add :: "approval_task \<Rightarrow> string \<Rightarrow> bool \<Rightarrow> tracker \<Rightarrow> api_error option \<times> tracker" where
  "tracker_add obj ns replaceExisting objs =
     (let obj = (if at_namespace obj = [] then obj\<lparr>at_Meta := (at_Meta obj)\<lparr>om_Namespace := ns\<rparr>\<rparr> else obj)
      in if ns \<noteq> at_namespace obj then (Some (Answered NewBadRequest), objs)
         else let key = (at_namespace obj, at_name obj)
              in case fmlookup objs key of
                   Some _ \<Rightarrow>
                     if replaceExisting then (None, fmupd key obj objs)
                     else (Some (Answered (NewAlreadyExists ''approvaltasks'' (at_name obj))), objs)
                 | None \<Rightarrow>
                     if replaceExisting then (Some (Answered (NewNotFound ''approvaltasks'' (at_name obj))), objs)
                     else (None, fmupd key obj objs))"

text \<open>The reactor of the fake client: write, then read the object back.\<close>

definition react_Get :: "string \<Rightarrow> string \<Rightarrow> tracker \<Rightarrow> (api_error + approval_task) \<times> tracker" where
  "react_Get ns name objs = (tracker_Get ns name objs, objs)"

definition react_Create :: "string \<Rightarrow> approval_task \<Rightarrow> tracker \<Rightarrow> (api_error + approval_task) \<times> tracker" where
  "react_Create ns obj objs =
     (case tracker_add obj ns False objs of
        (Some e, objs') \<Rightarrow> (Inl e, objs')
      | (None, objs') \<Rightarrow> (tracker_Get ns (at_name obj) objs', objs'))"

definition react_Update :: "string \<Rightarrow> approval_task \<Rightarrow> tracker \<Rightarrow> (api_error + approval_task) \<times> tracker" where
  "react_Update ns obj objs =
     (case tracker_add obj ns True objs of
        (Some e, objs') \<Rightarrow> (Inl e, objs')
      | (None, objs') \<Rightarrow> (tracker_Get ns (at_name obj) objs', objs'))"

text \<open>An update of the subresource \<open>status\<close> is the same reaction: it replaces the object.\<close>

definition fake_client :: "tracker at_client" where
  "fake_client = \<lparr>cl_Get = react_Get, cl_Create = react_Create, cl_Update = react_Update,
     cl_UpdateStatus = react_Update\<rparr>"

definition tracker_lookup :: "tracker \<Rightarrow> string \<Rightarrow> string \<Rightarrow> approval_task option" where
  "tracker_lookup objs ns name = fmlookup objs (ns, name)"

lemmas tracker_defs = fake_client_def react_Get_def react_Create_def react_Update_def
  tracker_Get_def tracker_add_def tracker_lookup_def Let_def

interpretation fake: task_store fake_client tracker_lookup "\<lambda>s c. c"
  by unfold_locales
    (auto simp: tracker_defs same_sent_def split: option.splits if_splits)

interpretation fake_edit: task_editor fake_client tracker_lookup "\<lambda>s c. c"
  by unfold_locales (auto simp: tracker_defs split: option.splits if_splits)

end
