(* ===== verification/Approval_State.thy ===== *)
theory Approval_State
  imports Api_Types "HOL-Library.AList"
begin

text \<open>
  Counting approvals and deciding the state of a task
  (\<open>pkg/reconciler/approvaltask/utils.go\<close>, \<open>approvalTaskHasFalseInput\<close> to \<open>updateApprovalState\<close>
  up to its API call, which is in theory \<open>Reconciler\<close>). The map \<open>currentApprovers\<close> is an
  association list in insertion order; the loop that reads it back visits it in an order Go does
  not fix, which is the argument \<open>map_order\<close>.
\<close>

abbreviation (input) "pendingState \<equiv> ''pending''"
abbreviation (input) "approvedState \<equiv> ''approved''"
abbreviation (input) "rejectedState \<equiv> ''rejected''"
abbreviation (input) "hasApproved \<equiv> ''approve''"
abbreviation (input) "hasRejected \<equiv> ''reject''"

subsection \<open>Counting\<close>

definition approvalTaskHasFalseInput :: "approval_task \<Rightarrow> bool" where
  "approvalTaskHasFalseInput task \<longleftrightarrow> list_ex (\<lambda>a. ad_Input a = hasRejected) (sp_Approvers (at_Spec task))"

definition add_approved_member :: "user_details \<Rightarrow> string set \<Rightarrow> string set" where
  "add_approved_member u acc = (if ud_Input u = hasApproved then insert (ud_Name u) acc else acc)"

definition add_approved :: "approver_details \<Rightarrow> string set \<Rightarrow> string set" where
  "add_approved a acc =
     (if ad_Input a \<noteq> hasApproved then acc
      else if is_user a then insert (ad_Name a) acc
      else if is_group a then fold add_approved_member (ad_Users a) acc
      else acc)"

definition approvalTaskHasTrueInput :: "approval_task \<Rightarrow> bool" where
  "approvalTaskHasTrueInput task \<longleftrightarrow>
     sp_NumberOfApprovalsRequired (at_Spec task)
       \<le> int (card (fold add_approved (sp_Approvers (at_Spec task)) {}))"

definition countApprovalsReceived :: "approval_task \<Rightarrow> int" where
  "countApprovalsReceived task = int (card (fold add_approved (sp_Approvers (at_Spec task)) {}))"

subsection \<open>Responses\<close>

definition responded :: "approver_details \<Rightarrow> bool" where
  "responded a \<longleftrightarrow> ad_Input a = hasApproved \<or> ad_Input a = hasRejected"

definition user_response :: "approver_details \<Rightarrow> approver_state" where
  "user_response a =
     \<lparr>as_Name = ad_Name a,
      as_Response = (if ad_Input a = hasApproved then approvedState
                     else if ad_Input a = hasRejected then rejectedState else []),
      as_Message = ad_Message a, as_Type = ''User'', as_GroupMembers = []\<rparr>"

type_synonym approver_map = "(string \<times> approver_state) list"

text \<open>First pass: the individual approvers, and the names they have taken.\<close>

fun user_pass :: "approver_details list \<Rightarrow> approver_map \<times> string set \<Rightarrow> approver_map \<times> string set" where
  "user_pass [] acc = acc"
| "user_pass (a # as) (current, processed) =
     user_pass as
       (if responded a \<and> is_user a
        then (AList.update (ad_Name a) (user_response a) current, insert (ad_Name a) processed)
        else (current, processed))"

text \<open>The members of one group: their states, and whether any has approved or rejected.\<close>

fun member_pass ::
  "string set \<Rightarrow> user_details list \<Rightarrow> group_member_state list \<times> bool \<times> bool
     \<Rightarrow> group_member_state list \<times> bool \<times> bool" where
  "member_pass processed [] acc = acc"
| "member_pass processed (u # us) (members, hasApprovals, hasRejections) =
     member_pass processed us
       (if ud_Name u \<in> processed then (members, hasApprovals, hasRejections)
        else if ud_Input u = hasApproved
          then (members @ [\<lparr>gm_Name = ud_Name u, gm_Response = approvedState, gm_Message = ud_Message u\<rparr>],
                True, hasRejections)
        else if ud_Input u = hasRejected
          then (members @ [\<lparr>gm_Name = ud_Name u, gm_Response = rejectedState, gm_Message = ud_Message u\<rparr>],
                hasApprovals, True)
        else (members, hasApprovals, hasRejections))"

definition group_response :: "string set \<Rightarrow> approver_details \<Rightarrow> approver_state option" where
  "group_response processed a =
     (let (members, hasApprovals, hasRejections) = member_pass processed (ad_Users a) ([], False, False);
          response = (if hasRejections then rejectedState else if hasApprovals then approvedState else [])
      in if response \<noteq> []
         then Some \<lparr>as_Name = ad_Name a, as_Response = response, as_Message = ad_Message a,
                as_Type = ''Group'', as_GroupMembers = members\<rparr>
         else None)"

text \<open>Second pass: the groups, leaving out members who answered as individuals.\<close>

fun group_pass :: "string set \<Rightarrow> approver_details list \<Rightarrow> approver_map \<Rightarrow> approver_map" where
  "group_pass processed [] current = current"
| "group_pass processed (a # as) current =
     group_pass processed as
       (if responded a \<and> is_group a
        then (case group_response processed a of
                Some r \<Rightarrow> AList.update (ad_Name a) r current
              | None \<Rightarrow> current)
        else current)"

definition currentApprovers :: "approver_details list \<Rightarrow> approver_map" where
  "currentApprovers as =
     (let (current, processed) = user_pass as ([], {}) in group_pass processed as current)"

subsection \<open>The new status\<close>

text \<open>
  \<open>updateApprovalState\<close> before its API call: the task with its new status, and whether there is
  anything to write.
\<close>

definition decideState :: "(approver_state list \<Rightarrow> approver_state list) \<Rightarrow> approval_task \<Rightarrow> approval_task \<times> bool" where
  "decideState map_order task =
     (let st = (at_Status task)\<lparr>st_ApproversResponse := []\<rparr>;
          current = currentApprovers (sp_Approvers (at_Spec task))
      in if current \<noteq> []
         then (let st2 = st\<lparr>st_ApproversResponse := map_order (map snd current),
                           st_ApprovalsRequired := sp_NumberOfApprovalsRequired (at_Spec task),
                           st_ApprovalsReceived := countApprovalsReceived task\<rparr>;
                   st3 = (if approvalTaskHasFalseInput task then st2\<lparr>st_State := rejectedState\<rparr>
                          else if approvalTaskHasTrueInput task then st2\<lparr>st_State := approvedState\<rparr>
                          else st2)
               in (task\<lparr>at_Status := st3\<rparr>, True))
         else (task\<lparr>at_Status := st\<rparr>, False))"

subsection \<open>Lemmas on counting\<close>

definition approved_by :: "approver_details \<Rightarrow> string set" where
  "approved_by a =
     (if ad_Input a \<noteq> hasApproved then {}
      else if is_user a then {ad_Name a}
      else if is_group a then ud_Name ` {u \<in> set (ad_Users a). ud_Input u = hasApproved}
      else {})"

definition approved_users :: "approver_details list \<Rightarrow> string set" where
  "approved_users as = (\<Union>a \<in> set as. approved_by a)"

lemma fold_add_approved_member:
  "fold add_approved_member us acc = acc \<union> ud_Name ` {u \<in> set us. ud_Input u = hasApproved}"
  by (induction us arbitrary: acc) (auto simp: add_approved_member_def)

lemma add_approved_eq: "add_approved a acc = acc \<union> approved_by a"
  using is_user_not_group [of a]
  by (auto simp: add_approved_def approved_by_def fold_add_approved_member)

lemma fold_add_approved: "fold add_approved as acc = acc \<union> approved_users as"
  by (induction as arbitrary: acc) (auto simp: add_approved_eq approved_users_def)

lemma finite_approved_by [simp]: "finite (approved_by a)"
  by (simp add: approved_by_def)

lemma finite_approved_users [simp]: "finite (approved_users as)"
  by (simp add: approved_users_def)

lemma countApprovalsReceived_eq: "countApprovalsReceived task = int (card (approved_users (sp_Approvers (at_Spec task))))"
  by (simp add: countApprovalsReceived_def fold_add_approved)

lemma approvalTaskHasTrueInput_eq:
  "approvalTaskHasTrueInput task \<longleftrightarrow>
     sp_NumberOfApprovalsRequired (at_Spec task) \<le> countApprovalsReceived task"
  by (simp add: approvalTaskHasTrueInput_def countApprovalsReceived_def)

lemma approvalTaskHasFalseInput_eq:
  "approvalTaskHasFalseInput task \<longleftrightarrow> (\<exists>a \<in> set (sp_Approvers (at_Spec task)). ad_Input a = hasRejected)"
  by (simp add: approvalTaskHasFalseInput_def list_ex_iff)

subsection \<open>Lemmas on responses\<close>

text \<open>The same passes, one approver at a time.\<close>

definition individual_names :: "approver_details list \<Rightarrow> string set" where
  "individual_names as = ad_Name ` {a \<in> set as. responded a \<and> is_user a}"

definition member_states :: "string set \<Rightarrow> user_details list \<Rightarrow> group_member_state list" where
  "member_states processed us =
     map (\<lambda>u. \<lparr>gm_Name = ud_Name u,
               gm_Response = (if ud_Input u = hasApproved then approvedState else rejectedState),
               gm_Message = ud_Message u\<rparr>)
       (filter (\<lambda>u. ud_Name u \<notin> processed \<and> (ud_Input u = hasApproved \<or> ud_Input u = hasRejected)) us)"

definition response_of :: "string set \<Rightarrow> approver_details \<Rightarrow> approver_state option" where
  "response_of processed a =
     (if \<not> responded a then None
      else if is_user a then Some (user_response a)
      else if is_group a then group_response processed a
      else None)"

lemma user_pass_snd: "snd (user_pass as (cur, proc)) = proc \<union> individual_names as"
  by (induction as arbitrary: cur proc) (auto simp: individual_names_def)

lemma member_pass_eq:
  "member_pass proc us (ms, a, r) =
     (ms @ member_states proc us,
      a \<or> (\<exists>m \<in> set (member_states proc us). gm_Response m = approvedState),
      r \<or> (\<exists>m \<in> set (member_states proc us). gm_Response m = rejectedState))"
  by (induction us arbitrary: ms a r) (auto simp: member_states_def)

lemma member_states_response: "m \<in> set (member_states proc us) \<Longrightarrow> gm_Response m = approvedState \<or> gm_Response m = rejectedState"
  by (auto simp: member_states_def)

lemma member_states_name: "m \<in> set (member_states proc us) \<Longrightarrow> gm_Name m \<notin> proc"
  by (auto simp: member_states_def)

text \<open>
  A group has a response when some member not counted as an individual has answered; it is a
  rejection when one of these members rejected.
\<close>

lemma group_response_eq:
  "group_response proc a =
     (if member_states proc (ad_Users a) = [] then None
      else Some \<lparr>as_Name = ad_Name a,
             as_Response = (if \<exists>m \<in> set (member_states proc (ad_Users a)). gm_Response m = rejectedState
                            then rejectedState else approvedState),
             as_Message = ad_Message a, as_Type = ''Group'',
             as_GroupMembers = member_states proc (ad_Users a)\<rparr>)"
proof (cases "member_states proc (ad_Users a)")
  case (Cons m ms)
  have "gm_Response m = approvedState \<or> gm_Response m = rejectedState"
    using member_states_response [of m proc "ad_Users a"] Cons by simp
  with Cons show ?thesis
    by (auto simp: group_response_def member_pass_eq)
qed (simp add: group_response_def member_pass_eq)

lemma group_response_Some:
  assumes "group_response proc a = Some r"
  shows "as_Name r = ad_Name a" and "as_Type r = ''Group''"
    and "as_Response r = approvedState \<or> as_Response r = rejectedState"
    and "as_GroupMembers r = member_states proc (ad_Users a)"
    and "as_GroupMembers r \<noteq> []"
  using assms by (auto simp: group_response_eq split: if_splits)

lemma user_response_sel:
  "as_Name (user_response a) = ad_Name a" "as_Type (user_response a) = ''User''"
  "as_GroupMembers (user_response a) = []" "as_Message (user_response a) = ad_Message a"
  "responded a \<Longrightarrow> as_Response (user_response a) = approvedState \<or> as_Response (user_response a) = rejectedState"
  by (auto simp: user_response_def responded_def)

text \<open>Which entries the passes can produce, whatever the names.\<close>

lemma user_pass_entries:
  "(k, r) \<in> set (fst (user_pass as (cur, proc))) \<Longrightarrow>
     (k, r) \<in> set cur \<or> (\<exists>a \<in> set as. responded a \<and> is_user a \<and> k = ad_Name a \<and> r = user_response a)"
proof (induction as arbitrary: cur proc)
  case (Cons a as)
  have upd: "(k, r) \<in> set (AList.update x y cur) \<Longrightarrow> (k, r) \<in> set cur \<or> (k = x \<and> r = y)" for x y
    by (induction cur) (auto split: if_splits)
  from Cons.prems Cons.IH show ?case
    by (fastforce split: if_splits dest: upd)
qed simp

lemma group_pass_entries:
  "(k, r) \<in> set (group_pass proc as cur) \<Longrightarrow>
     (k, r) \<in> set cur \<or>
     (\<exists>a \<in> set as. responded a \<and> is_group a \<and> k = ad_Name a \<and> group_response proc a = Some r)"
proof (induction as arbitrary: cur)
  case (Cons a as)
  have upd: "(k, r) \<in> set (AList.update x y cur) \<Longrightarrow> (k, r) \<in> set cur \<or> (k = x \<and> r = y)" for x y
    by (induction cur) (auto split: if_splits)
  from Cons.prems Cons.IH show ?case
    by (fastforce split: if_splits option.splits dest: upd)
qed simp

lemma currentApprovers_entries:
  assumes "(k, r) \<in> set (currentApprovers as)"
  obtains a where "a \<in> set as" "k = ad_Name a" "response_of (individual_names as) a = Some r"
proof -
  obtain cur proc where up: "user_pass as ([], {}) = (cur, proc)" by force
  then have proc: "proc = individual_names as"
    using user_pass_snd [of as "[]" "{}"] by simp
  from assms have "(k, r) \<in> set (group_pass proc as cur)"
    by (simp add: currentApprovers_def up)
  from group_pass_entries [OF this] show ?thesis
  proof (elim disjE bexE)
    assume "(k, r) \<in> set cur"
    with user_pass_entries [of k r as "[]" "{}"] up
    obtain a where a: "a \<in> set as" "responded a" "is_user a" "k = ad_Name a" "r = user_response a"
      by auto
    then show ?thesis by (intro that [of a]) (simp_all add: response_of_def)
  next
    fix a
    assume a: "a \<in> set as"
      "responded a \<and> is_group a \<and> k = ad_Name a \<and> group_response proc a = Some r"
    with proc show ?thesis
      by (intro that [of a]) (simp_all add: response_of_def is_group_not_user)
  qed
qed

lemma user_pass_distinct: "distinct (map fst cur) \<Longrightarrow> distinct (map fst (fst (user_pass as (cur, proc))))"
  by (induction as arbitrary: cur proc) (auto simp: distinct_update)

lemma group_pass_distinct: "distinct (map fst cur) \<Longrightarrow> distinct (map fst (group_pass proc as cur))"
  by (induction as arbitrary: cur) (auto simp: distinct_update split: option.split)

lemma currentApprovers_distinct: "distinct (map fst (currentApprovers as))"
  using user_pass_distinct [of "[]" as "{}"]
  by (auto simp: currentApprovers_def group_pass_distinct split: prod.split)

lemma response_of_sel:
  assumes "response_of proc a = Some r"
  shows "as_Name r = ad_Name a" and "as_Response r = approvedState \<or> as_Response r = rejectedState"
    and "as_Type r = DefaultedApproverType (ad_Type a)"
    and "responded a"
  using assms group_response_Some [of proc a r] user_response_sel [of a]
  by (auto simp: response_of_def is_user_def is_group_def split: if_splits)

lemma currentApprovers_name: "(k, r) \<in> set (currentApprovers as) \<Longrightarrow> as_Name r = k"
  by (erule currentApprovers_entries) (simp add: response_of_sel)

text \<open>With different names the map is one entry per approver that has a response.\<close>

lemma update_fresh: "k \<notin> fst ` set al \<Longrightarrow> AList.update k v al = al @ [(k, v)]"
  by (induction al) auto

definition named_responses :: "(approver_details \<Rightarrow> approver_state option) \<Rightarrow> approver_details list \<Rightarrow> approver_map" where
  "named_responses f as = List.map_filter (\<lambda>a. map_option (Pair (ad_Name a)) (f a)) as"

lemma named_responses_simps [simp]:
  "named_responses f [] = []"
  "named_responses f (a # as) =
     (case f a of None \<Rightarrow> named_responses f as | Some r \<Rightarrow> (ad_Name a, r) # named_responses f as)"
  by (auto simp: named_responses_def List.map_filter_simps split: option.split)

lemma user_pass_fresh:
  "distinct (map ad_Name as) \<Longrightarrow> fst ` set cur \<inter> ad_Name ` set as = {} \<Longrightarrow>
     fst (user_pass as (cur, proc)) =
       cur @ named_responses (\<lambda>a. if responded a \<and> is_user a then Some (user_response a) else None) as"
  by (induction as arbitrary: cur proc) (auto simp: update_fresh)

lemma named_responses_names: "fst ` set (named_responses f as) \<subseteq> ad_Name ` {a \<in> set as. f a \<noteq> None}"
  by (induction as) (auto split: option.splits)

lemma group_pass_fresh:
  "distinct (map ad_Name as) \<Longrightarrow> fst ` set cur \<inter> ad_Name ` {a \<in> set as. is_group a} = {} \<Longrightarrow>
     group_pass proc as cur =
       cur @ named_responses (\<lambda>a. if responded a \<and> is_group a then group_response proc a else None) as"
proof (induction as arbitrary: cur)
  case (Cons a as)
  show ?case
  proof (cases "responded a \<and> is_group a")
    case True
    with Cons.prems(2) have "ad_Name a \<notin> fst ` set cur" by auto
    moreover have "fst ` set (cur @ [(ad_Name a, r)]) \<inter> ad_Name ` {a \<in> set as. is_group a} = {}" for r
      using Cons.prems by auto
    moreover have "fst ` set cur \<inter> ad_Name ` {a \<in> set as. is_group a} = {}"
      using Cons.prems by auto
    ultimately show ?thesis
      using True Cons.IH Cons.prems(1) by (simp add: update_fresh split: option.split)
  next
    case False
    with Cons show ?thesis by auto
  qed
qed simp

lemma user_group_names_disjoint:
  assumes "distinct (map ad_Name as)"
  shows "ad_Name ` {a \<in> set as. is_user a} \<inter> ad_Name ` {a \<in> set as. is_group a} = {}"
proof (rule ccontr)
  assume "\<not> ?thesis"
  then obtain x y where "x \<in> set as" "is_user x" "y \<in> set as" "is_group y" "ad_Name x = ad_Name y"
    by blast
  moreover have "inj_on ad_Name (set as)" using assms by (simp add: distinct_map)
  ultimately have "x = y" by (simp add: inj_on_eq_iff)
  with \<open>is_user x\<close> \<open>is_group y\<close> show False by (simp add: is_user_not_group)
qed

lemma currentApprovers_fresh:
  assumes "distinct (map ad_Name as)"
  shows "currentApprovers as =
      named_responses (\<lambda>a. if responded a \<and> is_user a then Some (user_response a) else None) as
      @ named_responses (\<lambda>a. if responded a \<and> is_group a then group_response (individual_names as) a else None) as"
proof -
  let ?u = "named_responses (\<lambda>a. if responded a \<and> is_user a then Some (user_response a) else None) as"
  have up: "user_pass as ([], {}) = (?u, individual_names as)"
    using user_pass_fresh [OF assms, of "[]" "{}"] user_pass_snd [of as "[]" "{}"]
    by (simp add: prod_eq_iff)
  have "fst ` set ?u \<subseteq> ad_Name ` {a \<in> set as. is_user a}"
    by (rule subset_trans [OF named_responses_names]) auto
  moreover have "ad_Name ` {a \<in> set as. is_user a} \<inter> ad_Name ` {a \<in> set as. is_group a} = {}"
    by (rule user_group_names_disjoint [OF assms])
  ultimately have "fst ` set ?u \<inter> ad_Name ` {a \<in> set as. is_group a} = {}" by blast
  from group_pass_fresh [OF assms this] up show ?thesis
    by (simp add: currentApprovers_def)
qed

end
