(* ===== verification/Go_Duration.thy ===== *)
theory Go_Duration
  imports Knative_Conditions
begin

text \<open>
  \<open>time.ParseDuration\<close> of Go's standard library, which the \<open>timeout\<close> parameter of a run goes
  through. The value of the digits after a decimal point is a product of floating point numbers in
  Go; it is the argument \<open>fraction\<close> here (digits, unit, scale). Everything else, with the 64-bit
  overflows, is written out.
\<close>

definition quote_rune :: "nat \<times> string \<Rightarrow> string" where
  "quote_rune = (\<lambda>(r, bs).
     if 128 \<le> r \<or> r < 32
     then concat (map (\<lambda>b. [CHR 0x5C, CHR ''x'', hex_digit (of_char b div 16), hex_digit (of_char b mod 16)]) bs)
     else if r = 34 \<or> r = 92 then CHR 0x5C # bs
     else bs)"

definition quote :: "string \<Rightarrow> string" where
  "quote s = CHR 0x22 # concat (map quote_rune (runes s)) @ [CHR 0x22]"

definition is_digit :: "char \<Rightarrow> bool" where
  "is_digit c \<longleftrightarrow> 48 \<le> (of_char c :: nat) \<and> (of_char c :: nat) \<le> 57"

text \<open>The loop of \<open>leadingInt\<close>: \<open>None\<close> on overflow, else the value and the rest.\<close>

fun leadingInt :: "nat \<Rightarrow> string \<Rightarrow> (nat \<times> string) option" where
  "leadingInt x [] = Some (x, [])"
| "leadingInt x (c # s) =
     (if \<not> is_digit c then Some (x, c # s)
      else if 9223372036854775808 div 10 < x then None
      else let x' = x * 10 + (of_char c - 48)
           in if 9223372036854775808 < x' then None else leadingInt x' s)"

text \<open>The loop of \<open>leadingFraction\<close>: digits past an overflow are consumed and dropped.\<close>

fun leadingFraction :: "nat \<Rightarrow> nat \<Rightarrow> bool \<Rightarrow> string \<Rightarrow> nat \<times> nat \<times> string" where
  "leadingFraction x scale overflow [] = (x, scale, [])"
| "leadingFraction x scale overflow (c # s) =
     (if \<not> is_digit c then (x, scale, c # s)
      else if overflow then leadingFraction x scale True s
      else if 9223372036854775807 div 10 < x then leadingFraction x scale True s
      else let y = x * 10 + (of_char c - 48)
           in if 9223372036854775808 < y then leadingFraction x scale True s
              else leadingFraction y (scale * 10) False s)"

definition unitMap :: "(string \<times> nat) list" where
  "unitMap =
     [(''ns'', 1), (''us'', 1000), ([CHR 0xC2, CHR 0xB5, CHR ''s''], 1000),
      ([CHR 0xCE, CHR 0xBC, CHR ''s''], 1000), (''ms'', 1000000), (''s'', 1000000000),
      (''m'', 60000000000), (''h'', 3600000000000)]"

definition unit_end :: "char \<Rightarrow> bool" where
  "unit_end c \<longleftrightarrow> c = CHR ''.'' \<or> is_digit c"

lemma leadingInt_length: "leadingInt x s = Some (v, r) \<Longrightarrow> length r \<le> length s"
  by (induction x s rule: leadingInt.induct) (auto simp: Let_def split: if_splits)

lemma leadingFraction_length: "leadingFraction x sc ov s = (f, sc', r) \<Longrightarrow> length r \<le> length s"
  by (induction x sc ov s rule: leadingFraction.induct) (auto simp: Let_def is_digit_def split: if_splits)

text \<open>
  The number before a unit, its fraction included: value, fraction, scale, the rest, or \<open>None\<close>
  when there is no digit or the number overflows.
\<close>

definition number_part :: "string \<Rightarrow> (nat \<times> nat \<times> nat \<times> string) option" where
  "number_part s =
     (case leadingInt 0 s of
        None \<Rightarrow> None
      | Some (v, s1) \<Rightarrow>
          let pre = length s1 \<noteq> length s in
          (case s1 of
             c # s2 \<Rightarrow>
               if c = CHR ''.''
               then let (f, scale, s3) = leadingFraction 0 1 False s2
                    in if \<not> pre \<and> length s3 = length s2 then None else Some (v, f, scale, s3)
               else if pre then Some (v, 0, 1, s1) else None
           | [] \<Rightarrow> if pre then Some (v, 0, 1, []) else None))"

lemma number_part_length: "number_part s = Some (v, f, sc, r) \<Longrightarrow> length r \<le> length s"
  by (auto simp: number_part_def Let_def split: option.splits list.splits if_splits prod.splits
      dest!: leadingInt_length leadingFraction_length)

datatype dur_error = BadDuration | MissingUnit | UnknownUnit string

text \<open>One number with its unit: the total so far and what is left of the text.\<close>

definition ParseDuration_step :: "(nat \<Rightarrow> nat \<Rightarrow> nat \<Rightarrow> nat) \<Rightarrow> nat \<Rightarrow> string \<Rightarrow> dur_error + nat \<times> string" where
  "ParseDuration_step fraction d s =
     (if \<not> (hd s = CHR ''.'' \<or> is_digit (hd s)) then Inl BadDuration
      else case number_part s of
             None \<Rightarrow> Inl BadDuration
           | Some (v, f, scale, r) \<Rightarrow>
               let u = takeWhile (\<lambda>c. \<not> unit_end c) r;
                   rest = dropWhile (\<lambda>c. \<not> unit_end c) r
               in if u = [] then Inl MissingUnit
                  else (case map_of unitMap u of
                          None \<Rightarrow> Inl (UnknownUnit u)
                        | Some unit \<Rightarrow>
                            if 9223372036854775808 div unit < v then Inl BadDuration
                            else let v2 = (if 0 < f then v * unit + fraction f unit scale else v * unit)
                                 in if 0 < f \<and> 9223372036854775808 < v2 then Inl BadDuration
                                    else let d2 = (d + v2) mod 18446744073709551616
                                         in if 9223372036854775808 < d2 then Inl BadDuration
                                            else Inr (d2, rest)))"

lemma ParseDuration_step_Inr:
  assumes "ParseDuration_step fraction d s = Inr (d2, rest)"
  shows "length rest < length s" and "d2 \<le> 9223372036854775808"
proof -
  obtain v f scale r where num: "number_part s = Some (v, f, scale, r)"
    and rest: "rest = dropWhile (\<lambda>c. \<not> unit_end c) r" "takeWhile (\<lambda>c. \<not> unit_end c) r \<noteq> []"
    and d2: "d2 \<le> 9223372036854775808"
    using assms by (auto simp: ParseDuration_step_def Let_def not_less split: if_splits option.splits prod.splits)
  have "length (takeWhile (\<lambda>c. \<not> unit_end c) r) + length rest = length r"
    unfolding rest(1) using takeWhile_dropWhile_id [of "\<lambda>c. \<not> unit_end c" r] by (metis length_append)
  moreover have "0 < length (takeWhile (\<lambda>c. \<not> unit_end c) r)" using rest(2) by blast
  ultimately show "length rest < length s" using number_part_length [OF num] by linarith
  show "d2 \<le> 9223372036854775808" by (rule d2)
qed

function ParseDuration_loop :: "(nat \<Rightarrow> nat \<Rightarrow> nat \<Rightarrow> nat) \<Rightarrow> nat \<Rightarrow> string \<Rightarrow> dur_error + nat" where
  "ParseDuration_loop fraction d s =
     (if s = [] then Inr d
      else case ParseDuration_step fraction d s of
             Inl e \<Rightarrow> Inl e
           | Inr (d2, rest) \<Rightarrow> ParseDuration_loop fraction d2 rest)"
  by pat_completeness auto
termination
  by (relation "measure (\<lambda>(fraction, d, s). length s)") (auto dest: ParseDuration_step_Inr)

declare ParseDuration_loop.simps [simp del]

definition dur_error_text :: "string \<Rightarrow> dur_error \<Rightarrow> string" where
  "dur_error_text orig e =
     (case e of
        BadDuration \<Rightarrow> ''time: invalid duration '' @ quote orig
      | MissingUnit \<Rightarrow> ''time: missing unit in duration '' @ quote orig
      | UnknownUnit u \<Rightarrow> ''time: unknown unit '' @ quote u @ '' in duration '' @ quote orig)"

definition ParseDuration :: "(nat \<Rightarrow> nat \<Rightarrow> nat \<Rightarrow> nat) \<Rightarrow> string \<Rightarrow> string + duration" where
  "ParseDuration fraction s =
     (let neg = HasPrefix s ''-'';
          t = (if HasPrefix s ''-'' \<or> HasPrefix s ''+'' then drop 1 s else s)
      in if t = ''0'' then Inr 0
         else if t = [] then Inl (dur_error_text s BadDuration)
         else case ParseDuration_loop fraction 0 t of
                Inl e \<Rightarrow> Inl (dur_error_text s e)
              | Inr d \<Rightarrow>
                  if neg then Inr (- int d)
                  else if 9223372036854775807 < d then Inl (dur_error_text s BadDuration)
                  else Inr (int d))"

lemma ParseDuration_loop_range:
  "ParseDuration_loop fraction d s = Inr d' \<Longrightarrow> d \<le> 9223372036854775808 \<Longrightarrow> d' \<le> 9223372036854775808"
proof (induction fraction d s rule: ParseDuration_loop.induct)
  case (1 fraction d s)
  show ?case
  proof (cases "s = []")
    case True
    with 1 show ?thesis by (simp add: ParseDuration_loop.simps [of fraction d "[]"])
  next
    case False
    with 1(2) obtain d2 rest where step: "ParseDuration_step fraction d s = Inr (d2, rest)"
      and loop: "ParseDuration_loop fraction d2 rest = Inr d'"
      by (auto simp: ParseDuration_loop.simps [of fraction d s] split: sum.splits)
    from 1(1) [OF False step refl loop] ParseDuration_step_Inr(2) [OF step] show ?thesis .
  qed
qed

text \<open>Every duration that parses is a 64-bit value.\<close>

lemma ParseDuration_range: "ParseDuration fraction s = Inr d \<Longrightarrow> in_int64 d"
  by (auto simp: ParseDuration_def Let_def in_int64_def split: if_splits sum.splits
      dest!: ParseDuration_loop_range)

text \<open>A whole number of one unit is read as that many units.\<close>

lemma is_digit_FormatUint: "c \<in> set (FormatUint n) \<Longrightarrow> is_digit c"
  using FormatUint_digits by (simp add: is_digit_def)

lemma leadingInt_append:
  "\<forall>c \<in> set xs. is_digit c \<Longrightarrow>
     leadingInt x (xs @ ys) = (case leadingInt x xs of None \<Rightarrow> None | Some (v, _) \<Rightarrow> leadingInt v ys)"
  by (induction x xs rule: leadingInt.induct) (auto simp: Let_def)

lemma leadingInt_FormatUint:
  "n \<le> 9223372036854775808 \<Longrightarrow> leadingInt 0 (FormatUint n) = Some (n, [])"
proof (induction n rule: FormatUint.induct)
  case (1 n)
  have dig: "is_digit (digit d)" if "d < 10" for d
    using that by (simp add: is_digit_def of_char_digit)
  show ?case
  proof (cases "n < 10")
    case True
    then show ?thesis by (simp add: FormatUint.simps dig of_char_digit)
  next
    case False
    then have "leadingInt 0 (FormatUint (n div 10)) = Some (n div 10, [])"
      using 1 by simp
    moreover have "leadingInt (n div 10) [digit (n mod 10)] = Some (n, [])"
    proof -
      have "n div 10 \<le> 9223372036854775808 div 10" using 1(2) by (rule div_le_mono)
      moreover have "n div 10 * 10 + n mod 10 = n" by simp
      ultimately show ?thesis
        using 1(2) by (simp add: dig of_char_digit Let_def)
    qed
    ultimately show ?thesis
      using False leadingInt_append [of "FormatUint (n div 10)" 0 "[digit (n mod 10)]"]
      by (simp add: FormatUint.simps [of n] is_digit_FormatUint)
  qed
qed

lemma ParseDuration_whole:
  assumes unit: "map_of unitMap u = Some k" and n: "n * k \<le> 9223372036854775807"
  shows "ParseDuration fraction (FormatUint n @ u) = Inr (int (n * k))"
proof -
  have k: "k \<noteq> 0" and u: "u \<noteq> []" "\<forall>c \<in> set u. \<not> unit_end c"
    using unit by (auto simp: unitMap_def unit_end_def is_digit_def split: if_splits)
  have nk: "n \<le> n * k" using k by simp
  obtain a as where hd: "FormatUint n = a # as" by (cases "FormatUint n") auto
  have a: "is_digit a" using is_digit_FormatUint [of a n] hd by simp
  obtain b bs where b: "u = b # bs" "\<not> is_digit b" "b \<noteq> CHR ''.''"
    using u by (cases u) (auto simp: unit_end_def)
  have "leadingInt 0 (FormatUint n @ u) = Some (n, u)"
    using leadingInt_append [of "FormatUint n" 0 u] leadingInt_FormatUint [of n] n nk b
    by (auto simp: is_digit_FormatUint)
  then have num: "number_part (FormatUint n @ u) = Some (n, 0, 1, u)"
    using b by (simp add: number_part_def Let_def)
  have take: "takeWhile (\<lambda>c. \<not> unit_end c) u = u" "dropWhile (\<lambda>c. \<not> unit_end c) u = []"
    using u by (simp_all add: takeWhile_eq_all_conv)
  have "n \<le> 9223372036854775808 div k"
    using n k by (simp add: less_eq_div_iff_mult_less_eq)
  then have "ParseDuration_step fraction 0 (FormatUint n @ u) = Inr (n * k, [])"
    using num unit u(1) n a hd by (simp add: ParseDuration_step_def take)
  then have "ParseDuration_loop fraction 0 (FormatUint n @ u) = Inr (n * k)"
    using hd by (simp add: ParseDuration_loop.simps [of fraction])
  moreover have "\<not> HasPrefix (FormatUint n @ u) ''-''" "\<not> HasPrefix (FormatUint n @ u) ''+''"
    using FormatUint_no_sign [of n] hd by (auto simp: HasPrefix_def)
  moreover have "FormatUint n @ u \<noteq> ''0''"
    using hd b by (cases as) auto
  ultimately show ?thesis
    using n hd u(1) by (simp add: ParseDuration_def Let_def)
qed

end
