(* ===== verification/Go_Sha256.thy ===== *)
theory Go_Sha256
  imports Go_Strings "HOL-Library.Word"
begin

text \<open>
  \<open>crypto/sha256\<close>, which \<open>Compute\<close> hashes the JSON of the approvers with: FIPS 180-4 on 32-bit
  words. A message is a string of bytes.
\<close>

unbundle bit_operations_syntax

type_synonym u32 = "32 word"

text \<open>The round constants and the initial hash value, as decimal numbers.\<close>

definition sha_K :: "u32 list" where
  "sha_K =
    [1116352408, 1899447441, 3049323471, 3921009573, 961987163, 1508970993, 2453635748, 2870763221,
     3624381080, 310598401, 607225278, 1426881987, 1925078388, 2162078206, 2614888103, 3248222580,
     3835390401, 4022224774, 264347078, 604807628, 770255983, 1249150122, 1555081692, 1996064986,
     2554220882, 2821834349, 2952996808, 3210313671, 3336571891, 3584528711, 113926993, 338241895,
     666307205, 773529912, 1294757372, 1396182291, 1695183700, 1986661051, 2177026350, 2456956037,
     2730485921, 2820302411, 3259730800, 3345764771, 3516065817, 3600352804, 4094571909, 275423344,
     430227734, 506948616, 659060556, 883997877, 958139571, 1322822218, 1537002063, 1747873779,
     1955562222, 2024104815, 2227730452, 2361852424, 2428436474, 2756734187, 3204031479, 3329325298]"

definition sha_init :: "u32 list" where
  "sha_init = [1779033703, 3144134277, 1013904242, 2773480762, 1359893119, 2600822924, 528734635, 1541459225]"

definition rotr :: "nat \<Rightarrow> u32 \<Rightarrow> u32" where
  "rotr n w = drop_bit n w OR push_bit (32 - n) w"

definition big_sigma0 :: "u32 \<Rightarrow> u32" where
  "big_sigma0 x = rotr 2 x XOR rotr 13 x XOR rotr 22 x"

definition big_sigma1 :: "u32 \<Rightarrow> u32" where
  "big_sigma1 x = rotr 6 x XOR rotr 11 x XOR rotr 25 x"

definition small_sigma0 :: "u32 \<Rightarrow> u32" where
  "small_sigma0 x = rotr 7 x XOR rotr 18 x XOR drop_bit 3 x"

definition small_sigma1 :: "u32 \<Rightarrow> u32" where
  "small_sigma1 x = rotr 17 x XOR rotr 19 x XOR drop_bit 10 x"

definition sha_ch :: "u32 \<Rightarrow> u32 \<Rightarrow> u32 \<Rightarrow> u32" where
  "sha_ch x y z = (x AND y) XOR (NOT x AND z)"

definition sha_maj :: "u32 \<Rightarrow> u32 \<Rightarrow> u32 \<Rightarrow> u32" where
  "sha_maj x y z = (x AND y) XOR (x AND z) XOR (y AND z)"

text \<open>Padding: a one bit, zeros, and the length in bits as 64 bits, big endian.\<close>

definition be_bytes :: "nat \<Rightarrow> nat \<Rightarrow> string" where
  "be_bytes k n = map (\<lambda>i. char_of (n div 256 ^ (k - 1 - i) mod 256)) [0..<k]"

definition sha_pad :: "string \<Rightarrow> string" where
  "sha_pad s = s @ CHR 0x80 # replicate ((119 - length s mod 64) mod 64) CHR 0x00 @ be_bytes 8 (8 * length s)"

definition be_word :: "string \<Rightarrow> u32" where
  "be_word bs = word_of_nat (foldl (\<lambda>acc c. acc * 256 + of_char c) 0 bs)"

fun chunks :: "nat \<Rightarrow> nat \<Rightarrow> 'a list \<Rightarrow> 'a list list" where
  "chunks 0 k xs = []"
| "chunks (Suc n) k xs = take k xs # chunks n k (drop k xs)"

text \<open>The message schedule: words 16 to 63 from the sixteen of the block.\<close>

fun sha_extend :: "nat \<Rightarrow> u32 list \<Rightarrow> u32 list" where
  "sha_extend 0 w = w"
| "sha_extend (Suc n) w =
     (let t = length w
      in sha_extend n (w @ [small_sigma1 (w ! (t - 2)) + w ! (t - 7) + small_sigma0 (w ! (t - 15)) + w ! (t - 16)]))"

fun sha_round :: "u32 \<times> u32 \<Rightarrow> u32 list \<Rightarrow> u32 list" where
  "sha_round (k, w) [a, b, c, d, e, f, g, h] =
     (let t1 = h + big_sigma1 e + sha_ch e f g + k + w;
          t2 = big_sigma0 a + sha_maj a b c
      in [t1 + t2, a, b, c, d + t1, e, f, g])"
| "sha_round _ st = st"

definition sha_block :: "string \<Rightarrow> u32 list \<Rightarrow> u32 list" where
  "sha_block blk st =
     (let w = sha_extend 48 (map be_word (chunks 16 4 blk))
      in map2 (+) st (fold sha_round (zip sha_K w) st))"

definition word_bytes :: "u32 \<Rightarrow> string" where
  "word_bytes w = be_bytes 4 (unat w)"

definition sha256 :: "string \<Rightarrow> string" where
  "sha256 s =
     (let m = sha_pad s
      in concat (map word_bytes (fold sha_block (chunks (length m div 64) 64 m) sha_init)))"

subsection \<open>Shape\<close>

lemma length_be_bytes [simp]: "length (be_bytes k n) = k"
  by (simp add: be_bytes_def)

lemma length_sha_pad: "64 dvd length (sha_pad s)"
proof -
  have "(m + (9 + (119 - m mod 64) mod 64)) mod 64 = (0::nat)" for m
  proof -
    have "(m + (9 + k mod 64)) mod 64 = (m mod 64 + 9 + k) mod 64" for k :: nat
      by (metis (no_types) add.assoc mod_add_left_eq mod_add_right_eq)
    then have "(m + (9 + (119 - m mod 64) mod 64)) mod 64 = (m mod 64 + 9 + (119 - m mod 64)) mod 64" .
    also have "m mod 64 + 9 + (119 - m mod 64) = 128"
      using mod_less_divisor [of 64 m] by linarith
    finally show ?thesis by simp
  qed
  moreover have "length (sha_pad s) = length s + (9 + (119 - length s mod 64) mod 64)"
    by (simp add: sha_pad_def)
  ultimately show ?thesis by (simp only: dvd_eq_mod_eq_0)
qed

lemma length_sha_round [simp]: "length (sha_round kw st) = length st"
  by (induction kw st rule: sha_round.induct) (auto simp: Let_def)

lemma length_sha_block: "length st = 8 \<Longrightarrow> length (sha_block blk st) = 8"
  by (simp add: sha_block_def Let_def)

lemma length_sha_blocks: "length st = 8 \<Longrightarrow> length (fold sha_block bs st) = 8"
  by (induction bs arbitrary: st) (simp_all add: length_sha_block)

text \<open>A digest is 32 bytes whatever the message, so \<open>Compute\<close> yields 64 hexadecimal digits.\<close>

lemma length_sha256: "length (sha256 s) = 32"
proof -
  have "length (fold sha_block bs sha_init) = 8" for bs
    by (rule length_sha_blocks) (simp add: sha_init_def)
  moreover have "length (concat (map word_bytes ws)) = 4 * length ws" for ws
    by (induction ws) (simp_all add: word_bytes_def)
  ultimately show ?thesis by (simp add: sha256_def Let_def)
qed

lemma length_hex: "length (hex s) = 2 * length s"
  by (induction s) (simp_all add: hex_def)

end
