(* ===== verification/Create_Task.thy ===== *)
theory Create_Task
  imports Param_Validation At_Client Approval_State Go_Duration Go_Sha256
begin

text \<open>
  Creating the ApprovalTask of a run (\<open>createApprovalTask\<close>, \<open>Compute\<close> and \<open>getOrCreateApprovalTask\<close>
  of \<open>pkg/reconciler/approvaltask/utils.go\<close>), and what the reconciler takes from its surroundings.
\<close>

subsection \<open>The surroundings of a reconciliation\<close>

text \<open>
  Readings of the wall clock (\<open>e_now\<close> for a mark of the run, \<open>e_now_init\<close> and \<open>e_now_decode\<close> for the
  two marks that may come before it) and of the reconciler's clock (at the timeout check and at
  the computation of the delay); the standard library functions the model is not about; the order
  in which a Go map is visited; the lister of runs and the answer to a patch of a run.
\<close>

record env =
  e_now_init :: time
  e_now_decode :: time
  e_now :: time
  e_clock_check :: time
  e_clock_wait :: time
  e_fraction :: "nat \<Rightarrow> nat \<Rightarrow> nat \<Rightarrow> nat"
  e_unmarshal_json :: "string \<Rightarrow> string + json"
  e_unmarshal_spec :: "string \<Rightarrow> string + approval_task_spec"
  e_unmarshal_status :: "string \<Rightarrow> approval_task_run_status \<Rightarrow> approval_task_run_status \<times> error"
  e_map_order :: "approver_state list \<Rightarrow> approver_state list"
  e_run_lister :: "string \<Rightarrow> string \<Rightarrow> go_error + custom_run"
  e_patch :: "string \<Rightarrow> string \<Rightarrow> string \<Rightarrow> go_error option"

subsection \<open>The hash of the approvers\<close>

abbreviation (input) "LastAppliedHashKey \<equiv> ''tekton.dev/last-applied-hash''"
abbreviation (input) "CustomRunLabelKey \<equiv> ''tekton.dev/customRun''"

definition Compute :: "approver_details list \<Rightarrow> string" where
  "Compute obj = hex (sha256 (marshal_approvers obj))"

lemma length_Compute [simp]: "length (Compute obj) = 64"
  by (simp add: Compute_def length_hex length_sha256)

lemma Compute_nonempty [simp]: "Compute obj \<noteq> []" "[] \<noteq> Compute obj"
  using length_Compute [of obj] by force+

subsection \<open>The approvers a run's parameters name\<close>

record create_acc =
  ca_approvers :: "approver_details list"
  ca_users :: "string list"
  ca_desc :: string
  ca_number :: int
  ca_approverExists :: "string set"
  ca_userExists :: "string set"

definition create_init :: create_acc where
  "create_init = \<lparr>ca_approvers = [], ca_users = [], ca_desc = [], ca_number = 1,
     ca_approverExists = {}, ca_userExists = {}\<rparr>"

definition approver_of :: "string \<Rightarrow> approver_details" where
  "approver_of name =
     (let parts = SplitN2 name CHR '':''
      in if HasPrefix name ''group:''
         then \<lparr>ad_Name = (if length parts = 2 then parts ! 1 else name), ad_Input = pendingState,
               ad_Message = [], ad_Type = ''Group'', ad_Users = []\<rparr>
         else \<lparr>ad_Name = name, ad_Input = pendingState, ad_Message = [], ad_Type = ''User'', ad_Users = []\<rparr>)"

text \<open>One name of the array: \<open>userExists\<close> is asked for the raw name, but set for the stripped one.\<close>

definition add_approver :: "string \<Rightarrow> create_acc \<Rightarrow> create_acc" where
  "add_approver name acc =
     (if name \<in> ca_userExists acc then acc
      else let a = approver_of name;
               acc1 = (if ad_Name a \<in> ca_approverExists acc then acc
                       else acc\<lparr>ca_approvers := ca_approvers acc @ [a],
                                ca_approverExists := insert (ad_Name a) (ca_approverExists acc)\<rparr>)
           in acc1\<lparr>ca_users := ca_users acc1 @ [ad_Name a],
                   ca_userExists := insert (ad_Name a) (ca_userExists acc1)\<rparr>)"

fun create_params :: "param list \<Rightarrow> create_acc \<Rightarrow> go_error + create_acc" where
  "create_params [] acc = Inr acc"
| "create_params (v # vs) acc =
     (if p_Name v = ''approvers''
      then create_params vs (fold add_approver (pv_ArrayVal (p_Value v)) acc)
      else if p_Name v = ''numberOfApprovalsRequired''
      then (case Atoi (pv_StringVal (p_Value v)) of
              Inl e \<Rightarrow> Inl (NumErr (pv_StringVal (p_Value v)) e)
            | Inr n \<Rightarrow> create_params vs (acc\<lparr>ca_number := n\<rparr>))
      else if p_Name v = ''description''
      then create_params vs (acc\<lparr>ca_desc := pv_StringVal (p_Value v)\<rparr>)
      else create_params vs acc)"

subsection \<open>Creating the task\<close>

definition NewControllerRef :: "object_meta \<Rightarrow> string \<Rightarrow> string \<Rightarrow> owner_reference" where
  "NewControllerRef owner api_version kind =
     \<lparr>or_APIVersion = api_version, or_Kind = kind, or_Name = om_Name owner, or_UID = om_UID owner,
      or_BlockOwnerDeletion = True, or_Controller = True\<rparr>"

definition gvk_api_version :: string where
  "gvk_api_version = GroupVersion_String \<lparr>gv_Group = ''tekton.dev'', gv_Version = ''v1beta1''\<rparr>"

definition new_task :: "custom_run \<Rightarrow> create_acc \<Rightarrow> approval_task" where
  "new_task run acc =
     (let meta = cr_Meta run;
          labels = fmupd CustomRunLabelKey (om_Name meta) (copy_entries (om_Labels meta) fmempty)
      in empty_task
         \<lparr>at_Meta := empty_meta
            \<lparr>om_Name := om_Name meta, om_Namespace := om_Namespace meta, om_Labels := Some labels,
             om_OwnerReferences := [NewControllerRef meta gvk_api_version ''CustomRun''],
             om_Annotations := Some (fmupd LastAppliedHashKey (Compute (ca_approvers acc)) fmempty)\<rparr>,
          at_Spec :=
            \<lparr>sp_Approvers = ca_approvers acc, sp_NumberOfApprovalsRequired = ca_number acc,
             sp_Description = ca_desc acc\<rparr>\<rparr>)"

definition initial_status :: "create_acc \<Rightarrow> approval_task_status" where
  "initial_status acc =
     \<lparr>st_State = pendingState, st_Approvers = ca_users acc, st_ApproversResponse = [],
      st_StartTime = None, st_ApprovalsRequired = ca_number acc, st_ApprovalsReceived = 0\<rparr>"

definition createApprovalTask ::
  "env \<Rightarrow> 's at_client \<Rightarrow> custom_run \<Rightarrow> 's \<Rightarrow> (go_error + approval_task) \<times> 's" where
  "createApprovalTask env cl run s =
     (let ns = om_Namespace (cr_Meta run)
      in case create_params (cr_Params run) create_init of
           Inl e \<Rightarrow> (Inl e, s)
         | Inr acc \<Rightarrow>
             (case ApprovalTasks_Create cl ns (new_task run acc) s of
                ((_, Some e), s1) \<Rightarrow> (Inl e, s1)
              | ((_, None), s1) \<Rightarrow>
                  (case ApprovalTasks_Get cl ns (om_Name (cr_Meta run)) s1 of
                     ((_, Some e), s2) \<Rightarrow> (Inl e, s2)
                   | ((at, None), s2) \<Rightarrow>
                       (let at' = at\<lparr>at_Status := initial_status acc\<rparr>
                        in case ApprovalTasks_UpdateStatus cl ns at' s2 of
                             ((_, Some e), s3) \<Rightarrow> (Inl e, s3)
                           | ((_, None), s3) \<Rightarrow> (Inr at', s3)))))"

definition run_key :: "custom_run \<Rightarrow> string" where
  "run_key run = om_Namespace (cr_Meta run) @ ''/'' @ om_Name (cr_Meta run)"

text \<open>
  The read goes through the API. An error other than "not found" is dropped, and the empty object
  that comes with it is used.
\<close>

definition getOrCreateApprovalTask ::
  "env \<Rightarrow> 's at_client \<Rightarrow> custom_run \<Rightarrow> 's \<Rightarrow> (go_error + approval_task) \<times> custom_run \<times> 's" where
  "getOrCreateApprovalTask env cl run s =
     (if cr_CustomRef run \<noteq> None then
        (case ApprovalTasks_Get cl (om_Namespace (cr_Meta run)) (om_Name (cr_Meta run)) s of
           ((got, err), s1) \<Rightarrow>
             (case err of
                Some e \<Rightarrow>
                  if IsNotFound e
                  then (case createApprovalTask env cl run s1 of
                          (Inl e2, s2) \<Rightarrow> (Inl e2, run, s2)
                        | (Inr at, s2) \<Rightarrow> (Inr at, run, s2))
                  else (Inr got, run, s1)
              | None \<Rightarrow> (Inr got, run, s1)))
      else case cr_CustomSpec run of
        Some es \<Rightarrow>
          (case e_unmarshal_spec env (es_Raw es) of
             Inl err \<Rightarrow>
               (let message = ''Error retrieving ApprovalTask for Run '' @ run_key run @ '': '' @ err
                in (Inl (WrapErr message (PlainErr err)),
                    run\<lparr>cr_Status := MarkCustomRunFailed (e_now env)
                          (reason_String ReasonCouldntGetApprovalTask) message (cr_Status run)\<rparr>, s))
           | Inr sp \<Rightarrow> (Inr (empty_task\<lparr>at_Spec := sp\<rparr>), run, s))
      | None \<Rightarrow> (Inr empty_task, run, s))"

end
