(* ===== verification/Reconciler.thy ===== *)
theory Reconciler
  imports Create_Task
begin

text \<open>
  The controller (\<open>pkg/reconciler/approvaltask/approvaltask.go\<close> and the functions of \<open>utils.go\<close> that
  it calls): \<open>ReconcileKind\<close> and \<open>reconcile\<close>, as functions of the run, the surroundings \<open>env\<close> and the
  world, which is the state behind the API client, the events emitted and the patches sent.
\<close>

record 's world =
  w_api :: 's
  w_events :: "event list"
  w_patches :: "(string \<times> string \<times> string) list"

subsection \<open>Starting a run\<close>

definition initializeCustomRun :: "env \<Rightarrow> custom_run \<Rightarrow> event list \<Rightarrow> custom_run \<times> event list" where
  "initializeCustomRun env run evs =
     (if run_HasStarted run then (run, evs)
      else let st = InitializeConditions (e_now_init env) (cr_Status run);
               start = (case crs_StartTime st of None \<Rightarrow> 0 | Some t \<Rightarrow> t);
               st' = (if TimeSub start (om_CreationTimestamp (cr_Meta run)) < 0
                      then st\<lparr>crs_StartTime := Some (om_CreationTimestamp (cr_Meta run))\<rparr> else st);
               run' = run\<lparr>cr_Status := st'\<rparr>
           in (run', Emit None (run_condition run') evs))"

subsection \<open>Bookkeeping on the run\<close>

definition storeApprovalTaskSpec :: "approval_task_run_status \<Rightarrow> approval_task_spec \<Rightarrow> approval_task_run_status" where
  "storeApprovalTaskSpec status spec =
     (if rs_ApprovalTaskSpec status = None then status\<lparr>rs_ApprovalTaskSpec := Some spec\<rparr> else status)"

abbreviation (input) "approvaltaskLabelKey \<equiv> ''/approvaltask''"

definition map_or_new :: "str_map option \<Rightarrow> str_map" where
  "map_or_new m = (case m of None \<Rightarrow> fmempty | Some f \<Rightarrow> f)"

definition propagateApprovalTaskLabelsAndAnnotations :: "custom_run \<Rightarrow> object_meta \<Rightarrow> custom_run" where
  "propagateApprovalTaskLabelsAndAnnotations run meta =
     run\<lparr>cr_Meta := (cr_Meta run)
       \<lparr>om_Labels := Some (fmupd (GroupName @ approvaltaskLabelKey) (om_Name meta)
           (copy_entries (om_Labels meta) (map_or_new (om_Labels (cr_Meta run))))),
        om_Annotations := Some
           (copy_entries (om_Annotations meta) (map_or_new (om_Annotations (cr_Meta run))))\<rparr>\<rparr>"

definition marshal_map :: "str_map option \<Rightarrow> string" where
  "marshal_map m =
     (case m of
        None \<Rightarrow> ''null''
      | Some f \<Rightarrow> marshal_object (map (\<lambda>(k, v). (k, marshal_string v)) (sorted_list_of_fmap f)))"

definition label_patch :: "object_meta \<Rightarrow> string" where
  "label_patch meta =
     marshal_object [(''metadata'', marshal_object
       [(''annotations'', marshal_map (om_Annotations meta)), (''labels'', marshal_map (om_Labels meta))])]"

definition updateLabelsAndAnnotations :: "env \<Rightarrow> custom_run \<Rightarrow> 's world \<Rightarrow> go_error option \<times> 's world" where
  "updateLabelsAndAnnotations env run w =
     (let ns = om_Namespace (cr_Meta run); name = om_Name (cr_Meta run)
      in case e_run_lister env ns name of
           Inl e \<Rightarrow> (Some (WrapErr (''error getting Run '' @ name @ '' when updating labels/annotations'') e), w)
         | Inr newRun \<Rightarrow>
             if om_Labels (cr_Meta run) \<noteq> om_Labels (cr_Meta newRun)
                \<or> om_Annotations (cr_Meta run) \<noteq> om_Annotations (cr_Meta newRun)
             then let patch = label_patch (cr_Meta run)
                  in (e_patch env ns name patch, w\<lparr>w_patches := w_patches w @ [(ns, name, patch)]\<rparr>)
             else (None, w))"

subsection \<open>The state of the task\<close>

text \<open>
  \<open>updateApprovalState\<close> works on the caller's copy of the task, which is the second component; what
  it returns the caller drops, but for the error.
\<close>

definition updateApprovalState ::
  "env \<Rightarrow> 's at_client \<Rightarrow> approval_task \<Rightarrow> 's \<Rightarrow> go_error option \<times> approval_task \<times> 's" where
  "updateApprovalState env cl task s =
     (case decideState (e_map_order env) task of
        (task', False) \<Rightarrow> (None, task', s)
      | (task', True) \<Rightarrow>
          (case ApprovalTasks_UpdateStatus cl (at_namespace task') task' s of
             ((_, err), s') \<Rightarrow> (err, task', s')))"

text \<open>The switch over the task's state.\<close>

definition mark_run :: "env \<Rightarrow> string \<Rightarrow> custom_run \<Rightarrow> custom_run" where
  "mark_run env state run =
     (if state = pendingState then run
      else if state = rejectedState
      then run\<lparr>cr_Status := MarkCustomRunFailed (e_now env) (reason_String ReasonFailed)
             (Sprintf0 ''Approval Task denied'') (cr_Status run)\<rparr>
      else if state = approvedState
      then run\<lparr>cr_Status := MarkCustomRunSucceeded (e_now env) (reason_String ReasonSucceeded)
             (Sprintf0 ''TaskRun succeeded'') (cr_Status run)\<rparr>
      else run)"

definition hash_changed :: "env \<Rightarrow> approval_task \<Rightarrow> bool" where
  "hash_changed env task \<longleftrightarrow>
     Compute (sp_Approvers (at_Spec task))
       \<noteq> map_index (om_Annotations (at_Meta task)) LastAppliedHashKey"

definition checkIfUpdateRequired ::
  "env \<Rightarrow> 's at_client \<Rightarrow> approval_task \<Rightarrow> custom_run \<Rightarrow> 's \<Rightarrow> go_error option \<times> custom_run \<times> 's" where
  "checkIfUpdateRequired env cl task run s =
     (if hash_changed env task
      then (case updateApprovalState env cl task s of
              (Some e, _, s') \<Rightarrow> (Some e, run, s')
            | (None, task', s') \<Rightarrow> (None, mark_run env (st_State (at_Status task')) run, s'))
      else (None, run, s))"

subsection \<open>One reconciliation\<close>

abbreviation (input) second :: duration where "second \<equiv> 1000000000"
abbreviation (input) default_timeout :: duration where "default_timeout \<equiv> 3600000000000"

definition run_timeout :: "custom_run \<Rightarrow> duration" where
  "run_timeout run = (case cr_Timeout run of None \<Rightarrow> default_timeout | Some d \<Rightarrow> d)"

definition start_task :: "approval_task \<Rightarrow> approval_task" where
  "start_task task =
     (if \<not> HasStarted task
      then task\<lparr>at_Status := (at_Status task)\<lparr>st_StartTime := Some (om_CreationTimestamp (at_Meta task))\<rparr>\<rparr>
      else task)"

definition timeout_message :: "string \<Rightarrow> string" where
  "timeout_message name = ''Approval task '' @ name @ '' is failed because of timeout''"

text \<open>What follows once the task is at hand: the timeout, else the update, and the delay.\<close>

definition reconcile_task ::
  "env \<Rightarrow> 's at_client \<Rightarrow> approval_task \<Rightarrow> custom_run \<Rightarrow> 's \<Rightarrow> go_error option \<times> custom_run \<times> 's" where
  "reconcile_task env cl task run s =
     (let timeout = run_timeout run in
      if ApprovalTaskHasTimedOut task (e_clock_check env) timeout
      then let task' = task\<lparr>at_Status := (at_Status task)\<lparr>st_State := rejectedState\<rparr>\<rparr>
           in case ApprovalTasks_UpdateStatus cl (at_namespace task') task' s of
                ((_, Some e), s') \<Rightarrow> (Some e, run, s')
              | ((_, None), s') \<Rightarrow>
                  (None, run\<lparr>cr_Status := MarkCustomRunFailed (e_now env) (reason_String ReasonFailed)
                           (Sprintf0 (timeout_message (at_name task'))) (cr_Status run)\<rparr>, s')
      else case checkIfUpdateRequired env cl task run s of
             (Some e, run', s') \<Rightarrow> (Some e, run', s')
           | (None, run', s') \<Rightarrow>
               (case st_StartTime (at_Status task) of
                  Some start \<Rightarrow>
                    (let elapsed = TimeSub (e_clock_wait env) start;
                         waitTime = wrap64 (timeout - elapsed)
                     in (Some (NewRequeueAfter (if waitTime \<le> 0 then second else waitTime)), run', s'))
                | None \<Rightarrow> (None, run', s')))"

definition reconcile ::
  "env \<Rightarrow> 's at_client \<Rightarrow> custom_run \<Rightarrow> approval_task_run_status \<Rightarrow> 's
     \<Rightarrow> go_error option \<times> custom_run \<times> approval_task_run_status \<times> 's" where
  "reconcile env cl run status s =
     (case getOrCreateApprovalTask env cl run s of
        (Inl e, run', s') \<Rightarrow> (Some e, run', status, s')
      | (Inr task, run', s') \<Rightarrow>
          (let status' = storeApprovalTaskSpec status (at_Spec task);
               run2 = propagateApprovalTaskLabelsAndAnnotations run' (at_Meta task)
           in case reconcile_task env cl (start_task task) run2 s' of
                (err, run3, s3) \<Rightarrow> (err, run3, status', s3)))"

text \<open>The timeout parameter: the first one counts; an error is the code's message.\<close>

definition parse_timeout :: "env \<Rightarrow> custom_run \<Rightarrow> string + duration option" where
  "parse_timeout env run =
     (if cr_Timeout run \<noteq> None then Inr (cr_Timeout run)
      else case find (\<lambda>p. p_Name p = ''timeout'') (cr_Params run) of
             None \<Rightarrow> Inr None
           | Some p \<Rightarrow>
               (case ParseDuration (e_fraction env) (pv_StringVal (p_Value p)) of
                  Inl e \<Rightarrow> Inl e
                | Inr d \<Rightarrow> Inr (Some d)))"

definition empty_run_status :: approval_task_run_status where
  "empty_run_status = \<lparr>rs_ApprovalTaskSpec = None\<rparr>"

text \<open>The second half of \<open>ReconcileKind\<close>, for a run that has valid parameters and a timeout.\<close>

definition ReconcileKind_valid ::
  "env \<Rightarrow> 's at_client \<Rightarrow> custom_run \<Rightarrow> 's world \<Rightarrow> go_error option \<times> custom_run \<times> 's world" where
  "ReconcileKind_valid env cl run w =
     (let beforeCondition = run_condition run;
          (status, derr) = DecodeExtraFields (e_unmarshal_status env) (cr_Status run) empty_run_status;
          run1 = (case derr of
                    None \<Rightarrow> run
                  | Some e \<Rightarrow> run\<lparr>cr_Status := MarkCustomRunFailed (e_now_decode env)
                      (reason_String ReasonInternalError)
                      (''Internal error calling DecodeExtraFields: '' @ e) (cr_Status run)\<rparr>)
      in case reconcile env cl run1 status (w_api w) of
           (Some e, run2, _, s2) \<Rightarrow> (Some (multierror_Append None [Some e]), run2, w\<lparr>w_api := s2\<rparr>)
         | (None, run2, status2, s2) \<Rightarrow>
             (let (lerr, w2) = updateLabelsAndAnnotations env run2 (w\<lparr>w_api := s2\<rparr>);
                  merr = (case lerr of None \<Rightarrow> None | Some e \<Rightarrow> Some (multierror_Append None [Some e]));
                  run3 = run2\<lparr>cr_Status := EncodeExtraFields status2 (cr_Status run2)\<rparr>
              in (merr, run3, w2\<lparr>w_events := Emit beforeCondition (run_condition run3) (w_events w2)\<rparr>)))"

definition ReconcileKind ::
  "env \<Rightarrow> 's at_client \<Rightarrow> custom_run \<Rightarrow> 's world \<Rightarrow> go_error option \<times> custom_run \<times> 's world" where
  "ReconcileKind env cl run w =
     (case checkCustomRunReferencesApprovalTask run of
        Some e \<Rightarrow> (Some (PlainErr e), run, w)
      | None \<Rightarrow>
          (let (run1, evs) = initializeCustomRun env run (w_events w);
               w1 = w\<lparr>w_events := evs\<rparr>
           in if IsDone run1 then (None, run1, w1)
              else case ValidateCustomRunParameters (e_unmarshal_json env) run1 of
                Some e \<Rightarrow>
                  (let detailedMsg = ''ApprovalTask validation failed: '' @ e;
                       reason = reason_String ReasonFailedValidation
                   in (None,
                       run1\<lparr>cr_Status := MarkCustomRunFailed (e_now env) reason (Sprintf0 detailedMsg) (cr_Status run1)\<rparr>,
                       w1\<lparr>w_events := Emit None (Some (new_condition ConditionSucceeded ''False'' [] reason detailedMsg))
                              (w_events w1)\<rparr>))
              | None \<Rightarrow>
                  (case parse_timeout env run1 of
                     Inl e \<Rightarrow>
                       (None,
                        run1\<lparr>cr_Status := MarkCustomRunFailed (e_now env) (reason_String ReasonFailedValidation)
                          (Sprintf0 (''Invalid timeout parameter: '' @ e)) (cr_Status run1)\<rparr>, w1)
                   | Inr d \<Rightarrow> ReconcileKind_valid env cl (run1\<lparr>cr_Timeout := d\<rparr>) w1)))"

text \<open>
  The patch that the package prepares for cancelling a task run, as JSON text; nothing reads it. The
  value of a \<open>JsonPatchOperation\<close> is a string here.
\<close>

definition patch_MarshalJSON :: "string \<Rightarrow> string \<Rightarrow> string \<Rightarrow> string" where
  "patch_MarshalJSON op path v =
     marshal_object [(''op'', marshal_string op), (''path'', marshal_string path), (''value'', marshal_string v)]"

definition cancelPatchBytes :: string where
  "cancelPatchBytes = marshal_array [patch_MarshalJSON ''add'' ''/spec/status'' ''TaskRunCancelled'']"

end
