(* ===== verification/Verdict.thy ===== *)
theory Verdict
  imports Approval_State
begin

text \<open>
  The abstract specification of a decision. A task's verdict is a function of three things only:
  whether anybody's answer counts, whether somebody rejected, and how many people approved. The
  controller's \<open>decideState\<close> refines it. Verdicts are ordered: undecided below approved below
  rejected, and more votes never lower one.
\<close>

datatype verdict = Undecided | Approved | Rejected

instantiation verdict :: linorder
begin

fun rank :: "verdict \<Rightarrow> nat" where
  "rank Undecided = 0"
| "rank Approved = 1"
| "rank Rejected = 2"

definition less_eq_verdict :: "verdict \<Rightarrow> verdict \<Rightarrow> bool" where
  "less_eq_verdict v w \<longleftrightarrow> rank v \<le> rank w"

definition less_verdict :: "verdict \<Rightarrow> verdict \<Rightarrow> bool" where
  "less_verdict v w \<longleftrightarrow> rank v < rank w"

instance
proof
  fix u v w :: verdict
  show "u < v \<longleftrightarrow> u \<le> v \<and> \<not> v \<le> u" by (auto simp: less_eq_verdict_def less_verdict_def)
  show "u \<le> u" by (simp add: less_eq_verdict_def)
  show "u \<le> v \<Longrightarrow> v \<le> w \<Longrightarrow> u \<le> w" by (simp add: less_eq_verdict_def)
  show "u \<le> v \<Longrightarrow> v \<le> u \<Longrightarrow> u = v" by (cases u; cases v; simp add: less_eq_verdict_def)
  show "u \<le> v \<or> v \<le> u" by (auto simp: less_eq_verdict_def)
qed

end

definition decide :: "bool \<Rightarrow> bool \<Rightarrow> int \<Rightarrow> int \<Rightarrow> verdict" where
  "decide answered rejected approvals required =
     (if \<not> answered then Undecided
      else if rejected then Rejected
      else if required \<le> approvals then Approved
      else Undecided)"

lemma decide_mono:
  "(a \<longrightarrow> a') \<Longrightarrow> (r \<longrightarrow> r') \<Longrightarrow> n \<le> n' \<Longrightarrow> decide a r n k \<le> decide a' r' n' k"
  by (auto simp: decide_def less_eq_verdict_def)

subsection \<open>The verdict on a task\<close>

text \<open>Somebody's answer counts when some approver has a response.\<close>

definition answered :: "approver_details list \<Rightarrow> bool" where
  "answered as \<longleftrightarrow> (\<exists>a \<in> set as. response_of (individual_names as) a \<noteq> None)"

definition rejects :: "approver_details list \<Rightarrow> bool" where
  "rejects as \<longleftrightarrow> (\<exists>a \<in> set as. ad_Input a = hasRejected)"

definition task_verdict :: "approval_task \<Rightarrow> verdict" where
  "task_verdict task =
     (let as = sp_Approvers (at_Spec task)
      in decide (answered as) (rejects as) (int (card (approved_users as)))
           (sp_NumberOfApprovalsRequired (at_Spec task)))"

text \<open>The state a verdict is written as; an undecided task keeps the state it has.\<close>

fun verdict_state :: "verdict \<Rightarrow> string \<Rightarrow> string" where
  "verdict_state Undecided old = old"
| "verdict_state Approved old = approvedState"
| "verdict_state Rejected old = rejectedState"

lemma AList_update_nonempty: "AList.update k v al \<noteq> []"
  by (cases al) auto

lemma user_pass_empty:
  "fst (user_pass as (cur, proc)) = [] \<longleftrightarrow> cur = [] \<and> (\<forall>a \<in> set as. \<not> (responded a \<and> is_user a))"
  by (induction as arbitrary: cur proc) (auto simp: AList_update_nonempty)

lemma group_pass_empty:
  "group_pass proc as cur = [] \<longleftrightarrow>
     cur = [] \<and> (\<forall>a \<in> set as. responded a \<and> is_group a \<longrightarrow> group_response proc a = None)"
proof (induction as arbitrary: cur)
  case (Cons a as)
  show ?case
    by (simp add: Cons.IH AList_update_nonempty split: option.split)
qed simp

lemma currentApprovers_empty: "currentApprovers as = [] \<longleftrightarrow> \<not> answered as"
proof -
  obtain cur proc where up: "user_pass as ([], {}) = (cur, proc)" by force
  have proc: "proc = individual_names as" using user_pass_snd [of as "[]" "{}"] up by simp
  have cur: "cur = [] \<longleftrightarrow> (\<forall>a \<in> set as. \<not> (responded a \<and> is_user a))"
    using user_pass_empty [of as "[]" "{}"] up by simp
  show ?thesis
    unfolding answered_def currentApprovers_def up
    by (auto simp: group_pass_empty cur proc response_of_def dest: is_user_not_group)
qed

theorem decideState_refines:
  "st_State (at_Status (fst (decideState ord task))) =
     verdict_state (task_verdict task) (st_State (at_Status task))"
  by (simp add: decideState_def Let_def task_verdict_def decide_def currentApprovers_empty
      approvalTaskHasFalseInput_eq approvalTaskHasTrueInput_eq countApprovalsReceived_eq rejects_def)

lemma decideState_writes: "snd (decideState ord task) \<longleftrightarrow> answered (sp_Approvers (at_Spec task))"
  by (simp add: decideState_def Let_def currentApprovers_empty)

lemma decideState_spec [simp]:
  "at_Spec (fst (decideState ord task)) = at_Spec task"
  "at_Meta (fst (decideState ord task)) = at_Meta task"
  by (simp_all add: decideState_def Let_def)

lemma decideState_frame:
  "st_StartTime (at_Status (fst (decideState ord task))) = st_StartTime (at_Status task)"
  "st_Approvers (at_Status (fst (decideState ord task))) = st_Approvers (at_Status task)"
  by (simp_all add: decideState_def Let_def)

lemma decideState_response:
  "st_ApproversResponse (at_Status (fst (decideState ord task))) =
     (if answered (sp_Approvers (at_Spec task)) then ord (map snd (currentApprovers (sp_Approvers (at_Spec task)))) else [])"
  by (simp add: decideState_def Let_def currentApprovers_empty)

lemma decideState_counts:
  "answered (sp_Approvers (at_Spec task)) \<Longrightarrow>
     st_ApprovalsReceived (at_Status (fst (decideState ord task))) = int (card (approved_users (sp_Approvers (at_Spec task))))
     \<and> st_ApprovalsRequired (at_Status (fst (decideState ord task))) = sp_NumberOfApprovalsRequired (at_Spec task)"
  by (simp add: decideState_def Let_def currentApprovers_empty countApprovalsReceived_eq)

text \<open>Deciding twice is deciding once: nothing in the result feeds back.\<close>

lemma decideState_idem: "decideState ord (fst (decideState ord task)) = decideState ord task"
  by (auto simp: decideState_def Let_def approvalTaskHasFalseInput_def approvalTaskHasTrueInput_def
      countApprovalsReceived_def)

end
