(* ===== verification/Webhook_Validate.thy ===== *)
theory Webhook_Validate
  imports Api_Types Param_Validation
begin

text \<open>
  The structural checks the admission webhook makes on every ApprovalTask
  (\<open>pkg/reconciler/webhook/webhook.go\<close>, \<open>validateApprovalTask\<close> to \<open>validateApproverInputsForCreate\<close>),
  with the texts the user reads, and what an accepted spec looks like.
\<close>

subsection \<open>Names and inputs\<close>

definition validateNameFormat :: "string \<Rightarrow> string \<Rightarrow> error" where
  "validateNameFormat name fieldType =
     (if TrimSpace name = [] then Some (fieldType @ '' cannot be empty'')
      else if Contains name '' '' then Some (fieldType @ '' cannot contain spaces'')
      else nil)"

definition validateUserName :: "string \<Rightarrow> error" where
  "validateUserName name =
     (if TrimSpace name = [] then Some ''username cannot be empty''
      else if HasPrefix name ''group:''
        then Some (''username cannot start with '' @ quoted ''group:'' @ '' prefix - use type: Group for group approvers'')
      else nil)"

definition validateGroupName :: "string \<Rightarrow> error" where
  "validateGroupName name =
     (case validateNameFormat name ''group name'' of
        Some e \<Rightarrow> Some e
      | None \<Rightarrow>
          if Contains name '':'' then Some ''group name cannot contain colons'' else nil)"

fun webhookContains :: "string list \<Rightarrow> string \<Rightarrow> bool" where
  "webhookContains [] item = False"
| "webhookContains (s # ss) item = (s = item \<or> webhookContains ss item)"

definition validInputs :: "string list" where
  "validInputs = [''pending'', ''approve'', ''reject'']"

definition input_error :: "string \<Rightarrow> string \<Rightarrow> error" where
  "input_error fieldPath input =
     (if \<not> webhookContains validInputs input
      then Some (fieldPath @ ''.input: must be one of: '' @ Join validInputs '', '' @ '', got '' @ quoted input)
      else nil)"

subsection \<open>An approver\<close>

text \<open>The loop over the users of a group; \<open>groupUsers\<close> maps a name to its index.\<close>

fun validate_users :: "string \<Rightarrow> nat \<Rightarrow> user_details list \<Rightarrow> (string, nat) fmap \<Rightarrow> error" where
  "validate_users fieldPath j [] groupUsers = nil"
| "validate_users fieldPath j (u # us) groupUsers =
     (let userFieldPath = fieldPath @ ''.users['' @ Itoa (int j) @ '']'' in
      if TrimSpace (ud_Name u) = [] then Some (userFieldPath @ ''.name: required field is missing'')
      else case validateUserName (ud_Name u) of
        Some e \<Rightarrow> Some (userFieldPath @ ''.name: '' @ e)
      | None \<Rightarrow>
          (case fmlookup groupUsers (ud_Name u) of
             Some i \<Rightarrow> Some (userFieldPath @ ''.name: duplicate user '' @ quoted (ud_Name u)
                 @ '' within group (also found at '' @ fieldPath @ ''.users['' @ Itoa (int i) @ ''])'')
           | None \<Rightarrow>
               (case input_error userFieldPath (ud_Input u) of
                  Some e \<Rightarrow> Some e
                | None \<Rightarrow> validate_users fieldPath (Suc j) us (fmupd (ud_Name u) j groupUsers))))"

definition validateApprover :: "approver_details \<Rightarrow> string \<Rightarrow> error" where
  "validateApprover a fieldPath =
     (if \<not> is_user a \<and> \<not> is_group a
      then Some (fieldPath @ ''.type: must be either '' @ quoted ''User'' @ '' or '' @ quoted ''Group''
             @ '', got '' @ quoted (ad_Type a))
      else case (if is_user a then validateUserName (ad_Name a) else validateGroupName (ad_Name a)) of
        Some e \<Rightarrow> Some (fieldPath @ ''.name: '' @ e)
      | None \<Rightarrow>
          (case input_error fieldPath (ad_Input a) of
             Some e \<Rightarrow> Some e
           | None \<Rightarrow>
               if is_group a then validate_users fieldPath 0 (ad_Users a) fmempty else nil))"

subsection \<open>A spec\<close>

definition approver_key :: "approver_details \<Rightarrow> string" where
  "approver_key a = DefaultedApproverType (ad_Type a) @ '':'' @ ad_Name a"

fun validate_approvers :: "nat \<Rightarrow> approver_details list \<Rightarrow> (string, nat) fmap \<Rightarrow> error" where
  "validate_approvers i [] names = nil"
| "validate_approvers i (a # as) names =
     (let fieldPath = ''approvers['' @ Itoa (int i) @ '']'' in
      case validateApprover a fieldPath of
        Some e \<Rightarrow> Some e
      | None \<Rightarrow>
          (case fmlookup names (approver_key a) of
             Some j \<Rightarrow> Some (fieldPath @ ''.name: duplicate approver '' @ quoted (ad_Name a)
                 @ '' (also found at approvers['' @ Itoa (int j) @ ''])'')
           | None \<Rightarrow> validate_approvers (Suc i) as (fmupd (approver_key a) i names)))"

definition validateApprovalTaskSpec :: "approval_task_spec \<Rightarrow> error" where
  "validateApprovalTaskSpec spec =
     (if sp_NumberOfApprovalsRequired spec \<le> 0
      then Some (''numberOfApprovalsRequired: must be greater than 0, got ''
             @ Itoa (sp_NumberOfApprovalsRequired spec))
      else if sp_Approvers spec = [] then Some ''approvers: required field is missing''
      else validate_approvers 0 (sp_Approvers spec) fmempty)"

definition validateApprovalTask :: "approval_task \<Rightarrow> error" where
  "validateApprovalTask task =
     (case validateApprovalTaskSpec (at_Spec task) of
        Some e \<Rightarrow> Some (''spec validation failed: '' @ e)
      | None \<Rightarrow> nil)"

subsection \<open>Inputs of a new task\<close>

fun create_users_loop :: "nat \<Rightarrow> nat \<Rightarrow> user_details list \<Rightarrow> error" where
  "create_users_loop i j [] = nil"
| "create_users_loop i j (u # us) =
     (if ud_Input u \<noteq> ''pending''
      then Some (''approvers['' @ Itoa (int i) @ ''].users['' @ Itoa (int j)
             @ ''].input: must be '' @ quoted ''pending'' @ '' for new ApprovalTask, got '' @ quoted (ud_Input u))
      else create_users_loop i (Suc j) us)"

fun create_inputs_loop :: "nat \<Rightarrow> approver_details list \<Rightarrow> error" where
  "create_inputs_loop i [] = nil"
| "create_inputs_loop i (a # as) =
     (if ad_Input a \<noteq> ''pending''
      then Some (''approvers['' @ Itoa (int i) @ ''].input: must be '' @ quoted ''pending''
             @ '' for new ApprovalTask, got '' @ quoted (ad_Input a))
      else case (if is_group a then create_users_loop i 0 (ad_Users a) else nil) of
        Some e \<Rightarrow> Some e
      | None \<Rightarrow> create_inputs_loop (Suc i) as)"

definition validateApproverInputsForCreate :: "approval_task \<Rightarrow> error" where
  "validateApproverInputsForCreate task = create_inputs_loop 0 (sp_Approvers (at_Spec task))"

subsection \<open>What is accepted\<close>

definition user_name_ok :: "string \<Rightarrow> bool" where
  "user_name_ok n \<longleftrightarrow> \<not> blank n \<and> \<not> HasPrefix n ''group:''"

definition input_ok :: "string \<Rightarrow> bool" where
  "input_ok i \<longleftrightarrow> i = ''pending'' \<or> i = ''approve'' \<or> i = ''reject''"

definition users_ok :: "user_details list \<Rightarrow> bool" where
  "users_ok us \<longleftrightarrow> distinct (map ud_Name us) \<and> (\<forall>u \<in> set us. user_name_ok (ud_Name u) \<and> input_ok (ud_Input u))"

definition approver_ok :: "approver_details \<Rightarrow> bool" where
  "approver_ok a \<longleftrightarrow>
     input_ok (ad_Input a) \<and>
     (is_user a \<and> user_name_ok (ad_Name a)
      \<or> is_group a \<and> group_name_ok (ad_Name a) \<and> users_ok (ad_Users a))"

definition spec_ok :: "approval_task_spec \<Rightarrow> bool" where
  "spec_ok spec \<longleftrightarrow>
     0 < sp_NumberOfApprovalsRequired spec \<and> sp_Approvers spec \<noteq> []
     \<and> (\<forall>a \<in> set (sp_Approvers spec). approver_ok a)
     \<and> distinct (map (\<lambda>a. (is_user a, ad_Name a)) (sp_Approvers spec))"

definition all_pending :: "approver_details list \<Rightarrow> bool" where
  "all_pending as \<longleftrightarrow>
     (\<forall>a \<in> set as. ad_Input a = ''pending'' \<and> (is_group a \<longrightarrow> (\<forall>u \<in> set (ad_Users a). ud_Input u = ''pending'')))"

lemma webhookContains_iff [simp]: "webhookContains xs x \<longleftrightarrow> x \<in> set xs"
  by (induction xs) auto

lemma input_error_iff: "input_error p i = None \<longleftrightarrow> input_ok i"
  by (auto simp: input_error_def input_ok_def validInputs_def)

lemma validateUserName_iff: "validateUserName n = None \<longleftrightarrow> user_name_ok n"
  by (simp add: validateUserName_def user_name_ok_def TrimSpace_empty_iff)

lemma validateGroupName_iff: "validateGroupName n = None \<longleftrightarrow> group_name_ok n"
  by (auto simp: validateGroupName_def validateNameFormat_def group_name_ok_def TrimSpace_empty_iff
      Contains_char)

lemma validate_users_iff:
  "validate_users p j us seen = None \<longleftrightarrow>
     users_ok us \<and> (\<forall>u \<in> set us. fmlookup seen (ud_Name u) = None)"
proof (induction us arbitrary: j seen)
  case (Cons u us)
  show ?case
    by (auto simp: Let_def users_ok_def input_error_iff validateUserName_iff TrimSpace_empty_iff
        user_name_ok_def Cons.IH)
qed (simp add: users_ok_def)

lemma validateApprover_iff: "validateApprover a p = None \<longleftrightarrow> approver_ok a"
  using is_user_not_group [of a]
  by (auto simp: validateApprover_def approver_ok_def input_error_iff validateUserName_iff
      validateGroupName_iff validate_users_iff)

lemma approver_key_inj:
  assumes "approver_ok a" and "approver_ok b"
  shows "approver_key a = approver_key b \<longleftrightarrow> is_user a = is_user b \<and> ad_Name a = ad_Name b"
  using assms by (auto simp: approver_key_def approver_ok_def is_user_def is_group_def)

lemma validate_approvers_iff:
  "\<forall>k. fmlookup seen k \<noteq> None \<longrightarrow> (\<exists>a. approver_ok a \<and> k = approver_key a) \<Longrightarrow>
   validate_approvers i as seen = None \<longleftrightarrow>
     (\<forall>a \<in> set as. approver_ok a) \<and> distinct (map (\<lambda>a. (is_user a, ad_Name a)) as)
     \<and> (\<forall>a \<in> set as. fmlookup seen (approver_key a) = None)"
proof (induction as arbitrary: i seen)
  case (Cons a as)
  show ?case
  proof (cases "approver_ok a \<and> fmlookup seen (approver_key a) = None")
    case True
    then have "\<forall>k. fmlookup (fmupd (approver_key a) i seen) k \<noteq> None \<longrightarrow> (\<exists>a. approver_ok a \<and> k = approver_key a)"
      using Cons.prems by auto
    note IH = Cons.IH [OF this, of "Suc i"]
    have key: "(is_user a, ad_Name a) \<in> (\<lambda>a. (is_user a, ad_Name a)) ` set as \<longleftrightarrow>
        (\<exists>b \<in> set as. approver_key a = approver_key b)" if "\<forall>b \<in> set as. approver_ok b"
      using True that by (auto simp: approver_key_inj)
    have "validate_approvers i (a # as) seen = None \<longleftrightarrow>
        (\<forall>a \<in> set as. approver_ok a) \<and> distinct (map (\<lambda>a. (is_user a, ad_Name a)) as)
        \<and> (\<forall>b \<in> set as. approver_key a \<noteq> approver_key b \<and> fmlookup seen (approver_key b) = None)"
      using True IH by (auto simp: Let_def validateApprover_iff)
    also have "\<dots> \<longleftrightarrow> (\<forall>a \<in> set (a # as). approver_ok a)
        \<and> distinct (map (\<lambda>a. (is_user a, ad_Name a)) (a # as))
        \<and> (\<forall>b \<in> set (a # as). fmlookup seen (approver_key b) = None)"
      using True key by (simp del: image_iff) blast
    finally show ?thesis .
  next
    case False
    then show ?thesis
      by (auto simp: Let_def validateApprover_iff)
  qed
qed simp

lemma validateApprovalTaskSpec_iff: "validateApprovalTaskSpec spec = None \<longleftrightarrow> spec_ok spec"
  by (auto simp: validateApprovalTaskSpec_def spec_ok_def validate_approvers_iff)

lemma validateApprovalTask_iff: "validateApprovalTask task = None \<longleftrightarrow> spec_ok (at_Spec task)"
  by (simp add: validateApprovalTask_def validateApprovalTaskSpec_iff)

lemma create_users_loop_iff: "create_users_loop i j us = None \<longleftrightarrow> (\<forall>u \<in> set us. ud_Input u = ''pending'')"
  by (induction us arbitrary: j) auto

lemma create_inputs_loop_iff: "create_inputs_loop i as = None \<longleftrightarrow> all_pending as"
  by (induction as arbitrary: i) (auto simp: all_pending_def create_users_loop_iff)

lemma validateApproverInputsForCreate_iff:
  "validateApproverInputsForCreate task = None \<longleftrightarrow> all_pending (sp_Approvers (at_Spec task))"
  by (simp add: validateApproverInputsForCreate_def create_inputs_loop_iff)

end
