(* ===== verification/Webhook_Admit.thy ===== *)
theory Webhook_Admit
  imports Webhook_Validate
begin

text \<open>
  The admission decision (\<open>pkg/reconciler/webhook/webhook.go\<close>, \<open>Admit\<close> and the checks of an update).
  Decoding the raw objects is the argument \<open>decode\<close>, which is given \<open>disallowUnknownFields\<close>. The
  update checks index the new list of approvers with positions of the old one; out of range that is
  a panic in Go and \<open>Panic\<close> here.
\<close>

subsection \<open>Requests and responses\<close>

record user_info =
  ui_Username :: string
  ui_Groups :: "string list"

record admission_request =
  rq_Operation :: string
  rq_Object :: string
  rq_OldObject :: string
  rq_UserInfo :: user_info

record admission_response =
  resp_Allowed :: bool
  resp_Message :: string
  resp_Code :: int

definition allowed :: admission_response where
  "allowed = \<lparr>resp_Allowed = True, resp_Message = [], resp_Code = 0\<rparr>"

definition denied :: "string \<Rightarrow> admission_response" where
  "denied msg = \<lparr>resp_Allowed = False, resp_Message = msg, resp_Code = 0\<rparr>"

definition MakeErrorStatus :: "string \<Rightarrow> admission_response" where
  "MakeErrorStatus msg = \<lparr>resp_Allowed = False, resp_Message = msg, resp_Code = 400\<rparr>"

definition decodeObject :: "(string \<Rightarrow> string + approval_task) \<Rightarrow> string \<Rightarrow> string + approval_task" where
  "decodeObject decode bytes = (if bytes = [] then Inr empty_task else decode bytes)"

subsection \<open>Who may act, and when\<close>

definition ifUserExists :: "approver_details list \<Rightarrow> user_info \<Rightarrow> bool" where
  "ifUserExists approvals user \<longleftrightarrow>
     approvals = [] \<or>
     list_ex (\<lambda>a. if is_user a then ad_Name a = ui_Username user
                  else if is_group a
                  then list_ex (\<lambda>g. ad_Name a = g) (ui_Groups user)
                    \<or> list_ex (\<lambda>u. ud_Name u = ui_Username user) (ad_Users a)
                  else False) approvals"

fun count_members :: "user_details list \<Rightarrow> string set \<Rightarrow> string set" where
  "count_members [] acc = acc"
| "count_members (u # us) acc =
     count_members us (if ud_Input u = ''approve'' then insert (ud_Name u) acc else acc)"

fun count_approvers :: "approver_details list \<Rightarrow> string set \<Rightarrow> string set" where
  "count_approvers [] acc = acc"
| "count_approvers (a # as) acc =
     count_approvers as
       (if ad_Input a \<noteq> ''approve'' then acc
        else if is_user a then insert (ad_Name a) acc
        else if is_group a then count_members (ad_Users a) acc
        else acc)"

definition isApprovalRequired :: "approval_task \<Rightarrow> bool" where
  "isApprovalRequired task \<longleftrightarrow>
     (if st_State (at_Status task) = ''rejected'' \<or> st_State (at_Status task) = ''approved'' then False
      else if sp_NumberOfApprovalsRequired (at_Spec task)
                \<le> int (card (count_approvers (sp_Approvers (at_Spec task)) {})) then False
      else True)"

subsection \<open>The user's own change\<close>

definition hasValidInputValue :: "string \<Rightarrow> error" where
  "hasValidInputValue input =
     (if input = ''approve'' \<or> input = ''reject'' then nil
      else Some (''invalid input value: '' @ quoted input @ ''. Supported values are ''
             @ quoted ''approve'' @ '' or '' @ quoted ''reject''))"

text \<open>A change to this input: an error when the value is not a decision.\<close>

definition valid_change :: "string \<Rightarrow> string + bool" where
  "valid_change input = (case hasValidInputValue input of Some e \<Rightarrow> Inl e | None \<Rightarrow> Inr True)"

definition hasOnlyInputChanged :: "approver_details \<Rightarrow> approver_details \<Rightarrow> string + bool" where
  "hasOnlyInputChanged old new =
     (if ad_Name old = ad_Name new \<and> ad_Input old \<noteq> ad_Input new then valid_change (ad_Input new)
      else Inr False)"

definition find_user :: "string \<Rightarrow> user_details list \<Rightarrow> user_details option" where
  "find_user name us = find (\<lambda>u. ud_Name u = name) us"

definition isUserInGroup :: "approver_details \<Rightarrow> user_info \<Rightarrow> bool" where
  "isUserInGroup a user \<longleftrightarrow>
     list_ex (\<lambda>g. ad_Name a = g) (ui_Groups user) \<or> find_user (ui_Username user) (ad_Users a) \<noteq> None"

text \<open>
  A group the user belongs to: \<open>None\<close> when the loop goes on to the next approver. The new approver
  is \<open>None\<close> past the end of the new list.
\<close>

definition group_change :: "approver_details \<Rightarrow> approver_details option \<Rightarrow> user_info \<Rightarrow> (string + bool) option" where
  "group_change a new user =
     (let old_user = find_user (ui_Username user) (ad_Users a);
          new_user = (case new of None \<Rightarrow> None | Some b \<Rightarrow> find_user (ui_Username user) (ad_Users b))
      in case new of
           None \<Rightarrow> None
         | Some b \<Rightarrow>
             if ad_Input a \<noteq> ad_Input b then Some (valid_change (ad_Input b))
             else (case (old_user, new_user) of
                     (None, Some v) \<Rightarrow> Some (valid_change (ud_Input v))
                   | (Some u, Some v) \<Rightarrow>
                       if ud_Input u \<noteq> ud_Input v then Some (valid_change (ud_Input v)) else None
                   | _ \<Rightarrow> None))"

definition nth_opt :: "'a list \<Rightarrow> nat \<Rightarrow> 'a option" where
  "nth_opt xs i = (if i < length xs then Some (xs ! i) else None)"

fun IsUserApprovalChanged_loop ::
  "nat \<Rightarrow> approver_details list \<Rightarrow> approver_details list \<Rightarrow> user_info \<Rightarrow> (string + bool) outcome" where
  "IsUserApprovalChanged_loop i [] new user = Ret (Inr False)"
| "IsUserApprovalChanged_loop i (a # as) new user =
     (if ad_Name a = ui_Username user \<and> is_user a
      then (case nth_opt new i of
              None \<Rightarrow> Panic
            | Some b \<Rightarrow> Ret (hasOnlyInputChanged a b))
      else if is_group a \<and> isUserInGroup a user
      then (case group_change a (nth_opt new i) user of
              Some r \<Rightarrow> Ret r
            | None \<Rightarrow> IsUserApprovalChanged_loop (Suc i) as new user)
      else IsUserApprovalChanged_loop (Suc i) as new user)"

definition IsUserApprovalChanged ::
  "approver_details list \<Rightarrow> approver_details list \<Rightarrow> user_info \<Rightarrow> (string + bool) outcome" where
  "IsUserApprovalChanged old new user = IsUserApprovalChanged_loop 0 old new user"

subsection \<open>Everyone else's inputs\<close>

text \<open>\<open>oldUsers\<close> and \<open>newUsers\<close>: a later entry for a name replaces an earlier one.\<close>

definition user_inputs :: "user_details list \<Rightarrow> string \<Rightarrow> string option" where
  "user_inputs us = map_of (rev (map (\<lambda>u. (ud_Name u, ud_Input u)) us))"

definition group_unchanged :: "approver_details \<Rightarrow> approver_details option \<Rightarrow> user_info \<Rightarrow> bool" where
  "group_unchanged a new user \<longleftrightarrow>
     (let member = isUserInGroup a user;
          new_list = (case new of None \<Rightarrow> [] | Some b \<Rightarrow> ad_Users b);
          oldUsers = user_inputs (ad_Users a);
          newUsers = user_inputs new_list
      in (member \<or> (case new of None \<Rightarrow> True | Some b \<Rightarrow> ad_Input a = ad_Input b))
       \<and> list_all (\<lambda>n. n = ui_Username user \<or>
            (case (oldUsers n, newUsers n) of (Some x, Some y) \<Rightarrow> x = y | _ \<Rightarrow> True)) (map ud_Name (ad_Users a))
       \<and> list_all (\<lambda>n. oldUsers n \<noteq> None \<or> n = ui_Username user \<and> member) (map ud_Name new_list))"

fun CheckOtherUsers_loop ::
  "nat \<Rightarrow> approver_details list \<Rightarrow> approver_details list \<Rightarrow> user_info \<Rightarrow> bool outcome" where
  "CheckOtherUsers_loop i [] new user = Ret True"
| "CheckOtherUsers_loop i (a # as) new user =
     (if is_user a \<and> ad_Name a \<noteq> ui_Username user
      then (case nth_opt new i of
              None \<Rightarrow> Panic
            | Some b \<Rightarrow>
                if ad_Input a \<noteq> ad_Input b then Ret False
                else CheckOtherUsers_loop (Suc i) as new user)
      else if is_group a
      then if group_unchanged a (nth_opt new i) user
           then CheckOtherUsers_loop (Suc i) as new user
           else Ret False
      else CheckOtherUsers_loop (Suc i) as new user)"

definition CheckOtherUsersForInvalidChanges ::
  "approver_details list \<Rightarrow> approver_details list \<Rightarrow> user_info \<Rightarrow> bool outcome" where
  "CheckOtherUsersForInvalidChanges old new user = CheckOtherUsers_loop 0 old new user"

subsection \<open>Decisions already taken\<close>

fun desired_individual :: "approver_details list \<Rightarrow> user_info \<Rightarrow> string" where
  "desired_individual [] user = []"
| "desired_individual (a # as) user =
     (if is_user a \<and> ad_Name a = ui_Username user then ad_Input a else desired_individual as user)"

fun desired_group :: "approver_details list \<Rightarrow> user_info \<Rightarrow> string" where
  "desired_group [] user = []"
| "desired_group (a # as) user =
     (if \<not> is_group a then desired_group as user
      else let explicit = (case find_user (ui_Username user) (ad_Users a) of None \<Rightarrow> [] | Some u \<Rightarrow> ud_Input u)
           in if explicit \<noteq> [] then explicit
              else let by_group = (if list_ex (\<lambda>g. ad_Name a = g) (ui_Groups user) then ad_Input a else [])
                   in if by_group \<noteq> [] then by_group else desired_group as user)"

definition desiredInput :: "approver_details list \<Rightarrow> user_info \<Rightarrow> string" where
  "desiredInput as user =
     (let d = desired_individual as user in if d = [] then desired_group as user else d)"

definition decided_text :: "string \<Rightarrow> string \<Rightarrow> string option" where
  "decided_text response desired =
     (if response = ''approved'' \<and> desired = ''approve'' then Some ''User has already approved''
      else if response = ''rejected'' then Some ''User has already rejected''
      else None)"

fun decided_members :: "group_member_state list \<Rightarrow> string \<Rightarrow> user_info \<Rightarrow> string option" where
  "decided_members [] desired user = None"
| "decided_members (m # ms) desired user =
     (case (if gm_Name m = ui_Username user then decided_text (gm_Response m) desired else None) of
        Some t \<Rightarrow> Some t
      | None \<Rightarrow> decided_members ms desired user)"

fun decided_loop :: "approver_state list \<Rightarrow> string \<Rightarrow> user_info \<Rightarrow> string option" where
  "decided_loop [] desired user = None"
| "decided_loop (r # rs) desired user =
     (case (if DefaultedApproverType (as_Type r) = ''User'' \<and> as_Name r = ui_Username user
            then decided_text (as_Response r) desired else None) of
        Some t \<Rightarrow> Some t
      | None \<Rightarrow>
          (case (if DefaultedApproverType (as_Type r) = ''Group''
                 then decided_members (as_GroupMembers r) desired user else None) of
             Some t \<Rightarrow> Some t
           | None \<Rightarrow> decided_loop rs desired user))"

definition checkIfUserAlreadyDecided :: "approval_task \<Rightarrow> approval_task \<Rightarrow> user_info \<Rightarrow> string" where
  "checkIfUserAlreadyDecided old new user =
     (case decided_loop (st_ApproversResponse (at_Status old))
             (desiredInput (sp_Approvers (at_Spec new)) user) user of
        Some t \<Rightarrow> t
      | None \<Rightarrow> [])"

subsection \<open>Admit\<close>

definition Admit_update :: "approval_task \<Rightarrow> approval_task \<Rightarrow> user_info \<Rightarrow> admission_response outcome" where
  "Admit_update old new user =
     (if \<not> isApprovalRequired old
      then Ret (denied (''ApprovalTask has already reached it'' @ [CHR 0x27] @ ''s final state''))
      else if \<not> ifUserExists (sp_Approvers (at_Spec old)) user
      then Ret (denied ''User does not exist in the approval list'')
      else if checkIfUserAlreadyDecided old new user \<noteq> []
      then Ret (denied (checkIfUserAlreadyDecided old new user))
      else case IsUserApprovalChanged (sp_Approvers (at_Spec old)) (sp_Approvers (at_Spec new)) user of
        Panic \<Rightarrow> Panic
      | Ret (Inl e) \<Rightarrow> Ret (denied (''Invalid input change: '' @ e))
      | Ret (Inr False) \<Rightarrow> Ret (denied ''User can only update their own approval input'')
      | Ret (Inr True) \<Rightarrow>
          (case CheckOtherUsersForInvalidChanges (sp_Approvers (at_Spec old)) (sp_Approvers (at_Spec new)) user of
             Panic \<Rightarrow> Panic
           | Ret ok \<Rightarrow>
               if ok then Ret allowed
               else Ret (denied ''User can only update their own approval input'')))"

definition Admit :: "(string \<Rightarrow> string + approval_task) \<Rightarrow> admission_request \<Rightarrow> admission_response outcome" where
  "Admit decode request =
     (case decodeObject decode (rq_Object request) of
        Inl e \<Rightarrow> Ret (MakeErrorStatus (''cannot decode incoming new object: '' @ e))
      | Inr new \<Rightarrow>
          (case validateApprovalTask new of
             Some e \<Rightarrow> Ret (MakeErrorStatus (''validation failed: '' @ e))
           | None \<Rightarrow>
               if rq_Operation request = ''CREATE''
               then (case validateApproverInputsForCreate new of
                       Some e \<Rightarrow> Ret (MakeErrorStatus (''validation failed: '' @ e))
                     | None \<Rightarrow> Ret allowed)
               else if rq_Operation request \<noteq> ''UPDATE''
               then Ret (MakeErrorStatus (''unsupported operation: '' @ rq_Operation request))
               else (case decodeObject decode (rq_OldObject request) of
                       Inl e \<Rightarrow> Ret (MakeErrorStatus (''cannot decode incoming old object: '' @ e))
                     | Inr old \<Rightarrow> Admit_update old new (rq_UserInfo request))))"

end
