(* ===== verification/Webhook_Facts.thy ===== *)
theory Webhook_Facts
  imports Webhook_Admit Approval_State
begin

text \<open>
  What the webhook's decision on an update means: when it is \<open>allowed\<close>, when it panics, which
  inputs an allowed update leaves alone, and that its count of approvals is the controller's.
\<close>

subsection \<open>Counting\<close>

lemma count_members_eq: "count_members us acc = acc \<union> ud_Name ` {u \<in> set us. ud_Input u = ''approve''}"
  by (induction us arbitrary: acc) auto

lemma count_approvers_eq: "count_approvers as acc = acc \<union> approved_users as"
  using is_user_not_group
  by (induction as arbitrary: acc) (auto simp: approved_users_def approved_by_def count_members_eq)

lemma isApprovalRequired_eq:
  "isApprovalRequired task \<longleftrightarrow>
     st_State (at_Status task) \<noteq> rejectedState \<and> st_State (at_Status task) \<noteq> approvedState
     \<and> \<not> approvalTaskHasTrueInput task"
  by (simp add: isApprovalRequired_def approvalTaskHasTrueInput_eq countApprovalsReceived_eq count_approvers_eq)

lemma find_user_None: "find_user n us = None \<longleftrightarrow> n \<notin> ud_Name ` set us"
  by (auto simp: find_user_def find_None_iff)

lemma find_user_Some: "find_user n us = Some u \<Longrightarrow> u \<in> set us \<and> ud_Name u = n"
  by (auto simp: find_user_def find_Some_iff)

lemma find_user_distinct:
  "distinct (map ud_Name us) \<Longrightarrow> u \<in> set us \<Longrightarrow> find_user (ud_Name u) us = Some u"
  by (induction us) (auto simp: find_user_def image_iff)

lemma isUserInGroup_iff:
  "isUserInGroup a user \<longleftrightarrow> ad_Name a \<in> set (ui_Groups user) \<or> ui_Username user \<in> ud_Name ` set (ad_Users a)"
  by (auto simp: isUserInGroup_def list_ex_iff find_user_None)

lemma ifUserExists_iff:
  "ifUserExists as user \<longleftrightarrow> as = [] \<or>
     (\<exists>a \<in> set as. is_user a \<and> ad_Name a = ui_Username user \<or> is_group a \<and> isUserInGroup a user)"
  using is_user_not_group
  by (auto simp: ifUserExists_def list_ex_iff isUserInGroup_iff image_iff split: if_splits) fastforce+

subsection \<open>The decision\<close>

lemma allowed_sel [simp]: "resp_Allowed allowed" "\<not> resp_Allowed (denied m)" "\<not> resp_Allowed (MakeErrorStatus m)"
  by (simp_all add: allowed_def denied_def MakeErrorStatus_def)

definition admits :: "approval_task \<Rightarrow> approval_task \<Rightarrow> user_info \<Rightarrow> bool" where
  "admits old new user \<longleftrightarrow>
     spec_ok (at_Spec new) \<and> isApprovalRequired old \<and> ifUserExists (sp_Approvers (at_Spec old)) user
     \<and> checkIfUserAlreadyDecided old new user = []
     \<and> IsUserApprovalChanged (sp_Approvers (at_Spec old)) (sp_Approvers (at_Spec new)) user = Ret (Inr True)
     \<and> CheckOtherUsersForInvalidChanges (sp_Approvers (at_Spec old)) (sp_Approvers (at_Spec new)) user = Ret True"

lemma Admit_update_allowed:
  "(\<exists>r. Admit_update old new user = Ret r \<and> resp_Allowed r) \<and> spec_ok (at_Spec new) \<longleftrightarrow> admits old new user"
  by (auto simp: Admit_update_def admits_def split: outcome.splits sum.splits bool.splits)

subsection \<open>The two loops\<close>

definition other_ok :: "approver_details \<Rightarrow> approver_details option \<Rightarrow> user_info \<Rightarrow> bool" where
  "other_ok a new user \<longleftrightarrow>
     (if is_user a \<and> ad_Name a \<noteq> ui_Username user
      then \<exists>b. new = Some b \<and> ad_Input a = ad_Input b
      else is_group a \<longrightarrow> group_unchanged a new user)"

lemma CheckOtherUsers_loop_True:
  "CheckOtherUsers_loop k as new user = Ret True \<longleftrightarrow>
     (\<forall>i < length as. other_ok (as ! i) (nth_opt new (k + i)) user)"
proof (induction as arbitrary: k)
  case (Cons a as)
  have "(\<forall>i < length (a # as). other_ok ((a # as) ! i) (nth_opt new (k + i)) user) \<longleftrightarrow>
      other_ok a (nth_opt new k) user \<and> (\<forall>i < length as. other_ok (as ! i) (nth_opt new (Suc k + i)) user)"
    by (auto simp: less_Suc_eq_0_disj)
  with Cons.IH [of "Suc k"] show ?case
    by (auto simp: other_ok_def split: option.split)
qed simp

lemma CheckOtherUsers_True:
  "CheckOtherUsersForInvalidChanges old new user = Ret True \<longleftrightarrow>
     (\<forall>i < length old. other_ok (old ! i) (nth_opt new i) user)"
  by (simp add: CheckOtherUsersForInvalidChanges_def CheckOtherUsers_loop_True)

lemma CheckOtherUsers_loop_no_panic:
  "k + length as \<le> length new \<Longrightarrow> CheckOtherUsers_loop k as new user \<noteq> Panic"
  by (induction as arbitrary: k) (auto simp: nth_opt_def)

lemma IsUserApprovalChanged_loop_no_panic:
  "k + length as \<le> length new \<Longrightarrow> IsUserApprovalChanged_loop k as new user \<noteq> Panic"
  by (induction as arbitrary: k) (auto simp: nth_opt_def split: option.split)

lemma Admit_update_no_panic:
  "length (sp_Approvers (at_Spec old)) \<le> length (sp_Approvers (at_Spec new)) \<Longrightarrow> Admit_update old new user \<noteq> Panic"
  using CheckOtherUsers_loop_no_panic [of 0 "sp_Approvers (at_Spec old)" "sp_Approvers (at_Spec new)" user]
    IsUserApprovalChanged_loop_no_panic [of 0 "sp_Approvers (at_Spec old)" "sp_Approvers (at_Spec new)" user]
  by (auto simp: Admit_update_def CheckOtherUsersForInvalidChanges_def IsUserApprovalChanged_def
      split: outcome.split sum.split bool.split)

text \<open>The change the first loop accepts: where it is, and that it is a decision of this user.\<close>

definition decision :: "string \<Rightarrow> bool" where
  "decision i \<longleftrightarrow> i = ''approve'' \<or> i = ''reject''"

definition own_change :: "approver_details \<Rightarrow> approver_details \<Rightarrow> user_info \<Rightarrow> bool" where
  "own_change a b user \<longleftrightarrow>
     is_user a \<and> ad_Name a = ui_Username user \<and> ad_Name b = ad_Name a
       \<and> ad_Input b \<noteq> ad_Input a \<and> decision (ad_Input b)
     \<or> is_group a \<and> isUserInGroup a user \<and> ad_Input b \<noteq> ad_Input a \<and> decision (ad_Input b)
     \<or> is_group a \<and> isUserInGroup a user
       \<and> (\<exists>v \<in> set (ad_Users b). ud_Name v = ui_Username user \<and> decision (ud_Input v)
            \<and> find_user (ui_Username user) (ad_Users a) \<noteq> Some v)"

lemma valid_change_True [simp]: "valid_change i = Inr True \<longleftrightarrow> decision i"
  by (auto simp: valid_change_def hasValidInputValue_def decision_def)

lemma IsUserApprovalChanged_loop_True:
  "IsUserApprovalChanged_loop k as new user = Ret (Inr True) \<Longrightarrow>
     \<exists>i < length as. k + i < length new \<and> own_change (as ! i) (new ! (k + i)) user"
proof (induction as arbitrary: k)
  case (Cons a as)
  have later: ?case if "IsUserApprovalChanged_loop (Suc k) as new user = Ret (Inr True)"
    using Cons.IH [OF that] by (metis Suc_less_eq add_Suc_shift length_Cons nth_Cons_Suc)
  have here: ?case if "k < length new" "own_change a (new ! k) user"
    using that by (intro exI [of _ 0]) simp
  show ?case
  proof (cases "ad_Name a = ui_Username user \<and> is_user a")
    case True
    with Cons.prems show ?thesis
      by (intro here) (auto simp: nth_opt_def hasOnlyInputChanged_def own_change_def split: if_splits)
  next
    case False
    show ?thesis
    proof (cases "is_group a \<and> isUserInGroup a user")
      case grp: True
      show ?thesis
      proof (cases "group_change a (nth_opt new k) user")
        case None
        with Cons.prems False grp show ?thesis by (intro later) simp
      next
        case (Some r)
        with Cons.prems False grp have r: "r = Inr True" by simp
        from Some have k: "k < length new" by (auto simp: group_change_def nth_opt_def split: if_splits)
        from Some r k grp have "own_change a (new ! k) user"
          by (auto simp: group_change_def nth_opt_def own_change_def dest: find_user_Some
              split: if_splits option.splits)
        with k show ?thesis by (rule here)
      qed
    next
      case nogrp: False
      with Cons.prems False show ?thesis by (intro later) auto
    qed
  qed
qed simp

lemma IsUserApprovalChanged_True:
  "IsUserApprovalChanged old new user = Ret (Inr True) \<Longrightarrow>
     \<exists>i < length old. i < length new \<and> own_change (old ! i) (new ! i) user"
  using IsUserApprovalChanged_loop_True [of 0 old new user] by (simp add: IsUserApprovalChanged_def)

subsection \<open>Inputs of the users of a group\<close>

lemma user_inputs_Some: "user_inputs us n = Some i \<Longrightarrow> \<exists>u \<in> set us. ud_Name u = n \<and> ud_Input u = i"
  by (force simp: user_inputs_def dest: map_of_SomeD)

lemma user_inputs_None: "user_inputs us n = None \<longleftrightarrow> n \<notin> ud_Name ` set us"
  by (auto simp: user_inputs_def map_of_eq_None_iff image_image)

lemma user_inputs_distinct:
  assumes "distinct (map ud_Name us)" and "u \<in> set us"
  shows "user_inputs us (ud_Name u) = Some (ud_Input u)"
proof -
  have "distinct (map fst (rev (map (\<lambda>u. (ud_Name u, ud_Input u)) us)))"
    using assms(1) by (simp add: rev_map [symmetric] comp_def distinct_rev)
  then show ?thesis
    unfolding user_inputs_def using assms(2) by (intro map_of_is_SomeI) auto
qed

text \<open>
  Every user of the new group, the one who asks apart, was in the old group with the same input.
\<close>

lemma group_unchanged_others:
  assumes "group_unchanged a (Some b) user"
    and "distinct (map ud_Name (ad_Users a))" and "distinct (map ud_Name (ad_Users b))"
    and "v \<in> set (ad_Users b)" and "ud_Name v \<noteq> ui_Username user"
  shows "\<exists>u \<in> set (ad_Users a). ud_Name u = ud_Name v \<and> ud_Input u = ud_Input v"
proof -
  have "user_inputs (ad_Users a) (ud_Name v) \<noteq> None"
    using assms by (auto simp: group_unchanged_def Let_def list_all_iff)
  then obtain x where x: "user_inputs (ad_Users a) (ud_Name v) = Some x" by blast
  from user_inputs_Some [OF x] obtain u where u: "u \<in> set (ad_Users a)" "ud_Name u = ud_Name v" "ud_Input u = x"
    by blast
  have "user_inputs (ad_Users b) (ud_Name v) = Some (ud_Input v)"
    using assms by (simp add: user_inputs_distinct)
  moreover have "\<forall>w \<in> set (ad_Users a). ud_Name w = ui_Username user \<or>
      (case (user_inputs (ad_Users a) (ud_Name w), user_inputs (ad_Users b) (ud_Name w)) of
        (Some x, Some y) \<Rightarrow> x = y | _ \<Rightarrow> True)"
    using assms(1) by (simp add: group_unchanged_def Let_def list_all_iff)
  ultimately have "x = ud_Input v" using u(1,2) x assms(5) by fastforce
  with u show ?thesis by blast
qed

subsection \<open>Whose votes an update can change\<close>

text \<open>
  The names on which the task holds a vote \<open>i\<close>: individual approvers, and users of a group, whether
  or not the group as a whole has this input.
\<close>

definition votes_of :: "string \<Rightarrow> approver_details \<Rightarrow> string set" where
  "votes_of i a =
     (if is_user a then (if ad_Input a = i then {ad_Name a} else {})
      else if is_group a then ud_Name ` {u \<in> set (ad_Users a). ud_Input u = i}
      else {})"

definition votes :: "string \<Rightarrow> approver_details list \<Rightarrow> string set" where
  "votes i as = (\<Union>a \<in> set as. votes_of i a)"

text \<open>An update that keeps who the approvers are, by position.\<close>

definition same_shape :: "approver_details list \<Rightarrow> approver_details list \<Rightarrow> bool" where
  "same_shape old new \<longleftrightarrow>
     list_all2 (\<lambda>a b. ad_Name a = ad_Name b
                 \<and> DefaultedApproverType (ad_Type a) = DefaultedApproverType (ad_Type b)) old new"

lemma same_shapeD:
  assumes "same_shape old new"
  shows "length old = length new"
    and "i < length old \<Longrightarrow> ad_Name (new ! i) = ad_Name (old ! i)"
    and "i < length old \<Longrightarrow> is_user (new ! i) = is_user (old ! i)"
    and "i < length old \<Longrightarrow> is_group (new ! i) = is_group (old ! i)"
  using assms by (auto simp: same_shape_def list_all2_conv_all_nth is_user_def is_group_def)

lemma approved_by_votes: "approved_by a \<subseteq> votes_of hasApproved a"
  by (auto simp: approved_by_def votes_of_def)

lemma approved_users_votes: "approved_users as \<subseteq> votes hasApproved as"
  using approved_by_votes unfolding approved_users_def votes_def by fast

lemma other_ok_votes:
  assumes "other_ok a (Some b) user" and "ad_Name a = ad_Name b"
    and "is_user b = is_user a" and "is_group b = is_group a"
    and "is_group a \<Longrightarrow> users_ok (ad_Users a)" and "is_group a \<Longrightarrow> users_ok (ad_Users b)"
  shows "votes_of i b \<subseteq> insert (ui_Username user) (votes_of i a)"
proof
  fix n assume n: "n \<in> votes_of i b"
  show "n \<in> insert (ui_Username user) (votes_of i a)"
  proof (cases "is_user a")
    case True
    with n assms show ?thesis
      by (auto simp: votes_of_def other_ok_def split: if_splits)
  next
    case False
    with n assms have grp: "is_group a" by (auto simp: votes_of_def split: if_splits)
    with n False assms obtain v where v: "v \<in> set (ad_Users b)" "ud_Name v = n" "ud_Input v = i"
      by (auto simp: votes_of_def split: if_splits)
    have unch: "group_unchanged a (Some b) user"
      using assms(1) grp False by (simp add: other_ok_def)
    show ?thesis
    proof (cases "n = ui_Username user")
      case nu: False
      with group_unchanged_others [OF unch _ _ v(1)] assms(5,6) grp v
      obtain u where "u \<in> set (ad_Users a)" "ud_Name u = n" "ud_Input u = i"
        by (auto simp: users_ok_def)
      with False grp show ?thesis by (auto simp: votes_of_def)
    qed simp
  qed
qed

lemma spec_ok_users: "spec_ok sp \<Longrightarrow> a \<in> set (sp_Approvers sp) \<Longrightarrow> is_group a \<Longrightarrow> users_ok (ad_Users a)"
  using is_user_not_group by (auto simp: spec_ok_def approver_ok_def)

theorem admits_votes:
  assumes "admits old new user" and "spec_ok (at_Spec old)"
    and "same_shape (sp_Approvers (at_Spec old)) (sp_Approvers (at_Spec new))"
  shows "votes i (sp_Approvers (at_Spec new))
           \<subseteq> insert (ui_Username user) (votes i (sp_Approvers (at_Spec old)))"
proof
  let ?o = "sp_Approvers (at_Spec old)" and ?n = "sp_Approvers (at_Spec new)"
  fix x assume "x \<in> votes i ?n"
  then obtain j where j: "j < length ?n" "x \<in> votes_of i (?n ! j)"
    by (auto simp: votes_def in_set_conv_nth)
  note shape = same_shapeD [OF assms(3)]
  have "other_ok (?o ! j) (Some (?n ! j)) user"
    using assms(1) j shape(1) by (auto simp: admits_def CheckOtherUsers_True nth_opt_def)
  moreover have "is_group (?o ! j) \<Longrightarrow> users_ok (ad_Users (?o ! j))"
    using spec_ok_users [OF assms(2)] j shape(1) by simp
  moreover have "is_group (?o ! j) \<Longrightarrow> users_ok (ad_Users (?n ! j))"
    using spec_ok_users [of "at_Spec new"] assms(1) j shape by (simp add: admits_def)
  ultimately have "votes_of i (?n ! j) \<subseteq> insert (ui_Username user) (votes_of i (?o ! j))"
    using shape j by (intro other_ok_votes) simp_all
  with j shape(1) show "x \<in> insert (ui_Username user) (votes i ?o)"
    by (auto simp: votes_def)
qed

subsection \<open>Decisions already taken\<close>

text \<open>The responses recorded for a name, individual or as a member of a group.\<close>

definition recorded :: "approver_state list \<Rightarrow> string \<Rightarrow> string set" where
  "recorded rs n =
     as_Response ` {r \<in> set rs. DefaultedApproverType (as_Type r) = ''User'' \<and> as_Name r = n}
     \<union> (\<Union>r \<in> {r \<in> set rs. DefaultedApproverType (as_Type r) = ''Group''}.
          gm_Response ` {m \<in> set (as_GroupMembers r). gm_Name m = n})"

lemma recorded_Nil [simp]: "recorded [] n = {}"
  by (simp add: recorded_def)

lemma recorded_Cons:
  "recorded (r # rs) n =
     (if DefaultedApproverType (as_Type r) = ''User'' \<and> as_Name r = n then {as_Response r} else {})
     \<union> (if DefaultedApproverType (as_Type r) = ''Group''
        then gm_Response ` {m \<in> set (as_GroupMembers r). gm_Name m = n} else {})
     \<union> recorded rs n"
  unfolding recorded_def by (cases "DefaultedApproverType (as_Type r) = ''Group''") auto

lemma decided_text_None:
  "decided_text x d = None \<longleftrightarrow> x \<noteq> ''rejected'' \<and> \<not> (x = ''approved'' \<and> d = ''approve'')"
  by (auto simp: decided_text_def)

lemma decided_members_None:
  "decided_members ms d user = None \<longleftrightarrow>
     (\<forall>m \<in> set ms. gm_Name m = ui_Username user \<longrightarrow> decided_text (gm_Response m) d = None)"
  by (induction ms) auto

lemma decided_loop_None:
  "decided_loop rs d user = None \<longleftrightarrow>
     (\<forall>x \<in> recorded rs (ui_Username user). x \<noteq> ''rejected'' \<and> \<not> (x = ''approved'' \<and> d = ''approve''))"
proof (induction rs)
  case (Cons r rs)
  have mem: "decided_members (as_GroupMembers r) d user = None \<longleftrightarrow>
      (\<forall>x \<in> gm_Response ` {m \<in> set (as_GroupMembers r). gm_Name m = ui_Username user}.
        x \<noteq> ''rejected'' \<and> \<not> (x = ''approved'' \<and> d = ''approve''))"
    by (auto simp: decided_members_None decided_text_None)
  have "decided_loop (r # rs) d user = None \<longleftrightarrow>
      (DefaultedApproverType (as_Type r) = ''User'' \<and> as_Name r = ui_Username user \<longrightarrow>
         decided_text (as_Response r) d = None)
      \<and> (DefaultedApproverType (as_Type r) = ''Group'' \<longrightarrow>
         decided_members (as_GroupMembers r) d user = None)
      \<and> decided_loop rs d user = None"
    by (auto split: option.split)
  then show ?case
    unfolding mem Cons.IH recorded_Cons decided_text_None by (auto simp: ball_Un simp del: decided_loop.simps)
qed simp

lemma decided_text_nonempty: "decided_text x d = Some t \<Longrightarrow> t \<noteq> []"
  by (auto simp: decided_text_def split: if_splits)

lemma decided_members_nonempty: "decided_members ms d user = Some t \<Longrightarrow> t \<noteq> []"
  by (induction ms) (auto dest: decided_text_nonempty split: if_splits option.splits)

lemma decided_loop_nonempty: "decided_loop rs d user = Some t \<Longrightarrow> t \<noteq> []"
  by (induction rs)
    (auto dest: decided_text_nonempty decided_members_nonempty split: if_splits option.splits)

lemma checkIfUserAlreadyDecided_iff:
  "checkIfUserAlreadyDecided old new user = [] \<longleftrightarrow>
     (\<forall>x \<in> recorded (st_ApproversResponse (at_Status old)) (ui_Username user).
        x \<noteq> ''rejected'' \<and>
        \<not> (x = ''approved'' \<and> desiredInput (sp_Approvers (at_Spec new)) user = ''approve''))"
  unfolding decided_loop_None [symmetric] checkIfUserAlreadyDecided_def
  by (auto dest: decided_loop_nonempty split: option.split)

subsection \<open>Admission of requests\<close>

lemma Admit_create_iff:
  assumes "rq_Operation rq = ''CREATE''"
  shows "(\<exists>r. Admit decode rq = Ret r \<and> resp_Allowed r) \<longleftrightarrow>
    (\<exists>new. decodeObject decode (rq_Object rq) = Inr new \<and> spec_ok (at_Spec new)
        \<and> all_pending (sp_Approvers (at_Spec new)))"
  using assms
  by (auto simp: Admit_def validateApprovalTask_iff [symmetric] validateApproverInputsForCreate_iff [symmetric]
      split: sum.splits option.splits)

lemma Admit_update_iff:
  assumes "rq_Operation rq = ''UPDATE''"
  shows "(\<exists>r. Admit decode rq = Ret r \<and> resp_Allowed r) \<longleftrightarrow>
    (\<exists>old new. decodeObject decode (rq_OldObject rq) = Inr old \<and> decodeObject decode (rq_Object rq) = Inr new
        \<and> admits old new (rq_UserInfo rq))"
  using assms
  by (auto simp: Admit_def validateApprovalTask_iff [symmetric] Admit_update_allowed [symmetric]
      split: sum.splits option.splits)

lemma admits_facts:
  assumes "admits old new user"
  shows "spec_ok (at_Spec new)"
    and "st_State (at_Status old) \<noteq> approvedState" and "st_State (at_Status old) \<noteq> rejectedState"
    and "\<not> approvalTaskHasTrueInput old"
    and "ifUserExists (sp_Approvers (at_Spec old)) user"
    and "''rejected'' \<notin> recorded (st_ApproversResponse (at_Status old)) (ui_Username user)"
    and "\<exists>i < length (sp_Approvers (at_Spec old)). i < length (sp_Approvers (at_Spec new))
           \<and> own_change (sp_Approvers (at_Spec old) ! i) (sp_Approvers (at_Spec new) ! i) user"
  using assms IsUserApprovalChanged_True
  by (auto simp: admits_def isApprovalRequired_eq checkIfUserAlreadyDecided_iff)

end
