(* ===== verification/Create_Facts.thy ===== *)
theory Create_Facts
  imports Create_Task Webhook_Facts
begin

text \<open>
  The task that the parameters of a validated run give: its approvers are the named ones, one per
  name, all pending; the webhook's structural checks hold of it. In a store nobody else writes to,
  the task is found there afterwards with its initial status.
\<close>

subsection \<open>The first element of each key\<close>

fun first_by :: "('a \<Rightarrow> 'b) \<Rightarrow> 'a list \<Rightarrow> 'a list" where
  "first_by f [] = []"
| "first_by f (x # xs) = x # filter (\<lambda>y. f y \<noteq> f x) (first_by f xs)"

lemma set_first_by: "set (first_by f xs) \<subseteq> set xs"
  by (induction xs) auto

lemma image_first_by [simp]: "f ` set (first_by f xs) = f ` set xs"
proof (induction xs)
  case (Cons x xs)
  have "f ` {y \<in> set (first_by f xs). f y \<noteq> f x} = f ` set (first_by f xs) - {f x}" by auto
  then show ?case using Cons by (simp del: image_insert) auto
qed simp

lemma distinct_first_by: "distinct (map f (first_by f xs))"
  by (induction xs) (auto simp: distinct_map_filter)

lemma first_by_snoc:
  "first_by f (xs @ [y]) = first_by f xs @ (if f y \<in> f ` set xs then [] else [y])"
  by (induction xs) auto

subsection \<open>The loop over the parameters\<close>

definition all_names :: "param list \<Rightarrow> string list" where
  "all_names ps = concat (map (\<lambda>p. pv_ArrayVal (p_Value p)) (filter (\<lambda>p. p_Name p = ''approvers'') ps))"

lemma all_names_simps [simp]:
  "all_names [] = []"
  "all_names (p # ps) = (if p_Name p = ''approvers'' then pv_ArrayVal (p_Value p) @ all_names ps else all_names ps)"
  by (simp_all add: all_names_def)

lemma add_approver_other:
  "add_approver n (acc\<lparr>ca_number := k\<rparr>) = (add_approver n acc)\<lparr>ca_number := k\<rparr>"
  "add_approver n (acc\<lparr>ca_desc := d\<rparr>) = (add_approver n acc)\<lparr>ca_desc := d\<rparr>"
  by (simp_all add: add_approver_def Let_def)

lemma fold_add_approver_other:
  "fold add_approver ns (acc\<lparr>ca_number := k\<rparr>) = (fold add_approver ns acc)\<lparr>ca_number := k\<rparr>"
  "fold add_approver ns (acc\<lparr>ca_desc := d\<rparr>) = (fold add_approver ns acc)\<lparr>ca_desc := d\<rparr>"
  by (induction ns arbitrary: acc) (simp_all add: add_approver_other)

lemma add_approver_keeps: "ca_number (add_approver n acc) = ca_number acc"
  by (simp add: add_approver_def Let_def)

lemma fold_add_approver_keeps: "ca_number (fold add_approver ns acc) = ca_number acc"
  by (induction ns arbitrary: acc) (simp_all add: add_approver_keeps)

lemma create_params_approvers:
  "create_params ps acc = Inr acc' \<Longrightarrow>
     ca_approvers acc' = ca_approvers (fold add_approver (all_names ps) acc)
     \<and> ca_users acc' = ca_users (fold add_approver (all_names ps) acc)"
proof (induction ps arbitrary: acc)
  case (Cons p ps)
  then show ?case
    by (fastforce simp: fold_add_approver_other split: if_splits sum.splits)
qed simp

lemma create_params_number:
  "create_params ps acc = Inr acc' \<Longrightarrow>
     \<forall>p \<in> set ps. p_Name p = ''numberOfApprovalsRequired'' \<longrightarrow> required_ok p \<Longrightarrow>
     0 < ca_number acc \<Longrightarrow> 0 < ca_number acc'"
proof (induction ps arbitrary: acc)
  case (Cons p ps)
  then show ?case
    by (fastforce simp: fold_add_approver_keeps required_ok_def split: if_splits sum.splits)
qed simp

lemma create_params_total:
  "\<forall>p \<in> set ps. p_Name p = ''numberOfApprovalsRequired'' \<longrightarrow> required_ok p \<Longrightarrow>
     \<exists>acc'. create_params ps acc = Inr acc'"
  by (induction ps arbitrary: acc) (auto simp: required_ok_def)

subsection \<open>The approvers of valid parameters\<close>

lemma approver_of_group: "approver_of (''group:'' @ g) =
    \<lparr>ad_Name = g, ad_Input = pendingState, ad_Message = [], ad_Type = ''Group'', ad_Users = []\<rparr>"
  unfolding approver_of_def SplitN2_group by (simp add: HasPrefix_append)

lemma approver_of_user: "\<not> HasPrefix v ''group:'' \<Longrightarrow> approver_of v =
    \<lparr>ad_Name = v, ad_Input = pendingState, ad_Message = [], ad_Type = ''User'', ad_Users = []\<rparr>"
  by (simp add: approver_of_def Let_def)

lemma approver_of_cases:
  obtains (group) g where "v = ''group:'' @ g" | (user) "\<not> HasPrefix v ''group:''"
  by (auto simp: HasPrefix_append)

lemma approver_of_pending [simp]: "ad_Input (approver_of v) = pendingState" "ad_Users (approver_of v) = []"
  by (simp_all add: approver_of_def Let_def)

lemma approver_of_ok:
  assumes "approver_param_ok v"
  shows "approver_ok (approver_of v)"
proof (cases v rule: approver_of_cases)
  case (group g)
  with assms have "group_name_ok g" by (simp add: approver_param_ok_def)
  then show ?thesis
    unfolding group approver_of_group
    by (simp add: approver_ok_def is_user_def is_group_def users_ok_def input_ok_def)
next
  case user
  with assms have "user_name_ok v" by (simp add: approver_param_ok_def user_name_ok_def)
  then show ?thesis
    unfolding approver_of_user [OF user]
    by (simp add: approver_ok_def is_user_def is_group_def input_ok_def)
qed

text \<open>
  A raw name already seen as a stripped one is the name of a user seen before: a stripped group
  name has no colon.
\<close>

lemma raw_seen:
  assumes "\<forall>v \<in> set names. approver_param_ok v" and "v \<in> (ad_Name \<circ> approver_of) ` set names"
  shows "\<not> HasPrefix v ''group:''"
proof -
  obtain w where w: "approver_param_ok w" "v = ad_Name (approver_of w)" using assms by auto
  show ?thesis
  proof (cases w rule: approver_of_cases)
    case (group g)
    with w have "CHR '':'' \<notin> set v"
      by (simp only: approver_of_group approver_param_ok_def group_name_ok_def) simp
    then show ?thesis by (auto simp: HasPrefix_append)
  next
    case user
    with w show ?thesis by (simp add: approver_of_user)
  qed
qed

definition create_inv :: "string list \<Rightarrow> create_acc \<Rightarrow> bool" where
  "create_inv names acc \<longleftrightarrow>
     ca_approvers acc = first_by ad_Name (map approver_of names)
     \<and> ca_approverExists acc = (ad_Name \<circ> approver_of) ` set names
     \<and> ca_userExists acc = (ad_Name \<circ> approver_of) ` set names
     \<and> set (ca_users acc) = (ad_Name \<circ> approver_of) ` set names"

lemma create_inv_step:
  assumes inv: "create_inv names acc" and raw: "v \<in> ca_userExists acc \<Longrightarrow> ad_Name (approver_of v) = v"
  shows "create_inv (names @ [v]) (add_approver v acc)"
proof -
  let ?seen = "(ad_Name \<circ> approver_of) ` set names"
  have seen: "?seen = ad_Name ` set (map approver_of names)" by (simp add: image_comp)
  have snoc: "first_by ad_Name (map approver_of (names @ [v])) =
      first_by ad_Name (map approver_of names) @ (if ad_Name (approver_of v) \<in> ?seen then [] else [approver_of v])"
    unfolding seen using first_by_snoc [of ad_Name "map approver_of names" "approver_of v"] by simp
  have ins: "(ad_Name \<circ> approver_of) ` set (names @ [v]) = insert (ad_Name (approver_of v)) ?seen" by auto
  show ?thesis
  proof (cases "v \<in> ?seen")
    case True
    then have "ad_Name (approver_of v) = v" using raw inv by (simp add: create_inv_def)
    then show ?thesis
      using inv True unfolding create_inv_def snoc ins add_approver_def by (simp add: insert_absorb)
  next
    case False
    then show ?thesis
      using inv unfolding create_inv_def snoc ins add_approver_def
      by (simp add: Let_def insert_absorb)
  qed
qed

lemma create_inv_fold:
  "\<forall>v \<in> set names. approver_param_ok v \<Longrightarrow> create_inv names (fold add_approver names create_init)"
proof (induction names rule: rev_induct)
  case Nil
  show ?case by (simp add: create_inv_def create_init_def)
next
  case (snoc v names)
  let ?acc = "fold add_approver names create_init"
  from snoc have inv: "create_inv names ?acc" by simp
  have "ad_Name (approver_of v) = v" if "v \<in> ca_userExists ?acc"
    using raw_seen [of names v] that inv snoc.prems by (simp add: create_inv_def approver_of_user)
  with create_inv_step [OF inv] show ?case by simp
qed

lemma create_params_valid:
  assumes "\<forall>v \<in> set (all_names ps). approver_param_ok v" and "create_params ps create_init = Inr acc"
  shows "ca_approvers acc = first_by ad_Name (map approver_of (all_names ps))"
    and "set (ca_users acc) = (ad_Name \<circ> approver_of) ` set (all_names ps)"
  using create_inv_fold [OF assms(1)] create_params_approvers [OF assms(2)] by (simp_all add: create_inv_def)

text \<open>A run whose parameters passed validation, with its approvers given as arrays.\<close>

definition valid_run :: "custom_run \<Rightarrow> bool" where
  "valid_run run \<longleftrightarrow>
     (\<forall>v \<in> set (all_names (cr_Params run)). approver_param_ok v)
     \<and> all_names (cr_Params run) \<noteq> []
     \<and> (\<forall>p \<in> set (cr_Params run). p_Name p = ''numberOfApprovalsRequired'' \<longrightarrow> required_ok p)"

lemma valid_runI:
  assumes "ValidateCustomRunParameters unmarshal run = None"
    and "\<forall>p \<in> set (cr_Params run). p_Name p = ''approvers'' \<longrightarrow> array_only p"
  shows "valid_run run"
  using ValidateCustomRunParameters_ok [OF assms]
  unfolding valid_run_def all_names_def by (auto simp: filter_empty_conv)

lemma new_task_sel [simp]:
  "at_name (new_task run acc) = om_Name (cr_Meta run)"
  "at_namespace (new_task run acc) = om_Namespace (cr_Meta run)"
  "sp_Approvers (at_Spec (new_task run acc)) = ca_approvers acc"
  "sp_NumberOfApprovalsRequired (at_Spec (new_task run acc)) = ca_number acc"
  "om_Annotations (at_Meta (new_task run acc)) =
     Some (fmupd LastAppliedHashKey (Compute (ca_approvers acc)) fmempty)"
  by (simp_all add: new_task_def Let_def)

lemma new_task_created: "om_CreationTimestamp (at_Meta (new_task run acc)) = 0"
  by (simp add: new_task_def empty_meta_def Let_def)

lemma valid_run_new_task:
  assumes "valid_run run"
  obtains acc where "create_params (cr_Params run) create_init = Inr acc"
    "spec_ok (at_Spec (new_task run acc))"
    "all_pending (sp_Approvers (at_Spec (new_task run acc)))"
proof -
  let ?names = "all_names (cr_Params run)"
  obtain acc where acc: "create_params (cr_Params run) create_init = Inr acc"
    using create_params_total assms unfolding valid_run_def by blast
  have as: "ca_approvers acc = first_by ad_Name (map approver_of ?names)"
    using create_params_valid(1) [OF _ acc] assms by (simp add: valid_run_def)
  have sub: "set (ca_approvers acc) \<subseteq> approver_of ` set ?names"
    using set_first_by [of ad_Name "map approver_of ?names"] unfolding as by simp
  have ok: "\<forall>a \<in> set (ca_approvers acc). approver_ok a"
    using sub assms by (auto simp: valid_run_def intro: approver_of_ok)
  have num: "0 < ca_number acc"
    using create_params_number [OF acc] assms by (simp add: valid_run_def create_init_def)
  have "distinct (map ad_Name (ca_approvers acc))" unfolding as by (rule distinct_first_by)
  then have "distinct (map (\<lambda>a. (is_user a, ad_Name a)) (ca_approvers acc))"
    by (auto simp: distinct_map inj_on_def)
  moreover have "ca_approvers acc \<noteq> []"
    unfolding as using assms by (cases ?names) (auto simp: valid_run_def)
  ultimately have "spec_ok (at_Spec (new_task run acc))"
    using ok num by (simp add: spec_ok_def)
  moreover have "all_pending (sp_Approvers (at_Spec (new_task run acc)))"
    using sub by (auto simp: all_pending_def)
  ultimately show ?thesis using acc that by blast
qed

text \<open>Parameters without an array of approvers name nobody.\<close>

lemma create_params_no_array:
  "create_params ps acc = Inr acc' \<Longrightarrow> \<forall>p \<in> set ps. p_Name p = ''approvers'' \<longrightarrow> pv_ArrayVal (p_Value p) = [] \<Longrightarrow>
     ca_approvers acc = [] \<Longrightarrow> ca_approvers acc' = []"
proof (induction ps arbitrary: acc)
  case (Cons p ps)
  from Cons.prems show ?case
    by (auto split: if_splits sum.splits intro!: Cons.IH)
qed simp

subsection \<open>Creation in a store\<close>

text \<open>What is stored under a run's name after its task was created.\<close>

definition created_task :: "env \<Rightarrow> custom_run \<Rightarrow> create_acc \<Rightarrow> approval_task \<Rightarrow> bool" where
  "created_task env run acc t \<longleftrightarrow>
     same_sent t (new_task run acc) \<and> at_Status t = initial_status acc"

context task_store
begin

lemma createApprovalTask_fresh:
  assumes "lookup s (om_Namespace (cr_Meta run)) (om_Name (cr_Meta run)) = None"
    and "create_params (cr_Params run) create_init = Inr acc"
  obtains t s' where "createApprovalTask env cl run s = (Inr t, s')" "created_task env run acc t"
    "om_CreationTimestamp (at_Meta t) = stamp s 0"
    "\<And>ns n. lookup s' ns n =
       (if ns = om_Namespace (cr_Meta run) \<and> n = om_Name (cr_Meta run) then Some t else lookup s ns n)"
proof -
  let ?ns = "om_Namespace (cr_Meta run)" and ?n = "om_Name (cr_Meta run)"
  let ?t0 = "new_task run acc"
  obtain t1 s1 where c: "ApprovalTasks_Create cl ?ns ?t0 s = ((t1, None), s1)" "same_sent t1 ?t0"
    "om_CreationTimestamp (at_Meta t1) = stamp s 0"
    "\<And>ns n. lookup s1 ns n = (if ns = ?ns \<and> n = ?n then Some t1 else lookup s ns n)"
    using Create_fresh [of s ?ns ?t0] assms(1) by (auto simp: new_task_created)
  have g: "ApprovalTasks_Get cl ?ns ?n s1 = ((t1, None), s1)"
    by (rule Get_hit) (simp add: c(4))
  let ?t2 = "t1\<lparr>at_Status := initial_status acc\<rparr>"
  have names: "at_name ?t2 = ?n" "at_namespace ?t2 = ?ns" using c(2) by (simp_all add: same_sent_def)
  obtain s2 where u: "ApprovalTasks_UpdateStatus cl ?ns ?t2 s1 = ((?t2, None), s2)"
    "\<And>ns n. lookup s2 ns n = (if ns = ?ns \<and> n = ?n then Some ?t2 else lookup s1 ns n)"
    using UpdateStatus_hit [of s1 ?ns ?t2 t1] c(4) names by auto
  have "createApprovalTask env cl run s = (Inr ?t2, s2)"
    using assms(2) c(1) g u(1) by (simp add: createApprovalTask_def Let_def)
  moreover have "created_task env run acc ?t2"
    using c(2) by (simp add: created_task_def same_sent_def)
  ultimately show ?thesis using that u(2) c(3,4) by auto
qed

end

end
