(* ===== verification/Reconcile_Facts.thy ===== *)
theory Reconcile_Facts
  imports Reconciler Verdict Create_Facts
begin

text \<open>
  What a reconciliation does to the run, whatever the API answers: when the run is marked, how,
  and when the key comes back to the work queue.
\<close>

subsection \<open>The API write of a decision\<close>

lemma updateApprovalState_task:
  "updateApprovalState env cl task s = (e, task', s') \<Longrightarrow> task' = fst (decideState (e_map_order env) task)"
  by (auto simp: updateApprovalState_def split: prod.splits bool.splits)

lemma updateApprovalState_silent:
  "\<not> answered (sp_Approvers (at_Spec task)) \<Longrightarrow>
     updateApprovalState env cl task s = (None, fst (decideState (e_map_order env) task), s)"
  using decideState_writes [of "e_map_order env" task]
  by (auto simp: updateApprovalState_def split: prod.split bool.split)

lemma updateApprovalState_writes:
  "answered (sp_Approvers (at_Spec task)) \<Longrightarrow>
     updateApprovalState env cl task s =
       (case ApprovalTasks_UpdateStatus cl (at_namespace task) (fst (decideState (e_map_order env) task)) s of
          ((_, err), s') \<Rightarrow> (err, fst (decideState (e_map_order env) task), s'))"
proof -
  assume "answered (sp_Approvers (at_Spec task))"
  then obtain task' where d: "decideState (e_map_order env) task = (task', True)"
    using decideState_writes [of "e_map_order env" task] by (metis prod.collapse)
  then have "at_namespace task' = at_namespace task"
    using decideState_spec(2) [of "e_map_order env" task] by simp
  with d show ?thesis
    by (simp add: updateApprovalState_def)
qed

text \<open>The state a task is found to be in: the verdict, else what the status says.\<close>

definition found_state :: "approval_task \<Rightarrow> string" where
  "found_state task = verdict_state (task_verdict task) (st_State (at_Status task))"

lemma checkIfUpdateRequired_None:
  assumes "checkIfUpdateRequired env cl task run s = (None, run', s')"
  shows "run' = (if hash_changed env task then mark_run env (found_state task) run else run)"
proof (cases "hash_changed env task")
  case True
  obtain e task' s1 where u: "updateApprovalState env cl task s = (e, task', s1)"
    by (cases "updateApprovalState env cl task s") auto
  from updateApprovalState_task [OF u] have "st_State (at_Status task') = found_state task"
    by (simp only: found_state_def decideState_refines)
  with assms True u show ?thesis
    by (auto simp: checkIfUpdateRequired_def split: option.splits)
next
  case False
  with assms show ?thesis by (simp add: checkIfUpdateRequired_def)
qed

lemma checkIfUpdateRequired_Some:
  "checkIfUpdateRequired env cl task run s = (Some e, run', s') \<Longrightarrow> run' = run"
  by (auto simp: checkIfUpdateRequired_def split: if_splits prod.splits option.splits)

lemma checkIfUpdateRequired_same:
  "\<not> hash_changed env task \<Longrightarrow> checkIfUpdateRequired env cl task run s = (None, run, s)"
  by (simp add: checkIfUpdateRequired_def)

subsection \<open>Marks on the run\<close>

lemma mark_run_ok: "run_conditions_ok run \<Longrightarrow> run_conditions_ok (mark_run env state run)"
  by (simp add: mark_run_def run_conditions_ok_def Mark_conditions_ok)

lemma mark_run_approved:
  "run_conditions_ok run \<Longrightarrow>
     run_marked (mark_run env approvedState run) ConditionTrue ''Succeeded'' ''TaskRun succeeded''"
  using MarkCustomRunSucceeded_marked [of run "e_now env" "''Succeeded''" "''TaskRun succeeded''"]
  by (simp add: mark_run_def Sprintf0_id)

lemma mark_run_rejected:
  "run_conditions_ok run \<Longrightarrow>
     run_marked (mark_run env rejectedState run) ConditionFalse ''Failed'' ''Approval Task denied''"
  using MarkCustomRunFailed_marked [of run "e_now env" "''Failed''" "''Approval Task denied''"]
  by (simp add: mark_run_def Sprintf0_id)

lemma mark_run_other: "state \<noteq> approvedState \<Longrightarrow> state \<noteq> rejectedState \<Longrightarrow> mark_run env state run = run"
  by (simp add: mark_run_def)

lemma not_both: "\<not> (IsSuccessful run \<and> IsFailure run)"
  by (cases "run_condition run") (auto simp: IsSuccessful_def IsFailure_def)

lemma IsDone_iff_not_unknown: "IsSuccessful run \<or> IsFailure run \<Longrightarrow> IsDone run"
  by (cases "run_condition run") (auto simp: IsSuccessful_def IsFailure_def IsDone_def)

lemma propagate_status [simp]:
  "cr_Status (propagateApprovalTaskLabelsAndAnnotations run meta) = cr_Status run"
  "cr_Timeout (propagateApprovalTaskLabelsAndAnnotations run meta) = cr_Timeout run"
  by (simp_all add: propagateApprovalTaskLabelsAndAnnotations_def)

lemma run_condition_cong: "cr_Status run = cr_Status run' \<Longrightarrow> run_condition run = run_condition run'"
  by (simp add: run_condition_def)

lemma propagate_run [simp]:
  "run_condition (propagateApprovalTaskLabelsAndAnnotations run meta) = run_condition run"
  "run_conditions_ok (propagateApprovalTaskLabelsAndAnnotations run meta) = run_conditions_ok run"
  "run_timeout (propagateApprovalTaskLabelsAndAnnotations run meta) = run_timeout run"
  by (simp_all add: run_condition_def run_conditions_ok_def run_timeout_def)

subsection \<open>Reconciling with a task at hand\<close>

lemma start_task_started [simp]: "HasStarted (start_task task)"
  by (simp add: start_task_def HasStarted_def)

lemma start_task_sel [simp]:
  "at_Spec (start_task task) = at_Spec task" "at_Meta (start_task task) = at_Meta task"
  "st_State (at_Status (start_task task)) = st_State (at_Status task)"
  by (simp_all add: start_task_def)

lemma start_task_found [simp]:
  "task_verdict (start_task task) = task_verdict task"
  "found_state (start_task task) = found_state task"
  "hash_changed env (start_task task) = hash_changed env task"
  by (simp_all add: found_state_def task_verdict_def hash_changed_def)

definition timed_out :: "env \<Rightarrow> custom_run \<Rightarrow> approval_task \<Rightarrow> bool" where
  "timed_out env run task \<longleftrightarrow> ApprovalTaskHasTimedOut task (e_clock_check env) (run_timeout run)"

text \<open>The delay asked for: what is left of the timeout, or a second when that is not positive.\<close>

definition requeue_delay :: "env \<Rightarrow> custom_run \<Rightarrow> approval_task \<Rightarrow> duration" where
  "requeue_delay env run task =
     (let start = (case st_StartTime (at_Status task) of Some t \<Rightarrow> t | None \<Rightarrow> 0);
          waitTime = wrap64 (run_timeout run - TimeSub (e_clock_wait env) start)
      in if waitTime \<le> 0 then 1000000000 else waitTime)"

lemma requeue_delay_range: "0 < requeue_delay env run task \<and> in_int64 (requeue_delay env run task)"
  by (auto simp: requeue_delay_def Let_def in_int64_def [of 1000000000])

lemma reconcile_task_live:
  assumes "\<not> timed_out env run task" and "HasStarted task"
  shows "reconcile_task env cl task run s =
    (case checkIfUpdateRequired env cl task run s of
       (Some e, run', s') \<Rightarrow> (Some e, run', s')
     | (None, run', s') \<Rightarrow> (Some (RequeueErr (requeue_delay env run task)), run', s'))"
proof -
  obtain start where "st_StartTime (at_Status task) = Some start"
    using assms(2) by (auto simp: HasStarted_def)
  then show ?thesis
    using assms(1)
    by (cases "checkIfUpdateRequired env cl task run s")
      (simp add: reconcile_task_def timed_out_def requeue_delay_def Let_def NewRequeueAfter_def split: option.split)
qed

lemma reconcile_task_timed_out:
  assumes "timed_out env run task"
  shows "reconcile_task env cl task run s =
    (case ApprovalTasks_UpdateStatus cl (at_namespace task) (task\<lparr>at_Status := (at_Status task)\<lparr>st_State := rejectedState\<rparr>\<rparr>) s of
       ((_, Some e), s') \<Rightarrow> (Some e, run, s')
     | ((_, None), s') \<Rightarrow>
         (None, run\<lparr>cr_Status := MarkCustomRunFailed (e_now env) ''Failed''
            (Sprintf0 (timeout_message (at_name task))) (cr_Status run)\<rparr>, s'))"
  using assms by (simp add: reconcile_task_def timed_out_def Let_def)

text \<open>A reconciliation that ends without an error is one that found the task timed out.\<close>

lemma reconcile_task_None:
  "reconcile_task env cl task run s = (None, run', s') \<Longrightarrow> HasStarted task \<Longrightarrow> timed_out env run task"
  by (rule ccontr) (auto simp: reconcile_task_live split: prod.splits option.splits)

text \<open>The run is marked according to the task, and in no other way.\<close>

lemma reconcile_task_marks:
  assumes "reconcile_task env cl task run s = (err, run', s')" and "HasStarted task"
  shows "run' = run
    \<or> \<not> timed_out env run task \<and> hash_changed env task \<and> run' = mark_run env (found_state task) run
    \<or> timed_out env run task \<and> err = None \<and> run' = run\<lparr>cr_Status := MarkCustomRunFailed (e_now env) ''Failed''
            (Sprintf0 (timeout_message (at_name task))) (cr_Status run)\<rparr>"
proof (cases "timed_out env run task")
  case True
  with assms(1) show ?thesis
    by (auto simp: reconcile_task_timed_out split: prod.splits option.splits)
next
  case False
  with assms show ?thesis
    by (auto simp: reconcile_task_live dest: checkIfUpdateRequired_None checkIfUpdateRequired_Some
        split: prod.splits option.splits if_splits)
qed

lemma mark_success:
  assumes "run_conditions_ok run" and "\<not> IsSuccessful run" and "IsSuccessful (mark_run env state run)"
  shows "state = approvedState"
proof (rule ccontr)
  assume "state \<noteq> approvedState"
  moreover have "\<not> IsSuccessful (mark_run env rejectedState run)"
    using mark_run_rejected [OF assms(1)] run_marked_done(2) not_both by blast
  ultimately show False
    using assms by (cases "state = rejectedState") (auto simp: mark_run_other)
qed

end
