(* ===== verification/Reconcile_Run.thy ===== *)
theory Reconcile_Run
  imports Reconcile_Facts
begin

text \<open>
  Whole reconciliations: \<open>ReconcileKind\<close> for any API, and, in a store nobody else writes to, what is
  stored afterwards.
\<close>

subsection \<open>Obtaining the task\<close>

lemma getOrCreate_run:
  "getOrCreateApprovalTask env cl run s = (Inr task, run', s') \<Longrightarrow> run' = run"
  by (auto simp: getOrCreateApprovalTask_def Let_def split: if_splits option.splits prod.splits sum.splits)

lemma getOrCreate_error:
  "getOrCreateApprovalTask env cl run s = (Inl e, run', s') \<Longrightarrow>
     run' = run \<or> (\<exists>msg. run' = run\<lparr>cr_Status := MarkCustomRunFailed (e_now env) ''CouldntGetApprovalTask'' msg (cr_Status run)\<rparr>)"
  by (auto simp: getOrCreateApprovalTask_def Let_def split: if_splits option.splits prod.splits sum.splits)

text \<open>The task depends on the run's identity, reference and parameters, not on its status.\<close>

definition same_request :: "custom_run \<Rightarrow> custom_run \<Rightarrow> bool" where
  "same_request r r' \<longleftrightarrow>
     cr_Meta r = cr_Meta r' \<and> cr_CustomRef r = cr_CustomRef r' \<and> cr_CustomSpec r = cr_CustomSpec r'
     \<and> cr_Params r = cr_Params r'"

lemma same_request_refl [simp]: "same_request r r"
  by (simp add: same_request_def)

subsection \<open>Steps of ReconcileKind that leave the run's request alone\<close>

lemma initialize_request:
  assumes "initializeCustomRun env run evs = (run', evs')"
  shows "same_request run' run" and "cr_Timeout run' = cr_Timeout run"
  using assms by (auto simp: initializeCustomRun_def same_request_def Let_def split: if_splits)

lemma initialize_started: "run_HasStarted run \<Longrightarrow> initializeCustomRun env run evs = (run, evs)"
  by (simp add: initializeCustomRun_def)

lemma initialize_ok:
  "run_conditions_ok run \<Longrightarrow> initializeCustomRun env run evs = (run', evs') \<Longrightarrow> run_conditions_ok run'"
  by (auto simp: initializeCustomRun_def run_conditions_ok_def Let_def InitializeConditions_ok split: if_splits)

text \<open>Starting a run keeps the status of its condition, which is unknown when there is none.\<close>

definition run_status :: "custom_run \<Rightarrow> string" where
  "run_status run = (case run_condition run of None \<Rightarrow> ConditionUnknown | Some c \<Rightarrow> cond_Status c)"

lemma run_status_iff:
  "IsSuccessful run \<longleftrightarrow> run_status run = ConditionTrue"
  "IsFailure run \<longleftrightarrow> run_status run = ConditionFalse"
  "IsDone run \<longleftrightarrow> run_status run \<noteq> ConditionUnknown"
  by (auto simp: run_status_def IsSuccessful_def IsFailure_def IsDone_def split: option.split)

lemma InitializeConditions_status:
  assumes "run_conditions_ok run"
  shows "run_status (run\<lparr>cr_Status := InitializeConditions now (cr_Status run)\<rparr>) = run_status run"
proof -
  let ?cs = "crs_Conditions (cr_Status run)"
  let ?init = "new_condition ConditionSucceeded ConditionUnknown '''' '''' ''''"
  have ok: "conditions_ok ?cs" using assms by (simp add: run_conditions_ok_def)
  have init: "InitializeConditionSet customRunCondSet now ?cs =
      (if GetCondition ConditionSucceeded ?cs = None then SetCondition now ?init ?cs else ?cs)"
    by (cases "GetCondition ConditionSucceeded ?cs") (simp_all add: InitializeConditionSet_def)
  obtain c where c: "GetCondition ConditionSucceeded (InitializeConditionSet customRunCondSet now ?cs) = Some c"
    and st: "cond_Status c = run_status run"
  proof (cases "GetCondition ConditionSucceeded ?cs")
    case None
    with SetCondition_same [OF ok, of ?init now] that show ?thesis
      by (auto simp: init run_status_def run_condition_def)
  next
    case (Some c)
    with that show ?thesis by (auto simp: init run_status_def run_condition_def)
  qed
  let ?cs1 = "InitializeConditionSet customRunCondSet now ?cs"
  have ok1: "conditions_ok ?cs1" using ok by (simp add: init SetCondition_ok)
  have "cond_Type c = ConditionSucceeded" using GetCondition_type [OF c] by simp
  with SetCondition_same [OF ok1, of "c\<lparr>cond_Reason := ''Started''\<rparr>" now] c st
  show ?thesis
    by (auto simp: InitializeConditions_def run_status_def run_condition_def Let_def)
qed

lemma initialize_status:
  assumes "run_conditions_ok run" and "initializeCustomRun env run evs = (run', evs')"
  shows "run_status run' = run_status run"
proof -
  have "run_status run' = run_status run \<or>
      run_status run' = run_status (run\<lparr>cr_Status := InitializeConditions (e_now_init env) (cr_Status run)\<rparr>)"
    using assms(2)
    by (auto simp: initializeCustomRun_def Let_def run_status_def run_condition_def split: if_splits)
  with InitializeConditions_status [OF assms(1)] show ?thesis by auto
qed

lemma EncodeExtraFields_condition [simp]:
  "crs_Conditions (EncodeExtraFields rs st) = crs_Conditions st"
  by (simp add: EncodeExtraFields_def)

lemma ReconcileKind_done:
  assumes "checkCustomRunReferencesApprovalTask run = None" and "run_HasStarted run" and "IsDone run"
  shows "ReconcileKind env cl run w = (None, run, w)"
  using assms by (simp add: ReconcileKind_def initialize_started)

subsection \<open>Who can make a run succeed\<close>

lemma failed_not_successful:
  "run_conditions_ok run \<Longrightarrow>
     \<not> IsSuccessful (run\<lparr>cr_Status := MarkCustomRunFailed now reason msg (cr_Status run)\<rparr>)"
  using MarkCustomRunFailed_marked run_marked_done(2) not_both by blast

lemma failed_conditions_ok:
  "run_conditions_ok run \<Longrightarrow> run_conditions_ok (run\<lparr>cr_Status := MarkCustomRunFailed now reason msg (cr_Status run)\<rparr>)"
  by (simp add: run_conditions_ok_def Mark_conditions_ok)

lemma IsSuccessful_cong: "cr_Status r = cr_Status r' \<Longrightarrow> IsSuccessful r = IsSuccessful r'"
  by (simp add: IsSuccessful_def run_condition_def)

text \<open>A run that a reconciliation makes succeed has a task found approved, changed, and in time.\<close>

definition approved_task :: "env \<Rightarrow> 's at_client \<Rightarrow> custom_run \<Rightarrow> 's \<Rightarrow> approval_task \<Rightarrow> bool" where
  "approved_task env cl run s task \<longleftrightarrow>
     (\<exists>r s'. same_request r run \<and> getOrCreateApprovalTask env cl r s = (Inr task, r, s'))
     \<and> found_state task = approvedState \<and> hash_changed env task"

lemma reconcile_success:
  assumes "reconcile env cl run status s = (err, run', status', s')"
    and "run_conditions_ok run" and "\<not> IsSuccessful run" and "IsSuccessful run'"
  shows "\<exists>task. approved_task env cl run s task"
proof (cases "getOrCreateApprovalTask env cl run s")
  case (fields res run1 s1)
  show ?thesis
  proof (cases res)
    case (Inl e)
    with fields assms(1) have "run' = run1" by (simp add: reconcile_def)
    with getOrCreate_error [of env cl run s e run1 s1] fields Inl assms(2-4) show ?thesis
      by (auto simp: failed_not_successful)
  next
    case (Inr task)
    with fields have run1: "run1 = run" using getOrCreate_run by simp
    let ?run2 = "propagateApprovalTaskLabelsAndAnnotations run (at_Meta task)"
    from fields Inr run1 assms(1)
    have rt: "reconcile_task env cl (start_task task) ?run2 s1 = (err, run', s')"
      by (auto simp: reconcile_def Let_def split: prod.splits)
    have ok2: "run_conditions_ok ?run2" and ns: "\<not> IsSuccessful ?run2"
      using assms(2,3) IsSuccessful_cong [of ?run2 run] by simp_all
    have "run' \<noteq> ?run2" using ns assms(4) by blast
    moreover have "run' \<noteq> ?run2\<lparr>cr_Status := MarkCustomRunFailed now r m (cr_Status ?run2)\<rparr>" for now r m
      using failed_not_successful [OF ok2] assms(4) by metis
    ultimately have "hash_changed env task \<and> run' = mark_run env (found_state task) ?run2"
      using reconcile_task_marks [OF rt start_task_started] unfolding start_task_found by metis
    moreover from this mark_success [OF ok2 ns] assms(4) have "found_state task = approvedState" by blast
    moreover have "same_request run run" by simp
    ultimately show ?thesis
      unfolding approved_task_def using fields Inr run1 by blast
  qed
qed

lemma approved_task_request:
  "approved_task env cl r s task \<Longrightarrow> same_request r r' \<Longrightarrow> approved_task env cl r' s task"
  by (auto simp: approved_task_def same_request_def)

lemma ReconcileKind_valid_success:
  assumes "ReconcileKind_valid env cl run w = (err, run', w')"
    and "run_conditions_ok run" and "\<not> IsSuccessful run" and "IsSuccessful run'"
  shows "\<exists>task. approved_task env cl run (w_api w) task"
proof -
  obtain status derr where d: "DecodeExtraFields (e_unmarshal_status env) (cr_Status run) empty_run_status = (status, derr)"
    by force
  define run1 where "run1 = (case derr of None \<Rightarrow> run
     | Some e \<Rightarrow> run\<lparr>cr_Status := MarkCustomRunFailed (e_now_decode env) (reason_String ReasonInternalError)
          (''Internal error calling DecodeExtraFields: '' @ e) (cr_Status run)\<rparr>)"
  have ok1: "run_conditions_ok run1" and ns1: "\<not> IsSuccessful run1" and req: "same_request run1 run"
    using assms(2,3) by (auto simp: run1_def failed_conditions_ok failed_not_successful same_request_def split: option.split)
  obtain e run2 st2 s2 where r: "reconcile env cl run1 status (w_api w) = (e, run2, st2, s2)"
    by (cases "reconcile env cl run1 status (w_api w)") auto
  have "IsSuccessful run' = IsSuccessful run2"
    using assms(1) d r
    by (auto simp: ReconcileKind_valid_def run1_def [symmetric] IsSuccessful_def run_condition_def Let_def
        split: option.splits prod.splits)
  with reconcile_success [OF r ok1 ns1] assms(4)
  obtain task where "approved_task env cl run1 (w_api w) task" by auto
  from approved_task_request [OF this req] show ?thesis ..
qed

theorem ReconcileKind_success:
  assumes "ReconcileKind env cl run w = (err, run', w')"
    and "run_conditions_ok run" and "\<not> IsSuccessful run" and "IsSuccessful run'"
  shows "\<exists>task. approved_task env cl run (w_api w) task"
proof -
  obtain run1 evs where i: "initializeCustomRun env run (w_events w) = (run1, evs)" by force
  have ok1: "run_conditions_ok run1" using initialize_ok [OF assms(2) i] .
  have ns1: "\<not> IsSuccessful run1"
    using initialize_status [OF assms(2) i] assms(3) by (simp add: run_status_iff)
  have failed: "\<not> IsSuccessful (run1\<lparr>cr_Status := MarkCustomRunFailed now r m (cr_Status run1)\<rparr>)" for now r m
    by (rule failed_not_successful [OF ok1])
  have "run' \<noteq> run" "run' \<noteq> run1" using assms(3,4) ns1 by auto
  with assms(1,4) i failed obtain d where
    v: "ReconcileKind_valid env cl (run1\<lparr>cr_Timeout := d\<rparr>) (w\<lparr>w_events := evs\<rparr>) = (err, run', w')"
    by (auto simp: ReconcileKind_def Let_def split: option.splits if_splits sum.splits)
  have "run_conditions_ok (run1\<lparr>cr_Timeout := d\<rparr>)" "\<not> IsSuccessful (run1\<lparr>cr_Timeout := d\<rparr>)"
    using ok1 ns1 by (simp_all add: run_conditions_ok_def IsSuccessful_def run_condition_def)
  from ReconcileKind_valid_success [OF v this assms(4)]
  obtain task where "approved_task env cl (run1\<lparr>cr_Timeout := d\<rparr>) (w_api w) task" by auto
  moreover have "same_request (run1\<lparr>cr_Timeout := d\<rparr>) run"
    using initialize_request(1) [OF i] by (simp add: same_request_def)
  ultimately have "approved_task env cl run (w_api w) task" by (rule approved_task_request)
  then show ?thesis ..
qed

text \<open>Such a task has its quorum and no rejection, or was stored as approved before.\<close>

lemma found_approved:
  "found_state task = approvedState \<Longrightarrow>
     (answered (sp_Approvers (at_Spec task)) \<and> \<not> rejects (sp_Approvers (at_Spec task))
      \<and> sp_NumberOfApprovalsRequired (at_Spec task) \<le> int (card (approved_users (sp_Approvers (at_Spec task)))))
     \<or> task_verdict task = Undecided \<and> st_State (at_Status task) = approvedState"
  by (cases "task_verdict task")
    (auto simp: found_state_def task_verdict_def decide_def Let_def split: if_splits)

end
