(* ===== verification/Reconcile_Store.thy ===== *)
theory Reconcile_Store
  imports Reconcile_Run
begin

text \<open>
  Reconciliations against a store that nobody else writes to: what is stored afterwards, how the
  run is marked and what the work queue is told. The lemmas are proved once for every
  \<open>task_store\<close>.
\<close>

abbreviation run_ns :: "custom_run \<Rightarrow> string" where
  "run_ns run \<equiv> om_Namespace (cr_Meta run)"

abbreviation run_name :: "custom_run \<Rightarrow> string" where
  "run_name run \<equiv> om_Name (cr_Meta run)"

text \<open>The stored task a run's key leads to carries that key.\<close>

definition keyed :: "custom_run \<Rightarrow> approval_task \<Rightarrow> bool" where
  "keyed run t \<longleftrightarrow> at_name t = run_name run \<and> at_namespace t = run_ns run"

lemma created_task_facts:
  assumes "created_task env run acc t"
  shows "keyed run t" and "\<not> hash_changed env t" and "st_State (at_Status t) = pendingState"
    and "at_Spec t = at_Spec (new_task run acc)"
  using assms by (simp_all add: created_task_def same_sent_def keyed_def hash_changed_def initial_status_def)

subsection \<open>A task at hand\<close>

text \<open>
  What is stored, given the task that was stored before and the reconciliation's view of it
  (\<open>start_task\<close>): a change of the approvers that somebody's answer comes with is decided and
  written; anything else leaves the store alone.
\<close>

definition stored_after :: "env \<Rightarrow> approval_task \<Rightarrow> approval_task" where
  "stored_after env t =
     (if hash_changed env t \<and> answered (sp_Approvers (at_Spec t))
      then fst (decideState (e_map_order env) (start_task t)) else t)"

definition marked_after :: "env \<Rightarrow> approval_task \<Rightarrow> custom_run \<Rightarrow> custom_run" where
  "marked_after env t run = (if hash_changed env t then mark_run env (found_state t) run else run)"

definition expired_task :: "approval_task \<Rightarrow> approval_task" where
  "expired_task t = (start_task t)\<lparr>at_Status := (at_Status (start_task t))\<lparr>st_State := rejectedState\<rparr>\<rparr>"

definition expired_run :: "env \<Rightarrow> approval_task \<Rightarrow> custom_run \<Rightarrow> custom_run" where
  "expired_run env t run = run\<lparr>cr_Status := MarkCustomRunFailed (e_now env) ''Failed''
     (Sprintf0 (timeout_message (at_name t))) (cr_Status run)\<rparr>"

context task_store
begin

lemma getOrCreate_stored:
  assumes "cr_CustomRef run \<noteq> None" and "lookup s (run_ns run) (run_name run) = Some t"
  shows "getOrCreateApprovalTask env cl run s = (Inr t, run, s)"
  using assms by (simp add: getOrCreateApprovalTask_def Get_hit)

lemma getOrCreate_missing:
  assumes "cr_CustomRef run \<noteq> None" and "lookup s (run_ns run) (run_name run) = None"
    and "create_params (cr_Params run) create_init = Inr acc"
  obtains t s' where "getOrCreateApprovalTask env cl run s = (Inr t, run, s')" "created_task env run acc t"
    "om_CreationTimestamp (at_Meta t) = stamp s 0"
    "\<And>ns n. lookup s' ns n = (if ns = run_ns run \<and> n = run_name run then Some t else lookup s ns n)"
proof -
  obtain e where e: "ApprovalTasks_Get cl (run_ns run) (run_name run) s = ((empty_task, Some (api_go e)), s)"
    "IsNotFound (api_go e)" using Get_miss [OF assms(2)] .
  obtain t s' where "createApprovalTask env cl run s = (Inr t, s')" "created_task env run acc t"
    "om_CreationTimestamp (at_Meta t) = stamp s 0"
    "\<And>ns n. lookup s' ns n = (if ns = run_ns run \<and> n = run_name run then Some t else lookup s ns n)"
    using createApprovalTask_fresh [OF assms(2,3)] by metis
  with e assms(1) that show ?thesis by (simp add: getOrCreateApprovalTask_def)
qed

lemma update_stored:
  assumes "lookup s (run_ns run) (run_name run) = Some t" and "keyed run t"
    and "at_Spec t' = at_Spec t" and "at_Meta t' = at_Meta t"
  obtains s' where "ApprovalTasks_UpdateStatus cl (at_namespace t') t' s = ((t', None), s')"
    "\<And>ns n. lookup s' ns n = (if ns = run_ns run \<and> n = run_name run then Some t' else lookup s ns n)"
proof -
  have k: "at_name t' = run_name run" "at_namespace t' = run_ns run"
    using assms(2,4) by (simp_all add: keyed_def)
  from UpdateStatus_hit [of s "run_ns run" t' t] assms k that show ?thesis by metis
qed

lemma reconcile_task_stored:
  assumes "lookup s (run_ns run) (run_name run) = Some t" and "keyed run t"
    and "\<not> timed_out env r (start_task t)"
  obtains s' where
    "reconcile_task env cl (start_task t) r s =
       (Some (RequeueErr (requeue_delay env r (start_task t))), marked_after env t r, s')"
    "\<And>ns n. lookup s' ns n =
       (if ns = run_ns run \<and> n = run_name run then Some (stored_after env t) else lookup s ns n)"
proof (cases "hash_changed env t \<and> answered (sp_Approvers (at_Spec t))")
  case True
  let ?t' = "fst (decideState (e_map_order env) (start_task t))"
  have same: "at_Spec ?t' = at_Spec t" "at_Meta ?t' = at_Meta t" by simp_all
  obtain s' where u: "ApprovalTasks_UpdateStatus cl (at_namespace ?t') ?t' s = ((?t', None), s')"
    and l: "\<And>ns n. lookup s' ns n = (if ns = run_ns run \<and> n = run_name run then Some ?t' else lookup s ns n)"
    using update_stored [OF assms(1,2) same] by metis
  have "updateApprovalState env cl (start_task t) s = (None, ?t', s')"
    using True u by (simp add: updateApprovalState_writes)
  then have "checkIfUpdateRequired env cl (start_task t) r s = (None, marked_after env t r, s')"
    using True by (simp add: checkIfUpdateRequired_def marked_after_def decideState_refines
        found_state_def)
  with assms(3) True l that [of s'] show ?thesis
    by (simp add: reconcile_task_live stored_after_def)
next
  case False
  have "checkIfUpdateRequired env cl (start_task t) r s = (None, marked_after env t r, s)"
  proof (cases "hash_changed env t")
    case True
    with False have "updateApprovalState env cl (start_task t) s =
        (None, fst (decideState (e_map_order env) (start_task t)), s)"
      by (simp add: updateApprovalState_silent)
    with True show ?thesis
      by (simp add: checkIfUpdateRequired_def marked_after_def decideState_refines
          found_state_def)
  next
    case False
    then show ?thesis by (simp add: checkIfUpdateRequired_def marked_after_def)
  qed
  moreover have "stored_after env t = t" using False by (auto simp: stored_after_def)
  ultimately show ?thesis
    using assms(1,3) that [of s] by (auto simp: reconcile_task_live)
qed

lemma reconcile_task_expired:
  assumes "lookup s (run_ns run) (run_name run) = Some t" and "keyed run t"
    and "timed_out env r (start_task t)"
  obtains s' where
    "reconcile_task env cl (start_task t) r s = (None, expired_run env t r, s')"
    "\<And>ns n. lookup s' ns n =
       (if ns = run_ns run \<and> n = run_name run then Some (expired_task t) else lookup s ns n)"
proof -
  have same: "at_Spec (expired_task t) = at_Spec t" "at_Meta (expired_task t) = at_Meta t"
    by (simp_all add: expired_task_def)
  obtain s' where u: "ApprovalTasks_UpdateStatus cl (at_namespace (expired_task t)) (expired_task t) s =
      ((expired_task t, None), s')"
    and l: "\<And>ns n. lookup s' ns n = (if ns = run_ns run \<and> n = run_name run then Some (expired_task t) else lookup s ns n)"
    using update_stored [OF assms(1,2) same] by metis
  have "reconcile_task env cl (start_task t) r s = (None, expired_run env t r, s')"
    using u same by (simp add: reconcile_task_timed_out [OF assms(3)] expired_task_def [symmetric] expired_run_def)
  with l that show ?thesis by blast
qed

end

subsection \<open>Whole reconciliations\<close>

text \<open>A run this controller will work on: it refers to an ApprovalTask, is not done, is valid.\<close>

definition ready :: "env \<Rightarrow> custom_run \<Rightarrow> bool" where
  "ready env run \<longleftrightarrow>
     checkCustomRunReferencesApprovalTask run = None \<and> cr_CustomRef run \<noteq> None
     \<and> run_conditions_ok run \<and> \<not> IsDone run
     \<and> ValidateCustomRunParameters (e_unmarshal_json env) run = None
     \<and> (\<forall>p \<in> set (cr_Params run). p_Name p = ''approvers'' \<longrightarrow> array_only p)
     \<and> crs_ExtraFields (cr_Status run) = []
     \<and> (case parse_timeout env run of Inl _ \<Rightarrow> False | Inr _ \<Rightarrow> True)"

definition timeout_of :: "env \<Rightarrow> custom_run \<Rightarrow> duration option" where
  "timeout_of env run = (case parse_timeout env run of Inl _ \<Rightarrow> None | Inr d \<Rightarrow> d)"

text \<open>The run as \<open>reconcile\<close> sees it: started, with its timeout.\<close>

definition begun :: "env \<Rightarrow> custom_run \<Rightarrow> custom_run" where
  "begun env run = (fst (initializeCustomRun env run []))\<lparr>cr_Timeout := timeout_of env run\<rparr>"

lemma initialize_events:
  "fst (initializeCustomRun env run evs) = fst (initializeCustomRun env run [])"
  by (simp add: initializeCustomRun_def Let_def)

lemma begun_sel [simp]:
  "cr_Meta (begun env run) = cr_Meta run" "cr_CustomRef (begun env run) = cr_CustomRef run"
  "cr_Params (begun env run) = cr_Params run" "cr_Timeout (begun env run) = timeout_of env run"
  using initialize_request(1) [of env run "[]" "fst (initializeCustomRun env run [])" "snd (initializeCustomRun env run [])"]
  by (simp_all add: begun_def same_request_def)

lemma begun_status:
  assumes "run_conditions_ok run"
  shows "run_status (begun env run) = run_status run" and "run_conditions_ok (begun env run)"
proof -
  obtain r evs where i: "initializeCustomRun env run [] = (r, evs)" by force
  have b: "cr_Status (begun env run) = cr_Status r" by (simp add: begun_def i)
  then have "run_condition (begun env run) = run_condition r" by (rule run_condition_cong)
  then show "run_status (begun env run) = run_status run"
    using initialize_status [OF assms i] by (simp add: run_status_def)
  show "run_conditions_ok (begun env run)"
    using initialize_ok [OF assms i] b by (simp add: run_conditions_ok_def)
qed

lemma ready_valid_run: "ready env run \<Longrightarrow> valid_run run"
  by (auto simp: ready_def intro: valid_runI)

lemma initialize_extra: "crs_ExtraFields (cr_Status (fst (initializeCustomRun env run evs))) = crs_ExtraFields (cr_Status run)"
  by (simp add: initializeCustomRun_def InitializeConditions_def Let_def)

lemma ReconcileKind_ready:
  assumes "ready env run"
  obtains evs where
    "ReconcileKind env cl run w =
       (case reconcile env cl (begun env run) empty_run_status (w_api w) of
          (Some e, run2, _, s2) \<Rightarrow> (Some (multierror_Append None [Some e]), run2, w\<lparr>w_events := evs, w_api := s2\<rparr>)
        | (None, run2, status2, s2) \<Rightarrow>
            (let (lerr, w2) = updateLabelsAndAnnotations env run2 (w\<lparr>w_events := evs, w_api := s2\<rparr>);
                 merr = (case lerr of None \<Rightarrow> None | Some e \<Rightarrow> Some (multierror_Append None [Some e]));
                 run3 = run2\<lparr>cr_Status := EncodeExtraFields status2 (cr_Status run2)\<rparr>
             in (merr, run3, w2\<lparr>w_events := Emit (run_condition (begun env run)) (run_condition run3) (w_events w2)\<rparr>)))"
proof -
  obtain r evs where i: "initializeCustomRun env run (w_events w) = (r, evs)" by force
  have r: "r = fst (initializeCustomRun env run [])"
    using initialize_events [of env run "w_events w"] i by simp
  obtain d where d: "parse_timeout env run = Inr d"
    using assms by (auto simp: ready_def split: sum.splits)
  have req: "same_request r run" "cr_Timeout r = cr_Timeout run" using initialize_request [OF i] by auto
  have "parse_timeout env r = parse_timeout env run"
    using req by (simp add: parse_timeout_def same_request_def)
  with d have pt: "parse_timeout env r = Inr d" by simp
  have b: "r\<lparr>cr_Timeout := d\<rparr> = begun env run"
    using d by (simp add: begun_def r timeout_of_def)
  have nd: "\<not> IsDone r"
    using initialize_status [OF _ i] assms by (simp add: run_status_iff ready_def)
  have vp: "ValidateCustomRunParameters (e_unmarshal_json env) r = None"
    using req assms by (simp add: ready_def same_request_def ValidateCustomRunParameters_def)
  have ex: "crs_ExtraFields (cr_Status (begun env run)) = []"
    using initialize_extra [of env run "[]"] assms by (simp add: begun_def ready_def)
  have "ReconcileKind env cl run w = ReconcileKind_valid env cl (begun env run) (w\<lparr>w_events := evs\<rparr>)"
    using assms i nd vp pt b by (simp add: ReconcileKind_def ready_def)
  with that [of evs] ex show ?thesis
    by (simp add: ReconcileKind_valid_def DecodeExtraFields_def Let_def)
qed


text \<open>The delay and the run of a reconciliation that goes on, and what a mark shows.\<close>

definition next_run :: "env \<Rightarrow> custom_run \<Rightarrow> approval_task \<Rightarrow> custom_run" where
  "next_run env run t =
     marked_after env t (propagateApprovalTaskLabelsAndAnnotations (begun env run) (at_Meta t))"

definition in_time :: "env \<Rightarrow> custom_run \<Rightarrow> approval_task \<Rightarrow> bool" where
  "in_time env run t \<longleftrightarrow> \<not> timed_out env (begun env run) (start_task t)"

definition delay_of :: "env \<Rightarrow> custom_run \<Rightarrow> approval_task \<Rightarrow> duration" where
  "delay_of env run t = requeue_delay env (begun env run) (start_task t)"

lemma timed_out_propagate [simp]:
  "timed_out env (propagateApprovalTaskLabelsAndAnnotations r meta) t = timed_out env r t"
  "requeue_delay env (propagateApprovalTaskLabelsAndAnnotations r meta) t = requeue_delay env r t"
  by (simp_all add: timed_out_def requeue_delay_def)

lemma next_run_status:
  assumes "ready env run"
  shows "hash_changed env t \<Longrightarrow> found_state t = approvedState \<Longrightarrow> IsSuccessful (next_run env run t)"
    and "hash_changed env t \<Longrightarrow> found_state t = rejectedState \<Longrightarrow> IsFailure (next_run env run t)"
    and "\<not> hash_changed env t \<or> found_state t \<noteq> approvedState \<and> found_state t \<noteq> rejectedState \<Longrightarrow>
           run_status (next_run env run t) = run_status run"
proof -
  let ?r = "propagateApprovalTaskLabelsAndAnnotations (begun env run) (at_Meta t)"
  have ok: "run_conditions_ok ?r" using assms by (simp add: ready_def begun_status)
  show "hash_changed env t \<Longrightarrow> found_state t = approvedState \<Longrightarrow> IsSuccessful (next_run env run t)"
    using run_marked_done(1) [OF mark_run_approved [OF ok]] by (simp add: next_run_def marked_after_def)
  show "hash_changed env t \<Longrightarrow> found_state t = rejectedState \<Longrightarrow> IsFailure (next_run env run t)"
    using run_marked_done(2) [OF mark_run_rejected [OF ok]] by (simp add: next_run_def marked_after_def)
  have "run_status ?r = run_status run"
    using begun_status(1) [of run env] assms by (simp add: run_status_def ready_def)
  then show "\<not> hash_changed env t \<or> found_state t \<noteq> approvedState \<and> found_state t \<noteq> rejectedState \<Longrightarrow>
           run_status (next_run env run t) = run_status run"
    by (auto simp: next_run_def marked_after_def mark_run_other)
qed

lemma new_task_begun [simp]: "new_task (begun env run) acc = new_task run acc"
  by (simp add: new_task_def)

lemma created_task_begun [simp]: "created_task env' (begun env run) acc t = created_task env' run acc t"
  by (simp add: created_task_def)

lemma keyed_begun [simp]:
  "keyed (begun env run) t = keyed run t"
  "keyed (propagateApprovalTaskLabelsAndAnnotations r meta) t = keyed r t"
  by (simp_all add: keyed_def propagateApprovalTaskLabelsAndAnnotations_def)

context task_store
begin

lemma kind_stored:
  assumes "ready env run" and "lookup (w_api w) (run_ns run) (run_name run) = Some t"
    and "keyed run t" and "in_time env run t"
  obtains w' where
    "ReconcileKind env cl run w = (Some (MultiErr [RequeueErr (delay_of env run t)]), next_run env run t, w')"
    "\<And>ns n. lookup (w_api w') ns n =
       (if ns = run_ns run \<and> n = run_name run then Some (stored_after env t) else lookup (w_api w) ns n)"
proof -
  let ?r = "propagateApprovalTaskLabelsAndAnnotations (begun env run) (at_Meta t)"
  have g: "getOrCreateApprovalTask env cl (begun env run) (w_api w) = (Inr t, begun env run, w_api w)"
    using assms by (intro getOrCreate_stored) (simp_all add: ready_def)
  have nt: "\<not> timed_out env ?r (start_task t)" using assms(4) by (simp add: in_time_def)
  obtain s' where rt: "reconcile_task env cl (start_task t) ?r (w_api w) =
      (Some (RequeueErr (delay_of env run t)), next_run env run t, s')"
    and l: "\<And>ns n. lookup s' ns n =
       (if ns = run_ns run \<and> n = run_name run then Some (stored_after env t) else lookup (w_api w) ns n)"
    using reconcile_task_stored [OF assms(2,3) nt] unfolding delay_of_def next_run_def timed_out_propagate by metis
  obtain evs where k: "ReconcileKind env cl run w = (Some (MultiErr [RequeueErr (delay_of env run t)]),
      next_run env run t, w\<lparr>w_events := evs, w_api := s'\<rparr>)"
    using ReconcileKind_ready [OF assms(1), of cl w] g rt by (auto simp: reconcile_def Let_def)
  with l that show ?thesis by simp
qed

lemma kind_fresh_as:
  assumes "ready env run" and "lookup (w_api w) (run_ns run) (run_name run) = None"
  obtains acc t where
    "create_params (cr_Params run) create_init = Inr acc" "created_task env run acc t"
    "om_CreationTimestamp (at_Meta t) = stamp (w_api w) 0"
    "in_time env run t \<Longrightarrow>
       \<exists>w'. ReconcileKind env cl run w = (Some (MultiErr [RequeueErr (delay_of env run t)]), next_run env run t, w')
         \<and> (\<forall>ns n. lookup (w_api w') ns n =
              (if ns = run_ns run \<and> n = run_name run then Some t else lookup (w_api w) ns n))"
proof -
  obtain acc where acc: "create_params (cr_Params run) create_init = Inr acc"
    using valid_run_new_task [OF ready_valid_run [OF assms(1)]] by metis
  obtain t s1 where g: "getOrCreateApprovalTask env cl (begun env run) (w_api w) = (Inr t, begun env run, s1)"
    and c: "created_task env run acc t" and st: "om_CreationTimestamp (at_Meta t) = stamp (w_api w) 0"
    and l1: "\<And>ns n. lookup s1 ns n = (if ns = run_ns run \<and> n = run_name run then Some t else lookup (w_api w) ns n)"
    using getOrCreate_missing [of "begun env run" "w_api w" acc env] assms acc by (auto simp: ready_def)
  note f = created_task_facts [OF c]
  let ?r = "propagateApprovalTaskLabelsAndAnnotations (begun env run) (at_Meta t)"
  show ?thesis
  proof (rule that [OF acc c st])
    assume it: "in_time env run t"
    then have nt: "\<not> timed_out env ?r (start_task t)" by (simp add: in_time_def)
    have "lookup s1 (run_ns run) (run_name run) = Some t" by (simp add: l1)
    then obtain s' where rt: "reconcile_task env cl (start_task t) ?r s1 =
        (Some (RequeueErr (delay_of env run t)), next_run env run t, s')"
      and l: "\<And>ns n. lookup s' ns n =
         (if ns = run_ns run \<and> n = run_name run then Some (stored_after env t) else lookup s1 ns n)"
      using reconcile_task_stored [OF _ f(1) nt] unfolding delay_of_def next_run_def timed_out_propagate by metis
    obtain evs where k: "ReconcileKind env cl run w = (Some (MultiErr [RequeueErr (delay_of env run t)]),
        next_run env run t, w\<lparr>w_events := evs, w_api := s'\<rparr>)"
      using ReconcileKind_ready [OF assms(1), of cl w] g rt by (auto simp: reconcile_def Let_def)
    have "stored_after env t = t" using f(2) by (simp add: stored_after_def)
    then show "\<exists>w'. ReconcileKind env cl run w = (Some (MultiErr [RequeueErr (delay_of env run t)]), next_run env run t, w')
         \<and> (\<forall>ns n. lookup (w_api w') ns n =
              (if ns = run_ns run \<and> n = run_name run then Some t else lookup (w_api w) ns n))"
      using k l l1 by auto
  qed
qed

lemma kind_fresh:
  assumes "ready env run" and "lookup (w_api w) (run_ns run) (run_name run) = None"
  obtains acc t where
    "create_params (cr_Params run) create_init = Inr acc" "created_task env run acc t"
    "om_CreationTimestamp (at_Meta t) = stamp (w_api w) 0"
    "in_time env run t \<Longrightarrow>
       \<exists>run' w'. ReconcileKind env cl run w = (Some (MultiErr [RequeueErr (delay_of env run t)]), run', w')
         \<and> run_status run' = run_status run
         \<and> (\<forall>ns n. lookup (w_api w') ns n =
              (if ns = run_ns run \<and> n = run_name run then Some t else lookup (w_api w) ns n))"
proof (rule kind_fresh_as [OF assms])
  fix acc t
  assume a: "create_params (cr_Params run) create_init = Inr acc" "created_task env run acc t"
    "om_CreationTimestamp (at_Meta t) = stamp (w_api w) 0"
    and k: "in_time env run t \<Longrightarrow>
       \<exists>w'. ReconcileKind env cl run w = (Some (MultiErr [RequeueErr (delay_of env run t)]), next_run env run t, w')
         \<and> (\<forall>ns n. lookup (w_api w') ns n =
              (if ns = run_ns run \<and> n = run_name run then Some t else lookup (w_api w) ns n))"
  have "run_status (next_run env run t) = run_status run"
    using next_run_status(3) [OF assms(1)] created_task_facts(2) [OF a(2)] by blast
  with k show thesis by (intro that [OF a]) blast
qed

lemma kind_expired:
  assumes "ready env run" and "lookup (w_api w) (run_ns run) (run_name run) = Some t"
    and "keyed run t" and "\<not> in_time env run t"
  obtains err run' w' where "ReconcileKind env cl run w = (err, run', w')"
    "run_marked run' ConditionFalse ''Failed'' (Sprintf0 (timeout_message (run_name run)))"
    "\<And>ns n. lookup (w_api w') ns n =
       (if ns = run_ns run \<and> n = run_name run then Some (expired_task t) else lookup (w_api w) ns n)"
proof -
  let ?r = "propagateApprovalTaskLabelsAndAnnotations (begun env run) (at_Meta t)"
  have g: "getOrCreateApprovalTask env cl (begun env run) (w_api w) = (Inr t, begun env run, w_api w)"
    using assms by (intro getOrCreate_stored) (simp_all add: ready_def)
  have nt: "timed_out env ?r (start_task t)" using assms(4) by (simp add: in_time_def)
  obtain s' where rt: "reconcile_task env cl (start_task t) ?r (w_api w) = (None, expired_run env t ?r, s')"
    and l: "\<And>ns n. lookup s' ns n =
       (if ns = run_ns run \<and> n = run_name run then Some (expired_task t) else lookup (w_api w) ns n)"
    using reconcile_task_expired [OF assms(2,3) nt] by metis
  have ok: "run_conditions_ok ?r" using assms(1) by (simp add: ready_def begun_status)
  have m: "run_marked (expired_run env t ?r) ConditionFalse ''Failed'' (Sprintf0 (timeout_message (run_name run)))"
    using MarkCustomRunFailed_marked [OF ok] assms(3) by (simp add: expired_run_def keyed_def)
  have enc: "run_condition (r\<lparr>cr_Status := EncodeExtraFields st (cr_Status r)\<rparr>) = run_condition r" for r st
    by (simp add: run_condition_def)
  have api: "w_api (snd (updateLabelsAndAnnotations env r v)) = w_api v" for r and v :: "'a world"
    by (simp add: updateLabelsAndAnnotations_def Let_def split: sum.split)
  obtain evs where k0: "ReconcileKind env cl run w =
      (case updateLabelsAndAnnotations env (expired_run env t ?r) (w\<lparr>w_events := evs, w_api := s'\<rparr>) of
         (lerr, w2) \<Rightarrow>
           (case lerr of None \<Rightarrow> None | Some e \<Rightarrow> Some (multierror_Append None [Some e]),
            (expired_run env t ?r)\<lparr>cr_Status := EncodeExtraFields (storeApprovalTaskSpec empty_run_status (at_Spec t))
                (cr_Status (expired_run env t ?r))\<rparr>,
            w2\<lparr>w_events := Emit (run_condition (begun env run)) (run_condition (expired_run env t ?r)) (w_events w2)\<rparr>))"
    using ReconcileKind_ready [OF assms(1), of cl w] g rt by (auto simp: reconcile_def Let_def enc)
  obtain lerr w2 where u: "updateLabelsAndAnnotations env (expired_run env t ?r) (w\<lparr>w_events := evs, w_api := s'\<rparr>) = (lerr, w2)"
    by force
  have a2: "w_api w2 = s'" using api [of "expired_run env t ?r" "w\<lparr>w_events := evs, w_api := s'\<rparr>"] u by simp
  obtain err run' w' where k: "ReconcileKind env cl run w = (err, run', w')"
    and c: "run_condition run' = run_condition (expired_run env t ?r)" and a: "w_api w' = s'"
    using k0 u a2 by (simp add: enc)
  from m c have "run_marked run' ConditionFalse ''Failed'' (Sprintf0 (timeout_message (run_name run)))"
    by (simp add: run_marked_def)
  with k a l that show ?thesis by simp
qed

end

end
