(* ===== verification/Failure_Facts.thy ===== *)
theory Failure_Facts
  imports Reconcile_Store
begin

text \<open>
  The other half of what a reconciliation may do to a run: why one that had not failed has failed
  afterwards.
\<close>

definition obtained_task :: "env \<Rightarrow> 's at_client \<Rightarrow> custom_run \<Rightarrow> 's \<Rightarrow> approval_task \<Rightarrow> bool" where
  "obtained_task env cl run s task \<longleftrightarrow>
     (\<exists>r s'. same_request r run \<and> getOrCreateApprovalTask env cl r s = (Inr task, r, s'))"

text \<open>What is wrong with the run itself: its parameters, its timeout, its stored status, its embedded spec.\<close>

definition faulty_run :: "env \<Rightarrow> custom_run \<Rightarrow> bool" where
  "faulty_run env run \<longleftrightarrow>
     ValidateCustomRunParameters (e_unmarshal_json env) run \<noteq> None
     \<or> (\<exists>e. parse_timeout env run = Inl e)
     \<or> (\<exists>e. snd (DecodeExtraFields (e_unmarshal_status env) (cr_Status run) empty_run_status) = Some e)
     \<or> cr_CustomRef run = None \<and> (\<exists>es e. cr_CustomSpec run = Some es \<and> e_unmarshal_spec env (es_Raw es) = Inl e)"

definition refused_task :: "env \<Rightarrow> duration \<Rightarrow> approval_task \<Rightarrow> bool" where
  "refused_task env timeout task \<longleftrightarrow>
     ApprovalTaskHasTimedOut (start_task task) (e_clock_check env) timeout
     \<or> hash_changed env task \<and> found_state task = rejectedState"

lemma IsFailure_cong: "cr_Status r = cr_Status r' \<Longrightarrow> IsFailure r = IsFailure r'"
  by (simp add: IsFailure_def run_condition_def)

lemma mark_failure:
  assumes "run_conditions_ok run" and "\<not> IsFailure run" and "IsFailure (mark_run env state run)"
  shows "state = rejectedState"
proof (rule ccontr)
  assume "state \<noteq> rejectedState"
  moreover have "\<not> IsFailure (mark_run env approvedState run)"
    using mark_run_approved [OF assms(1)] run_marked_done(1) not_both by blast
  ultimately show False
    using assms by (cases "state = approvedState") (auto simp: mark_run_other)
qed

lemma reconcile_failure:
  assumes "reconcile env cl run status s = (err, run', status', s')"
    and "run_conditions_ok run" and "\<not> IsFailure run" and "IsFailure run'"
  shows "cr_CustomRef run = None \<and> (\<exists>es e. cr_CustomSpec run = Some es \<and> e_unmarshal_spec env (es_Raw es) = Inl e)
    \<or> (\<exists>task. obtained_task env cl run s task \<and> refused_task env (run_timeout run) task)"
proof (cases "getOrCreateApprovalTask env cl run s")
  case (fields res run1 s1)
  show ?thesis
  proof (cases res)
    case (Inl e)
    with fields assms(1) have "run' = run1" by (simp add: reconcile_def)
    with fields Inl assms(3,4) show ?thesis
      by (auto simp: getOrCreateApprovalTask_def Let_def split: if_splits option.splits prod.splits sum.splits)
  next
    case (Inr task)
    with fields have run1: "run1 = run" using getOrCreate_run by simp
    let ?run2 = "propagateApprovalTaskLabelsAndAnnotations run (at_Meta task)"
    from fields Inr run1 assms(1)
    have rt: "reconcile_task env cl (start_task task) ?run2 s1 = (err, run', s')"
      by (auto simp: reconcile_def Let_def split: prod.splits)
    have ok2: "run_conditions_ok ?run2" and nf: "\<not> IsFailure ?run2"
      using assms(2,3) IsFailure_cong [of ?run2 run] by simp_all
    have "run' \<noteq> ?run2" using nf assms(4) by blast
    then consider "timed_out env ?run2 (start_task task)"
      | "hash_changed env task" "run' = mark_run env (found_state task) ?run2"
      using reconcile_task_marks [OF rt start_task_started] unfolding start_task_found by blast
    then have "refused_task env (run_timeout run) task"
    proof cases
      case 1
      then show ?thesis by (simp add: refused_task_def timed_out_def)
    next
      case 2
      with mark_failure [OF ok2 nf] assms(4) show ?thesis by (simp add: refused_task_def)
    qed
    moreover have "obtained_task env cl run s task"
      unfolding obtained_task_def using fields Inr run1 by (blast intro: same_request_refl)
    ultimately show ?thesis by blast
  qed
qed

lemma obtained_task_request:
  "obtained_task env cl r s task \<Longrightarrow> same_request r r' \<Longrightarrow> obtained_task env cl r' s task"
  by (auto simp: obtained_task_def same_request_def)

lemma ReconcileKind_valid_failure:
  assumes "ReconcileKind_valid env cl run w = (err, run', w')"
    and "run_conditions_ok run" and "\<not> IsFailure run" and "IsFailure run'"
  shows "faulty_run env run \<or> (\<exists>task. obtained_task env cl run (w_api w) task \<and> refused_task env (run_timeout run) task)"
proof (cases "snd (DecodeExtraFields (e_unmarshal_status env) (cr_Status run) empty_run_status)")
  case None
  then obtain status where d: "DecodeExtraFields (e_unmarshal_status env) (cr_Status run) empty_run_status = (status, None)"
    by (metis prod.collapse)
  obtain e run2 st2 s2 where r: "reconcile env cl run status (w_api w) = (e, run2, st2, s2)"
    by (cases "reconcile env cl run status (w_api w)") auto
  have "IsFailure run' = IsFailure run2"
    using assms(1) d r
    by (auto simp: ReconcileKind_valid_def IsFailure_def run_condition_def Let_def split: option.splits prod.splits)
  with reconcile_failure [OF r assms(2,3)] assms(4) show ?thesis by (auto simp: faulty_run_def)
qed (simp add: faulty_run_def)

lemma parse_timeout_again: "parse_timeout env run = Inr d \<Longrightarrow> parse_timeout env (run\<lparr>cr_Timeout := d\<rparr>) = Inr d"
  by (cases d) (auto simp: parse_timeout_def split: if_splits option.splits sum.splits)

theorem ReconcileKind_failure:
  assumes "ReconcileKind env cl run w = (err, run', w')"
    and "run_conditions_ok run" and "\<not> IsFailure run" and "IsFailure run'"
  shows "faulty_run env run
    \<or> (\<exists>task d. obtained_task env cl run (w_api w) task \<and> parse_timeout env run = Inr d
         \<and> refused_task env (run_timeout (run\<lparr>cr_Timeout := d\<rparr>)) task)"
proof -
  obtain run1 evs where i: "initializeCustomRun env run (w_events w) = (run1, evs)" by force
  have ok1: "run_conditions_ok run1" using initialize_ok [OF assms(2) i] .
  have nf1: "\<not> IsFailure run1"
    using initialize_status [OF assms(2) i] assms(3) by (simp add: run_status_iff)
  have req: "same_request run1 run" "cr_Timeout run1 = cr_Timeout run" using initialize_request [OF i] by auto
  have same: "ValidateCustomRunParameters (e_unmarshal_json env) run1 = ValidateCustomRunParameters (e_unmarshal_json env) run"
    "parse_timeout env run1 = parse_timeout env run"
    using req by (simp_all add: same_request_def ValidateCustomRunParameters_def parse_timeout_def)
  have dec: "DecodeExtraFields f (cr_Status (run1\<lparr>cr_Timeout := d\<rparr>)) x = DecodeExtraFields f (cr_Status run) x" for f d x
    using initialize_extra [of env run "w_events w"] i by (simp add: DecodeExtraFields_def)
  show ?thesis
  proof (cases "faulty_run env run")
    case False
    then have v0: "ValidateCustomRunParameters (e_unmarshal_json env) run1 = None"
      using same(1) by (simp add: faulty_run_def)
    obtain d where d: "parse_timeout env run = Inr d"
      using False by (cases "parse_timeout env run") (auto simp: faulty_run_def)
    have "run' \<noteq> run" "run' \<noteq> run1" using assms(3,4) nf1 by auto
    with assms(1) i v0 d same(2) have
      v: "ReconcileKind_valid env cl (run1\<lparr>cr_Timeout := d\<rparr>) (w\<lparr>w_events := evs\<rparr>) = (err, run', w')"
      by (auto simp: ReconcileKind_def Let_def split: option.splits if_splits)
    have "run_conditions_ok (run1\<lparr>cr_Timeout := d\<rparr>)" "\<not> IsFailure (run1\<lparr>cr_Timeout := d\<rparr>)"
      using ok1 nf1 by (simp_all add: run_conditions_ok_def IsFailure_def run_condition_def)
    from ReconcileKind_valid_failure [OF v this assms(4)]
    have "faulty_run env (run1\<lparr>cr_Timeout := d\<rparr>)
      \<or> (\<exists>task. obtained_task env cl (run1\<lparr>cr_Timeout := d\<rparr>) (w_api w) task \<and> refused_task env (run_timeout (run1\<lparr>cr_Timeout := d\<rparr>)) task)"
      by simp
    moreover have "\<not> faulty_run env (run1\<lparr>cr_Timeout := d\<rparr>)"
    proof -
      have "cr_Params (run1\<lparr>cr_Timeout := d\<rparr>) = cr_Params run" using req by (simp add: same_request_def)
      then have "ValidateCustomRunParameters (e_unmarshal_json env) (run1\<lparr>cr_Timeout := d\<rparr>) = None"
        "parse_timeout env (run1\<lparr>cr_Timeout := d\<rparr>) = Inr d"
        using v0 parse_timeout_again [of env run1 d] d same(2) req
        by (simp_all add: ValidateCustomRunParameters_def same_request_def)
      with False req(1) dec show ?thesis by (auto simp: faulty_run_def same_request_def)
    qed
    moreover have "same_request (run1\<lparr>cr_Timeout := d\<rparr>) run" using req by (simp add: same_request_def)
    moreover have "run_timeout (run1\<lparr>cr_Timeout := d\<rparr>) = run_timeout (run\<lparr>cr_Timeout := d\<rparr>)" by (simp add: run_timeout_def)
    ultimately show ?thesis using d obtained_task_request by metis
  qed simp
qed

text \<open>A refused task timed out, or was rejected by someone, or had been stored as rejected.\<close>

lemma refused_task_cases:
  assumes "refused_task env timeout task"
  obtains "ApprovalTaskHasTimedOut (start_task task) (e_clock_check env) timeout"
    | "hash_changed env task" "rejects (sp_Approvers (at_Spec task))"
    | "hash_changed env task" "task_verdict task = Undecided" "st_State (at_Status task) = rejectedState"
  using assms
  by (cases "task_verdict task")
    (auto simp: refused_task_def found_state_def task_verdict_def decide_def Let_def split: if_splits)

subsection \<open>A read that fails\<close>

text \<open>
  An error of the read other than "not found" is dropped, and the reconciliation goes on with an empty
  task. Nobody has answered in it and it has no start, so nothing is written, the run keeps its
  condition, and the key comes back.
\<close>

lemma empty_task_sel [simp]:
  "at_Spec empty_task = empty_spec" "at_Meta empty_task = empty_meta" "at_Status empty_task = empty_status"
  "\<not> answered (sp_Approvers empty_spec)"
  by (simp_all add: empty_task_def empty_spec_def answered_def)

lemma empty_task_undecided: "found_state empty_task = []"
  by (simp add: found_state_def task_verdict_def decide_def empty_status_def Let_def)

lemma empty_task_in_time: "\<not> timed_out env r (start_task empty_task)"
proof -
  have "st_StartTime (at_Status (start_task empty_task)) = Some 0"
    by (simp add: start_task_def HasStarted_def empty_status_def empty_meta_def)
  then show ?thesis by (simp add: timed_out_def ApprovalTaskHasTimedOut_def)
qed

lemma reconcile_empty_task:
  "\<exists>d. reconcile_task env cl (start_task empty_task) r s = (Some (RequeueErr d), r, s)"
proof -
  let ?t = "start_task empty_task"
  have "updateApprovalState env cl ?t s = (None, fst (decideState (e_map_order env) ?t), s)"
    by (rule updateApprovalState_silent) simp
  then have "checkIfUpdateRequired env cl ?t r s = (None, r, s)"
    using decideState_refines [of "e_map_order env" ?t] empty_task_undecided
    by (simp add: checkIfUpdateRequired_def found_state_def mark_run_def)
  then show ?thesis by (simp add: reconcile_task_live empty_task_in_time)
qed

lemma failed_read:
  assumes "ready env run" and "ApprovalTasks_Get cl (run_ns run) (run_name run) (w_api w) = ((got, Some e), s1)"
    and "\<not> IsNotFound e" and "ReconcileKind env cl run w = (err, run', w')"
  shows "w_api w' = s1 \<and> run_status run' = run_status run \<and> (\<exists>d. err = Some (MultiErr [RequeueErr d]))"
proof -
  have got: "got = empty_task" using assms(2)
    by (auto simp: ApprovalTasks_Get_def typed_result_def split: prod.splits sum.splits)
  have g: "getOrCreateApprovalTask env cl (begun env run) (w_api w) = (Inr empty_task, begun env run, s1)"
    using assms(1-3) got by (auto simp: getOrCreateApprovalTask_def ready_def)
  let ?r = "propagateApprovalTaskLabelsAndAnnotations (begun env run) (at_Meta empty_task)"
  obtain d where rt: "reconcile_task env cl (start_task empty_task) ?r s1 = (Some (RequeueErr d), ?r, s1)"
    using reconcile_empty_task [of env cl ?r s1] by blast
  have st: "run_status ?r = run_status run"
    using begun_status(1) [of run env] assms(1) by (simp add: run_status_def ready_def)
  have r: "reconcile env cl (begun env run) empty_run_status (w_api w) =
      (Some (RequeueErr d), ?r, storeApprovalTaskSpec empty_run_status empty_spec, s1)"
    using g rt by (simp add: reconcile_def Let_def)
  obtain evs where "ReconcileKind env cl run w = (Some (MultiErr [RequeueErr d]), ?r, w\<lparr>w_events := evs, w_api := s1\<rparr>)"
    by (rule ReconcileKind_ready [OF assms(1), of cl w]) (simp add: r)
  with assms(4) st show ?thesis by auto
qed

end
