(* ===== verification/Cli_Actions.thy ===== *)
theory Cli_Actions
  imports At_Client Webhook_Admit
begin

text \<open>
  The operations of the command line client (\<open>pkg/actions/actions.go\<close>,
  \<open>pkg/cli/params.go\<close>): who the user is, whether the client lets the user act, what it
  changes in the task and how it sends it. The dynamic client is an \<open>at_client\<close>; discovery and the
  REST mapper are arguments.
\<close>

record cli_options =
  op_Namespace :: string
  op_Name :: string
  op_Input :: string
  op_Username :: string
  op_Message :: string
  op_Groups :: "string list"

subsection \<open>Discovery\<close>

text \<open>
  The package's variables \<open>doOnce\<close> and \<open>apiGroupRes\<close>: discovery runs in the first call only, and its
  error is reported by that call only.
\<close>

record 'r discovery_state =
  ds_done :: bool
  ds_groups :: "'r option"

definition InitializeAPIGroupRes :: "(go_error + 'r) \<Rightarrow> 'r discovery_state \<Rightarrow> go_error option \<times> 'r discovery_state" where
  "InitializeAPIGroupRes discovered d =
     (case discovered of
        Inl e \<Rightarrow> (Some e, d\<lparr>ds_groups := None\<rparr>)
      | Inr r \<Rightarrow> (None, d\<lparr>ds_groups := Some r\<rparr>))"

definition GetGroupVersionResource ::
  "(go_error + 'r) \<Rightarrow> ('r option \<Rightarrow> go_error + 'g) \<Rightarrow> 'r discovery_state \<Rightarrow> (go_error + 'g) \<times> 'r discovery_state" where
  "GetGroupVersionResource discovered resource_for d =
     (let (err, d') = (if ds_done d then (None, d)
                       else let (e, d1) = InitializeAPIGroupRes discovered d in (e, d1\<lparr>ds_done := True\<rparr>))
      in case err of
           Some e \<Rightarrow> (Inl e, d')
         | None \<Rightarrow> (resource_for (ds_groups d'), d'))"

subsection \<open>Reading\<close>

definition cli_get :: "'s at_client \<Rightarrow> cli_options \<Rightarrow> 's \<Rightarrow> (go_error + approval_task) \<times> 's" where
  "cli_get cl opts s =
     (case ApprovalTasks_Get cl (op_Namespace opts) (op_Name opts) s of
        ((_, Some e), s') \<Rightarrow> (Inl e, s')
      | ((at, None), s') \<Rightarrow> (Inr at, s'))"

definition Get :: "'s at_client \<Rightarrow> (go_error + 'g) \<Rightarrow> cli_options \<Rightarrow> 's \<Rightarrow> (go_error + approval_task) \<times> 's" where
  "Get cl gvr opts s =
     (case gvr of
        Inl e \<Rightarrow> (Inl e, s)
      | Inr _ \<Rightarrow> cli_get cl opts s)"

text \<open>The objects of a namespace, as the dynamic client lists and converts them: \<open>lister\<close>.\<close>

definition List :: "(string \<Rightarrow> go_error + approval_task list) \<Rightarrow> (go_error + 'g) \<Rightarrow> string \<Rightarrow> go_error + approval_task list" where
  "List lister gvr ns =
     (case gvr of
        Inl e \<Rightarrow> Inl e
      | Inr _ \<Rightarrow> lister ns)"

subsection \<open>Who may act\<close>

definition containsUsername :: "approver_details list \<Rightarrow> cli_options \<Rightarrow> bool" where
  "containsUsername approvers opts \<longleftrightarrow>
     list_ex (\<lambda>a. ad_Name a = op_Username opts) approvers
     \<or> list_ex (\<lambda>a. if ad_Type a = ''User'' then ad_Name a = op_Username opts
                    else if ad_Type a = ''Group'' then list_ex (\<lambda>g. ad_Name a = g) (op_Groups opts)
                    else False) approvers"

subsection \<open>The change\<close>

definition set_input :: "cli_options \<Rightarrow> approver_details \<Rightarrow> approver_details" where
  "set_input opts a =
     (let a1 = a\<lparr>ad_Input := op_Input opts\<rparr>
      in if op_Message opts \<noteq> [] then a1\<lparr>ad_Message := op_Message opts\<rparr> else a1)"

text \<open>First pass: the user's own entries, and whether there is one.\<close>

definition update_users :: "cli_options \<Rightarrow> approver_details list \<Rightarrow> approver_details list" where
  "update_users opts as =
     map (\<lambda>a. if is_user a \<and> ad_Name a = op_Username opts then set_input opts a else a) as"

definition userProcessedAsIndividual :: "cli_options \<Rightarrow> approver_details list \<Rightarrow> bool" where
  "userProcessedAsIndividual opts as \<longleftrightarrow> list_ex (\<lambda>a. is_user a \<and> ad_Name a = op_Username opts) as"

text \<open>The first entry of the user in a group's list is changed, or one is appended.\<close>

fun update_member :: "cli_options \<Rightarrow> user_details list \<Rightarrow> user_details list" where
  "update_member opts [] =
     [\<lparr>ud_Name = op_Username opts, ud_Input = op_Input opts, ud_Message = op_Message opts\<rparr>]"
| "update_member opts (u # us) =
     (if ud_Name u = op_Username opts
      then u\<lparr>ud_Input := op_Input opts, ud_Message := op_Message opts\<rparr> # us
      else u # update_member opts us)"

definition update_group :: "cli_options \<Rightarrow> bool \<Rightarrow> string \<Rightarrow> approver_details \<Rightarrow> approver_details" where
  "update_group opts individual groupName a =
     (if ad_Name a = groupName
      then let a1 = set_input opts a
           in if \<not> individual then a1\<lparr>ad_Users := update_member opts (ad_Users a1)\<rparr> else a1
      else a)"

definition update_groups :: "cli_options \<Rightarrow> bool \<Rightarrow> approver_details list \<Rightarrow> approver_details list" where
  "update_groups opts individual as =
     map (\<lambda>a. if is_group a then fold (update_group opts individual) (op_Groups opts) a else a) as"

definition update_approvers :: "cli_options \<Rightarrow> approver_details list \<Rightarrow> approver_details list" where
  "update_approvers opts as =
     update_groups opts (userProcessedAsIndividual opts as) (update_users opts as)"

definition updated_task :: "cli_options \<Rightarrow> approval_task \<Rightarrow> approval_task" where
  "updated_task opts at =
     at\<lparr>at_Spec := (at_Spec at)\<lparr>sp_Approvers := update_approvers opts (sp_Approvers (at_Spec at))\<rparr>\<rparr>"

definition cli_update :: "'s at_client \<Rightarrow> cli_options \<Rightarrow> approval_task \<Rightarrow> 's \<Rightarrow> go_error option \<times> 's" where
  "cli_update cl opts at s =
     (case ApprovalTasks_Update cl (op_Namespace opts) (updated_task opts at) s of
        ((_, err), s') \<Rightarrow> (err, s'))"

definition Update :: "'s at_client \<Rightarrow> (go_error + 'g) \<Rightarrow> cli_options \<Rightarrow> 's \<Rightarrow> go_error option \<times> 's" where
  "Update cl gvr opts s =
     (case gvr of
        Inl e \<Rightarrow> (Some e, s)
      | Inr _ \<Rightarrow>
          (case cli_get cl opts s of
             (Inl e, s') \<Rightarrow> (Some e, s')
           | (Inr at, s') \<Rightarrow>
               if \<not> containsUsername (sp_Approvers (at_Spec at)) opts
               then (Some (PlainErr (''approver: '' @ op_Username opts @ '', is not present in the approvers list'')), s')
               else cli_update cl opts at s'))"

subsection \<open>The user\<close>

text \<open>
  The self subject review, else the user object; when both fail the user has no name, and no error
  is reported.
\<close>

definition getUserInfo :: "go_error + user_info \<Rightarrow> go_error + user_info \<Rightarrow> user_info" where
  "getUserInfo review userobj =
     (case review of
        Inr u \<Rightarrow> u
      | Inl _ \<Rightarrow>
          (case userobj of
             Inr u \<Rightarrow> u
           | Inl _ \<Rightarrow> \<lparr>ui_Username = [], ui_Groups = []\<rparr>))"

end
