(* ===== verification/Cli_View.thy ===== *)
theory Cli_View
  imports Api_Types
begin

text \<open>
  What the command line client shows (\<open>pkg/cli/cmd/list/list.go\<close>, \<open>pkg/cli/cmd/describe/describe.go\<close>,
  \<open>pkg/cli/formatter/field.go\<close>): the counts, the labels of states, and a user's groups. Colouring is
  a third-party function; the labels are what it is given.
\<close>

subsection \<open>Counts\<close>

fun responded_members :: "group_member_state list \<Rightarrow> string set \<Rightarrow> string set" where
  "responded_members [] acc = acc"
| "responded_members (m # ms) acc =
     responded_members ms
       (if gm_Response m = ''approved'' \<or> gm_Response m = ''rejected'' then insert (gm_Name m) acc else acc)"

fun responded_users :: "approver_state list \<Rightarrow> string set \<Rightarrow> string set" where
  "responded_users [] acc = acc"
| "responded_users (r # rs) acc =
     responded_users rs
       (if DefaultedApproverType (as_Type r) = ''User'' then insert (as_Name r) acc
        else if DefaultedApproverType (as_Type r) = ''Group'' then responded_members (as_GroupMembers r) acc
        else acc)"

definition pendingApprovals :: "approval_task \<Rightarrow> int" where
  "pendingApprovals at =
     sp_NumberOfApprovalsRequired (at_Spec at)
       - int (card (responded_users (st_ApproversResponse (at_Status at)) {}))"

text \<open>The loop of \<open>rejected\<close> keeps a counter beside the set of names.\<close>

definition count_rejected :: "string \<Rightarrow> int \<times> string set \<Rightarrow> int \<times> string set" where
  "count_rejected n = (\<lambda>(count, seen). if n \<notin> seen then (count + 1, insert n seen) else (count, seen))"

fun rejected_members :: "group_member_state list \<Rightarrow> int \<times> string set \<Rightarrow> int \<times> string set" where
  "rejected_members [] acc = acc"
| "rejected_members (m # ms) acc =
     rejected_members ms (if gm_Response m = ''rejected'' then count_rejected (gm_Name m) acc else acc)"

fun rejected_loop :: "approver_state list \<Rightarrow> int \<times> string set \<Rightarrow> int \<times> string set" where
  "rejected_loop [] acc = acc"
| "rejected_loop (r # rs) acc =
     rejected_loop rs
       (if DefaultedApproverType (as_Type r) = ''User'' \<and> as_Response r = ''rejected''
        then count_rejected (as_Name r) acc
        else if DefaultedApproverType (as_Type r) = ''Group'' then rejected_members (as_GroupMembers r) acc
        else acc)"

definition rejected :: "approval_task \<Rightarrow> int" where
  "rejected at = fst (rejected_loop (st_ApproversResponse (at_Status at)) (0, {}))"

subsection \<open>Labels\<close>

definition state_label :: "approval_task \<Rightarrow> string" where
  "state_label at =
     (if st_State (at_Status at) = ''approved'' then ''Approved''
      else if st_State (at_Status at) = ''rejected'' then ''Rejected''
      else if st_State (at_Status at) = ''pending'' then ''Pending''
      else [])"

definition message_text :: "string \<Rightarrow> string" where
  "message_text msg = (if msg = [] then ''---'' else msg)"

definition pipelineRunRef :: "approval_task \<Rightarrow> string" where
  "pipelineRunRef at = map_index (om_Labels (at_Meta at)) ''tekton.dev/pipelineRun''"

subsection \<open>A user's groups\<close>

record user_group_info =
  ug_Groups :: "string list"
  ug_GroupsStr :: string
  ug_Response :: string
  ug_Message :: string

type_synonym user_map = "(string, user_group_info) fmap"

definition add_member :: "string \<Rightarrow> group_member_state \<Rightarrow> user_map \<Rightarrow> user_map" where
  "add_member gname m um =
     (case fmlookup um (gm_Name m) of
        Some existing \<Rightarrow> fmupd (gm_Name m) (existing\<lparr>ug_Groups := ug_Groups existing @ [gname]\<rparr>) um
      | None \<Rightarrow> fmupd (gm_Name m)
          \<lparr>ug_Groups = [gname], ug_GroupsStr = [], ug_Response = gm_Response m, ug_Message = gm_Message m\<rparr> um)"

definition group_members_map :: "approver_state list \<Rightarrow> user_map" where
  "group_members_map rs =
     fold (\<lambda>r um. if as_Type r = ''Group'' then fold (add_member (as_Name r)) (as_GroupMembers r) um else um)
       rs fmempty"

definition userGroups :: "approver_state list \<Rightarrow> user_map" where
  "userGroups rs =
     fmmap (\<lambda>info. info\<lparr>ug_GroupsStr := Join (ug_Groups info) '', ''\<rparr>) (group_members_map rs)"

subsection \<open>Lemmas\<close>

lemma responded_members_eq:
  "responded_members ms acc =
     acc \<union> gm_Name ` {m \<in> set ms. gm_Response m = ''approved'' \<or> gm_Response m = ''rejected''}"
  by (induction ms arbitrary: acc) auto

definition responders :: "approver_state \<Rightarrow> string set" where
  "responders r =
     (if DefaultedApproverType (as_Type r) = ''User'' then {as_Name r}
      else if DefaultedApproverType (as_Type r) = ''Group''
      then gm_Name ` {m \<in> set (as_GroupMembers r). gm_Response m = ''approved'' \<or> gm_Response m = ''rejected''}
      else {})"

lemma responded_users_eq: "responded_users rs acc = acc \<union> (\<Union>r \<in> set rs. responders r)"
  by (induction rs arbitrary: acc) (auto simp: responders_def responded_members_eq)

definition rejecters :: "approver_state \<Rightarrow> string set" where
  "rejecters r =
     (if DefaultedApproverType (as_Type r) = ''User''
      then (if as_Response r = ''rejected'' then {as_Name r} else {})
      else if DefaultedApproverType (as_Type r) = ''Group''
      then gm_Name ` {m \<in> set (as_GroupMembers r). gm_Response m = ''rejected''}
      else {})"

text \<open>The counter is always the size of the set.\<close>

definition counted :: "int \<times> string set \<Rightarrow> bool" where
  "counted acc \<longleftrightarrow> finite (snd acc) \<and> fst acc = int (card (snd acc))"

lemma count_rejected_counted: "counted acc \<Longrightarrow> counted (count_rejected n acc)"
  by (auto simp: counted_def count_rejected_def split: prod.splits)

lemma count_rejected_snd [simp]: "snd (count_rejected n acc) = insert n (snd acc)"
  by (auto simp: count_rejected_def split: prod.splits)

lemma rejected_members_eq:
  "counted acc \<Longrightarrow> counted (rejected_members ms acc) \<and>
     snd (rejected_members ms acc) = snd acc \<union> gm_Name ` {m \<in> set ms. gm_Response m = ''rejected''}"
  by (induction ms arbitrary: acc) (auto simp: count_rejected_counted)

lemma rejected_loop_eq:
  "counted acc \<Longrightarrow> counted (rejected_loop rs acc) \<and>
     snd (rejected_loop rs acc) = snd acc \<union> (\<Union>r \<in> set rs. rejecters r)"
proof (induction rs arbitrary: acc)
  case (Cons r rs)
  let ?acc = "if DefaultedApproverType (as_Type r) = ''User'' \<and> as_Response r = ''rejected''
        then count_rejected (as_Name r) acc
        else if DefaultedApproverType (as_Type r) = ''Group'' then rejected_members (as_GroupMembers r) acc
        else acc"
  have "counted ?acc \<and> snd ?acc = snd acc \<union> rejecters r"
    using rejected_members_eq [OF Cons.prems, of "as_GroupMembers r"] Cons.prems
    by (auto simp: rejecters_def count_rejected_counted)
  with Cons.IH [of ?acc] show ?case by auto
qed simp

theorem rejected_eq:
  "rejected at = int (card (\<Union>r \<in> set (st_ApproversResponse (at_Status at)). rejecters r))"
  using rejected_loop_eq [of "(0, {})" "st_ApproversResponse (at_Status at)"]
  by (auto simp: rejected_def counted_def)

lemma pendingApprovals_eq:
  "pendingApprovals at = sp_NumberOfApprovalsRequired (at_Spec at)
     - int (card (\<Union>r \<in> set (st_ApproversResponse (at_Status at)). responders r))"
  by (simp add: pendingApprovals_def responded_users_eq)

text \<open>The groups a user answered in, in the order of the responses.\<close>

definition groups_of :: "string \<Rightarrow> approver_state list \<Rightarrow> string list" where
  "groups_of n rs =
     concat (map (\<lambda>r. if as_Type r = ''Group''
       then map (\<lambda>_. as_Name r) (filter (\<lambda>m. gm_Name m = n) (as_GroupMembers r)) else []) rs)"

definition map_groups :: "user_map \<Rightarrow> string \<Rightarrow> string list" where
  "map_groups um n = (case fmlookup um n of None \<Rightarrow> [] | Some i \<Rightarrow> ug_Groups i)"

lemma map_groups_add:
  "map_groups (add_member g m um) n = map_groups um n @ (if gm_Name m = n then [g] else [])"
  by (auto simp: map_groups_def add_member_def split: option.split)

lemma map_groups_fold:
  "map_groups (fold (add_member g) ms um) n =
     map_groups um n @ map (\<lambda>_. g) (filter (\<lambda>m. gm_Name m = n) ms)"
  by (induction ms arbitrary: um) (auto simp: map_groups_add)

lemma group_members_map_groups: "map_groups (group_members_map rs) n = groups_of n rs"
proof -
  have "map_groups (fold (\<lambda>r um. if as_Type r = ''Group'' then fold (add_member (as_Name r)) (as_GroupMembers r) um
      else um) rs um) n = map_groups um n @ groups_of n rs" for um
    by (induction rs arbitrary: um) (auto simp: groups_of_def map_groups_fold)
  then show ?thesis by (simp add: group_members_map_def map_groups_def)
qed

theorem userGroups_groups:
  "map_groups (userGroups rs) n = groups_of n rs"
  "fmlookup (userGroups rs) n = Some info \<Longrightarrow> ug_GroupsStr info = Join (groups_of n rs) '', ''"
proof -
  show 1: "map_groups (userGroups rs) n = groups_of n rs"
    unfolding group_members_map_groups [symmetric]
    by (simp add: map_groups_def userGroups_def split: option.split)
  show "fmlookup (userGroups rs) n = Some info \<Longrightarrow> ug_GroupsStr info = Join (groups_of n rs) '', ''"
    unfolding 1 [symmetric] by (auto simp: map_groups_def userGroups_def)
qed

end
