(* ===== verification/Lifecycle.thy ===== *)
theory Lifecycle
  imports Reconcile_Store
begin

text \<open>
  The life of one task: users' updates that the webhook admits, reconciliations, and the timeout,
  in any order. The step relation is parametrised by the admission policy; the locale
  \<open>admission_policy\<close> states what the controller relies on of it, and is discharged on the webhook's
  own decision. An update may be anything the policy lets through, a change of the approvers or of the
  number of approvals required included, which the webhook does not prevent; that somebody made one is
  remembered. The API server sees to it that an update leaves the status (a subresource), the name and the
  namespace alone.
\<close>

text \<open>Who has had an update admitted, and who of them changed the approvers or the number required.\<close>

type_synonym acts = "string set \<times> string set"

type_synonym life = "approval_task \<times> acts"

definition alters :: "approval_task \<Rightarrow> approval_task \<Rightarrow> bool" where
  "alters t t' \<longleftrightarrow> \<not> same_shape (sp_Approvers (at_Spec t)) (sp_Approvers (at_Spec t'))
     \<or> sp_NumberOfApprovalsRequired (at_Spec t') \<noteq> sp_NumberOfApprovalsRequired (at_Spec t)"

definition acts_after :: "approval_task \<Rightarrow> approval_task \<Rightarrow> user_info \<Rightarrow> acts \<Rightarrow> acts" where
  "acts_after t t' user H =
     (insert (ui_Username user) (fst H), if alters t t' then insert (ui_Username user) (snd H) else snd H)"

inductive life_step :: "(approval_task \<Rightarrow> approval_task \<Rightarrow> user_info \<Rightarrow> bool) \<Rightarrow> life \<Rightarrow> life \<Rightarrow> bool"
  for admit :: "approval_task \<Rightarrow> approval_task \<Rightarrow> user_info \<Rightarrow> bool" where
  vote: "admit t t' user \<Longrightarrow> at_Status t' = at_Status t \<Longrightarrow>
      at_name t' = at_name t \<Longrightarrow> at_namespace t' = at_namespace t \<Longrightarrow>
      life_step admit (t, H) (t', acts_after t t' user H)"
| reconciled: "life_step admit (t, H) (stored_after env t, H)"
| expired: "life_step admit (t, H) (expired_task t, H)"

definition initial :: "approval_task \<Rightarrow> bool" where
  "initial t \<longleftrightarrow>
     spec_ok (at_Spec t) \<and> all_pending (sp_Approvers (at_Spec t)) \<and> st_State (at_Status t) = pendingState"

inductive reachable :: "(approval_task \<Rightarrow> approval_task \<Rightarrow> user_info \<Rightarrow> bool) \<Rightarrow> approval_task \<Rightarrow> life \<Rightarrow> bool"
  for admit t0 where
  start: "initial t0 \<Longrightarrow> reachable admit t0 (t0, {}, {})"
| step: "reachable admit t0 x \<Longrightarrow> life_step admit x y \<Longrightarrow> reachable admit t0 y"

inductive_cases life_stepE: "life_step admit (t, H) (t', H')"

inductive_simps life_step_iff: "life_step admit (t, H) (t', H')"

subsection \<open>Steps of the controller\<close>

lemma stored_after_sel [simp]:
  "at_Spec (stored_after env t) = at_Spec t" "at_Meta (stored_after env t) = at_Meta t"
  by (simp_all add: stored_after_def)

lemma expired_task_sel [simp]:
  "at_Spec (expired_task t) = at_Spec t" "at_Meta (expired_task t) = at_Meta t"
  "st_State (at_Status (expired_task t)) = rejectedState"
  by (simp_all add: expired_task_def)

lemma stored_after_state:
  "st_State (at_Status (stored_after env t)) =
     (if hash_changed env t then found_state t else st_State (at_Status t))"
proof (cases "answered (sp_Approvers (at_Spec t))")
  case True
  then show ?thesis
    by (simp add: stored_after_def decideState_refines found_state_def)
next
  case False
  then show ?thesis
    by (simp add: stored_after_def found_state_def task_verdict_def decide_def)
qed

subsection \<open>The policy\<close>

definition final_state :: "string \<Rightarrow> bool" where
  "final_state s \<longleftrightarrow> s = approvedState \<or> s = rejectedState"

locale admission_policy =
  fixes admit :: "approval_task \<Rightarrow> approval_task \<Rightarrow> user_info \<Rightarrow> bool"
  assumes admit_open: "admit t t' user \<Longrightarrow> \<not> final_state (st_State (at_Status t))"
    and admit_valid: "admit t t' user \<Longrightarrow> spec_ok (at_Spec t')"
    and admit_own: "admit t t' user \<Longrightarrow> spec_ok (at_Spec t) \<Longrightarrow>
      same_shape (sp_Approvers (at_Spec t)) (sp_Approvers (at_Spec t')) \<Longrightarrow>
      votes i (sp_Approvers (at_Spec t')) \<subseteq> insert (ui_Username user) (votes i (sp_Approvers (at_Spec t)))"

definition life_inv :: "approval_task \<Rightarrow> life \<Rightarrow> bool" where
  "life_inv t0 = (\<lambda>(t, A, X).
     spec_ok (at_Spec t) \<and> at_name t = at_name t0 \<and> at_namespace t = at_namespace t0
     \<and> (st_State (at_Status t) = approvedState \<longrightarrow> task_verdict t = Approved)
     \<and> X \<subseteq> A \<and> (A = {} \<longrightarrow> all_pending (sp_Approvers (at_Spec t)))
     \<and> (X = {} \<longrightarrow>
          same_shape (sp_Approvers (at_Spec t0)) (sp_Approvers (at_Spec t))
          \<and> sp_NumberOfApprovalsRequired (at_Spec t) = sp_NumberOfApprovalsRequired (at_Spec t0)
          \<and> votes hasApproved (sp_Approvers (at_Spec t)) \<subseteq> A
          \<and> votes hasRejected (sp_Approvers (at_Spec t)) \<subseteq> A))"

lemma same_shape_refl [simp]: "same_shape as as"
  by (simp add: same_shape_def list.rel_refl)

lemma same_shape_trans: "same_shape as bs \<Longrightarrow> same_shape bs cs \<Longrightarrow> same_shape as cs"
  unfolding same_shape_def by (erule (1) list_all2_trans [rotated]) auto

lemma all_pending_votes:
  "all_pending as \<Longrightarrow> i \<noteq> pendingState \<Longrightarrow> votes i as = {}"
  by (auto simp: all_pending_def votes_def votes_of_def split: if_splits)

lemma task_verdict_cong:
  "at_Spec t = at_Spec u \<Longrightarrow> task_verdict t = task_verdict u"
  by (simp add: task_verdict_def)

lemma found_state_approved:
  "found_state t = approvedState \<Longrightarrow> st_State (at_Status t) = approvedState \<or> task_verdict t = Approved"
  by (cases "task_verdict t") (auto simp: found_state_def)

text \<open>
  What is known of an approved task: it has as many approvals as it asks for,
  no approver's input is a rejection, and somebody acted; and unless somebody who acted changed the
  approvers or the number required, these are the first number and approvals of people who acted.
\<close>

definition quorum_of_people :: "approval_task \<Rightarrow> approval_task \<Rightarrow> acts \<Rightarrow> bool" where
  "quorum_of_people t0 t H \<longleftrightarrow>
     sp_NumberOfApprovalsRequired (at_Spec t) \<le> int (card (approved_users (sp_Approvers (at_Spec t))))
     \<and> \<not> rejects (sp_Approvers (at_Spec t)) \<and> fst H \<noteq> {} \<and> snd H \<subseteq> fst H
     \<and> (snd H \<noteq> {}
        \<or> sp_NumberOfApprovalsRequired (at_Spec t) = sp_NumberOfApprovalsRequired (at_Spec t0)
          \<and> approved_users (sp_Approvers (at_Spec t)) \<subseteq> fst H)"


lemma approved_people:
  assumes "life_inv t0 (t, H)" and "task_verdict t = Approved"
  shows "quorum_of_people t0 t H"
proof -
  obtain A X where H: "H = (A, X)" by force
  have inv: "life_inv t0 (t, A, X)" using assms(1) H by simp
  have q: "sp_NumberOfApprovalsRequired (at_Spec t) \<le> int (card (approved_users (sp_Approvers (at_Spec t))))"
    "\<not> rejects (sp_Approvers (at_Spec t))"
    using assms(2) by (auto simp: task_verdict_def decide_def Let_def split: if_splits)
  have "A \<noteq> {}"
  proof
    assume "A = {}"
    then have "all_pending (sp_Approvers (at_Spec t))" using inv by (simp add: life_inv_def)
    then have "approved_users (sp_Approvers (at_Spec t)) = {}"
      using all_pending_votes [of _ hasApproved] approved_users_votes by fastforce
    then show False using q(1) inv by (auto simp: life_inv_def spec_ok_def)
  qed
  with q inv approved_users_votes [of "sp_Approvers (at_Spec t)"] show ?thesis
    unfolding H by (auto simp: quorum_of_people_def life_inv_def)
qed

context admission_policy
begin

lemma inv_start: "initial t0 \<Longrightarrow> life_inv t0 (t0, {}, {})"
  by (simp add: life_inv_def initial_def all_pending_votes)

lemma inv_step:
  assumes "life_step admit (t, H) (t', H')" and "life_inv t0 (t, H)"
  shows "life_inv t0 (t', H')"
  using assms(1)
proof (elim life_stepE)
  fix user
  assume H': "H' = acts_after t t' user H" and adm: "admit t t' user" and st: "at_Status t' = at_Status t"
    and id: "at_name t' = at_name t" "at_namespace t' = at_namespace t"
  obtain A X where H: "H = (A, X)" by force
  have inv: "life_inv t0 (t, A, X)" using assms(2) H by simp
  have ok: "spec_ok (at_Spec t)" using inv by (simp add: life_inv_def)
  have H2: "H' = (insert (ui_Username user) A, if alters t t' then insert (ui_Username user) X else X)"
    using H' H by (simp add: acts_after_def)
  have "st_State (at_Status t') \<noteq> approvedState"
    using admit_open [OF adm] st by (simp add: final_state_def)
  moreover have "same_shape (sp_Approvers (at_Spec t0)) (sp_Approvers (at_Spec t'))
      \<and> sp_NumberOfApprovalsRequired (at_Spec t') = sp_NumberOfApprovalsRequired (at_Spec t0)
      \<and> votes hasApproved (sp_Approvers (at_Spec t')) \<subseteq> insert (ui_Username user) A
      \<and> votes hasRejected (sp_Approvers (at_Spec t')) \<subseteq> insert (ui_Username user) A"
    if "X = {}" "\<not> alters t t'"
  proof -
    have shape: "same_shape (sp_Approvers (at_Spec t)) (sp_Approvers (at_Spec t'))"
      using that(2) by (simp add: alters_def)
    note own = admit_own [OF adm ok shape]
    have "same_shape (sp_Approvers (at_Spec t0)) (sp_Approvers (at_Spec t'))"
      using inv that(1) shape by (auto simp: life_inv_def intro: same_shape_trans)
    then show ?thesis
      using own [of hasApproved] own [of hasRejected] inv that by (auto simp: life_inv_def alters_def)
  qed
  ultimately show ?thesis
    using admit_valid [OF adm] id inv unfolding H2 by (auto simp: life_inv_def)
next
  fix env
  assume t': "t' = stored_after env t" "H' = H"
  have "st_State (at_Status t') = approvedState \<longrightarrow> task_verdict t' = Approved"
    using assms(2) t' found_state_approved [of t] task_verdict_cong [of t' t]
    by (auto simp: stored_after_state life_inv_def split: if_splits prod.splits)
  then show ?thesis
    using assms(2) t' by (auto simp: life_inv_def split: prod.splits)
next
  assume "t' = expired_task t" "H' = H"
  with assms(2) show ?thesis by (auto simp: life_inv_def split: prod.splits)
qed

lemma inv_reachable: "reachable admit t0 x \<Longrightarrow> life_inv t0 x"
proof (induction rule: reachable.induct)
  case start
  then show ?case by (rule inv_start)
next
  case (step x y)
  then show ?case
    using inv_step by (cases x; cases y) blast
qed

text \<open>As long as nobody changed the approvers, no vote of a user is in the task before that user acts.\<close>

lemma no_vote_unacted:
  "reachable admit t0 (t, A, {}) \<Longrightarrow> n \<notin> A \<Longrightarrow>
     n \<notin> votes hasApproved (sp_Approvers (at_Spec t)) \<and> n \<notin> votes hasRejected (sp_Approvers (at_Spec t))"
  using inv_reachable [of t0 "(t, A, {})"] by (auto simp: life_inv_def)

text \<open>A decided task is only ever changed by the timeout.\<close>

lemma final_frozen:
  assumes "life_step admit (t, H) (t', H')" and "final_state (st_State (at_Status t))"
  shows "at_Spec t' = at_Spec t \<and> H' = H"
  using assms(1) admit_open assms(2) by (elim life_stepE) auto

end

lemma admits_open: "admits t t' user \<Longrightarrow> \<not> final_state (st_State (at_Status t))"
  by (auto simp: admits_def isApprovalRequired_eq final_state_def)

interpretation webhook: admission_policy admits
proof unfold_locales
  show "admits t t' user \<Longrightarrow> \<not> final_state (st_State (at_Status t))" for t t' user
    by (rule admits_open)
  show "admits t t' user \<Longrightarrow> spec_ok (at_Spec t')" for t t' user
    by (simp add: admits_def)
  show "admits t t' user \<Longrightarrow> spec_ok (at_Spec t) \<Longrightarrow>
      same_shape (sp_Approvers (at_Spec t)) (sp_Approvers (at_Spec t')) \<Longrightarrow>
      votes i (sp_Approvers (at_Spec t')) \<subseteq> insert (ui_Username user) (votes i (sp_Approvers (at_Spec t)))"
    for t t' user i
    by (rule admits_votes)
qed

subsection \<open>The status\<close>

text \<open>
  What the controller ever writes as a status: one of the three states, a number of approvals received that is
  not negative, and for an approved task numbers that say so.
\<close>

definition status_ok :: "approval_task_status \<Rightarrow> bool" where
  "status_ok st \<longleftrightarrow>
     (st_State st = pendingState \<or> st_State st = approvedState \<or> st_State st = rejectedState)
     \<and> 0 \<le> st_ApprovalsReceived st
     \<and> (st_State st = approvedState \<longrightarrow>
          0 < st_ApprovalsRequired st \<and> st_ApprovalsRequired st \<le> st_ApprovalsReceived st)"

lemma status_ok_start: "status_ok (at_Status t) \<Longrightarrow> status_ok (at_Status (start_task t))"
  by (simp add: status_ok_def start_task_def)

text \<open>An approved task is only approved again by a decision that finds it approved.\<close>

lemma status_ok_decided:
  assumes "status_ok (at_Status t)" and "0 < sp_NumberOfApprovalsRequired (at_Spec t)"
    and "answered (sp_Approvers (at_Spec t))" and "st_State (at_Status t) = approvedState \<longrightarrow> task_verdict t = Approved"
  shows "status_ok (at_Status (fst (decideState ord t)))"
proof -
  let ?as = "sp_Approvers (at_Spec t)"
  note n = decideState_counts [OF assms(3), of ord]
  have s: "st_State (at_Status (fst (decideState ord t))) = verdict_state (task_verdict t) (st_State (at_Status t))"
    by (rule decideState_refines)
  have "sp_NumberOfApprovalsRequired (at_Spec t) \<le> int (card (approved_users ?as))" if "task_verdict t = Approved"
    using that by (auto simp: task_verdict_def decide_def Let_def split: if_splits)
  with n s assms show ?thesis
    by (cases "task_verdict t") (auto simp: status_ok_def)
qed

lemma status_ok_step:
  assumes "life_step admit (t, H) (t', H')" and "life_inv t0 (t, H)" and "status_ok (at_Status t)"
  shows "status_ok (at_Status t')"
  using assms(1)
proof (elim life_stepE)
  fix env
  assume t': "t' = stored_after env t"
  have "spec_ok (at_Spec t)" "st_State (at_Status t) = approvedState \<longrightarrow> task_verdict t = Approved"
    using assms(2) by (auto simp: life_inv_def split: prod.splits)
  then show ?thesis
    using status_ok_decided [of "start_task t" "e_map_order env"] status_ok_start [OF assms(3)] assms(3)
    by (simp add: t' stored_after_def spec_ok_def)
qed (use assms(3) in \<open>simp_all add: status_ok_def expired_task_def start_task_def\<close>)

lemma status_ok_reachable:
  assumes "reachable admits t0 x" and "status_ok (at_Status t0)"
  shows "status_ok (at_Status (fst x))"
  using assms(1)
proof (induction rule: reachable.induct)
  case start
  show ?case using assms(2) by simp
next
  case (step x y)
  then show ?case
    using webhook.inv_reachable [OF step.hyps(1)] status_ok_step [of admits "fst x" "snd x" "fst y" "snd y"]
    by simp
qed

text \<open>The task of a validated run starts a life.\<close>

lemma created_initial:
  assumes "valid_run run" and "create_params (cr_Params run) create_init = Inr acc" and "created_task env run acc t"
  shows "initial t"
proof -
  have eq: "at_Spec t = at_Spec (new_task run acc)" "st_State (at_Status t) = pendingState"
    using created_task_facts [OF assms(3)] by simp_all
  obtain acc' where "create_params (cr_Params run) create_init = Inr acc'"
    "spec_ok (at_Spec (new_task run acc'))"
    "all_pending (sp_Approvers (at_Spec (new_task run acc')))"
    using valid_run_new_task [OF assms(1)] .
  with assms(2) eq show ?thesis by (simp add: initial_def)
qed

end
