(* ===== verification/Cli_Facts.thy ===== *)
theory Cli_Facts
  imports Cli_Actions Cli_View Lifecycle
begin

text \<open>
  The client against the rest of the program: its change keeps the approvers, touches nobody
  else's input, and is one the webhook admits; what it counts agrees with what the controller
  counted.
\<close>

subsection \<open>The change, one approver at a time\<close>

definition group_changed :: "cli_options \<Rightarrow> bool \<Rightarrow> approver_details \<Rightarrow> approver_details" where
  "group_changed opts individual a = update_group opts individual (ad_Name a) a"

lemma set_input_sel [simp]:
  "ad_Name (set_input opts a) = ad_Name a" "ad_Type (set_input opts a) = ad_Type a"
  "ad_Users (set_input opts a) = ad_Users a" "ad_Input (set_input opts a) = op_Input opts"
  "is_user (set_input opts a) = is_user a" "is_group (set_input opts a) = is_group a"
  by (simp_all add: set_input_def Let_def is_user_def is_group_def)

lemma set_input_idem [simp]: "set_input opts (set_input opts a) = set_input opts a"
  by (simp add: set_input_def Let_def)

lemma set_input_users: "set_input opts (a\<lparr>ad_Users := us\<rparr>) = (set_input opts a)\<lparr>ad_Users := us\<rparr>"
  by (simp add: set_input_def Let_def)

lemma update_member_idem [simp]: "update_member opts (update_member opts us) = update_member opts us"
  by (induction us) auto

lemma group_changed_sel [simp]:
  "ad_Name (group_changed opts b a) = ad_Name a" "ad_Type (group_changed opts b a) = ad_Type a"
  "ad_Input (group_changed opts b a) = op_Input opts"
  "ad_Users (group_changed opts b a) = (if b then ad_Users a else update_member opts (ad_Users a))"
  "is_user (group_changed opts b a) = is_user a" "is_group (group_changed opts b a) = is_group a"
  by (simp_all add: group_changed_def update_group_def Let_def is_user_def is_group_def)

lemma group_changed_idem [simp]: "group_changed opts b (group_changed opts b a) = group_changed opts b a"
  by (simp add: group_changed_def update_group_def Let_def set_input_users)

lemma update_group_eq:
  "update_group opts b g a = (if ad_Name a = g then group_changed opts b a else a)"
  by (simp add: group_changed_def update_group_def)

lemma fold_update_group:
  "fold (update_group opts b) gs a = (if ad_Name a \<in> set gs then group_changed opts b a else a)"
  by (induction gs arbitrary: a) (auto simp: update_group_eq)

definition changed :: "cli_options \<Rightarrow> bool \<Rightarrow> approver_details \<Rightarrow> approver_details" where
  "changed opts individual a =
     (if is_user a \<and> ad_Name a = op_Username opts then set_input opts a
      else if is_group a \<and> ad_Name a \<in> set (op_Groups opts) then group_changed opts individual a
      else a)"

lemma update_approvers_eq:
  "update_approvers opts as = map (changed opts (userProcessedAsIndividual opts as)) as"
  using is_user_not_group
  by (auto simp: update_approvers_def update_users_def update_groups_def changed_def fold_update_group)

lemma changed_sel [simp]:
  "ad_Name (changed opts b a) = ad_Name a" "ad_Type (changed opts b a) = ad_Type a"
  "is_user (changed opts b a) = is_user a" "is_group (changed opts b a) = is_group a"
  by (simp_all add: changed_def is_user_def is_group_def)

lemma updated_task_sel [simp]:
  "at_Meta (updated_task opts at) = at_Meta at" "at_Status (updated_task opts at) = at_Status at"
  "sp_Approvers (at_Spec (updated_task opts at)) = update_approvers opts (sp_Approvers (at_Spec at))"
  "sp_NumberOfApprovalsRequired (at_Spec (updated_task opts at)) = sp_NumberOfApprovalsRequired (at_Spec at)"
  by (simp_all add: updated_task_def)

lemma update_same_shape: "same_shape as (update_approvers opts as)"
  by (simp add: same_shape_def update_approvers_eq list_all2_conv_all_nth)

subsection \<open>Admission of the change\<close>

definition user_of :: "cli_options \<Rightarrow> user_info" where
  "user_of opts = \<lparr>ui_Username = op_Username opts, ui_Groups = op_Groups opts\<rparr>"

lemma user_of_sel [simp]: "ui_Username (user_of opts) = op_Username opts" "ui_Groups (user_of opts) = op_Groups opts"
  by (simp_all add: user_of_def)

lemma map_update_member:
  "map ud_Name (update_member opts us) =
     (if op_Username opts \<in> ud_Name ` set us then map ud_Name us else map ud_Name us @ [op_Username opts])"
  by (induction us) auto

lemma set_update_member:
  "u \<in> set (update_member opts us) \<Longrightarrow> ud_Name u \<noteq> op_Username opts \<Longrightarrow> u \<in> set us"
  by (induction us) (auto split: if_splits)

lemma update_member_own:
  "distinct (map ud_Name us) \<Longrightarrow> u \<in> set (update_member opts us) \<Longrightarrow> ud_Name u = op_Username opts \<Longrightarrow>
     ud_Input u = op_Input opts"
proof (induction us)
  case (Cons v us)
  then show ?case by (auto simp: image_iff split: if_splits)
qed simp

lemma update_member_users_ok:
  assumes "users_ok us" and "user_name_ok (op_Username opts)" and "input_ok (op_Input opts)"
  shows "users_ok (update_member opts us)"
proof -
  have "distinct (map ud_Name (update_member opts us))"
    using assms(1) by (auto simp: users_ok_def map_update_member)
  moreover have "user_name_ok (ud_Name u) \<and> input_ok (ud_Input u)" if "u \<in> set (update_member opts us)" for u
  proof (cases "ud_Name u = op_Username opts")
    case True
    with update_member_own [OF _ that True] assms show ?thesis by (simp add: users_ok_def)
  next
    case False
    with set_update_member [OF that False] assms(1) show ?thesis by (simp add: users_ok_def)
  qed
  ultimately show ?thesis by (simp add: users_ok_def)
qed

lemma changed_approver_ok:
  assumes "approver_ok a" and "user_name_ok (op_Username opts)" and "input_ok (op_Input opts)"
  shows "approver_ok (changed opts b a)"
  using assms is_user_not_group [of a] update_member_users_ok [OF _ assms(2,3), of "ad_Users a"]
  by (auto simp: approver_ok_def changed_def)

lemma update_spec_ok:
  assumes "spec_ok (at_Spec at)" and "user_name_ok (op_Username opts)" and "input_ok (op_Input opts)"
  shows "spec_ok (at_Spec (updated_task opts at))"
  using assms
  by (auto simp: spec_ok_def update_approvers_eq comp_def intro: changed_approver_ok)

lemma user_inputs_update_member:
  "n \<noteq> op_Username opts \<Longrightarrow> user_inputs (update_member opts us) n = user_inputs us n"
  by (induction us) (auto simp: user_inputs_def map_add_def split: option.split)

lemma changed_other_ok: "other_ok a (Some (changed opts b a)) (user_of opts)"
proof -
  have "group_unchanged a (Some (changed opts b a)) (user_of opts)" if grp: "is_group a"
  proof (cases "ad_Name a \<in> set (op_Groups opts) \<and> \<not> b")
    case True
    with grp is_group_not_user have c: "changed opts b a = group_changed opts b a" by (simp add: changed_def)
    let ?old = "user_inputs (ad_Users a)" and ?new = "user_inputs (update_member opts (ad_Users a))"
    have q1: "n = op_Username opts \<or> (case ?old n of None \<Rightarrow> True | Some x \<Rightarrow>
        (case ?new n of None \<Rightarrow> True | Some y \<Rightarrow> x = y))" for n
      by (cases "n = op_Username opts") (simp_all add: user_inputs_update_member split: option.split)
    have q2: "(\<exists>y. ?old (ud_Name v) = Some y) \<or> ud_Name v = op_Username opts"
      if "v \<in> set (update_member opts (ad_Users a))" for v
      using set_update_member [OF that] user_inputs_None [of "ad_Users a" "ud_Name v"] by force
    show ?thesis
      using True q2 unfolding c
      by (simp add: group_unchanged_def Let_def isUserInGroup_iff list_all_iff q1)
  next
    case False
    with grp is_group_not_user [of a] have c: "ad_Users (changed opts b a) = ad_Users a"
      "ad_Name a \<in> set (op_Groups opts) \<or> ad_Input (changed opts b a) = ad_Input a"
      by (auto simp: changed_def)
    then show ?thesis
      by (auto simp: group_unchanged_def Let_def isUserInGroup_iff list_all_iff user_inputs_None
          split: option.split)
  qed
  then show ?thesis by (auto simp: other_ok_def changed_def dest: is_user_not_group)
qed

text \<open>
  The change makes a difference: every entry of the user's own gets a new input, and when there is
  none, a group the user is in gets a new input or a new entry for the user.
\<close>

definition effective :: "cli_options \<Rightarrow> approver_details list \<Rightarrow> bool" where
  "effective opts as \<longleftrightarrow>
     (\<forall>a \<in> set as. is_user a \<and> ad_Name a = op_Username opts \<longrightarrow> ad_Input a \<noteq> op_Input opts)
     \<and> (userProcessedAsIndividual opts as
        \<or> (\<exists>a \<in> set as. is_group a \<and> ad_Name a \<in> set (op_Groups opts)
             \<and> (ad_Input a \<noteq> op_Input opts
                \<or> (case find_user (op_Username opts) (ad_Users a) of None \<Rightarrow> True
                   | Some u \<Rightarrow> ud_Input u \<noteq> op_Input opts))))"

lemma find_update_member:
  "find_user (op_Username opts) (update_member opts us) =
     Some (case find_user (op_Username opts) us of
             None \<Rightarrow> \<lparr>ud_Name = op_Username opts, ud_Input = op_Input opts, ud_Message = op_Message opts\<rparr>
           | Some u \<Rightarrow> u\<lparr>ud_Input := op_Input opts, ud_Message := op_Message opts\<rparr>)"
  by (induction us) (auto simp: find_user_def)

text \<open>At one position, the webhook's first loop either goes on or accepts.\<close>

lemma group_change_changed:
  assumes "decision (op_Input opts)" and "is_group a"
  shows "group_change a (Some (changed opts b a)) (user_of opts) = None
         \<or> group_change a (Some (changed opts b a)) (user_of opts) = Some (Inr True)"
proof -
  have v: "valid_change (op_Input opts) = Inr True" using assms(1) by simp
  show ?thesis
    using assms is_group_not_user [OF assms(2)] find_user_Some [of "op_Username opts" "ad_Users a"]
    by (auto simp: group_change_def changed_def v find_update_member split: option.split)
qed

lemma group_change_effective:
  assumes "decision (op_Input opts)" and "is_group a" and "ad_Name a \<in> set (op_Groups opts)"
    and "ad_Input a \<noteq> op_Input opts
      \<or> (case find_user (op_Username opts) (ad_Users a) of None \<Rightarrow> True | Some u \<Rightarrow> ud_Input u \<noteq> op_Input opts)"
  shows "group_change a (Some (changed opts False a)) (user_of opts) = Some (Inr True)"
proof -
  have v: "valid_change (op_Input opts) = Inr True" using assms(1) by simp
  show ?thesis
    using assms is_group_not_user [OF assms(2)]
    by (auto simp: group_change_def changed_def v find_update_member split: option.splits)
qed

lemma IsUserApprovalChanged_update:
  assumes "decision (op_Input opts)"
    and "\<forall>a \<in> set as. is_user a \<and> ad_Name a = op_Username opts \<longrightarrow> ad_Input a \<noteq> op_Input opts"
    and "(\<exists>a \<in> set as. is_user a \<and> ad_Name a = op_Username opts)
       \<or> (\<exists>a \<in> set as. is_group a \<and> isUserInGroup a (user_of opts)
             \<and> group_change a (Some (changed opts b a)) (user_of opts) = Some (Inr True))"
    and "k + length as \<le> length new" and "\<forall>i < length as. new ! (k + i) = changed opts b (as ! i)"
  shows "IsUserApprovalChanged_loop k as new (user_of opts) = Ret (Inr True)"
  using assms(2-5)
proof (induction as arbitrary: k)
  case (Cons a as)
  have k: "k < length new" "new ! k = changed opts b a"
    using Cons.prems(3,4) by auto
  have nth: "nth_opt new k = Some (changed opts b a)" using k by (simp add: nth_opt_def)
  have rest: "Suc k + length as \<le> length new" "\<forall>i < length as. new ! (Suc k + i) = changed opts b (as ! i)"
    using Cons.prems(3,4) by auto
  show ?case
  proof (cases "ad_Name a = op_Username opts \<and> is_user a")
    case True
    with Cons.prems(1) nth assms(1) show ?thesis by (simp add: hasOnlyInputChanged_def changed_def)
  next
    case False
    show ?thesis
    proof (cases "is_group a \<and> isUserInGroup a (user_of opts)")
      case True
      then have "group_change a (Some (changed opts b a)) (user_of opts) = None
         \<or> group_change a (Some (changed opts b a)) (user_of opts) = Some (Inr True)"
        by (intro group_change_changed assms(1)) simp
      then show ?thesis
      proof
        assume none: "group_change a (Some (changed opts b a)) (user_of opts) = None"
        with Cons.prems(1,2) False have "IsUserApprovalChanged_loop (Suc k) as new (user_of opts) = Ret (Inr True)"
          by (intro Cons.IH rest) auto
        with False True nth none show ?thesis by auto
      next
        assume "group_change a (Some (changed opts b a)) (user_of opts) = Some (Inr True)"
        with False True nth show ?thesis by auto
      qed
    next
      case nogrp: False
      with Cons.prems(1,2) False have "IsUserApprovalChanged_loop (Suc k) as new (user_of opts) = Ret (Inr True)"
        by (intro Cons.IH rest) auto
      with False nogrp show ?thesis by auto
    qed
  qed
qed simp

theorem cli_update_admitted:
  assumes "spec_ok (at_Spec at)" and "isApprovalRequired at"
    and "user_name_ok (op_Username opts)" and "decision (op_Input opts)"
    and "effective opts (sp_Approvers (at_Spec at))"
    and "recorded (st_ApproversResponse (at_Status at)) (op_Username opts) = {}"
  shows "admits at (updated_task opts at) (user_of opts)"
proof -
  let ?as = "sp_Approvers (at_Spec at)" and ?b = "userProcessedAsIndividual opts (sp_Approvers (at_Spec at))"
  let ?new = "update_approvers opts ?as"
  have ok: "spec_ok (at_Spec (updated_task opts at))"
    using assms(1,3,4) by (intro update_spec_ok) (auto simp: decision_def input_ok_def)
  have some: "(\<exists>a \<in> set ?as. is_user a \<and> ad_Name a = op_Username opts)
       \<or> (\<exists>a \<in> set ?as. is_group a \<and> isUserInGroup a (user_of opts)
             \<and> group_change a (Some (changed opts ?b a)) (user_of opts) = Some (Inr True))"
  proof (cases ?b)
    case True
    then show ?thesis by (auto simp: userProcessedAsIndividual_def list_ex_iff)
  next
    case False
    with assms(5) obtain a where a: "a \<in> set ?as" "is_group a" "ad_Name a \<in> set (op_Groups opts)"
      "ad_Input a \<noteq> op_Input opts
        \<or> (case find_user (op_Username opts) (ad_Users a) of None \<Rightarrow> True | Some u \<Rightarrow> ud_Input u \<noteq> op_Input opts)"
      by (auto simp: effective_def)
    from group_change_effective [OF assms(4) a(2,3,4)] False a show ?thesis
      by (auto simp: isUserInGroup_iff)
  qed
  have "ifUserExists ?as (user_of opts)"
    using some by (auto simp: ifUserExists_iff)
  moreover have "checkIfUserAlreadyDecided at (updated_task opts at) (user_of opts) = []"
    using assms(6) by (simp add: checkIfUserAlreadyDecided_iff)
  moreover have "IsUserApprovalChanged ?as ?new (user_of opts) = Ret (Inr True)"
    unfolding IsUserApprovalChanged_def using assms(4,5) some
    by (intro IsUserApprovalChanged_update [where b = ?b]) (auto simp: effective_def update_approvers_eq)
  moreover have "CheckOtherUsersForInvalidChanges ?as ?new (user_of opts) = Ret True"
    by (simp add: CheckOtherUsers_True nth_opt_def update_approvers_eq changed_other_ok)
  ultimately show ?thesis
    using ok assms(2) by (simp add: admits_def)
qed

text \<open>Acting through the client is a step of the task's life.\<close>

lemma cli_update_step:
  assumes "admits at (updated_task opts at) (user_of opts)"
  shows "life_step admits (at, A, X) (updated_task opts at, insert (op_Username opts) A, X)"
  using vote [of admits at "updated_task opts at" "user_of opts" "(A, X)"] assms
  by (simp add: update_same_shape acts_after_def alters_def)

subsection \<open>What the client counts\<close>

text \<open>
  On a task the controller has just decided, where the approvers' names differ and nobody
  rejected, the pending approvals the client shows are those required less those received.
\<close>

definition no_rejection :: "approver_details list \<Rightarrow> bool" where
  "no_rejection as \<longleftrightarrow>
     (\<forall>a \<in> set as. ad_Input a \<noteq> hasRejected \<and> (is_group a \<longrightarrow> (\<forall>u \<in> set (ad_Users a). ud_Input u \<noteq> hasRejected)))"

lemma named_responses_set:
  "snd ` set (named_responses f as) = {r. \<exists>a \<in> set as. f a = Some r}"
  by (induction as) (auto split: option.split)

lemma currentApprovers_responses:
  assumes "distinct (map ad_Name as)"
  shows "set (map snd (currentApprovers as)) = {r. \<exists>a \<in> set as. response_of (individual_names as) a = Some r}"
  unfolding currentApprovers_fresh [OF assms]
  using is_user_not_group
  by (auto simp: image_Un named_responses_set response_of_def split: if_splits)

lemma responders_response_of:
  assumes "response_of proc a = Some r"
  shows "responders r =
     (if is_user a then {ad_Name a}
      else ud_Name ` {u \<in> set (ad_Users a). ud_Name u \<notin> proc \<and> (ud_Input u = hasApproved \<or> ud_Input u = hasRejected)})"
proof (cases "is_user a")
  case True
  with assms show ?thesis
    by (auto simp: response_of_def user_response_sel responders_def split: if_splits)
next
  case False
  with assms have grp: "is_group a" and r: "group_response proc a = Some r"
    by (auto simp: response_of_def split: if_splits)
  note g = group_response_Some [OF r]
  have "gm_Name ` set (member_states proc (ad_Users a)) =
      ud_Name ` {u \<in> set (ad_Users a). ud_Name u \<notin> proc \<and> (ud_Input u = hasApproved \<or> ud_Input u = hasRejected)}"
    by (force simp: member_states_def)
  moreover have "{m \<in> set (as_GroupMembers r). gm_Response m = ''approved'' \<or> gm_Response m = ''rejected''} =
      set (member_states proc (ad_Users a))"
    using member_states_response [of _ proc "ad_Users a"] g(4) by auto
  ultimately show ?thesis
    using False g by (simp add: responders_def)
qed

lemma responders_approved:
  assumes "no_rejection as"
  shows "(\<Union>r \<in> {r. \<exists>a \<in> set as. response_of (individual_names as) a = Some r}. responders r) = approved_users as"
    (is "?l = ?r")
proof
  show "?l \<subseteq> ?r"
  proof
    fix n assume "n \<in> ?l"
    then obtain a r where a: "a \<in> set as" "response_of (individual_names as) a = Some r" "n \<in> responders r" by auto
    have resp: "ad_Input a = hasApproved"
      using response_of_sel(4) [OF a(2)] a(1) assms by (auto simp: responded_def no_rejection_def)
    have "is_user a \<or> is_group a" using a(2) by (auto simp: response_of_def split: if_splits)
    with a(1,3) resp assms responders_response_of [OF a(2)] have "n \<in> approved_by a"
      by (auto simp: approved_by_def no_rejection_def split: if_splits)
    with a(1) show "n \<in> ?r" by (auto simp: approved_users_def)
  qed
  show "?r \<subseteq> ?l"
  proof
    fix n assume "n \<in> ?r"
    then obtain a where a: "a \<in> set as" "n \<in> approved_by a" by (auto simp: approved_users_def)
    then have resp: "responded a" by (auto simp: approved_by_def responded_def split: if_splits)
    show "n \<in> ?l"
    proof (cases "n \<in> individual_names as")
      case True
      then obtain b where b: "b \<in> set as" "responded b" "is_user b" "ad_Name b = n"
        by (auto simp: individual_names_def)
      then have "response_of (individual_names as) b = Some (user_response b)" by (simp add: response_of_def)
      moreover from this b have "n \<in> responders (user_response b)" by (simp add: responders_def user_response_sel)
      ultimately show ?thesis using b(1) by blast
    next
      case False
      with a resp have grp: "is_group a" "\<not> is_user a"
        by (auto simp: approved_by_def individual_names_def split: if_splits)
      with a False obtain u where u: "u \<in> set (ad_Users a)" "ud_Name u = n" "ud_Input u = hasApproved"
        by (auto simp: approved_by_def split: if_splits)
      with False have "member_states (individual_names as) (ad_Users a) \<noteq> []"
        by (auto simp: member_states_def filter_empty_conv)
      then obtain r where r: "response_of (individual_names as) a = Some r"
        using resp grp by (simp add: response_of_def group_response_eq)
      with responders_response_of [OF r] u grp False have "n \<in> responders r" by auto
      with r a(1) show ?thesis by blast
    qed
  qed
qed

theorem pending_after_decision:
  assumes "distinct (map ad_Name (sp_Approvers (at_Spec t)))" and "no_rejection (sp_Approvers (at_Spec t))"
    and "answered (sp_Approvers (at_Spec t))" and "\<forall>xs. set (ord xs) = set xs"
  shows "pendingApprovals (fst (decideState ord t)) =
     st_ApprovalsRequired (at_Status (fst (decideState ord t))) - st_ApprovalsReceived (at_Status (fst (decideState ord t)))"
  using assms(4) decideState_counts [OF assms(3), of ord]
  by (simp add: pendingApprovals_eq decideState_response assms(3) currentApprovers_responses [OF assms(1), simplified]
      responders_approved [OF assms(2), simplified])

end
