(* ===== verification/Timeout_Facts.thy ===== *)
theory Timeout_Facts
  imports Reconcile_Store
begin

text \<open>
  The clock: a task that is reconciled again when the work queue is asked to, times out at the next
  reconciliation or the one after; and a reconciliation of a live run that ends without an error is
  one that found the task timed out, so no live run is dropped from the queue.
\<close>

lemma TimeSub_exact: "u \<le> t \<Longrightarrow> t - u \<le> max_int64 \<Longrightarrow> TimeSub t u = t - u"
  by (simp add: TimeSub_def)

lemma requeue_delay_exact:
  assumes "st_StartTime (at_Status t) = Some s" and "s \<le> e_clock_wait env"
    and "e_clock_wait env - s \<le> max_int64" and "0 \<le> run_timeout r" and "run_timeout r \<le> max_int64"
  shows "requeue_delay env r t =
    (if run_timeout r \<le> e_clock_wait env - s then 1000000000 else run_timeout r - (e_clock_wait env - s))"
proof -
  have "in_int64 (run_timeout r - (e_clock_wait env - s))"
    using assms by (auto simp: in_int64_def)
  then show ?thesis
    using assms by (simp add: requeue_delay_def TimeSub_exact wrap64_id)
qed

lemma timed_out_exact:
  assumes "st_StartTime (at_Status t) = Some s" and "0 < s" and "s \<le> e_clock_check env"
    and "e_clock_check env - s \<le> max_int64"
  shows "timed_out env r t \<longleftrightarrow> run_timeout r < e_clock_check env - s"
  using assms by (simp add: timed_out_def ApprovalTaskHasTimedOut_def TimeSub_exact)

theorem requeue_expires:
  assumes "st_StartTime (at_Status t) = Some s" and "0 < s" and "s \<le> e_clock_wait env1"
    and "0 \<le> run_timeout r"
    and "e_clock_wait env1 + requeue_delay env1 r t \<le> e_clock_check env2"
    and "e_clock_check env2 \<le> e_clock_wait env2"
    and "e_clock_wait env2 + requeue_delay env2 r t \<le> e_clock_check env3"
    and "e_clock_check env3 - s \<le> max_int64" and "run_timeout r \<le> max_int64"
  shows "timed_out env2 r t \<or> timed_out env3 r t"
proof -
  have d: "0 < requeue_delay env1 r t" "0 < requeue_delay env2 r t"
    using requeue_delay_range by blast+
  have d1: "requeue_delay env1 r t = (if run_timeout r \<le> e_clock_wait env1 - s then 1000000000
      else run_timeout r - (e_clock_wait env1 - s))"
    using assms d by (intro requeue_delay_exact) linarith+
  have d2: "requeue_delay env2 r t = (if run_timeout r \<le> e_clock_wait env2 - s then 1000000000
      else run_timeout r - (e_clock_wait env2 - s))"
    using assms d by (intro requeue_delay_exact) linarith+
  have t3: "timed_out env3 r t \<longleftrightarrow> run_timeout r < e_clock_check env3 - s"
    using assms d by (intro timed_out_exact) linarith+
  have "run_timeout r \<le> e_clock_check env2 - s"
    using d1 assms(3,4,5) by (simp split: if_splits)
  then have "run_timeout r \<le> e_clock_wait env2 - s" using assms(6) by linarith
  with d2 have "requeue_delay env2 r t = 1000000000" by simp
  with \<open>run_timeout r \<le> e_clock_wait env2 - s\<close> assms(7) t3 show ?thesis by linarith
qed

subsection \<open>No live run is dropped\<close>

lemma expired_run_failed: "run_conditions_ok r \<Longrightarrow> IsFailure (expired_run env t r)"
  using MarkCustomRunFailed_marked run_marked_done(2) unfolding expired_run_def by blast

lemma reconcile_None_failed:
  assumes "reconcile env cl run status s = (None, run', status', s')" and "run_conditions_ok run"
  shows "IsFailure run'"
proof -
  obtain res run1 s1 where g: "getOrCreateApprovalTask env cl run s = (res, run1, s1)"
    by (cases "getOrCreateApprovalTask env cl run s") auto
  with assms(1) obtain task where task: "res = Inr task"
    by (cases res) (auto simp: reconcile_def)
  have run1: "run1 = run" using getOrCreate_run g task by simp
  let ?r = "propagateApprovalTaskLabelsAndAnnotations run (at_Meta task)"
  have rt: "reconcile_task env cl (start_task task) ?r s1 = (None, run', s')"
    using assms(1) g task run1 by (auto simp: reconcile_def Let_def split: prod.splits)
  have to: "timed_out env ?r (start_task task)"
    using reconcile_task_None [OF rt] by simp
  have "run' = expired_run env (start_task task) ?r"
    using rt by (auto simp: reconcile_task_timed_out [OF to] expired_run_def split: prod.splits option.splits)
  then show ?thesis using expired_run_failed [of ?r] assms(2) by simp
qed

text \<open>Every error of a reconciliation is one the work queue tries again after.\<close>

definition retried :: "go_error \<Rightarrow> bool" where
  "retried e \<longleftrightarrow> \<not> IsSkipKey e \<and> \<not> IsPermanentError e"

lemma retried_simps [simp]:
  "retried (StatusErr s)" "retried (PlainErr t)" "retried (NumErr t n)" "retried (RequeueErr d)"
  "retried (WrapErr t e) = retried e" "retried (MultiErr [e]) = retried e"
  by (simp_all add: retried_def IsSkipKey_def IsPermanentError_def)

lemma retried_api [simp]: "retried (api_go e)"
  by (cases e) simp_all

lemma retried_not_forgotten: "retried e \<Longrightarrow> handleErr False e \<noteq> Forget"
  by (simp add: retried_def handleErr_def split: prod.split)

lemma client_retried:
  "ApprovalTasks_Get cl ns n s = ((t, Some e), s') \<Longrightarrow> retried e"
  "ApprovalTasks_Create cl ns u s = ((t, Some e), s') \<Longrightarrow> retried e"
  "ApprovalTasks_UpdateStatus cl ns u s = ((t, Some e), s') \<Longrightarrow> retried e"
  by (auto simp: ApprovalTasks_Get_def ApprovalTasks_Create_def ApprovalTasks_UpdateStatus_def typed_result_def
      split: prod.splits sum.splits)

lemma create_params_retried: "create_params ps acc = Inl e \<Longrightarrow> retried e"
  by (induction ps acc rule: create_params.induct) (auto split: if_splits sum.splits)

lemma createApprovalTask_retried: "createApprovalTask env cl run s = (Inl e, s') \<Longrightarrow> retried e"
  by (auto simp: createApprovalTask_def Let_def split: sum.splits prod.splits option.splits
      dest: create_params_retried client_retried)

lemma getOrCreate_retried: "getOrCreateApprovalTask env cl run s = (Inl e, run', s') \<Longrightarrow> retried e"
  by (auto simp: getOrCreateApprovalTask_def Let_def split: if_splits sum.splits prod.splits option.splits
      dest: createApprovalTask_retried)

lemma checkIfUpdateRequired_retried: "checkIfUpdateRequired env cl task run s = (Some e, run', s') \<Longrightarrow> retried e"
  by (auto simp: checkIfUpdateRequired_def updateApprovalState_def split: if_splits prod.splits option.splits bool.splits
      dest: client_retried)

lemma reconcile_task_retried:
  assumes "reconcile_task env cl task run s = (Some e, run', s')" and "HasStarted task"
  shows "retried e"
proof (cases "timed_out env run task")
  case True
  with assms(1) show ?thesis
    by (auto simp: reconcile_task_timed_out split: prod.splits option.splits dest: client_retried)
next
  case False
  with assms show ?thesis
    by (auto simp: reconcile_task_live split: prod.splits option.splits dest: checkIfUpdateRequired_retried)
qed

lemma reconcile_retried: "reconcile env cl run status s = (Some e, run', status', s') \<Longrightarrow> retried e"
  by (auto simp: reconcile_def Let_def split: prod.splits sum.splits
      dest: getOrCreate_retried reconcile_task_retried)

lemma flatten_retried: "retried e \<Longrightarrow> retried (multierror_Append None [Some e])"
  by (cases e) (simp_all add: multierror_Append_def retried_def IsSkipKey_def IsPermanentError_def)

theorem ReconcileKind_live:
  assumes "ready env run" and "ReconcileKind env cl run w = (err, run', w')" and "\<not> IsFailure run'"
  shows "\<exists>e. err = Some (multierror_Append None [Some e]) \<and> retried e"
proof -
  obtain e run2 st2 s2 where r: "reconcile env cl (begun env run) empty_run_status (w_api w) = (e, run2, st2, s2)"
    by (cases "reconcile env cl (begun env run) empty_run_status (w_api w)") auto
  show ?thesis
  proof (cases e)
    case None
    have "run_conditions_ok (begun env run)" using assms(1) by (simp add: begun_status ready_def)
    then have f: "IsFailure run2" by (rule reconcile_None_failed [OF r [unfolded None]])
    obtain evs where k: "ReconcileKind env cl run w =
        (let (lerr, w2) = updateLabelsAndAnnotations env run2 (w\<lparr>w_events := evs, w_api := s2\<rparr>);
             merr = (case lerr of None \<Rightarrow> None | Some e \<Rightarrow> Some (multierror_Append None [Some e]));
             run3 = run2\<lparr>cr_Status := EncodeExtraFields st2 (cr_Status run2)\<rparr>
         in (merr, run3, w2\<lparr>w_events := Emit (run_condition (begun env run)) (run_condition run3) (w_events w2)\<rparr>))"
      using ReconcileKind_ready [OF assms(1), of cl w] unfolding r None prod.case option.case by blast
    obtain lerr w2 where "updateLabelsAndAnnotations env run2 (w\<lparr>w_events := evs, w_api := s2\<rparr>) = (lerr, w2)"
      by force
    with k assms(2) have "run' = run2\<lparr>cr_Status := EncodeExtraFields st2 (cr_Status run2)\<rparr>"
      by (simp add: Let_def)
    then have "run_condition run' = run_condition run2" by (simp add: run_condition_def)
    with f assms(3) show ?thesis by (simp add: IsFailure_def)
  next
    case (Some x)
    obtain evs where "ReconcileKind env cl run w =
        (Some (multierror_Append None [Some x]), run2, w\<lparr>w_events := evs, w_api := s2\<rparr>)"
      using ReconcileKind_ready [OF assms(1), of cl w] unfolding r Some prod.case option.case by blast
    moreover from r Some have "retried x" by (simp add: reconcile_retried)
    ultimately show ?thesis using assms(2) by (intro exI [of _ x]) auto
  qed
qed

subsection \<open>The run's conditions stay well formed\<close>

lemma mark_failed_ok: "run_conditions_ok r \<Longrightarrow>
    run_conditions_ok (r\<lparr>cr_Status := MarkCustomRunFailed now reason msg (cr_Status r)\<rparr>)"
  by (rule failed_conditions_ok)

lemma reconcile_conditions_ok:
  assumes "reconcile env cl run status s = (e, run', status', s')" and "run_conditions_ok run"
  shows "run_conditions_ok run'"
proof -
  obtain res run1 s1 where g: "getOrCreateApprovalTask env cl run s = (res, run1, s1)"
    by (cases "getOrCreateApprovalTask env cl run s") auto
  show ?thesis
  proof (cases res)
    case (Inl err)
    with g assms(1) have "run' = run1" by (simp add: reconcile_def)
    with getOrCreate_error [of env cl run s err run1 s1] g Inl assms(2) show ?thesis
      by (auto simp: mark_failed_ok)
  next
    case (Inr task)
    let ?r = "propagateApprovalTaskLabelsAndAnnotations run (at_Meta task)"
    have rt: "reconcile_task env cl (start_task task) ?r s1 = (e, run', s')"
      using assms(1) g Inr getOrCreate_run [of env cl run s task run1 s1]
      by (auto simp: reconcile_def Let_def split: prod.splits)
    have ok: "run_conditions_ok ?r" using assms(2) by simp
    from reconcile_task_marks [OF rt start_task_started] show ?thesis
      using mark_failed_ok [OF ok] mark_run_ok [OF ok] ok by (elim disjE) auto
  qed
qed

theorem ReconcileKind_conditions_ok:
  assumes "ReconcileKind env cl run w = (err, run', w')" and "run_conditions_ok run"
  shows "run_conditions_ok run'"
proof -
  obtain run1 evs where i: "initializeCustomRun env run (w_events w) = (run1, evs)" by force
  have ok1: "run_conditions_ok run1" using initialize_ok [OF assms(2) i] .
  have valid: "run_conditions_ok r'" if v: "ReconcileKind_valid env cl (run1\<lparr>cr_Timeout := d\<rparr>) w1 = (e, r', w2)" for d e r' w1 w2
  proof -
    let ?r = "run1\<lparr>cr_Timeout := d\<rparr>"
    have ok: "run_conditions_ok ?r" using ok1 by (simp add: run_conditions_ok_def)
    obtain status derr where dd: "DecodeExtraFields (e_unmarshal_status env) (cr_Status ?r) empty_run_status = (status, derr)"
      by force
    define r1 where "r1 = (case derr of None \<Rightarrow> ?r
     | Some e \<Rightarrow> ?r\<lparr>cr_Status := MarkCustomRunFailed (e_now_decode env) (reason_String ReasonInternalError)
          (''Internal error calling DecodeExtraFields: '' @ e) (cr_Status ?r)\<rparr>)"
    have okr: "run_conditions_ok r1" using ok unfolding r1_def by (cases derr) (simp_all only: option.case mark_failed_ok)
    obtain x r2 st2 s2 where r: "reconcile env cl r1 status (w_api w1) = (x, r2, st2, s2)"
      by (cases "reconcile env cl r1 status (w_api w1)") auto
    have "run_conditions_ok r2" using reconcile_conditions_ok [OF r okr] .
    with v dd r show ?thesis
      unfolding ReconcileKind_valid_def
      by (auto simp: r1_def [symmetric] run_conditions_ok_def Let_def split: option.splits prod.splits)
  qed
  show ?thesis
    using assms i ok1 mark_failed_ok [OF ok1] valid
    by (auto simp: ReconcileKind_def Let_def split: option.splits if_splits sum.splits)
qed

text \<open>The delay is within the timeout (or a second), and long enough to reach the end of the timeout.\<close>

lemma requeue_delay_bounds:
  assumes "st_StartTime (at_Status t) = Some s" and "s \<le> e_clock_wait env"
    and "0 \<le> run_timeout r" and "run_timeout r \<le> max_int64"
  shows "requeue_delay env r t \<le> max 1000000000 (run_timeout r)"
    and "run_timeout r \<le> TimeSub (e_clock_wait env) s + requeue_delay env r t"
proof -
  have ts: "0 \<le> TimeSub (e_clock_wait env) s" "TimeSub (e_clock_wait env) s \<le> max_int64"
    using assms(2) TimeSub_range [of "e_clock_wait env" s] by (auto simp: TimeSub_def in_int64_def)
  then have "in_int64 (run_timeout r - TimeSub (e_clock_wait env) s)"
    using assms(3,4) by (auto simp: in_int64_def)
  then have "requeue_delay env r t = (if run_timeout r - TimeSub (e_clock_wait env) s \<le> 0 then 1000000000
      else run_timeout r - TimeSub (e_clock_wait env) s)"
    using assms(1) by (simp add: requeue_delay_def wrap64_id)
  with ts show "requeue_delay env r t \<le> max 1000000000 (run_timeout r)"
    "run_timeout r \<le> TimeSub (e_clock_wait env) s + requeue_delay env r t"
    by auto
qed

lemma start_task_time: "st_StartTime (at_Status (start_task t)) =
    Some (case st_StartTime (at_Status t) of Some s \<Rightarrow> s | None \<Rightarrow> om_CreationTimestamp (at_Meta t))"
  by (simp add: start_task_def HasStarted_def split: option.split)

end
