(* ===== verification/Samples.thy ===== *)
theory Samples
  imports Cli_Facts Timeout_Facts
begin

text \<open>
  Concrete inputs that the properties are applied to: an environment, a run that names two people
  and a group and asks for two approvals, and its task at several moments.
\<close>

definition env0 :: env where
  "env0 = \<lparr>e_now_init = 5, e_now_decode = 6, e_now = 7, e_clock_check = 100, e_clock_wait = 100,
     e_fraction = (\<lambda>f unit scale. f * unit div scale),
     e_unmarshal_json = (\<lambda>s. Inl ''unexpected end of JSON input''),
     e_unmarshal_spec = (\<lambda>s. Inr empty_spec),
     e_unmarshal_status = (\<lambda>s st. (st, None)), e_map_order = (\<lambda>rs. rs),
     e_run_lister = (\<lambda>ns n. Inl (StatusErr (NewNotFound ''customruns'' n))),
     e_patch = (\<lambda>ns n p. None)\<rparr>"

definition meta0 :: object_meta where
  "meta0 = empty_meta\<lparr>om_Name := ''deploy'', om_Namespace := ''prod'', om_UID := ''u1'', om_CreationTimestamp := 1\<rparr>"

definition run0 :: custom_run where
  "run0 = \<lparr>cr_Meta = meta0,
     cr_CustomRef = Some \<lparr>tr_APIVersion = ''openshift-pipelines.org/v1alpha1'', tr_Kind = ''ApprovalTask''\<rparr>,
     cr_CustomSpec = None,
     cr_Params = [ArrayParam ''approvers'' [''alice'', ''bob'', ''group:devs''],
                  StringParam ''numberOfApprovalsRequired'' ''2''],
     cr_Timeout = None,
     cr_Status = \<lparr>crs_Conditions = [], crs_StartTime = None, crs_CompletionTime = None, crs_ExtraFields = []\<rparr>\<rparr>"

definition pending_user :: "string \<Rightarrow> approver_details" where
  "pending_user n = \<lparr>ad_Name = n, ad_Input = ''pending'', ad_Message = [], ad_Type = ''User'', ad_Users = []\<rparr>"

definition pending_group :: "string \<Rightarrow> approver_details" where
  "pending_group n = \<lparr>ad_Name = n, ad_Input = ''pending'', ad_Message = [], ad_Type = ''Group'', ad_Users = []\<rparr>"

definition spec0 :: approval_task_spec where
  "spec0 = \<lparr>sp_Approvers = [pending_user ''alice'', pending_user ''bob'', pending_group ''devs''],
     sp_NumberOfApprovalsRequired = 2, sp_Description = []\<rparr>"

definition status0 :: approval_task_status where
  "status0 = empty_status\<lparr>st_State := ''pending'', st_Approvers := [''alice'', ''bob'', ''devs''], st_ApprovalsRequired := 2\<rparr>"

text \<open>A task with no record of a last applied hash, so that every answer in it is new.\<close>

definition task0 :: approval_task where
  "task0 = \<lparr>at_Meta = meta0, at_Spec = spec0, at_Status = status0\<rparr>"

definition with_approvers :: "approver_details list \<Rightarrow> approval_task" where
  "with_approvers as = task0\<lparr>at_Spec := spec0\<lparr>sp_Approvers := as\<rparr>\<rparr>"

text \<open>Alice and a member of the group approved; Bob rejected.\<close>

definition approved_task0 :: approval_task where
  "approved_task0 = with_approvers
     [(pending_user ''alice'')\<lparr>ad_Input := ''approve''\<rparr>, pending_user ''bob'',
      (pending_group ''devs'')\<lparr>ad_Input := ''approve'',
         ad_Users := [\<lparr>ud_Name = ''carol'', ud_Input = ''approve'', ud_Message = ''ship it''\<rparr>]\<rparr>]"

definition rejected_task0 :: approval_task where
  "rejected_task0 = with_approvers
     [pending_user ''alice'', (pending_user ''bob'')\<lparr>ad_Input := ''reject''\<rparr>, pending_group ''devs'']"

definition world_of :: "approval_task \<Rightarrow> tracker world" where
  "world_of t = \<lparr>w_api = fmupd (''prod'', ''deploy'') t fmempty, w_events = [], w_patches = []\<rparr>"

definition empty_world :: "tracker world" where
  "empty_world = \<lparr>w_api = fmempty, w_events = [], w_patches = []\<rparr>"

lemmas sample_defs = env0_def meta0_def run0_def pending_user_def pending_group_def spec0_def status0_def
  task0_def with_approvers_def approved_task0_def rejected_task0_def world_of_def empty_world_def
  empty_meta_def empty_status_def

text \<open>The definitions that evaluate the validation of a run, and those that evaluate a decision.\<close>

lemmas [go_defs] = checkCustomRunReferencesApprovalTask_def GroupVersion_String_def SchemeGroupVersion_def
  ValidateCustomRunParameters_def ArrayParam_def StringParam_def validateApproversParam_def array_only_def
  parseApproversList_def validateApproverParameter_def TrimSpace_def IsSpace_def HasPrefix_def
  validateUserSyntax_def validateGroupSyntax_def validateApprovalsRequired_def Atoi_def ParseUint_def
  max_uint64_def parse_timeout_def

lemma ready_run0: "ready env0 run0"
  by (simp add: ready_def run_conditions_ok_def conditions_ok_def IsDone_def run_condition_def sample_defs go_defs)

lemma keyed_samples:
  "keyed run0 task0" "keyed run0 approved_task0" "keyed run0 rejected_task0"
  by (simp_all add: keyed_def sample_defs)

lemma lookup_world_of: "tracker_lookup (w_api (world_of t)) (run_ns run0) (run_name run0) = Some t"
  by (simp add: tracker_lookup_def sample_defs)

lemma timeout_run0: "run_timeout (begun env run0) = 3600000000000"
  by (simp add: run_timeout_def timeout_of_def parse_timeout_def sample_defs StringParam_def ArrayParam_def)

lemma in_time_samples:
  "in_time env0 run0 task0" "in_time env0 run0 approved_task0" "in_time env0 run0 rejected_task0"
  unfolding in_time_def timed_out_def timeout_run0
  by (simp_all add: ApprovalTaskHasTimedOut_def start_task_def HasStarted_def TimeSub_def sample_defs)

lemma changed_samples:
  "hash_changed env0 task0" "hash_changed env0 approved_task0" "hash_changed env0 rejected_task0"
  by (simp_all add: hash_changed_def sample_defs)

lemma approved_users_fold: "approved_users as = fold add_approved as {}"
  by (simp add: fold_add_approved)

lemmas verdict_defs = task_verdict_def decide_def answered_def rejects_def approved_users_fold
  add_approved_def add_approved_member_def
  response_of_def responded_def group_response_eq member_states_def individual_names_def
  is_user_def is_group_def DefaultedApproverType_def Let_def

lemma verdict_samples:
  "task_verdict task0 = Undecided" "task_verdict approved_task0 = Approved" "task_verdict rejected_task0 = Rejected"
  by (simp_all add: verdict_defs sample_defs)

end
