(* ===== verification/Cli_Commands.thy ===== *)
theory Cli_Commands
  imports Cli_Actions Cli_View
begin

text \<open>
  The commands of the client (\<open>pkg/cli/cmd\<close>): \<open>approve\<close>, \<open>reject\<close>, \<open>list\<close> and \<open>describe\<close>, with the text
  their templates give the tab writer. Text is UTF-8; \<open>paint\<close> is the colouring of the third-party
  library, and \<open>clients\<close>, \<open>user\<close> and \<open>gvr\<close> are what setting up the clients, asking who the user is
  and discovery return.
\<close>

definition newline :: string where
  "newline = [CHR 0x0A]"

definition tab :: string where
  "tab = [CHR 0x09]"

subsection \<open>Deciding\<close>

definition command_options :: "string \<Rightarrow> string \<Rightarrow> string \<Rightarrow> string \<Rightarrow> user_info \<Rightarrow> cli_options" where
  "command_options input name ns message user =
     \<lparr>op_Namespace = ns, op_Name = name, op_Input = input, op_Username = ui_Username user,
      op_Message = message, op_Groups = ui_Groups user\<rparr>"

definition decide_command ::
  "string \<Rightarrow> string \<Rightarrow> go_error option \<Rightarrow> go_error + user_info \<Rightarrow> go_error + 'g \<Rightarrow> 's at_client
    \<Rightarrow> string \<Rightarrow> string \<Rightarrow> string \<Rightarrow> 's \<Rightarrow> (go_error + string) \<times> 's" where
  "decide_command input participle clients user gvr cl name ns message s =
     (case clients of
        Some e \<Rightarrow> (Inl e, s)
      | None \<Rightarrow>
          (case user of
             Inl e \<Rightarrow> (Inl e, s)
           | Inr u \<Rightarrow>
               (case Update cl gvr (command_options input name ns message u) s of
                  (Some e, s') \<Rightarrow>
                    (Inl (TextErr (''failed to '' @ input @ '' approvalTask from namespace '' @ ns @ '': '') e), s')
                | (None, s') \<Rightarrow>
                    (Inr (''ApprovalTask '' @ name @ '' is '' @ participle @ '' in '' @ ns @ '' namespace'' @ newline), s'))))"

definition approve_command ::
  "go_error option \<Rightarrow> go_error + user_info \<Rightarrow> go_error + 'g \<Rightarrow> 's at_client
    \<Rightarrow> string \<Rightarrow> string \<Rightarrow> string \<Rightarrow> 's \<Rightarrow> (go_error + string) \<times> 's" where
  "approve_command = decide_command ''approve'' ''approved''"

definition reject_command ::
  "go_error option \<Rightarrow> go_error + user_info \<Rightarrow> go_error + 'g \<Rightarrow> 's at_client
    \<Rightarrow> string \<Rightarrow> string \<Rightarrow> string \<Rightarrow> 's \<Rightarrow> (go_error + string) \<times> 's" where
  "reject_command = decide_command ''reject'' ''rejected''"

subsection \<open>Listing\<close>

definition ConditionColor :: "string \<Rightarrow> nat" where
  "ConditionColor status =
     (if status = ''Rejected'' then 91 else if status = ''Approved'' then 92
      else if status = ''Pending'' then 93 else 0)"

definition ColorStatus :: "(nat \<Rightarrow> string \<Rightarrow> string) \<Rightarrow> string \<Rightarrow> string" where
  "ColorStatus paint status = paint (ConditionColor status) status"

definition list_header :: string where
  "list_header =
     Join [''NAME'', ''NumberOfApprovalsRequired'', ''PendingApprovals'', ''Rejected'', ''STATUS''] tab @ newline"

definition list_line :: "(nat \<Rightarrow> string \<Rightarrow> string) \<Rightarrow> approval_task \<Rightarrow> string" where
  "list_line paint at =
     Join [om_Name (at_Meta at), Itoa (sp_NumberOfApprovalsRequired (at_Spec at)),
           Itoa (pendingApprovals at), Itoa (rejected at), ColorStatus paint (state_label at)] tab @ newline"

definition list_text :: "(nat \<Rightarrow> string \<Rightarrow> string) \<Rightarrow> approval_task list \<Rightarrow> string" where
  "list_text paint items =
     (if length items = 0 then ''No ApprovalTasks found'' @ newline
      else list_header @ concat (map (list_line paint) items))"

definition list_command ::
  "(nat \<Rightarrow> string \<Rightarrow> string) \<Rightarrow> go_error option \<Rightarrow> go_error + 'g \<Rightarrow> (string \<Rightarrow> go_error + approval_task list)
    \<Rightarrow> bool \<Rightarrow> string \<Rightarrow> go_error + string" where
  "list_command paint clients gvr lister all_namespaces namespace =
     (case clients of
        Some e \<Rightarrow> Inl e
      | None \<Rightarrow>
          let ns = (if all_namespaces then [] else namespace)
          in case List lister gvr ns of
               Inl e \<Rightarrow> Inl (TextErr (''failed to list Tasks from namespace '' @ ns @ '': '') e)
             | Inr items \<Rightarrow> Inr (list_text paint items))"

subsection \<open>Describing\<close>

definition response_icon :: "string \<Rightarrow> string" where
  "response_icon r =
     (if r = ''approved'' then [CHR 0xE2, CHR 0x9C, CHR 0x85] else [CHR 0xE2, CHR 0x9D, CHR 0x8C])"

definition approver_line :: "approver_details \<Rightarrow> string" where
  "approver_line a = newline @ ''   * '' @ ad_Name a @ (if ad_Type a = ''Group'' then '' (Group)'' else [])"

definition response_line :: "string \<Rightarrow> string \<Rightarrow> string \<Rightarrow> string" where
  "response_line who r msg = newline @ who @ tab @ response_icon r @ tab @ message_text msg"

definition group_member_line :: "string \<times> user_group_info \<Rightarrow> string" where
  "group_member_line = (\<lambda>(user, info).
     response_line (user @ (if length (ug_Groups info) > 0 then ''('' @ ug_GroupsStr info @ '')'' else []))
       (ug_Response info) (ug_Message info))"

definition responses_text :: "approver_state list \<Rightarrow> string" where
  "responses_text rs =
     (if length rs > 0
      then newline @ newline
        @ [CHR 0xF0, CHR 0x9F, CHR 0x91, CHR 0xA8, CHR 0xE2, CHR 0x80, CHR 0x8D, CHR 0xF0, CHR 0x9F, CHR 0x92, CHR 0xBB]
        @ '' ApproverResponse'' @ newline @ newline
        @ Join [''Name'', ''ApproverResponse'', ''Message''] tab
        @ concat (map group_member_line (sorted_list_of_fmap (userGroups rs)))
        @ concat (map (\<lambda>r. response_line (as_Name r) (as_Response r) (as_Message r))
                    (filter (\<lambda>r. as_Type r = ''User'') rs))
      else [])"

definition describe_text :: "(nat \<Rightarrow> string \<Rightarrow> string) \<Rightarrow> approval_task \<Rightarrow> string" where
  "describe_text paint at =
     [CHR 0xF0, CHR 0x9F, CHR 0x93, CHR 0xA6] @ '' Name:            '' @ om_Name (at_Meta at) @ newline
     @ [CHR 0xF0, CHR 0x9F, CHR 0x97, CHR 0x82] @ ''  Namespace:       '' @ om_Namespace (at_Meta at)
     @ (if pipelineRunRef at \<noteq> []
        then newline @ [CHR 0xF0, CHR 0x9F, CHR 0x8F, CHR 0xB7, CHR 0xEF, CHR 0xB8, CHR 0x8F]
          @ ''  PipelineRunRef:  '' @ pipelineRunRef at
        else [])
     @ newline @ newline @ [CHR 0xF0, CHR 0x9F, CHR 0x91, CHR 0xA5] @ '' Approvers''
     @ concat (map approver_line (sp_Approvers (at_Spec at)))
     @ responses_text (st_ApproversResponse (at_Status at))
     @ newline @ newline @ [CHR 0xF0, CHR 0x9F, CHR 0x8C, CHR 0xA1, CHR 0xEF, CHR 0xB8, CHR 0x8F] @ ''  Status''
     @ newline @ newline @ Join [''NumberOfApprovalsRequired'', ''PendingApprovals'', ''STATUS''] tab @ newline
     @ Join [Itoa (sp_NumberOfApprovalsRequired (at_Spec at)), Itoa (pendingApprovals at),
             ColorStatus paint (state_label at)] tab @ newline"

definition describe_command ::
  "(nat \<Rightarrow> string \<Rightarrow> string) \<Rightarrow> go_error option \<Rightarrow> go_error + 'g \<Rightarrow> 's at_client \<Rightarrow> string \<Rightarrow> string \<Rightarrow> 's
    \<Rightarrow> (go_error + string) \<times> 's" where
  "describe_command paint clients gvr cl name namespace s =
     (case clients of
        Some e \<Rightarrow> (Inl e, s)
      | None \<Rightarrow>
          (case Get cl gvr \<lparr>op_Namespace = namespace, op_Name = name, op_Input = [], op_Username = [],
                            op_Message = [], op_Groups = []\<rparr> s of
             (Inl e, s') \<Rightarrow>
               (Inl (PlainErr (''failed to Get ApprovalTasks '' @ name @ '' from '' @ namespace @ '' namespace'')), s')
           | (Inr at, s') \<Rightarrow> (Inr (describe_text paint at), s')))"

end
