(* ===== verification/Cli_Flow.thy ===== *)
theory Cli_Flow
  imports Cli_Commands Cli_Facts
begin

text \<open>
  A command and what follows from it: what \<open>approve\<close> and \<open>reject\<close> store, what a new approval adds to
  the count, and the reconciliation after it.
\<close>

subsection \<open>What a decision adds\<close>

text \<open>The approvers the user's decision goes to: the user's own entries and the user's groups.\<close>

definition addressed :: "cli_options \<Rightarrow> approver_details list \<Rightarrow> bool" where
  "addressed opts as \<longleftrightarrow>
     (\<exists>a \<in> set as. is_user a \<and> ad_Name a = op_Username opts \<or> is_group a \<and> ad_Name a \<in> set (op_Groups opts))"

lemma effective_addressed: "effective opts as \<Longrightarrow> addressed opts as"
  by (auto simp: effective_def addressed_def userProcessedAsIndividual_def list_ex_iff)

lemma addressed_containsUsername: "addressed opts as \<Longrightarrow> containsUsername as opts"
  by (auto simp: addressed_def containsUsername_def list_ex_iff is_group_def DefaultedApproverType_def split: if_splits)

lemma update_member_votes:
  assumes "n = op_Username opts \<or> (\<exists>u \<in> set us. ud_Name u = n \<and> ud_Input u = op_Input opts)"
  shows "\<exists>u \<in> set (update_member opts us). ud_Name u = n \<and> ud_Input u = op_Input opts"
  using assms
proof (induction us)
  case (Cons u us)
  then show ?case by (cases "ud_Name u = op_Username opts") auto
qed simp

lemma approved_by_group:
  "is_group a \<Longrightarrow>
     approved_by a = (if ad_Input a = hasApproved then {n. \<exists>u \<in> set (ad_Users a). ud_Name u = n \<and> ud_Input u = hasApproved} else {})"
  by (auto simp: approved_by_def is_group_not_user)

lemma approved_by_changed:
  assumes "op_Input opts = hasApproved"
  shows "approved_by a \<subseteq> approved_by (changed opts b a)"
proof (cases "is_group a")
  case True
  then have g: "\<not> is_user a" "is_group (changed opts b a)" by (simp_all add: is_group_not_user)
  show ?thesis
    unfolding approved_by_group [OF True] approved_by_group [OF g(2)]
    using True g(1) assms update_member_votes [of _ opts "ad_Users a"] by (auto simp: changed_def)
qed (use assms in \<open>auto simp: approved_by_def changed_def\<close>)

lemma approval_adds:
  assumes "op_Input opts = hasApproved" and "addressed opts as"
  shows "insert (op_Username opts) (approved_users as) \<subseteq> approved_users (update_approvers opts as)"
proof -
  let ?b = "userProcessedAsIndividual opts as"
  have "approved_users as \<subseteq> approved_users (update_approvers opts as)"
    using approved_by_changed [OF assms(1)] by (fastforce simp: approved_users_def update_approvers_eq)
  moreover have "\<exists>a \<in> set as. op_Username opts \<in> approved_by (changed opts ?b a)"
  proof (cases ?b)
    case True
    then obtain a where "a \<in> set as" "is_user a" "ad_Name a = op_Username opts"
      by (auto simp: userProcessedAsIndividual_def list_ex_iff)
    with assms(1) show ?thesis by (intro bexI [of _ a]) (simp_all add: approved_by_def changed_def)
  next
    case False
    then obtain a where a: "a \<in> set as" "is_group a" "ad_Name a \<in> set (op_Groups opts)"
      using assms(2) by (auto simp: addressed_def userProcessedAsIndividual_def list_ex_iff)
    then have "op_Username opts \<in> approved_by (changed opts False a)"
      using assms(1) update_member_votes [of "op_Username opts" opts "ad_Users a"]
      by (simp add: approved_by_group changed_def is_group_not_user)
    with a False show ?thesis by auto
  qed
  ultimately show ?thesis by (auto simp: approved_users_def update_approvers_eq)
qed

lemma approval_rejects:
  assumes "op_Input opts = hasApproved"
  shows "rejects (update_approvers opts as) \<Longrightarrow> rejects as"
  using assms by (auto simp: rejects_def update_approvers_eq changed_def split: if_splits)

lemma decision_answered:
  assumes "decision (op_Input opts)" and "addressed opts as"
  shows "answered (update_approvers opts as)"
proof -
  let ?b = "userProcessedAsIndividual opts as"
  have resp: "responded x \<longleftrightarrow> decision (ad_Input x)" for x
    by (simp add: responded_def decision_def)
  have "\<exists>a \<in> set as. response_of (individual_names (update_approvers opts as)) (changed opts ?b a) \<noteq> None"
  proof (cases ?b)
    case True
    then obtain a where "a \<in> set as" "is_user a" "ad_Name a = op_Username opts"
      by (auto simp: userProcessedAsIndividual_def list_ex_iff)
    with assms(1) show ?thesis
      by (intro bexI [of _ a]) (simp_all add: response_of_def resp, simp add: changed_def)
  next
    case False
    then obtain a where a: "a \<in> set as" "is_group a" "ad_Name a \<in> set (op_Groups opts)"
      using assms(2) by (auto simp: addressed_def userProcessedAsIndividual_def list_ex_iff)
    have out: "op_Username opts \<notin> individual_names (update_approvers opts as)"
      using False by (auto simp: individual_names_def update_approvers_eq userProcessedAsIndividual_def list_ex_iff)
    have c: "changed opts ?b a = group_changed opts False a"
      using a False is_group_not_user [of a] by (simp add: changed_def)
    obtain u where "u \<in> set (update_member opts (ad_Users a))" "ud_Name u = op_Username opts"
        "ud_Input u = op_Input opts"
      using update_member_votes [of "op_Username opts" opts "ad_Users a"] by auto
    with out assms(1) have "member_states (individual_names (update_approvers opts as)) (update_member opts (ad_Users a)) \<noteq> []"
      unfolding member_states_def decision_def by (auto simp: filter_empty_conv intro!: bexI [of _ u])
    with a c assms(1) show ?thesis
      by (intro bexI [of _ a])
        (simp_all add: response_of_def resp group_response_eq is_group_not_user)
  qed
  then show ?thesis by (auto simp: answered_def update_approvers_eq)
qed

text \<open>One more approval, enough with those there are and with no rejection, decides the task.\<close>

lemma approval_verdict:
  assumes "op_Input opts = hasApproved" and "addressed opts (sp_Approvers (at_Spec t))"
    and "\<not> rejects (sp_Approvers (at_Spec t))"
    and "sp_NumberOfApprovalsRequired (at_Spec t)
           \<le> int (card (insert (op_Username opts) (approved_users (sp_Approvers (at_Spec t)))))"
  shows "task_verdict (updated_task opts t) = Approved"
proof -
  have "card (insert (op_Username opts) (approved_users (sp_Approvers (at_Spec t))))
      \<le> card (approved_users (update_approvers opts (sp_Approvers (at_Spec t))))"
    using approval_adds [OF assms(1,2)] by (rule card_mono [OF finite_approved_users])
  moreover have "decision (op_Input opts)" using assms(1) by (simp add: decision_def)
  moreover have "\<not> rejects (update_approvers opts (sp_Approvers (at_Spec t)))"
    using approval_rejects [OF assms(1)] assms(3) by blast
  ultimately show ?thesis
    using decision_answered [OF _ assms(2)] assms(4) by (simp add: task_verdict_def decide_def)
qed

lemma in_time_updated [simp]: "in_time env run (updated_task opts t) = in_time env run t"
  by (simp add: in_time_def timed_out_def start_task_def ApprovalTaskHasTimedOut_def HasStarted_def updated_task_def)

lemma changed_input:
  "is_user a \<and> ad_Name a = op_Username opts \<or> is_group a \<and> ad_Name a \<in> set (op_Groups opts) \<Longrightarrow>
     ad_Input (changed opts b a) = op_Input opts"
  by (auto simp: changed_def)

lemma rejection_verdict:
  assumes "op_Input opts = hasRejected" and "addressed opts (sp_Approvers (at_Spec t))"
  shows "task_verdict (updated_task opts t) = Rejected"
proof -
  have "rejects (update_approvers opts (sp_Approvers (at_Spec t)))"
    using assms changed_input by (fastforce simp: rejects_def update_approvers_eq addressed_def)
  moreover have "decision (op_Input opts)" using assms(1) by (simp add: decision_def)
  ultimately show ?thesis
    using decision_answered [OF _ assms(2)] by (simp add: task_verdict_def decide_def)
qed

subsection \<open>What a command stores\<close>

context task_editor
begin

lemma command_stores:
  assumes "lookup s ns n = Some at" and "at_name at = n" and "at_namespace at = ns"
    and "containsUsername (sp_Approvers (at_Spec at)) (command_options input n ns msg u)"
  obtains s' where
    "decide_command input participle None (Inr u) (Inr g) cl n ns msg s =
       (Inr (''ApprovalTask '' @ n @ '' is '' @ participle @ '' in '' @ ns @ '' namespace'' @ newline), s')"
    "\<And>ns' n'. lookup s' ns' n' =
       (if ns' = ns \<and> n' = n then Some (updated_task (command_options input n ns msg u) at) else lookup s ns' n')"
proof -
  let ?o = "command_options input n ns msg u"
  have o: "op_Namespace ?o = ns" "op_Name ?o = n" by (simp_all add: command_options_def)
  obtain s' where upd: "ApprovalTasks_Update cl ns (updated_task ?o at) s = ((updated_task ?o at, None), s')"
    "\<And>ns' n'. lookup s' ns' n' = (if ns' = ns \<and> n' = n then Some (updated_task ?o at) else lookup s ns' n')"
    using Update_hit [of s ns "updated_task ?o at" at] assms(1-3) by auto
  have "Update cl (Inr g) ?o s = (None, s')"
    using upd(1) assms(4) Get_hit [OF assms(1)] by (simp add: Update_def cli_get_def cli_update_def o)
  with upd(2) that show ?thesis by (simp add: decide_command_def)
qed

text \<open>The reconciliation that follows sees the changed task.\<close>

lemma command_reconciled:
  assumes "ready env run" and "lookup (w_api w) (run_ns run) (run_name run) = Some t"
    and "keyed run t" and "in_time env run t"
    and "opts = command_options input (run_name run) (run_ns run) msg u"
    and "addressed opts (sp_Approvers (at_Spec t))"
  obtains out s' w' where
    "decide_command input participle None (Inr u) (Inr g) cl (run_name run) (run_ns run) msg (w_api w) = (Inr out, s')"
    "ReconcileKind env cl run (w\<lparr>w_api := s'\<rparr>) =
       (Some (MultiErr [RequeueErr (delay_of env run (updated_task opts t))]), next_run env run (updated_task opts t), w')"
proof -
  obtain s' where c: "decide_command input participle None (Inr u) (Inr g) cl (run_name run) (run_ns run) msg (w_api w) =
       (Inr (''ApprovalTask '' @ run_name run @ '' is '' @ participle @ '' in '' @ run_ns run @ '' namespace'' @ newline), s')"
    and l: "lookup s' (run_ns run) (run_name run) = Some (updated_task opts t)"
    by (rule command_stores [OF assms(2), of input msg u participle g])
      (use assms(3,5) addressed_containsUsername [OF assms(6)] in \<open>simp_all add: keyed_def\<close>)
  have "keyed run (updated_task opts t)" "in_time env run (updated_task opts t)"
    using assms(3,4) by (simp_all add: keyed_def)
  moreover have "lookup (w_api (w\<lparr>w_api := s'\<rparr>)) (run_ns run) (run_name run) = Some (updated_task opts t)"
    using l by simp
  ultimately show ?thesis
    using kind_stored [OF assms(1), of "w\<lparr>w_api := s'\<rparr>" "updated_task opts t" thesis] that [OF c] by blast
qed

text \<open>A user the task does not name, and a task that is not there: an error, and nothing is written.\<close>

lemma command_refused:
  assumes "lookup s ns n = Some at"
    and "\<not> containsUsername (sp_Approvers (at_Spec at)) (command_options input n ns msg u)"
  shows "\<exists>e. decide_command input participle None (Inr u) (Inr g) cl n ns msg s = (Inl e, s)"
  using assms(2) Get_hit [OF assms(1)]
  by (simp add: decide_command_def Update_def cli_get_def command_options_def)

lemma command_missing:
  assumes "lookup s ns n = None"
  shows "\<exists>e. decide_command input participle None (Inr u) (Inr g) cl n ns msg s = (Inl e, s)"
proof -
  obtain e where "ApprovalTasks_Get cl ns n s = ((empty_task, Some (api_go e)), s)"
    using Get_miss [OF assms] .
  then show ?thesis by (simp add: decide_command_def Update_def cli_get_def command_options_def)
qed

end

end
