(* ===== verification/Event_Filters.thy ===== *)
theory Event_Filters
  imports Create_Facts
begin

text \<open>
  Which objects wake which reconciliation: the event handlers that \<open>NewController\<close>
  (\<open>pkg/reconciler/approvaltask/controller.go\<close>) and \<open>NewAdmissionController\<close>
  (\<open>pkg/reconciler/webhook/controller.go\<close>) register, with the filters and the keys of the libraries.
\<close>

subsection \<open>Keys\<close>

record namespaced_name =
  nn_Namespace :: string
  nn_Name :: string

definition safeKey :: "namespaced_name \<Rightarrow> string" where
  "safeKey key = (if nn_Namespace key = [] then nn_Name key else nn_Namespace key @ ''/'' @ nn_Name key)"

text \<open>\<open>strings.Split\<close> at a separator of one character.\<close>

fun Split :: "string \<Rightarrow> char \<Rightarrow> string list" where
  "Split [] sep = [[]]"
| "Split (c # cs) sep =
     (if c = sep then [] # Split cs sep
      else case Split cs sep of [] \<Rightarrow> [[c]] | p # ps \<Rightarrow> (c # p) # ps)"

definition SplitMetaNamespaceKey :: "string \<Rightarrow> go_error + string \<times> string" where
  "SplitMetaNamespaceKey key =
     (case Split key CHR ''/'' of
        [n] \<Rightarrow> Inr ([], n)
      | [ns, n] \<Rightarrow> Inr (ns, n)
      | _ \<Rightarrow> Inl (PlainErr (''unexpected key format: '' @ quote key)))"

subsection \<open>Filters\<close>

text \<open>An argument is \<open>None\<close> when it is not an object of the type the filter asserts.\<close>

definition FilterCustomRunRef :: "string \<Rightarrow> string \<Rightarrow> custom_run option \<Rightarrow> bool" where
  "FilterCustomRunRef apiVersion kind obj =
     (case obj of
        None \<Rightarrow> False
      | Some r \<Rightarrow>
          (case cr_CustomRef r of
             Some ref \<Rightarrow> tr_APIVersion ref = apiVersion \<and> tr_Kind ref = kind
           | None \<Rightarrow>
               (case cr_CustomSpec r of
                  Some sp \<Rightarrow> es_APIVersion sp = apiVersion \<and> es_Kind sp = kind
                | None \<Rightarrow> False)))"

definition FilterWithName :: "string \<Rightarrow> object_meta option \<Rightarrow> bool" where
  "FilterWithName name obj = (case obj of None \<Rightarrow> False | Some m \<Rightarrow> name = om_Name m)"

definition FilterWithNameAndNamespace :: "string \<Rightarrow> string \<Rightarrow> object_meta option \<Rightarrow> bool" where
  "FilterWithNameAndNamespace ns name obj =
     (case obj of None \<Rightarrow> False | Some m \<Rightarrow> name = om_Name m \<and> ns = om_Namespace m)"

subsection \<open>Events\<close>

datatype 'o watch_event = Added 'o | Updated 'o 'o | Deleted 'o

text \<open>\<open>HandleAll (impl.Enqueue)\<close>: every event queues the key of the (new) object.\<close>

definition object_key :: "object_meta \<Rightarrow> namespaced_name" where
  "object_key m = \<lparr>nn_Namespace = om_Namespace m, nn_Name = om_Name m\<rparr>"

fun HandleAll :: "('o \<Rightarrow> object_meta) \<Rightarrow> 'o watch_event \<Rightarrow> namespaced_name list" where
  "HandleAll meta (Added o') = [object_key (meta o')]"
| "HandleAll meta (Updated old new) = [object_key (meta new)]"
| "HandleAll meta (Deleted o') = [object_key (meta o')]"

text \<open>
  \<open>FilteringResourceEventHandler\<close>: an update that leaves the filter counts as a deletion of the old
  object, one that enters it as an addition of the new.
\<close>

fun filtered :: "('o \<Rightarrow> bool) \<Rightarrow> ('o watch_event \<Rightarrow> 'k list) \<Rightarrow> 'o watch_event \<Rightarrow> 'k list" where
  "filtered f handler (Added o') = (if f o' then handler (Added o') else [])"
| "filtered f handler (Updated old new) =
     (if f new \<and> f old then handler (Updated old new)
      else if f new then handler (Added new)
      else if f old then handler (Deleted old)
      else [])"
| "filtered f handler (Deleted o') = (if f o' then handler (Deleted o') else [])"

definition run_handler :: "custom_run watch_event \<Rightarrow> namespaced_name list" where
  "run_handler =
     filtered (\<lambda>r. FilterCustomRunRef (GroupVersion_String SchemeGroupVersion) ControllerName (Some r)) (HandleAll cr_Meta)"

definition task_handler :: "approval_task watch_event \<Rightarrow> namespaced_name list" where
  "task_handler = HandleAll at_Meta"

definition webhook_handler :: "string \<Rightarrow> object_meta watch_event \<Rightarrow> namespaced_name list" where
  "webhook_handler name = filtered (\<lambda>m. FilterWithName name (Some m)) (HandleAll (\<lambda>m. m))"

definition secret_handler :: "string \<Rightarrow> string \<Rightarrow> object_meta watch_event \<Rightarrow> namespaced_name list" where
  "secret_handler system_ns secretName =
     filtered (\<lambda>m. FilterWithNameAndNamespace system_ns secretName (Some m)) (HandleAll (\<lambda>m. m))"

subsection \<open>Facts\<close>

lemma Split_none: "sep \<notin> set s \<Longrightarrow> Split s sep = [s]"
  by (induction s) auto

lemma Split_append: "sep \<notin> set s \<Longrightarrow> Split (s @ sep # t) sep = s # Split t sep"
  by (induction s) auto

lemma SplitMetaNamespaceKey_safeKey:
  assumes "CHR ''/'' \<notin> set (nn_Namespace key)" and "CHR ''/'' \<notin> set (nn_Name key)"
  shows "SplitMetaNamespaceKey (safeKey key) = Inr (nn_Namespace key, nn_Name key)"
  using assms Split_append [of "CHR ''/''" "nn_Namespace key" "nn_Name key"]
  by (auto simp: SplitMetaNamespaceKey_def safeKey_def Split_none)

text \<open>The filter accepts the runs that the reconciler's own check accepts.\<close>

lemma FilterCustomRunRef_check:
  "FilterCustomRunRef (GroupVersion_String SchemeGroupVersion) ControllerName (Some run)
     \<longleftrightarrow> checkCustomRunReferencesApprovalTask run = nil"
  by (auto simp: FilterCustomRunRef_def checkCustomRunReferencesApprovalTask_def GroupVersion_String_def
      SchemeGroupVersion_def Let_def split: option.split)

lemma run_handler_iff:
  "key \<in> set (run_handler ev) \<longleftrightarrow>
     (case ev of
        Added r \<Rightarrow> checkCustomRunReferencesApprovalTask r = nil \<and> key = object_key (cr_Meta r)
      | Deleted r \<Rightarrow> checkCustomRunReferencesApprovalTask r = nil \<and> key = object_key (cr_Meta r)
      | Updated old new \<Rightarrow>
          (if checkCustomRunReferencesApprovalTask new = nil then key = object_key (cr_Meta new)
           else checkCustomRunReferencesApprovalTask old = nil \<and> key = object_key (cr_Meta old)))"
  by (cases ev) (auto simp: run_handler_def FilterCustomRunRef_check)

lemma created_task_key:
  "created_task env run acc t \<Longrightarrow> object_key (at_Meta t) = object_key (cr_Meta run)"
  by (simp add: created_task_def same_sent_def object_key_def new_task_sel)


text \<open>An update of a run's task queues the key of the run.\<close>

lemma task_handler_wakes:
  assumes "created_task env run acc t" and "at_Meta t' = at_Meta t"
    and "CHR ''/'' \<notin> set (om_Namespace (cr_Meta run))" and "CHR ''/'' \<notin> set (om_Name (cr_Meta run))"
  shows "map (SplitMetaNamespaceKey \<circ> safeKey) (task_handler (Updated t t')) = [Inr (om_Namespace (cr_Meta run), om_Name (cr_Meta run))]"
  using created_task_key [OF assms(1)] SplitMetaNamespaceKey_safeKey [of "object_key (cr_Meta run)"] assms(2-4)
  by (simp add: task_handler_def) (simp add: object_key_def)

end
