(* ===== verification/Webhook_Config.thy ===== *)
theory Webhook_Config
  imports Api_Types Go_Errors Go_Duration
begin

text \<open>
  The reconciler of the webhook's own registration (\<open>Reconcile\<close> and \<open>reconcileValidatingWebhook\<close> of
  \<open>pkg/reconciler/webhook/webhook.go\<close>): it keeps the rules, the CA bundle and the path of the
  configured \<open>ValidatingWebhookConfiguration\<close> in place. The fields of a webhook that the code copies
  and never reads are the record extension; a nil slice of bytes or owner references is \<open>None\<close>, since
  the comparison tells it from an empty one. The comparison itself (\<open>kmp.SafeEqual\<close>) returns an error
  only where \<open>cmp.Equal\<close> panics, on a type with unexported fields, which these have not.
\<close>

subsection \<open>The configuration\<close>

record service_reference =
  svc_Namespace :: string
  svc_Name :: string
  svc_Path :: "string option"
  svc_Port :: "int option"

record client_config =
  cc_URL :: "string option"
  cc_Service :: "service_reference option"
  cc_CABundle :: "string option"

record rule_with_operations =
  rw_Operations :: "string list"
  rw_APIGroups :: "string list"
  rw_APIVersions :: "string list"
  rw_Resources :: "string list"
  rw_Scope :: "string option"

record validating_webhook =
  vw_Name :: string
  vw_ClientConfig :: client_config
  vw_Rules :: "rule_with_operations list"

record 'w webhook_configuration =
  vc_Name :: string
  vc_OwnerReferences :: "owner_reference list option"
  vc_Webhooks :: "'w validating_webhook_scheme list"

subsection \<open>The reconciler\<close>

record webhook_reconciler =
  wr_Namespace :: string
  wr_Name :: string
  wr_Path :: string
  wr_SecretName :: string

abbreviation (input) "CACert \<equiv> ''ca-cert.pem''"

definition approval_rule :: rule_with_operations where
  "approval_rule = \<lparr>rw_Operations = [''CREATE'', ''UPDATE''], rw_APIGroups = [''openshift-pipelines.org''],
     rw_APIVersions = [''v1alpha1''], rw_Resources = [''approvaltask'', ''approvaltasks''], rw_Scope = None\<rparr>"

fun set_webhooks ::
  "string \<Rightarrow> string \<Rightarrow> string option \<Rightarrow> 'w validating_webhook_scheme list \<Rightarrow> go_error + 'w validating_webhook_scheme list" where
  "set_webhooks name path caCert [] = Inr []"
| "set_webhooks name path caCert (wh # whs) =
     (if vw_Name wh \<noteq> name
      then map_sum id (Cons wh) (set_webhooks name path caCert whs)
      else case cc_Service (vw_ClientConfig wh) of
        None \<Rightarrow> Inl (PlainErr (''missing service reference for webhook: '' @ vw_Name wh))
      | Some svc \<Rightarrow>
          map_sum id (Cons (wh\<lparr>vw_Rules := [approval_rule],
              vw_ClientConfig := (vw_ClientConfig wh)\<lparr>cc_CABundle := caCert,
                 cc_Service := Some (svc\<lparr>svc_Path := Some path\<rparr>)\<rparr>\<rparr>))
            (set_webhooks name path caCert whs))"

definition reconcileValidatingWebhook ::
  "webhook_reconciler \<Rightarrow> (string \<Rightarrow> go_error + 'w webhook_configuration)
    \<Rightarrow> ('w webhook_configuration \<Rightarrow> 's \<Rightarrow> go_error option \<times> 's) \<Rightarrow> string option \<Rightarrow> 's \<Rightarrow> go_error option \<times> 's" where
  "reconcileValidatingWebhook ac lister update caCert s =
     (case lister (wr_Name ac) of
        Inl e \<Rightarrow> (Some e, s)
      | Inr configured \<Rightarrow>
          (case set_webhooks (vc_Name configured) (wr_Path ac) caCert (vc_Webhooks configured) of
             Inl e \<Rightarrow> (Some e, s)
           | Inr whs \<Rightarrow>
               let webhook = configured\<lparr>vc_OwnerReferences := None, vc_Webhooks := whs\<rparr>
               in if configured = webhook then (None, s)
                  else case update webhook s of
                    (Some e, s') \<Rightarrow> (Some (WrapErr ''failed to update webhook'' e), s')
                  | (None, s') \<Rightarrow> (None, s')))"

definition Reconcile_webhook ::
  "webhook_reconciler \<Rightarrow> bool \<Rightarrow> (string \<Rightarrow> string \<Rightarrow> go_error + (string, string option) fmap)
    \<Rightarrow> (string \<Rightarrow> go_error + 'w webhook_configuration)
    \<Rightarrow> ('w webhook_configuration \<Rightarrow> 's \<Rightarrow> go_error option \<times> 's) \<Rightarrow> string \<Rightarrow> 's \<Rightarrow> go_error option \<times> 's" where
  "Reconcile_webhook r leader secrets lister update key s =
     (if \<not> leader then (Some (SkipKeyErr key), s)
      else case secrets (wr_Namespace r) (wr_SecretName r) of
        Inl e \<Rightarrow> (Some e, s)
      | Inr data \<Rightarrow>
          (case fmlookup data CACert of
             None \<Rightarrow> (Some (PlainErr (''secret '' @ quote (wr_SecretName r) @ '' is missing ''
                        @ quote CACert @ '' key'')), s)
           | Some caCert \<Rightarrow> reconcileValidatingWebhook r lister update caCert s))"

subsection \<open>What it installs\<close>

text \<open>A webhook registered the way the program needs it; another one is left alone.\<close>

definition installed :: "string \<Rightarrow> string option \<Rightarrow> 'w validating_webhook_scheme \<Rightarrow> bool" where
  "installed path caCert wh \<longleftrightarrow>
     vw_Rules wh = [approval_rule] \<and> cc_CABundle (vw_ClientConfig wh) = caCert
     \<and> (\<exists>svc. cc_Service (vw_ClientConfig wh) = Some svc \<and> svc_Path svc = Some path)"

definition has_service :: "string \<Rightarrow> 'w validating_webhook_scheme list \<Rightarrow> bool" where
  "has_service name whs \<longleftrightarrow>
     (\<forall>wh \<in> set whs. vw_Name wh = name \<longrightarrow> cc_Service (vw_ClientConfig wh) \<noteq> None)"

lemma set_webhooks_total:
  "has_service name whs \<longleftrightarrow> (\<exists>whs'. set_webhooks name path caCert whs = Inr whs')"
proof (induction whs)
  case (Cons wh whs)
  have tail: "has_service name (wh # whs) \<longleftrightarrow>
      (vw_Name wh = name \<longrightarrow> cc_Service (vw_ClientConfig wh) \<noteq> None) \<and> has_service name whs"
    by (auto simp: has_service_def)
  have "(\<exists>ys. map_sum id (Cons y) r = Inr ys) \<longleftrightarrow> (\<exists>ys. r = Inr ys)"
    for y and r :: "go_error + 'a validating_webhook_scheme list" by (cases r) auto
  with tail Cons.IH show ?case by (auto split: option.split)
qed (simp add: has_service_def)

lemma set_webhooks_installs:
  assumes "set_webhooks name path caCert whs = Inr whs'"
  shows "map vw_Name whs' = map vw_Name whs
    \<and> (\<forall>i < length whs. if vw_Name (whs ! i) = name then installed path caCert (whs' ! i) else whs' ! i = whs ! i)"
  using assms
proof (induction whs arbitrary: whs')
  case (Cons wh whs)
  then obtain wh' rest where rest: "whs' = wh' # rest" "set_webhooks name path caCert whs = Inr rest"
      "vw_Name wh' = vw_Name wh" "if vw_Name wh = name then installed path caCert wh' else wh' = wh"
    by (cases "set_webhooks name path caCert whs") (auto simp: installed_def split: if_splits option.splits)
  with Cons.IH [OF rest(2)] show ?case
    by (auto simp: less_Suc_eq_0_disj simp del: set_webhooks.simps)
qed simp

lemma set_webhooks_idem:
  "set_webhooks name path caCert whs = Inr whs' \<Longrightarrow> set_webhooks name path caCert whs' = Inr whs'"
proof (induction whs arbitrary: whs')
  case (Cons wh whs)
  then show ?case
    by (cases "set_webhooks name path caCert whs") (auto split: if_splits option.splits)
qed simp

end
