(* ===== verification/Webhook_Gaps.thy ===== *)
theory Webhook_Gaps
  imports Lifecycle
begin

text \<open>
  What the webhook leaves unchecked in an update it allows: the number of approvals required, and
  approvers appended to the list. The lifecycle's \<open>vote\<close> step therefore leaves both open, and
  remembers who made such an update.
\<close>

subsection \<open>The number required\<close>

definition with_required :: "int \<Rightarrow> approval_task \<Rightarrow> approval_task" where
  "with_required n t = t\<lparr>at_Spec := (at_Spec t)\<lparr>sp_NumberOfApprovalsRequired := n\<rparr>\<rparr>"

lemma with_required_sel [simp]:
  "sp_Approvers (at_Spec (with_required n t)) = sp_Approvers (at_Spec t)"
  "sp_NumberOfApprovalsRequired (at_Spec (with_required n t)) = n"
  "at_Status (with_required n t) = at_Status t" "at_Meta (with_required n t) = at_Meta t"
  by (simp_all add: with_required_def)

lemma admits_with_required:
  assumes "admits old new user" and "0 < n"
  shows "admits old (with_required n new) user"
  using assms by (simp add: admits_def spec_ok_def checkIfUserAlreadyDecided_def)

subsection \<open>Approvers added at the end\<close>

definition with_appended :: "approver_details list \<Rightarrow> approval_task \<Rightarrow> approval_task" where
  "with_appended extra t = t\<lparr>at_Spec := (at_Spec t)\<lparr>sp_Approvers := sp_Approvers (at_Spec t) @ extra\<rparr>\<rparr>"

lemma with_appended_sel [simp]:
  "sp_Approvers (at_Spec (with_appended extra t)) = sp_Approvers (at_Spec t) @ extra"
  "sp_NumberOfApprovalsRequired (at_Spec (with_appended extra t)) = sp_NumberOfApprovalsRequired (at_Spec t)"
  "at_Status (with_appended extra t) = at_Status t" "at_Meta (with_appended extra t) = at_Meta t"
  by (simp_all add: with_appended_def)

lemma nth_opt_append: "i < length xs \<Longrightarrow> nth_opt (xs @ ys) i = nth_opt xs i"
  by (simp add: nth_opt_def nth_append)

lemma IsUserApprovalChanged_loop_append:
  "k + length as \<le> length new \<Longrightarrow>
     IsUserApprovalChanged_loop k as (new @ extra) user = IsUserApprovalChanged_loop k as new user"
  by (induction as arbitrary: k) (simp_all add: nth_opt_append split: option.split)

lemma CheckOtherUsers_loop_append:
  "k + length as \<le> length new \<Longrightarrow> CheckOtherUsers_loop k as (new @ extra) user = CheckOtherUsers_loop k as new user"
  by (induction as arbitrary: k) (simp_all add: nth_opt_append split: option.split)

lemma approved_users_append [simp]: "approved_users (as @ bs) = approved_users as \<union> approved_users bs"
  by (simp add: approved_users_def)

lemma admits_with_appended:
  assumes "admits old new user" and "length (sp_Approvers (at_Spec old)) \<le> length (sp_Approvers (at_Spec new))"
    and "recorded (st_ApproversResponse (at_Status old)) (ui_Username user) = {}"
    and "spec_ok (at_Spec (with_appended extra new))"
  shows "admits old (with_appended extra new) user"
  using assms
  by (simp add: admits_def checkIfUserAlreadyDecided_iff IsUserApprovalChanged_def CheckOtherUsersForInvalidChanges_def
      IsUserApprovalChanged_loop_append CheckOtherUsers_loop_append)

end
