(* ===== verification/Run_Sync.thy ===== *)
theory Run_Sync
  imports Reconciler Event_Filters
begin

text \<open>
  What surrounds \<open>ReconcileKind\<close>: the generated reconciler of Tekton
  (\<open>client/injection/reconciler/pipeline/v1beta1/customrun\<close>) takes a key of the work queue, finds the
  run in the informer's cache, prepares its conditions, calls \<open>ReconcileKind\<close> on a copy and writes
  the status back, with up to five attempts on conflicts (\<open>knative.dev/pkg/reconciler\<close>,
  \<open>k8s.io/client-go/util/retry\<close>). The controller implements neither finalizers nor observers, so those
  branches are not there. What is logged is not modelled; of the recorder's events only the
  events' types and reasons are (\<open>text\<close> stands for the text of an error).
\<close>

subsection \<open>Runs as the API stores them\<close>

text \<open>
  The generation counts changes of the spec, the observed generation is the one the status is
  about; the deletion timestamp is that of an object that waits for finalizers.
\<close>

record run_object =
  ro_Run :: custom_run
  ro_Generation :: int
  ro_ObservedGeneration :: int
  ro_DeletionTimestamp :: "time option"

record 's run_client =
  rc_Get :: "string \<Rightarrow> string \<Rightarrow> 's \<Rightarrow> (go_error + run_object) \<times> 's"
  rc_UpdateStatus :: "string \<Rightarrow> run_object \<Rightarrow> 's \<Rightarrow> (go_error + run_object) \<times> 's"

abbreviation ro_name :: "run_object \<Rightarrow> string" where
  "ro_name r \<equiv> om_Name (cr_Meta (ro_Run r))"

abbreviation ro_namespace :: "run_object \<Rightarrow> string" where
  "ro_namespace r \<equiv> om_Namespace (cr_Meta (ro_Run r))"

abbreviation ro_conditions :: "run_object \<Rightarrow> conditions" where
  "ro_conditions r \<equiv> crs_Conditions (cr_Status (ro_Run r))"

definition with_conditions :: "run_object \<Rightarrow> conditions \<Rightarrow> run_object" where
  "with_conditions r cs = r\<lparr>ro_Run := (ro_Run r)\<lparr>cr_Status := (cr_Status (ro_Run r))\<lparr>crs_Conditions := cs\<rparr>\<rparr>\<rparr>"

text \<open>\<open>existing.Status = desired.Status\<close>; the observed generation is part of the status.\<close>

definition with_status_of :: "run_object \<Rightarrow> run_object \<Rightarrow> run_object" where
  "with_status_of existing desired =
     existing\<lparr>ro_Run := (ro_Run existing)\<lparr>cr_Status := cr_Status (ro_Run desired)\<rparr>,
              ro_ObservedGeneration := ro_ObservedGeneration desired\<rparr>"

text \<open>
  \<open>equality.Semantic.DeepEqual\<close> on two statuses: transition times are volatile and always count as
  equal.
\<close>

definition untimed :: "conditions \<Rightarrow> conditions" where
  "untimed cs = map (\<lambda>c. c\<lparr>LastTransitionTime := 0\<rparr>) cs"

definition status_equal :: "run_object \<Rightarrow> run_object \<Rightarrow> bool" where
  "status_equal a b \<longleftrightarrow>
     untimed (ro_conditions a) = untimed (ro_conditions b)
     \<and> crs_StartTime (cr_Status (ro_Run a)) = crs_StartTime (cr_Status (ro_Run b))
     \<and> crs_CompletionTime (cr_Status (ro_Run a)) = crs_CompletionTime (cr_Status (ro_Run b))
     \<and> crs_ExtraFields (cr_Status (ro_Run a)) = crs_ExtraFields (cr_Status (ro_Run b))
     \<and> ro_ObservedGeneration a = ro_ObservedGeneration b"

subsection \<open>Before and after \<open>ReconcileKind\<close>\<close>

text \<open>\<open>MarkUnknown\<close> of the condition set, for the set of a run, which has no dependents.\<close>

definition mark_run_unknown :: "time \<Rightarrow> string \<Rightarrow> string \<Rightarrow> conditions \<Rightarrow> conditions" where
  "mark_run_unknown now reason message conds =
     SetCondition now (new_condition ConditionSucceeded ConditionUnknown
       (severity customRunCondSet ConditionSucceeded) reason message) conds"

text \<open>\<open>SetDefaults\<close> of a run sets its service account only, a field the program never reads and the model leaves out.\<close>

definition PreProcessReconcile :: "time \<Rightarrow> run_object \<Rightarrow> run_object" where
  "PreProcessReconcile now r =
     (let r1 = with_conditions r (InitializeConditionSet customRunCondSet now (ro_conditions r))
      in if ro_ObservedGeneration r \<noteq> ro_Generation r
         then with_conditions r1 (mark_run_unknown now ''NewObservedGenFailure''
                (Sprintf0 ''unsuccessfully observed a new generation'') (ro_conditions r1))
         else r1)"

definition groom_condition :: "time \<Rightarrow> conditions \<Rightarrow> condition \<Rightarrow> condition" where
  "groom_condition now old c =
     (case GetCondition (cond_Type c) old of
        None \<Rightarrow> c\<lparr>LastTransitionTime := now\<rparr>
      | Some oc \<Rightarrow>
          (let c' = c\<lparr>LastTransitionTime := LastTransitionTime oc\<rparr>
           in if c' = oc then c' else c'\<lparr>LastTransitionTime := now\<rparr>))"

definition groomConditionsTransitionTime :: "time \<Rightarrow> run_object \<Rightarrow> run_object \<Rightarrow> run_object" where
  "groomConditionsTransitionTime now r old =
     with_conditions r (map (groom_condition now (ro_conditions old)) (ro_conditions r))"

definition PostProcessReconcile :: "time \<Rightarrow> run_object \<Rightarrow> run_object \<Rightarrow> run_object" where
  "PostProcessReconcile now r old =
     groomConditionsTransitionTime now (r\<lparr>ro_ObservedGeneration := ro_Generation r\<rparr>) old"

subsection \<open>Writing the status back\<close>

text \<open>
  \<open>retry.OnError\<close> around \<open>wait.ExponentialBackoff\<close>: at most \<open>steps\<close> calls of the function, which is
  given the number of calls before; running out of steps gives the last error. The waiting between
  the calls is not modelled.
\<close>

fun OnError :: "nat \<Rightarrow> (go_error \<Rightarrow> bool) \<Rightarrow> (nat \<Rightarrow> 's \<Rightarrow> go_error option \<times> 's) \<Rightarrow> nat \<Rightarrow> go_error option \<Rightarrow> 's
    \<Rightarrow> go_error option \<times> 's" where
  "OnError 0 retriable f attempts lastErr s = (lastErr, s)"
| "OnError (Suc steps) retriable f attempts lastErr s =
     (case f attempts s of
        (None, s') \<Rightarrow> (None, s')
      | (Some e, s') \<Rightarrow>
          if retriable e then OnError steps retriable f (Suc attempts) (Some e) s' else (Some e, s'))"

definition DefaultRetry_Steps :: nat where
  "DefaultRetry_Steps = 5"

definition RetryUpdateConflicts :: "(nat \<Rightarrow> 's \<Rightarrow> go_error option \<times> 's) \<Rightarrow> 's \<Rightarrow> go_error option \<times> 's" where
  "RetryUpdateConflicts updater s = OnError DefaultRetry_Steps IsConflict updater 0 None s"

definition update_attempt ::
  "'s run_client \<Rightarrow> run_object \<Rightarrow> run_object \<Rightarrow> nat \<Rightarrow> 's \<Rightarrow> go_error option \<times> 's" where
  "update_attempt rc original desired attempts s =
     (case (if 0 < attempts then rc_Get rc (ro_namespace desired) (ro_name desired) s else (Inr original, s)) of
        (Inl e, s1) \<Rightarrow> (Some e, s1)
      | (Inr existing, s1) \<Rightarrow>
          if status_equal existing desired then (None, s1)
          else (case rc_UpdateStatus rc (ro_namespace existing) (with_status_of existing desired) s1 of
                  (Inl e, s2) \<Rightarrow> (Some e, s2)
                | (Inr _, s2) \<Rightarrow> (None, s2)))"

definition updateStatus :: "'s run_client \<Rightarrow> run_object \<Rightarrow> run_object \<Rightarrow> 's \<Rightarrow> go_error option \<times> 's" where
  "updateStatus rc existing desired s = RetryUpdateConflicts (update_attempt rc existing desired) s"

subsection \<open>One key\<close>

record sync_env =
  se_IsLeaderFor :: "string \<Rightarrow> string \<Rightarrow> bool"
  se_Lister :: "string \<Rightarrow> string \<Rightarrow> go_error + run_object"
  se_now_pre :: time
  se_now_post :: time
  se_text :: "go_error \<Rightarrow> string"

definition warning_event :: "string \<Rightarrow> string \<Rightarrow> event" where
  "warning_event reason message = \<lparr>ev_Type = ''Warning'', ev_Reason = reason, ev_Message = message\<rparr>"

text \<open>What is reported of the error of \<open>ReconcileKind\<close>.\<close>

definition report_error :: "sync_env \<Rightarrow> go_error option \<Rightarrow> event list \<Rightarrow> event list" where
  "report_error se err evs =
     (case err of
        None \<Rightarrow> evs
      | Some e \<Rightarrow>
          if IsSkipKey e \<or> fst (IsRequeueKey e) \<or> IsConflict e then evs
          else evs @ [warning_event ''InternalError'' (se_text se e)])"

text \<open>\<open>reconcileMethodFor\<close>: an object being deleted is left alone, as there is no finalizer to run.\<close>

definition reconcile_run_object ::
  "sync_env \<Rightarrow> env \<Rightarrow> 's at_client \<Rightarrow> run_object \<Rightarrow> 's world \<Rightarrow> go_error option \<times> run_object \<times> 's world" where
  "reconcile_run_object se env cl original w =
     (if IsZero (ro_DeletionTimestamp original)
      then let resource = PreProcessReconcile (se_now_pre se) original;
               (err, run', w') = ReconcileKind env cl (ro_Run resource) w
           in (err, PostProcessReconcile (se_now_post se) (resource\<lparr>ro_Run := run'\<rparr>) original, w')
      else (None, original, w))"

definition Reconcile_key ::
  "sync_env \<Rightarrow> env \<Rightarrow> 's at_client \<Rightarrow> 's run_client \<Rightarrow> string \<Rightarrow> 's world \<Rightarrow> go_error option \<times> 's world" where
  "Reconcile_key se env cl rc key w =
     (case SplitMetaNamespaceKey key of
        Inl _ \<Rightarrow> (None, w)
      | Inr (ns, name) \<Rightarrow>
          if \<not> se_IsLeaderFor se ns name then (Some (SkipKeyErr key), w)
          else case se_Lister se ns name of
            Inl e \<Rightarrow> (if IsNotFound e then None else Some e, w)
          | Inr original \<Rightarrow>
              (let (err, resource, w1) = reconcile_run_object se env cl original w
               in if status_equal original resource
                  then (err, w1\<lparr>w_events := report_error se err (w_events w1)\<rparr>)
                  else case updateStatus rc original resource (w_api w1) of
                    (Some e, s) \<Rightarrow>
                      (Some e, w1\<lparr>w_api := s, w_events := w_events w1 @ [warning_event ''UpdateFailed''
                        (''Failed to update status for '' @ quote (ro_name resource) @ '': '' @ se_text se e)]\<rparr>)
                  | (None, s) \<Rightarrow> (err, w1\<lparr>w_api := s, w_events := report_error se err (w_events w1)\<rparr>)))"

end
