(* ===== verification/Run_Sync_Facts.thy ===== *)
theory Run_Sync_Facts
  imports Run_Sync Reconcile_Store
begin

text \<open>
  A key from the queue to the stored status: the retries are bounded, the preparation and the
  grooming of the conditions keep what the run says, and in a cluster nobody else writes to, the
  stored run ends with the status that \<open>ReconcileKind\<close> computed.
\<close>

subsection \<open>The retry loop\<close>

text \<open>
  What a loop returned comes from its last call; every call before that failed in a way that is
  tried again, and so did the last one when the steps ran out.
\<close>

definition attempts_made ::
  "(go_error \<Rightarrow> bool) \<Rightarrow> (nat \<Rightarrow> 's \<Rightarrow> go_error option \<times> 's) \<Rightarrow> nat \<Rightarrow> 's list \<Rightarrow> bool" where
  "attempts_made retriable f n ss \<longleftrightarrow>
     (\<forall>i. Suc i < length ss \<longrightarrow> (\<exists>e. f (n + i) (ss ! i) = (Some e, ss ! Suc i) \<and> retriable e))"

lemma attempts_made_single [simp]: "attempts_made retriable f n [s]"
  by (simp add: attempts_made_def)

lemma attempts_made_Cons:
  assumes "f n s = (Some e, s')" and "retriable e" and "attempts_made retriable f (Suc n) (s' # ss)"
  shows "attempts_made retriable f n (s # s' # ss)"
  unfolding attempts_made_def
proof (intro allI impI)
  fix i
  assume "Suc i < length (s # s' # ss)"
  with assms show "\<exists>e. f (n + i) ((s # s' # ss) ! i) = (Some e, (s # s' # ss) ! Suc i) \<and> retriable e"
    by (cases i) (auto simp: attempts_made_def)
qed

lemma OnError_attempts:
  assumes "0 < steps" and "OnError steps retriable f n lastErr s = (err, s')"
  shows "\<exists>ss. hd ss = s \<and> 0 < length ss \<and> length ss \<le> steps \<and> attempts_made retriable f n ss
           \<and> f (n + length ss - 1) (last ss) = (err, s')
           \<and> (length ss < steps \<longrightarrow> (case err of None \<Rightarrow> True | Some e \<Rightarrow> \<not> retriable e))"
  using assms
proof (induction steps arbitrary: n lastErr s)
  case (Suc steps)
  obtain r s1 where f: "f n s = (r, s1)" by force
  show ?case
  proof (cases "\<exists>e. r = Some e \<and> retriable e \<and> 0 < steps")
    case True
    then obtain e where e: "r = Some e" "retriable e" "0 < steps" by blast
    with Suc.prems f have "OnError steps retriable f (Suc n) (Some e) s1 = (err, s')" by simp
    from Suc.IH [OF e(3) this] obtain ss where ss: "hd ss = s1" "0 < length ss" "length ss \<le> steps"
      "attempts_made retriable f (Suc n) ss" "f (Suc n + length ss - 1) (last ss) = (err, s')"
      "length ss < steps \<longrightarrow> (case err of None \<Rightarrow> True | Some e \<Rightarrow> \<not> retriable e)" by blast
    then obtain ts where ts: "ss = s1 # ts" by (cases ss) auto
    with attempts_made_Cons [of f n s e s1 retriable ts] f e ss(4)
    have "attempts_made retriable f n (s # ss)" by simp
    with ss show ?thesis by (intro exI [of _ "s # ss"]) auto
  next
    case False
    have "r = err \<and> s1 = s'"
      using Suc.prems f False by (cases steps) (auto split: option.splits if_splits)
    moreover have "case r of None \<Rightarrow> True | Some e \<Rightarrow> retriable e \<longrightarrow> steps = 0"
      using False by (auto split: option.split)
    ultimately show ?thesis using f by (intro exI [of _ "[s]"]) (auto split: option.split)
  qed
qed simp

subsection \<open>Conditions\<close>

lemma with_conditions_sel [simp]:
  "ro_conditions (with_conditions r cs) = cs"
  "ro_Generation (with_conditions r cs) = ro_Generation r"
  "ro_ObservedGeneration (with_conditions r cs) = ro_ObservedGeneration r"
  "ro_DeletionTimestamp (with_conditions r cs) = ro_DeletionTimestamp r"
  "cr_Meta (ro_Run (with_conditions r cs)) = cr_Meta (ro_Run r)"
  by (simp_all add: with_conditions_def)

lemma GetCondition_untimed:
  "GetCondition t (untimed cs) = map_option (\<lambda>c. c\<lparr>LastTransitionTime := 0\<rparr>) (GetCondition t cs)"
  by (induction cs) (simp_all add: untimed_def)

lemma run_status_untimed:
  "untimed (crs_Conditions (cr_Status r)) = untimed (crs_Conditions (cr_Status r')) \<Longrightarrow> run_status r = run_status r'"
proof -
  have "run_status r = (case GetCondition ConditionSucceeded (untimed (crs_Conditions (cr_Status r))) of
      None \<Rightarrow> ConditionUnknown | Some c \<Rightarrow> cond_Status c)" for r
    by (auto simp: run_status_def run_condition_def GetCondition_untimed split: option.split)
  then show "untimed (crs_Conditions (cr_Status r)) = untimed (crs_Conditions (cr_Status r')) \<Longrightarrow> run_status r = run_status r'"
    by simp
qed

lemma status_equal_refl [simp]: "status_equal a a"
  by (simp add: status_equal_def)

lemma status_equal_with [simp]: "status_equal (with_status_of a b) b"
  by (simp add: status_equal_def with_status_of_def)

lemma status_equal_run_status: "status_equal a b \<Longrightarrow> run_status (ro_Run a) = run_status (ro_Run b)"
  unfolding status_equal_def by (blast intro: run_status_untimed)

lemma groom_condition_time: "\<exists>t. groom_condition now old c = c\<lparr>LastTransitionTime := t\<rparr>"
  unfolding groom_condition_def Let_def by (cases "GetCondition (cond_Type c) old") (simp_all, metis+)

lemma groom_condition_sel [simp]:
  "cond_Type (groom_condition now old c) = cond_Type c"
  "cond_Status (groom_condition now old c) = cond_Status c"
  using groom_condition_time [of now old c] by auto

lemma GetCondition_groom:
  "GetCondition t (map (groom_condition now old) cs) = map_option (groom_condition now old) (GetCondition t cs)"
  by (induction cs) simp_all

lemma PostProcess_status [simp]:
  "run_status (ro_Run (PostProcessReconcile now r old)) = run_status (ro_Run r)"
  by (cases "GetCondition ConditionSucceeded (ro_conditions r)")
    (simp_all add: PostProcessReconcile_def groomConditionsTransitionTime_def run_status_def run_condition_def
      with_conditions_def GetCondition_groom)

text \<open>Preparing a run that is not done leaves it ready.\<close>

lemma InitializeConditionSet_run:
  "InitializeConditionSet customRunCondSet now cs =
     (if GetCondition ConditionSucceeded cs = None
      then SetCondition now (new_condition ConditionSucceeded ConditionUnknown '''' '''' '''') cs else cs)"
  by (cases "GetCondition ConditionSucceeded cs") (simp_all add: InitializeConditionSet_def)

lemma SetCondition_run_status:
  assumes "conditions_ok cs" and "cond_Type c = ConditionSucceeded"
  shows "run_status (r\<lparr>cr_Status := (cr_Status r)\<lparr>crs_Conditions := SetCondition now c cs\<rparr>\<rparr>) = cond_Status c"
  using SetCondition_same [OF assms(1), of c now] assms(2) by (auto simp: run_status_def run_condition_def)

lemma PreProcess_request:
  "same_request (ro_Run (PreProcessReconcile now r)) (ro_Run r)"
  "cr_Timeout (ro_Run (PreProcessReconcile now r)) = cr_Timeout (ro_Run r)"
  "crs_ExtraFields (cr_Status (ro_Run (PreProcessReconcile now r))) = crs_ExtraFields (cr_Status (ro_Run r))"
  "crs_StartTime (cr_Status (ro_Run (PreProcessReconcile now r))) = crs_StartTime (cr_Status (ro_Run r))"
  by (simp_all add: PreProcessReconcile_def with_conditions_def same_request_def Let_def)

lemma PreProcess_ok:
  "run_conditions_ok (ro_Run r) \<Longrightarrow> run_conditions_ok (ro_Run (PreProcessReconcile now r))"
  by (simp add: PreProcessReconcile_def with_conditions_def run_conditions_ok_def Let_def
      InitializeConditionSet_run mark_run_unknown_def SetCondition_ok)

lemma PreProcess_status:
  assumes "run_conditions_ok (ro_Run r)"
  shows "run_status (ro_Run (PreProcessReconcile now r)) =
    (if ro_ObservedGeneration r = ro_Generation r then run_status (ro_Run r) else ConditionUnknown)"
proof -
  have ok: "conditions_ok (ro_conditions r)" using assms by (simp add: run_conditions_ok_def)
  have init: "run_status (ro_Run (with_conditions r (InitializeConditionSet customRunCondSet now (ro_conditions r))))
      = run_status (ro_Run r)"
    using SetCondition_run_status [OF ok, of "new_condition ConditionSucceeded ConditionUnknown '''' '''' ''''"]
    by (auto simp: InitializeConditionSet_run with_conditions_def) (auto simp: run_status_def run_condition_def)
  have ok': "conditions_ok (InitializeConditionSet customRunCondSet now (ro_conditions r))"
    using ok by (simp add: InitializeConditionSet_run SetCondition_ok)
  have "run_status (ro_Run (with_conditions r' (mark_run_unknown now reason msg cs))) = ConditionUnknown"
    if "conditions_ok cs" for r' reason msg cs
    using SetCondition_run_status [OF that, of "new_condition ConditionSucceeded ConditionUnknown '''' reason msg"]
    by (simp add: mark_run_unknown_def with_conditions_def)
  with init ok' show ?thesis by (simp add: PreProcessReconcile_def Let_def)
qed

lemma same_request_checks:
  assumes "same_request r r'"
  shows "checkCustomRunReferencesApprovalTask r = checkCustomRunReferencesApprovalTask r'"
    and "ValidateCustomRunParameters unmarshal r = ValidateCustomRunParameters unmarshal r'"
    and "cr_Timeout r = cr_Timeout r' \<Longrightarrow> parse_timeout env r = parse_timeout env r'"
proof -
  have eqs: "cr_Meta r = cr_Meta r'" "cr_CustomRef r = cr_CustomRef r'" "cr_CustomSpec r = cr_CustomSpec r'"
    "cr_Params r = cr_Params r'"
    using assms by (simp_all add: same_request_def)
  show "checkCustomRunReferencesApprovalTask r = checkCustomRunReferencesApprovalTask r'"
    unfolding checkCustomRunReferencesApprovalTask_def eqs ..
  show "ValidateCustomRunParameters unmarshal r = ValidateCustomRunParameters unmarshal r'"
    unfolding ValidateCustomRunParameters_def eqs ..
  show "parse_timeout env r = parse_timeout env r'" if "cr_Timeout r = cr_Timeout r'"
    unfolding parse_timeout_def eqs that ..
qed

text \<open>What makes a run ready, but for whether it is done; a new generation makes a done run ready again.\<close>

definition workable :: "env \<Rightarrow> custom_run \<Rightarrow> bool" where
  "workable env run \<longleftrightarrow>
     checkCustomRunReferencesApprovalTask run = None \<and> cr_CustomRef run \<noteq> None \<and> run_conditions_ok run
     \<and> ValidateCustomRunParameters (e_unmarshal_json env) run = None
     \<and> (\<forall>p \<in> set (cr_Params run). p_Name p = ''approvers'' \<longrightarrow> array_only p)
     \<and> crs_ExtraFields (cr_Status run) = []
     \<and> (case parse_timeout env run of Inl _ \<Rightarrow> False | Inr _ \<Rightarrow> True)"

lemma ready_iff: "ready env run \<longleftrightarrow> workable env run \<and> \<not> IsDone run"
  by (auto simp: ready_def workable_def)

lemma PreProcess_workable:
  assumes "workable env (ro_Run r)"
  shows "workable env (ro_Run (PreProcessReconcile now r))"
proof -
  have q: "same_request (ro_Run (PreProcessReconcile now r)) (ro_Run r)" by (rule PreProcess_request)
  have ok: "run_conditions_ok (ro_Run r)" using assms by (simp add: workable_def)
  note same_request_checks [OF q] PreProcess_ok [OF ok, of now] PreProcess_request(2,3) [of now r]
  then show ?thesis
    using assms q unfolding workable_def same_request_def by (simp only:) simp
qed

lemma PreProcess_ready:
  assumes "ready env (ro_Run r) \<or> workable env (ro_Run r) \<and> ro_ObservedGeneration r \<noteq> ro_Generation r"
  shows "ready env (ro_Run (PreProcessReconcile now r))"
proof -
  have w: "workable env (ro_Run r)" using assms by (auto simp: ready_iff)
  then have "\<not> IsDone (ro_Run (PreProcessReconcile now r))"
    using assms PreProcess_status [of r now] by (auto simp: ready_iff run_status_iff workable_def)
  with PreProcess_workable [OF w] show ?thesis by (simp add: ready_iff)
qed

end
