(* ===== verification/Cluster.thy ===== *)
theory Cluster
  imports Run_Sync_Facts
begin

text \<open>
  Both kinds of objects at once. \<open>frames cl f\<close> says that no operation of a client changes what \<open>f\<close>
  reads; the locale \<open>cluster\<close> is a store of tasks and a store of runs that do not disturb each other,
  as the API server's are. The fake client sets of the repository's tests implement it: each has an
  object tracker of its own.
\<close>

subsection \<open>What a reconciliation leaves alone\<close>

definition frames :: "'s at_client \<Rightarrow> ('s \<Rightarrow> 'f) \<Rightarrow> bool" where
  "frames cl f \<longleftrightarrow>
     (\<forall>ns n t s. f (snd (cl_Get cl ns n s)) = f s \<and> f (snd (cl_Create cl ns t s)) = f s
        \<and> f (snd (cl_Update cl ns t s)) = f s \<and> f (snd (cl_UpdateStatus cl ns t s)) = f s)"

lemma frames_client:
  assumes "frames cl f"
  shows "ApprovalTasks_Get cl ns n s = (r, s') \<Longrightarrow> f s' = f s"
    and "ApprovalTasks_Create cl ns t s = (r, s') \<Longrightarrow> f s' = f s"
    and "ApprovalTasks_Update cl ns t s = (r, s') \<Longrightarrow> f s' = f s"
    and "ApprovalTasks_UpdateStatus cl ns t s = (r, s') \<Longrightarrow> f s' = f s"
  using assms
  by (auto simp: frames_def ApprovalTasks_Get_def ApprovalTasks_Create_def ApprovalTasks_Update_def
      ApprovalTasks_UpdateStatus_def split: prod.splits dest: sym [of "(_, _)"])
    (metis snd_conv)+

lemma frames_create:
  assumes "frames cl f" and "createApprovalTask env cl run s = (r, s')"
  shows "f s' = f s"
  using assms(2) unfolding createApprovalTask_def Let_def
  by (auto split: sum.splits prod.splits option.splits dest!: frames_client [OF assms(1)])

lemma frames_getOrCreate:
  assumes "frames cl f" and "getOrCreateApprovalTask env cl run s = (r, run', s')"
  shows "f s' = f s"
  using assms(2) unfolding getOrCreateApprovalTask_def Let_def
  by (auto split: if_splits sum.splits prod.splits option.splits
      dest!: frames_client [OF assms(1)] frames_create [OF assms(1)])

lemma frames_update:
  assumes "frames cl f" and "checkIfUpdateRequired env cl task run s = (r, run', s')"
  shows "f s' = f s"
  using assms(2) unfolding checkIfUpdateRequired_def updateApprovalState_def
  by (auto split: if_splits prod.splits option.splits bool.splits dest!: frames_client [OF assms(1)])

lemma frames_task:
  assumes "frames cl f" and "reconcile_task env cl task run s = (r, run', s')"
  shows "f s' = f s"
  using assms(2) frames_client(4) [OF assms(1)] frames_update [OF assms(1)]
  unfolding reconcile_task_def Let_def
  by (auto split: if_splits prod.splits option.splits)

lemma frames_reconcile:
  assumes "frames cl f" and "reconcile env cl run status s = (r, run', status', s')"
  shows "f s' = f s"
proof -
  obtain res run1 s1 where g: "getOrCreateApprovalTask env cl run s = (res, run1, s1)"
    by (cases "getOrCreateApprovalTask env cl run s") auto
  show ?thesis
    using frames_getOrCreate [OF assms(1) g] assms(2) g frames_task [OF assms(1)]
    by (cases res) (auto simp: reconcile_def Let_def split: prod.splits)
qed

lemma updateLabels_api: "updateLabelsAndAnnotations env run w = (r, w') \<Longrightarrow> w_api w' = w_api w"
  by (auto simp: updateLabelsAndAnnotations_def Let_def split: sum.splits if_splits)

lemma frames_ReconcileKind_valid:
  assumes "frames cl f" and "ReconcileKind_valid env cl run w = (r, run', w')"
  shows "f (w_api w') = f (w_api w)"
proof -
  have rec: "reconcile env cl r st s = (e, r', st', s') \<Longrightarrow> f s' = f s" for r st s e r' st' s'
    by (rule frames_reconcile [OF assms(1)])
  show ?thesis
    using assms(2) rec updateLabels_api unfolding ReconcileKind_valid_def Let_def
    by (fastforce split: prod.splits option.splits)
qed

theorem frames_ReconcileKind:
  assumes "frames cl f" and "ReconcileKind env cl run w = (r, run', w')"
  shows "f (w_api w') = f (w_api w)"
  using assms(2) frames_ReconcileKind_valid [OF assms(1)] unfolding ReconcileKind_def Let_def
  by (auto split: option.splits prod.splits if_splits sum.splits)

subsection \<open>A store of runs\<close>

lemma with_status_of_sel [simp]:
  "cr_Meta (ro_Run (with_status_of a b)) = cr_Meta (ro_Run a)"
  "with_status_of a (with_status_of a b) = with_status_of a b" "with_status_of a a = a"
  by (simp_all add: with_status_of_def)

lemma reconcile_run_object_meta:
  assumes "frames cl f" and "reconcile_run_object se env cl r w = (err, r', w')"
  shows "f (w_api w') = f (w_api w)"
  using assms(2) frames_ReconcileKind [OF assms(1)]
  by (auto simp: reconcile_run_object_def Let_def split: if_splits prod.splits)

locale run_store =
  fixes rc :: "'s run_client"
    and runs :: "'s \<Rightarrow> string \<Rightarrow> string \<Rightarrow> run_object option"
  assumes run_get: "runs s ns n = Some r \<Longrightarrow> rc_Get rc ns n s = (Inr r, s)"
    and run_get_miss: "runs s ns n = None \<Longrightarrow> \<exists>e. rc_Get rc ns n s = (Inl e, s) \<and> IsNotFound e"
    and run_status_hit: "runs s (ro_namespace r) (ro_name r) = Some old \<Longrightarrow> r = with_status_of old r \<Longrightarrow>
      \<exists>s'. rc_UpdateStatus rc (ro_namespace r) r s = (Inr r, s')
        \<and> (\<forall>ns n. runs s' ns n = (if ns = ro_namespace r \<and> n = ro_name r then Some r else runs s ns n))"
begin

text \<open>A cached object that is the stored one is written back at the first attempt.\<close>

lemma updateStatus_fresh:
  assumes "runs s (ro_namespace r) (ro_name r) = Some r" and "\<not> status_equal r desired"
  obtains s' where "updateStatus rc r desired s = (None, s')"
    "\<And>ns n. runs s' ns n =
       (if ns = ro_namespace r \<and> n = ro_name r then Some (with_status_of r desired) else runs s ns n)"
    "s' = snd (rc_UpdateStatus rc (ro_namespace r) (with_status_of r desired) s)"
proof -
  obtain s' where u: "rc_UpdateStatus rc (ro_namespace r) (with_status_of r desired) s = (Inr (with_status_of r desired), s')"
    and l: "\<And>ns n. runs s' ns n =
       (if ns = ro_namespace r \<and> n = ro_name r then Some (with_status_of r desired) else runs s ns n)"
    using run_status_hit [of s "with_status_of r desired" r] assms(1) by auto
  have "updateStatus rc r desired s = (None, s')"
    using assms(2) u by (simp add: updateStatus_def RetryUpdateConflicts_def DefaultRetry_Steps_def
        update_attempt_def eval_nat_numeral)
  with l u that show ?thesis by simp
qed

end

locale cluster = task_editor cl lookup stamp + run_store rc runs
  for cl :: "'s at_client" and lookup stamp and rc :: "'s run_client" and runs +
  assumes tasks_frame: "frames cl runs"
    and runs_frame: "lookup (snd (rc_UpdateStatus rc ns r s)) = lookup s"
begin

lemma Reconcile_key_stored:
  assumes "SplitMetaNamespaceKey key = Inr (ro_namespace r, ro_name r)"
    and "se_IsLeaderFor se (ro_namespace r) (ro_name r)"
    and "se_Lister se (ro_namespace r) (ro_name r) = Inr r"
    and "runs (w_api w) (ro_namespace r) (ro_name r) = Some r"
    and k: "reconcile_run_object se env cl r w = (err, res, w1)"
  obtains w' r' where "Reconcile_key se env cl rc key w = (err, w')"
    "lookup (w_api w') = lookup (w_api w1)" "r' = with_status_of r r'" "status_equal r' res"
    "\<And>ns n. runs (w_api w') ns n =
       (if ns = ro_namespace r \<and> n = ro_name r then Some r' else runs (w_api w) ns n)"
proof (cases "status_equal r res")
  case True
  have "runs (w_api w1) = runs (w_api w)" by (rule reconcile_run_object_meta [OF tasks_frame k])
  with True assms that [of "w1\<lparr>w_events := report_error se err (w_events w1)\<rparr>" r] show ?thesis
    by (simp add: Reconcile_key_def)
next
  case False
  have fr: "runs (w_api w1) = runs (w_api w)" by (rule reconcile_run_object_meta [OF tasks_frame k])
  obtain s' where u: "updateStatus rc r res (w_api w1) = (None, s')"
    and l: "\<And>ns n. runs s' ns n =
       (if ns = ro_namespace r \<and> n = ro_name r then Some (with_status_of r res) else runs (w_api w) ns n)"
    and s': "s' = snd (rc_UpdateStatus rc (ro_namespace r) (with_status_of r res) (w_api w1))"
    using updateStatus_fresh [of "w_api w1" r res] False assms(4) fr by (metis (no_types, lifting))
  show ?thesis
    by (rule that [of "w1\<lparr>w_api := s', w_events := report_error se err (w_events w1)\<rparr>" "with_status_of r res"])
      (use False assms u l s' in \<open>simp_all add: Reconcile_key_def runs_frame\<close>)
qed

end

subsection \<open>The fake client sets\<close>

type_synonym run_tracker = "(string \<times> string, run_object) fmap"

type_synonym fake_cluster = "tracker \<times> run_tracker"

definition run_tracker_Get :: "string \<Rightarrow> string \<Rightarrow> run_tracker \<Rightarrow> go_error + run_object" where
  "run_tracker_Get ns name objs =
     (case fmlookup objs (ns, name) of
        None \<Rightarrow> Inl (StatusErr (NewNotFound ''customruns'' name))
      | Some obj \<Rightarrow> Inr obj)"

text \<open>\<open>tracker.Update\<close>, then \<open>tracker.Get\<close>, for an object whose namespace is set.\<close>

definition run_react_Update :: "string \<Rightarrow> run_object \<Rightarrow> run_tracker \<Rightarrow> (go_error + run_object) \<times> run_tracker" where
  "run_react_Update ns obj objs =
     (if ns \<noteq> ro_namespace obj then (Inl (StatusErr NewBadRequest), objs)
      else case fmlookup objs (ns, ro_name obj) of
        None \<Rightarrow> (Inl (StatusErr (NewNotFound ''customruns'' (ro_name obj))), objs)
      | Some _ \<Rightarrow>
          (let objs' = fmupd (ns, ro_name obj) obj objs
           in (run_tracker_Get ns (ro_name obj) objs', objs')))"

definition on_tasks :: "(tracker \<Rightarrow> 'r \<times> tracker) \<Rightarrow> fake_cluster \<Rightarrow> 'r \<times> fake_cluster" where
  "on_tasks f s = (let (r, ts) = f (fst s) in (r, (ts, snd s)))"

definition on_runs :: "(run_tracker \<Rightarrow> 'r \<times> run_tracker) \<Rightarrow> fake_cluster \<Rightarrow> 'r \<times> fake_cluster" where
  "on_runs f s = (let (r, rs) = f (snd s) in (r, (fst s, rs)))"

definition fake_tasks :: "fake_cluster at_client" where
  "fake_tasks =
     \<lparr>cl_Get = \<lambda>ns n. on_tasks (react_Get ns n), cl_Create = \<lambda>ns t. on_tasks (react_Create ns t),
      cl_Update = \<lambda>ns t. on_tasks (react_Update ns t), cl_UpdateStatus = \<lambda>ns t. on_tasks (react_Update ns t)\<rparr>"

definition fake_runs :: "fake_cluster run_client" where
  "fake_runs =
     \<lparr>rc_Get = \<lambda>ns n. on_runs (\<lambda>rs. (run_tracker_Get ns n rs, rs)),
      rc_UpdateStatus = \<lambda>ns r. on_runs (run_react_Update ns r)\<rparr>"

definition cluster_task :: "fake_cluster \<Rightarrow> string \<Rightarrow> string \<Rightarrow> approval_task option" where
  "cluster_task s = tracker_lookup (fst s)"

definition cluster_run :: "fake_cluster \<Rightarrow> string \<Rightarrow> string \<Rightarrow> run_object option" where
  "cluster_run s ns n = fmlookup (snd s) (ns, n)"

lemmas cluster_defs = fake_tasks_def fake_runs_def on_tasks_def on_runs_def cluster_task_def cluster_run_def
  run_tracker_Get_def run_react_Update_def

interpretation fake_runs: run_store fake_runs cluster_run
  by unfold_locales (auto simp: cluster_defs Let_def)

interpretation fakes: cluster fake_tasks cluster_task "\<lambda>s c. c" fake_runs cluster_run
  by unfold_locales
    (auto simp: cluster_defs frames_def fun_eq_iff tracker_defs same_sent_def split: option.splits if_splits prod.splits)

end
