(* ===== verification/Gate_Flow.thy ===== *)
theory Gate_Flow
  imports Cluster Cli_Flow
begin

text \<open>
  The handling of a run's key against a store that nobody else writes to: the run is stored with what the
  reconciliation of its task decides.
\<close>

lemma in_time_PreProcess [simp]:
  "in_time env (ro_Run (PreProcessReconcile now r)) t = in_time env (ro_Run r) t"
  "delay_of env (ro_Run (PreProcessReconcile now r)) t = delay_of env (ro_Run r) t"
proof -
  have "timeout_of env (ro_Run (PreProcessReconcile now r)) = timeout_of env (ro_Run r)"
    using same_request_checks(3) [OF PreProcess_request(1,2)] by (simp add: timeout_of_def)
  then have "run_timeout (begun env (ro_Run (PreProcessReconcile now r))) = run_timeout (begun env (ro_Run r))"
    by (simp add: run_timeout_def)
  then show "in_time env (ro_Run (PreProcessReconcile now r)) t = in_time env (ro_Run r) t"
    "delay_of env (ro_Run (PreProcessReconcile now r)) t = delay_of env (ro_Run r) t"
    by (simp_all add: in_time_def timed_out_def delay_of_def requeue_delay_def)
qed

text \<open>The cached object is the stored one, and this replica is the leader for its key.\<close>

definition in_charge :: "sync_env \<Rightarrow> run_object \<Rightarrow> bool" where
  "in_charge se r \<longleftrightarrow>
     se_IsLeaderFor se (ro_namespace r) (ro_name r) \<and> se_Lister se (ro_namespace r) (ro_name r) = Inr r
     \<and> IsZero (ro_DeletionTimestamp r)
     \<and> CHR ''/'' \<notin> set (ro_namespace r) \<and> CHR ''/'' \<notin> set (ro_name r)"

lemma in_charge_key:
  "in_charge se r \<Longrightarrow> SplitMetaNamespaceKey (safeKey (object_key (cr_Meta (ro_Run r)))) = Inr (ro_namespace r, ro_name r)"
  using SplitMetaNamespaceKey_safeKey [of "object_key (cr_Meta (ro_Run r))"] by (simp add: in_charge_def object_key_def)

context cluster
begin

lemma key_stores_status:
  assumes "in_charge se r" and "runs (w_api w) (ro_namespace r) (ro_name r) = Some r"
    and k: "ReconcileKind env cl (ro_Run (PreProcessReconcile (se_now_pre se) r)) w = (err, run', w1)"
  obtains w' r' where
    "Reconcile_key se env cl rc (safeKey (object_key (cr_Meta (ro_Run r)))) w = (err, w')"
    "lookup (w_api w') = lookup (w_api w1)" "r' = with_status_of r r'"
    "status_equal r' (PostProcessReconcile (se_now_post se)
       ((PreProcessReconcile (se_now_pre se) r)\<lparr>ro_Run := run'\<rparr>) r)"
    "\<And>ns n. runs (w_api w') ns n =
       (if ns = ro_namespace r \<and> n = ro_name r then Some r' else runs (w_api w) ns n)"
proof -
  let ?res = "PostProcessReconcile (se_now_post se) ((PreProcessReconcile (se_now_pre se) r)\<lparr>ro_Run := run'\<rparr>) r"
  have "reconcile_run_object se env cl r w = (err, ?res, w1)"
    using assms(1) k by (simp add: reconcile_run_object_def in_charge_def Let_def)
  then show ?thesis
    using assms(1,2) that in_charge_key [OF assms(1)]
      Reconcile_key_stored [of "safeKey (object_key (cr_Meta (ro_Run r)))" r se w env err ?res w1 thesis]
    by (simp add: in_charge_def)
qed

lemma key_reconciled_as:
  assumes "in_charge se r" and "ready env (ro_Run r)"
    and "runs (w_api w) (ro_namespace r) (ro_name r) = Some r"
    and "lookup (w_api w) (ro_namespace r) (ro_name r) = Some t"
    and "keyed (ro_Run r) t" and "in_time env (ro_Run r) t"
  obtains w' r' where
    "Reconcile_key se env cl rc (safeKey (object_key (cr_Meta (ro_Run r)))) w =
       (Some (MultiErr [RequeueErr (delay_of env (ro_Run r) t)]), w')"
    "runs (w_api w') (ro_namespace r) (ro_name r) = Some r'" "r' = with_status_of r r'"
    "status_equal r' (PostProcessReconcile (se_now_post se) ((PreProcessReconcile (se_now_pre se) r)
       \<lparr>ro_Run := next_run env (ro_Run (PreProcessReconcile (se_now_pre se) r)) t\<rparr>) r)"
    "lookup (w_api w') (ro_namespace r) (ro_name r) = Some (stored_after env t)"
proof -
  let ?p = "PreProcessReconcile (se_now_pre se) r"
  have m: "cr_Meta (ro_Run ?p) = cr_Meta (ro_Run r)" and kd: "keyed (ro_Run ?p) t"
    using PreProcess_request(1) assms(5) by (simp_all add: same_request_def keyed_def)
  obtain w1 where k: "ReconcileKind env cl (ro_Run ?p) w =
      (Some (MultiErr [RequeueErr (delay_of env (ro_Run r) t)]), next_run env (ro_Run ?p) t, w1)"
    and l: "lookup (w_api w1) (ro_namespace r) (ro_name r) = Some (stored_after env t)"
    using kind_stored [OF PreProcess_ready [OF disjI1, OF assms(2), of "se_now_pre se"], where w = w and t = t] assms(4,6) m kd
    unfolding in_time_PreProcess by metis
  show ?thesis
  proof (rule key_stores_status [OF assms(1,3) k])
    fix w' r'
    let ?res = "PostProcessReconcile (se_now_post se) (?p\<lparr>ro_Run := next_run env (ro_Run ?p) t\<rparr>) r"
    assume a: "Reconcile_key se env cl rc (safeKey (object_key (cr_Meta (ro_Run r)))) w =
        (Some (MultiErr [RequeueErr (delay_of env (ro_Run r) t)]), w')"
      "lookup (w_api w') = lookup (w_api w1)" "r' = with_status_of r r'" "status_equal r' ?res"
      "\<And>ns n. runs (w_api w') ns n =
         (if ns = ro_namespace r \<and> n = ro_name r then Some r' else runs (w_api w) ns n)"
    show thesis
      by (rule that [OF a(1) _ a(3,4)]) (use a(2,5) l in simp_all)
  qed
qed

lemma key_reconciled:
  assumes "in_charge se r" and "ready env (ro_Run r)"
    and "runs (w_api w) (ro_namespace r) (ro_name r) = Some r"
    and "lookup (w_api w) (ro_namespace r) (ro_name r) = Some t"
    and "keyed (ro_Run r) t" and "in_time env (ro_Run r) t"
  obtains w' r' where
    "Reconcile_key se env cl rc (safeKey (object_key (cr_Meta (ro_Run r)))) w =
       (Some (MultiErr [RequeueErr (delay_of env (ro_Run r) t)]), w')"
    "runs (w_api w') (ro_namespace r) (ro_name r) = Some r'" "r' = with_status_of r r'"
    "run_status (ro_Run r') = run_status (next_run env (ro_Run (PreProcessReconcile (se_now_pre se) r)) t)"
    "lookup (w_api w') (ro_namespace r) (ro_name r) = Some (stored_after env t)"
proof (rule key_reconciled_as [OF assms])
  fix w' r'
  assume a: "Reconcile_key se env cl rc (safeKey (object_key (cr_Meta (ro_Run r)))) w =
       (Some (MultiErr [RequeueErr (delay_of env (ro_Run r) t)]), w')"
    "runs (w_api w') (ro_namespace r) (ro_name r) = Some r'" "r' = with_status_of r r'"
    "status_equal r' (PostProcessReconcile (se_now_post se) ((PreProcessReconcile (se_now_pre se) r)
       \<lparr>ro_Run := next_run env (ro_Run (PreProcessReconcile (se_now_pre se) r)) t\<rparr>) r)"
    "lookup (w_api w') (ro_namespace r) (ro_name r) = Some (stored_after env t)"
  show thesis by (rule that [OF a(1-3) _ a(5)]) (use status_equal_run_status [OF a(4)] in simp)
qed

text \<open>Past the timeout the stored run fails, whatever the task's state was.\<close>

lemma key_expires:
  assumes "in_charge se r" and "ready env (ro_Run (PreProcessReconcile (se_now_pre se) r))"
    and "runs (w_api w) (ro_namespace r) (ro_name r) = Some r"
    and "lookup (w_api w) (ro_namespace r) (ro_name r) = Some t"
    and "keyed (ro_Run r) t" and "\<not> in_time env (ro_Run r) t"
  obtains err w' r' where
    "Reconcile_key se env cl rc (safeKey (object_key (cr_Meta (ro_Run r)))) w = (err, w')"
    "runs (w_api w') (ro_namespace r) (ro_name r) = Some r'" "IsFailure (ro_Run r')"
    "lookup (w_api w') (ro_namespace r) (ro_name r) = Some (expired_task t)"
proof -
  let ?p = "PreProcessReconcile (se_now_pre se) r"
  have m: "cr_Meta (ro_Run ?p) = cr_Meta (ro_Run r)" and kd: "keyed (ro_Run ?p) t"
    using PreProcess_request(1) assms(5) by (simp_all add: same_request_def keyed_def)
  obtain err run' w1 where k: "ReconcileKind env cl (ro_Run ?p) w = (err, run', w1)" "IsFailure run'"
    and l: "lookup (w_api w1) (ro_namespace r) (ro_name r) = Some (expired_task t)"
    using kind_expired [OF assms(2), where w = w and t = t] assms(4,6) m kd unfolding in_time_PreProcess
    by (metis run_marked_done(2))
  show ?thesis
  proof (rule key_stores_status [OF assms(1,3) k(1)])
    fix w' r'
    assume a: "Reconcile_key se env cl rc (safeKey (object_key (cr_Meta (ro_Run r)))) w = (err, w')"
      "lookup (w_api w') = lookup (w_api w1)"
      "status_equal r' (PostProcessReconcile (se_now_post se) (?p\<lparr>ro_Run := run'\<rparr>) r)"
      "\<And>ns n. runs (w_api w') ns n =
         (if ns = ro_namespace r \<and> n = ro_name r then Some r' else runs (w_api w) ns n)"
    show thesis
      by (rule that [OF a(1)]) (use a(2,4) l k(2) status_equal_run_status [OF a(3)] in \<open>simp_all add: run_status_iff\<close>)
  qed
qed

end

end
