(* ===== verification/Gate_System.thy ===== *)
theory Gate_System
  imports Gate_Flow Lifecycle Timeout_Facts
begin

text \<open>
  The whole gate for one key: updates that pass the webhook, edits of the run, and reconciliations of
  the key by any replica from any version of the run that an informer may still have in its cache, in
  any order and with any clock. A run that is stored as succeeded has the quorum of its task, counted
  by people who acted. Proved in the locale \<open>gate\<close>, whose laws of the API allow the write of a status
  to fail in any way.
\<close>

subsection \<open>What a reconciliation can do to the task\<close>

definition moved :: "env \<Rightarrow> approval_task \<Rightarrow> approval_task \<Rightarrow> bool" where
  "moved env t t' \<longleftrightarrow> t' = t \<or> t' = stored_after env t \<or> t' = expired_task t"

lemma moved_spec: "moved env t t' \<Longrightarrow> at_Spec t' = at_Spec t \<and> at_Meta t' = at_Meta t"
  by (auto simp: moved_def)

lemma moved_reachable: "reachable admit t0 (t, H) \<Longrightarrow> moved env t t' \<Longrightarrow> reachable admit t0 (t', H)"
  by (auto simp: moved_def intro: reachable.step life_step.intros)

context task_store
begin

lemma reconcile_task_moves:
  assumes "lookup s (run_ns run) (run_name run) = Some t" and "keyed run t"
    and "reconcile_task env cl (start_task t) r s = (err, r', s')"
  shows "\<exists>t'. moved env t t' \<and> lookup s' (run_ns run) (run_name run) = Some t'"
proof (cases "timed_out env r (start_task t)")
  case True
  show ?thesis
    by (rule reconcile_task_expired [OF assms(1,2) True]) (use assms(3) in \<open>auto simp: moved_def\<close>)
next
  case False
  show ?thesis
    by (rule reconcile_task_stored [OF assms(1,2) False]) (use assms(3) in \<open>auto simp: moved_def\<close>)
qed

lemma reconcile_moves:
  assumes "cr_CustomRef run \<noteq> None" and "lookup s (run_ns run) (run_name run) = Some t" and "keyed run t"
    and "reconcile env cl run st s = (err, run', st', s')"
  shows "\<exists>t'. moved env t t' \<and> lookup s' (run_ns run) (run_name run) = Some t'"
proof -
  let ?r = "propagateApprovalTaskLabelsAndAnnotations run (at_Meta t)"
  obtain e r' s1 where rt: "reconcile_task env cl (start_task t) ?r s = (e, r', s1)"
    by (cases "reconcile_task env cl (start_task t) ?r s") auto
  with assms(4) getOrCreate_stored [OF assms(1,2), of env] have "s1 = s'" by (auto simp: reconcile_def Let_def)
  with reconcile_task_moves [OF assms(2,3) rt] show ?thesis by simp
qed

lemma ReconcileKind_valid_moves:
  assumes "cr_CustomRef run \<noteq> None" and "lookup (w_api w) (run_ns run) (run_name run) = Some t" and "keyed run t"
    and "ReconcileKind_valid env cl run w = (err, run', w')"
  shows "\<exists>t'. moved env t t' \<and> lookup (w_api w') (run_ns run) (run_name run) = Some t'"
proof -
  obtain status derr where d: "DecodeExtraFields (e_unmarshal_status env) (cr_Status run) empty_run_status = (status, derr)"
    by force
  define run1 where "run1 = (case derr of None \<Rightarrow> run
     | Some e \<Rightarrow> run\<lparr>cr_Status := MarkCustomRunFailed (e_now_decode env) (reason_String ReasonInternalError)
          (''Internal error calling DecodeExtraFields: '' @ e) (cr_Status run)\<rparr>)"
  have r1: "cr_Meta run1 = cr_Meta run" "cr_CustomRef run1 = cr_CustomRef run" "keyed run1 t"
    using assms(3) by (auto simp: run1_def keyed_def split: option.split)
  obtain e run2 st2 s2 where r: "reconcile env cl run1 status (w_api w) = (e, run2, st2, s2)"
    by (cases "reconcile env cl run1 status (w_api w)") auto
  have "w_api w' = s2"
    using assms(4) d r
    by (auto simp: ReconcileKind_valid_def run1_def [symmetric] Let_def split: option.splits prod.splits
        dest: updateLabels_api)
  moreover have "\<exists>t'. moved env t t' \<and> lookup s2 (run_ns run) (run_name run) = Some t'"
    using reconcile_moves [OF _ _ r1(3) r] assms(1,2) r1(1,2) by simp
  ultimately show ?thesis by simp
qed

lemma ReconcileKind_moves:
  assumes "cr_CustomRef run \<noteq> None" and "lookup (w_api w) (run_ns run) (run_name run) = Some t" and "keyed run t"
    and "ReconcileKind env cl run w = (err, run', w')"
  shows "\<exists>t'. moved env t t' \<and> lookup (w_api w') (run_ns run) (run_name run) = Some t'"
proof -
  obtain run1 evs where i: "initializeCustomRun env run (w_events w) = (run1, evs)" by force
  have r1: "cr_Meta run1 = cr_Meta run" "cr_CustomRef run1 = cr_CustomRef run"
    using initialize_request(1) [OF i] by (simp_all add: same_request_def)
  have v: "\<exists>t'. moved env t t' \<and> lookup (w_api v') (run_ns run) (run_name run) = Some t'"
    if "ReconcileKind_valid env cl (run1\<lparr>cr_Timeout := d\<rparr>) (w\<lparr>w_events := evs\<rparr>) = (e, r', v')" for d e r' v'
    using ReconcileKind_valid_moves [OF _ _ _ that] assms(1-3) r1 by (simp add: keyed_def)
  have "moved env t t" by (simp add: moved_def)
  with assms(2,4) i v show ?thesis
    by (auto simp: ReconcileKind_def Let_def split: option.splits if_splits sum.splits)
qed

text \<open>Only a task that is found approved makes the run succeed.\<close>

lemma ReconcileKind_succeeds:
  assumes "cr_CustomRef run \<noteq> None" and "lookup (w_api w) (run_ns run) (run_name run) = Some t"
    and "ReconcileKind env cl run w = (err, run', w')" and "run_conditions_ok run" and "IsSuccessful run'"
  shows "IsSuccessful run \<or> found_state t = approvedState"
proof (rule disjCI)
  assume "found_state t \<noteq> approvedState"
  show "IsSuccessful run"
  proof (rule ccontr)
    assume "\<not> IsSuccessful run"
    then obtain task r s' where "same_request r run" "getOrCreateApprovalTask env cl r (w_api w) = (Inr task, r, s')"
      "found_state task = approvedState"
      using ReconcileKind_success [OF assms(3,4) _ assms(5)] by (auto simp: approved_task_def)
    moreover from this have "task = t"
      using getOrCreate_stored [of r "w_api w" t env] assms(1,2) by (simp add: same_request_def)
    ultimately show False using \<open>found_state t \<noteq> approvedState\<close> by simp
  qed
qed

end

subsection \<open>What a reconciliation keeps of the run\<close>

definition run_id :: "custom_run \<Rightarrow> string \<times> string" where
  "run_id run = (run_ns run, run_name run)"

lemma run_id_status [simp]:
  "run_id (run\<lparr>cr_Status := st\<rparr>) = run_id run" "run_id (run\<lparr>cr_Timeout := d\<rparr>) = run_id run"
  "run_id (propagateApprovalTaskLabelsAndAnnotations run meta) = run_id run" "run_id (mark_run env state run) = run_id run"
  by (simp_all add: run_id_def propagateApprovalTaskLabelsAndAnnotations_def mark_run_def)

lemma reconcile_id:
  assumes "reconcile env cl run st s = (err, run', st', s')"
  shows "run_id run' = run_id run"
proof -
  obtain res run1 s1 where g: "getOrCreateApprovalTask env cl run s = (res, run1, s1)"
    by (cases "getOrCreateApprovalTask env cl run s") auto
  show ?thesis
  proof (cases res)
    case (Inl e)
    with g assms getOrCreate_error [of env cl run s e run1 s1] show ?thesis by (auto simp: reconcile_def)
  next
    case (Inr task)
    let ?r = "propagateApprovalTaskLabelsAndAnnotations run (at_Meta task)"
    have "reconcile_task env cl (start_task task) ?r s1 = (err, run', s')"
      using assms g Inr getOrCreate_run [of env cl run s task run1 s1]
      by (auto simp: reconcile_def Let_def split: prod.splits)
    from reconcile_task_marks [OF this start_task_started] show ?thesis by (elim disjE) auto
  qed
qed

lemma ReconcileKind_id:
  assumes "ReconcileKind env cl run w = (err, run', w')"
  shows "run_id run' = run_id run"
proof -
  obtain run1 evs where i: "initializeCustomRun env run (w_events w) = (run1, evs)" by force
  have r1: "run_id run1 = run_id run" using initialize_request(1) [OF i] by (simp add: same_request_def run_id_def)
  have "run_id r' = run_id r" if "ReconcileKind_valid env cl r v = (e, r', v')" for r e r' v v'
    using that by (auto simp: ReconcileKind_valid_def Let_def split: option.splits prod.splits dest!: reconcile_id)
  with assms i r1 show ?thesis
    by (auto simp: ReconcileKind_def Let_def split: option.splits if_splits sum.splits)
qed

lemma PreProcess_id [simp]: "run_id (ro_Run (PreProcessReconcile now r)) = run_id (ro_Run r)"
  using PreProcess_request(1) [of now r] by (simp add: same_request_def run_id_def)

lemma PostProcess_id [simp]: "run_id (ro_Run (PostProcessReconcile now r old)) = run_id (ro_Run r)"
  by (simp add: PostProcessReconcile_def groomConditionsTransitionTime_def with_conditions_def run_id_def)

lemma PostProcess_ok [simp]:
  "run_conditions_ok (ro_Run (PostProcessReconcile now r old)) = run_conditions_ok (ro_Run r)"
proof -
  have "map cond_Type (map (groom_condition now cs) cs') = map cond_Type cs'" for cs cs' by simp
  then show ?thesis
    unfolding run_conditions_ok_def conditions_ok_def
    by (simp add: PostProcessReconcile_def groomConditionsTransitionTime_def with_conditions_def o_def)
qed

subsection \<open>Versions of the run that keep a promise\<close>

text \<open>Well formed, and successful only if \<open>Q\<close>.\<close>

definition status_good :: "bool \<Rightarrow> custom_run \<Rightarrow> bool" where
  "status_good Q run \<longleftrightarrow> run_conditions_ok run \<and> (IsSuccessful run \<longrightarrow> Q)"

definition run_good :: "string \<Rightarrow> string \<Rightarrow> bool \<Rightarrow> run_object \<Rightarrow> bool" where
  "run_good ns n Q r \<longleftrightarrow> run_id (ro_Run r) = (ns, n) \<and> cr_CustomRef (ro_Run r) \<noteq> None \<and> status_good Q (ro_Run r)"

lemma status_good_cong: "cr_Status r = cr_Status r' \<Longrightarrow> status_good Q r = status_good Q r'"
  using IsSuccessful_cong [of r r'] by (simp add: status_good_def run_conditions_ok_def)

lemma run_good_with_status:
  "run_good ns n Q a \<Longrightarrow> status_good Q (ro_Run b) \<Longrightarrow> run_good ns n Q (with_status_of a b)"
  using status_good_cong [of "ro_Run (with_status_of a b)" "ro_Run b"]
  by (simp add: run_good_def with_status_of_def)

lemma PreProcess_good: "run_good ns n Q r \<Longrightarrow> run_good ns n Q (PreProcessReconcile now r)"
  using PreProcess_request(1) [of now r] PreProcess_ok [of r now] PreProcess_status [of r now]
  by (auto simp: run_good_def status_good_def run_status_iff same_request_def split: if_splits)

lemma PostProcess_good: "status_good Q (ro_Run r) \<Longrightarrow> status_good Q (ro_Run (PostProcessReconcile now r old))"
  by (simp add: status_good_def run_status_iff)

lemma OnError_keeps:
  assumes "\<And>n s. I s \<Longrightarrow> I (snd (f n s))"
  shows "I s \<Longrightarrow> I (snd (OnError k retriable f n e s))"
proof (induction k arbitrary: n e s)
  case (Suc k)
  obtain r s1 where f: "f n s = (r, s1)" by force
  with assms [OF Suc.prems, of n] have "I s1" by simp
  with Suc.IH f show ?case by (cases r) simp_all
qed simp


definition stored_good ::
  "('s \<Rightarrow> string \<Rightarrow> string \<Rightarrow> run_object option) \<Rightarrow> string \<Rightarrow> string \<Rightarrow> bool \<Rightarrow> 's \<Rightarrow> bool" where
  "stored_good runs ns n Q s \<longleftrightarrow> (\<forall>r. runs s ns n = Some r \<longrightarrow> run_good ns n Q r)"

subsection \<open>The API of runs\<close>

text \<open>
  What is relied on: reading changes nothing and gives the stored object; the write of a status may
  fail or be lost in any way, but changes no other run, and what is stored then is the object sent or
  the stored one with the status sent.
\<close>

locale run_api =
  fixes rc :: "'s run_client"
    and runs :: "'s \<Rightarrow> string \<Rightarrow> string \<Rightarrow> run_object option"
  assumes read_run: "rc_Get rc ns n s = (res, s') \<Longrightarrow>
      runs s' = runs s \<and> (case res of Inl _ \<Rightarrow> True | Inr r \<Rightarrow> runs s ns n = Some r)"
    and write_run: "rc_UpdateStatus rc ns r s = (res, s') \<Longrightarrow> runs s' ns' n' = Some new \<Longrightarrow>
      runs s ns' n' = Some new
      \<or> ns' = ns \<and> n' = ro_name r \<and> (\<exists>old. runs s ns' n' = Some old \<and> (new = r \<or> new = with_status_of old r))"
begin

lemma attempt_good:
  assumes "stored_good runs ns n Q s" and "run_good ns n Q original"
    and "status_good Q (ro_Run desired)" and "run_id (ro_Run desired) = (ns, n)"
  shows "stored_good runs ns n Q (snd (update_attempt rc original desired k s))"
proof -
  obtain res s1 where g: "(if 0 < k then rc_Get rc (ro_namespace desired) (ro_name desired) s else (Inr original, s)) = (res, s1)"
    by force
  have r1: "runs s1 = runs s" using g read_run by (auto split: if_splits)
  show ?thesis
  proof (cases res)
    case (Inl e)
    with assms(1) g r1 show ?thesis by (simp add: update_attempt_def stored_good_def)
  next
    case (Inr existing)
    have ex: "run_good ns n Q existing"
      using g Inr assms(1,2,4) read_run [of ns n s res s1] by (auto simp: stored_good_def run_id_def split: if_splits)
    let ?new = "with_status_of existing desired"
    have new: "run_good ns n Q ?new" by (rule run_good_with_status [OF ex assms(3)])
    obtain u s2 where u: "rc_UpdateStatus rc (ro_namespace existing) ?new s1 = (u, s2)" by force
    have "stored_good runs ns n Q s2"
      unfolding stored_good_def
    proof (intro allI impI)
      fix x assume "runs s2 ns n = Some x"
      from write_run [OF u this] r1
      consider "runs s ns n = Some x" | "x = ?new" | old where "runs s ns n = Some old" "x = with_status_of old ?new"
        by auto
      then show "run_good ns n Q x"
      proof cases
        case 3
        have "status_good Q (ro_Run ?new)" using new by (simp add: run_good_def)
        with 3 assms(1) show ?thesis by (auto simp: stored_good_def intro: run_good_with_status)
      qed (use assms(1) new in \<open>simp_all add: stored_good_def\<close>)
    qed
    with assms(1) r1 g Inr u show ?thesis
      by (auto simp: update_attempt_def stored_good_def split: sum.split)
  qed
qed

lemma updateStatus_good:
  assumes "stored_good runs ns n Q s" and "run_good ns n Q original"
    and "status_good Q (ro_Run desired)" and "run_id (ro_Run desired) = (ns, n)"
    and "updateStatus rc original desired s = (err, s')"
  shows "stored_good runs ns n Q s'"
proof -
  have "stored_good runs ns n Q (snd (updateStatus rc original desired s))"
    unfolding updateStatus_def RetryUpdateConflicts_def
    by (rule OnError_keeps) (use assms(1) attempt_good [OF _ assms(2-4)] in auto)
  with assms(5) show ?thesis by simp
qed

end


subsection \<open>One key\<close>

locale gate = task_store cl lookup stamp + run_api rc runs
  for cl :: "'s at_client" and lookup stamp and rc :: "'s run_client" and runs +
  assumes tasks_apart: "frames cl runs"
    and reads_apart: "lookup (snd (rc_Get rc ns n s)) = lookup s"
    and writes_apart: "lookup (snd (rc_UpdateStatus rc ns r s)) = lookup s"
begin

lemma updateStatus_lookup:
  assumes "updateStatus rc original desired s = (err, s')"
  shows "lookup s' = lookup s"
proof -
  have "lookup (snd (update_attempt rc original desired k s1)) = lookup s1" for k s1
    using reads_apart [of "ro_namespace desired" "ro_name desired" s1] writes_apart
    by (auto simp: update_attempt_def split: prod.splits sum.splits dest: sym [of _ "rc_UpdateStatus rc _ _ _"])
      (metis snd_conv)+
  then have "lookup (snd (updateStatus rc original desired s)) = lookup s"
    unfolding updateStatus_def RetryUpdateConflicts_def
    by (intro OnError_keeps [of "\<lambda>s'. lookup s' = lookup s"]) simp_all
  with assms show ?thesis by simp
qed

lemma reconcile_run_object_moves:
  assumes "run_good ns n Q r" and "lookup (w_api w) ns n = Some t" and "at_namespace t = ns" and "at_name t = n"
    and "found_state t = approvedState \<Longrightarrow> Q"
    and "reconcile_run_object se env cl r w = (err, res, w')"
  shows "\<exists>t'. moved env t t' \<and> lookup (w_api w') ns n = Some t'"
    and "status_good Q (ro_Run res)" and "run_id (ro_Run res) = (ns, n)"
proof -
  have "(\<exists>t'. moved env t t' \<and> lookup (w_api w') ns n = Some t') \<and> status_good Q (ro_Run res) \<and> run_id (ro_Run res) = (ns, n)"
  proof (cases "IsZero (ro_DeletionTimestamp r)")
    case True
    let ?p = "PreProcessReconcile (se_now_pre se) r"
    obtain run' where k: "ReconcileKind env cl (ro_Run ?p) w = (err, run', w')"
      and res: "res = PostProcessReconcile (se_now_post se) (?p\<lparr>ro_Run := run'\<rparr>) r"
      using assms(6) True by (auto simp: reconcile_run_object_def Let_def split: prod.splits)
    have p: "run_id (ro_Run ?p) = (ns, n)" "cr_CustomRef (ro_Run ?p) \<noteq> None" "status_good Q (ro_Run ?p)"
      using PreProcess_good [OF assms(1)] by (simp_all add: run_good_def)
    have l: "lookup (w_api w) (run_ns (ro_Run ?p)) (run_name (ro_Run ?p)) = Some t" and kt: "keyed (ro_Run ?p) t"
      using p(1) assms(2-4) by (simp_all add: run_id_def keyed_def)
    have ok: "run_conditions_ok (ro_Run ?p)" using p(3) by (simp add: status_good_def)
    have "status_good Q run'"
      using ReconcileKind_conditions_ok [OF k ok] ReconcileKind_succeeds [OF p(2) l k ok] p(3) assms(5)
      by (auto simp: status_good_def)
    then have "status_good Q (ro_Run res)" using PostProcess_good [of Q "?p\<lparr>ro_Run := run'\<rparr>"] by (simp add: res)
    moreover have "run_id (ro_Run res) = (ns, n)" using ReconcileKind_id [OF k] p(1) by (simp add: res)
    moreover have "\<exists>t'. moved env t t' \<and> lookup (w_api w') ns n = Some t'"
      using ReconcileKind_moves [OF p(2) l kt k] p(1) by (simp add: run_id_def)
    ultimately show ?thesis by blast
  next
    case False
    with assms(1,2,6) show ?thesis by (auto simp: reconcile_run_object_def run_good_def moved_def)
  qed
  then show "\<exists>t'. moved env t t' \<and> lookup (w_api w') ns n = Some t'"
    "status_good Q (ro_Run res)" "run_id (ro_Run res) = (ns, n)" by auto
qed

lemma Reconcile_key_moves:
  assumes key: "SplitMetaNamespaceKey key = Inr (ns, n)"
    and cached: "\<And>r. se_Lister se ns n = Inr r \<Longrightarrow> run_good ns n Q r"
    and t: "lookup (w_api w) ns n = Some t" "at_namespace t = ns" "at_name t = n" "found_state t = approvedState \<Longrightarrow> Q"
    and good: "stored_good runs ns n Q (w_api w)"
    and k: "Reconcile_key se env cl rc key w = (err, w')"
  shows "\<exists>t'. moved env t t' \<and> lookup (w_api w') ns n = Some t' \<and> stored_good runs ns n Q (w_api w')"
proof -
  have same: ?thesis if "w' = w" using that t(1) good by (auto simp: moved_def)
  show ?thesis
  proof (cases "se_IsLeaderFor se ns n")
    case True
    show ?thesis
    proof (cases "se_Lister se ns n")
      case (Inl e)
      with k key True same show ?thesis by (auto simp: Reconcile_key_def)
    next
      case (Inr r)
      obtain e1 res w1 where o: "reconcile_run_object se env cl r w = (e1, res, w1)"
        by (cases "reconcile_run_object se env cl r w") auto
      note m = reconcile_run_object_moves [OF cached [OF Inr] t o]
      obtain t' where t': "moved env t t'" "lookup (w_api w1) ns n = Some t'" using m(1) by blast
      have "runs (w_api w1) = runs (w_api w)" by (rule reconcile_run_object_meta [OF tasks_apart o])
      with good have g1: "stored_good runs ns n Q (w_api w1)" by (simp add: stored_good_def)
      have "w_api w' = w_api w1 \<or> (\<exists>u s. updateStatus rc r res (w_api w1) = (u, s) \<and> w_api w' = s)"
        using k key True Inr o by (auto simp: Reconcile_key_def Let_def split: if_splits prod.splits option.splits)
      with g1 t' updateStatus_lookup updateStatus_good [OF g1 cached [OF Inr] m(2,3)] show ?thesis
        by metis
    qed
  next
    case False
    with k key same show ?thesis by (auto simp: Reconcile_key_def)
  qed
qed

end


subsection \<open>Histories\<close>

text \<open>
  The state: the cluster, the versions of the run an informer may have in its cache, and who has had
  an update of the task admitted.
\<close>

record 's gate_state =
  g_world :: "'s world"
  g_seen :: "run_object set"
  g_acted :: acts

definition with_api :: "'s \<Rightarrow> 's gate_state \<Rightarrow> 's gate_state" where
  "with_api s g = g\<lparr>g_world := (g_world g)\<lparr>w_api := s\<rparr>\<rparr>"

text \<open>An edit of the run by its owner: anything but its key and its status; it still refers to a kind of task.\<close>

definition edit_of :: "run_object \<Rightarrow> run_object \<Rightarrow> bool" where
  "edit_of r r' \<longleftrightarrow> run_id (ro_Run r') = run_id (ro_Run r) \<and> cr_Status (ro_Run r') = cr_Status (ro_Run r)
     \<and> cr_CustomRef (ro_Run r') \<noteq> None"

inductive gate_step ::
  "'s at_client \<Rightarrow> 's run_client \<Rightarrow> ('s \<Rightarrow> string \<Rightarrow> string \<Rightarrow> approval_task option)
     \<Rightarrow> ('s \<Rightarrow> string \<Rightarrow> string \<Rightarrow> run_object option) \<Rightarrow> string \<Rightarrow> string \<Rightarrow> 's gate_state \<Rightarrow> 's gate_state \<Rightarrow> bool"
  for cl rc lookup runs ns n where
  voted: "lookup (w_api (g_world g)) ns n = Some t \<Longrightarrow> lookup s ns n = Some t' \<Longrightarrow>
      runs s ns n = runs (w_api (g_world g)) ns n \<Longrightarrow> admits t t' user \<Longrightarrow>
      at_Status t' = at_Status t \<Longrightarrow> at_name t' = at_name t \<Longrightarrow> at_namespace t' = at_namespace t \<Longrightarrow>
      gate_step cl rc lookup runs ns n g ((with_api s g)\<lparr>g_acted := acts_after t t' user (g_acted g)\<rparr>)"
| handled: "SplitMetaNamespaceKey key = Inr (ns, n) \<Longrightarrow> (\<forall>r. se_Lister se ns n = Inr r \<longrightarrow> r \<in> g_seen g) \<Longrightarrow>
      Reconcile_key se env cl rc key (g_world g) = (err, w') \<Longrightarrow>
      gate_step cl rc lookup runs ns n g (g\<lparr>g_world := w', g_seen := g_seen g \<union> set_option (runs (w_api w') ns n)\<rparr>)"
| edited: "runs (w_api (g_world g)) ns n = Some r \<Longrightarrow> runs s ns n = Some r' \<Longrightarrow> edit_of r r' \<Longrightarrow>
      lookup s ns n = lookup (w_api (g_world g)) ns n \<Longrightarrow>
      gate_step cl rc lookup runs ns n g ((with_api s g)\<lparr>g_seen := insert r' (g_seen g)\<rparr>)"
| elsewhere: "runs s ns n = runs (w_api (g_world g)) ns n \<Longrightarrow> lookup s ns n = lookup (w_api (g_world g)) ns n \<Longrightarrow>
      gate_step cl rc lookup runs ns n g (with_api s g)"

text \<open>A history begins with the task as it was created, and a run that has not succeeded.\<close>

definition gate_start ::
  "('s \<Rightarrow> string \<Rightarrow> string \<Rightarrow> approval_task option) \<Rightarrow> ('s \<Rightarrow> string \<Rightarrow> string \<Rightarrow> run_object option)
     \<Rightarrow> string \<Rightarrow> string \<Rightarrow> approval_task \<Rightarrow> 's gate_state \<Rightarrow> bool" where
  "gate_start lookup runs ns n t0 g \<longleftrightarrow>
     initial t0 \<and> lookup (w_api (g_world g)) ns n = Some t0 \<and> at_namespace t0 = ns \<and> at_name t0 = n
     \<and> g_seen g = set_option (runs (w_api (g_world g)) ns n) \<and> stored_good runs ns n False (w_api (g_world g))
     \<and> g_acted g = ({}, {})"

inductive gate_reachable ::
  "'s at_client \<Rightarrow> 's run_client \<Rightarrow> ('s \<Rightarrow> string \<Rightarrow> string \<Rightarrow> approval_task option)
     \<Rightarrow> ('s \<Rightarrow> string \<Rightarrow> string \<Rightarrow> run_object option) \<Rightarrow> string \<Rightarrow> string \<Rightarrow> approval_task \<Rightarrow> 's gate_state \<Rightarrow> bool"
  for cl rc lookup runs ns n t0 where
  begun_at: "gate_start lookup runs ns n t0 g \<Longrightarrow> gate_reachable cl rc lookup runs ns n t0 g"
| followed: "gate_reachable cl rc lookup runs ns n t0 g \<Longrightarrow> gate_step cl rc lookup runs ns n g g' \<Longrightarrow>
      gate_reachable cl rc lookup runs ns n t0 g'"

inductive_cases gate_stepE: "gate_step cl rc lookup runs ns n g g'"

definition gate_inv ::
  "('s \<Rightarrow> string \<Rightarrow> string \<Rightarrow> approval_task option) \<Rightarrow> ('s \<Rightarrow> string \<Rightarrow> string \<Rightarrow> run_object option)
     \<Rightarrow> string \<Rightarrow> string \<Rightarrow> approval_task \<Rightarrow> 's gate_state \<Rightarrow> approval_task \<Rightarrow> bool" where
  "gate_inv lookup runs ns n t0 g t \<longleftrightarrow>
     lookup (w_api (g_world g)) ns n = Some t \<and> at_namespace t = ns \<and> at_name t = n
     \<and> reachable admits t0 (t, g_acted g)
     \<and> (\<forall>r \<in> g_seen g. run_good ns n (task_verdict t = Approved) r)
     \<and> stored_good runs ns n (task_verdict t = Approved) (w_api (g_world g))"

lemma run_good_mono: "run_good ns n Q r \<Longrightarrow> (Q \<Longrightarrow> Q') \<Longrightarrow> run_good ns n Q' r"
  by (auto simp: run_good_def status_good_def)

lemma edit_good: "run_good ns n Q r \<Longrightarrow> edit_of r r' \<Longrightarrow> run_good ns n Q r'"
  using status_good_cong [of "ro_Run r'" "ro_Run r"] by (simp add: run_good_def edit_of_def)

text \<open>A task that has its quorum takes no more votes.\<close>

lemma approved_closed: "task_verdict t = Approved \<Longrightarrow> \<not> admits t t' user"
  by (auto simp: admits_def isApprovalRequired_eq approvalTaskHasTrueInput_eq countApprovalsReceived_eq task_verdict_def decide_def Let_def
      split: if_splits)

context gate
begin

lemma inv_start: "gate_start lookup runs ns n t0 g \<Longrightarrow> gate_inv lookup runs ns n t0 g t0"
  by (auto simp: gate_start_def gate_inv_def stored_good_def intro: reachable.start run_good_mono)

lemma inv_handled:
  assumes "gate_inv lookup runs ns n t0 g t" and "SplitMetaNamespaceKey key = Inr (ns, n)"
    and "\<forall>r. se_Lister se ns n = Inr r \<longrightarrow> r \<in> g_seen g"
    and "Reconcile_key se env cl rc key (g_world g) = (err, w')"
  shows "\<exists>t'. gate_inv lookup runs ns n t0
    (g\<lparr>g_world := w', g_seen := g_seen g \<union> set_option (runs (w_api w') ns n)\<rparr>) t'"
proof -
  from assms(1) have i: "lookup (w_api (g_world g)) ns n = Some t" "at_namespace t = ns" "at_name t = n"
    "reachable admits t0 (t, g_acted g)" "\<forall>r \<in> g_seen g. run_good ns n (task_verdict t = Approved) r"
    "stored_good runs ns n (task_verdict t = Approved) (w_api (g_world g))"
    by (simp_all add: gate_inv_def)
  have "found_state t = approvedState \<Longrightarrow> task_verdict t = Approved"
    using found_state_approved [of t] webhook.inv_reachable [OF i(4)] by (auto simp: life_inv_def split: prod.splits)
  with Reconcile_key_moves [OF assms(2) _ i(1-3) _ i(6) assms(4)] i(5) assms(3)
  obtain t' where t': "moved env t t'" "lookup (w_api w') ns n = Some t'"
    "stored_good runs ns n (task_verdict t = Approved) (w_api w')" by blast
  have "task_verdict t' = task_verdict t" using moved_spec [OF t'(1)] by (simp add: task_verdict_def)
  with t' moved_spec [OF t'(1)] moved_reachable [OF i(4) t'(1)] i(2,3,5) show ?thesis
    by (auto simp: gate_inv_def stored_good_def)
qed

lemma inv_gate_step:
  assumes "gate_step cl rc lookup runs ns n g g'" and "gate_inv lookup runs ns n t0 g t"
  shows "\<exists>t'. gate_inv lookup runs ns n t0 g' t'"
  using assms(1)
proof (cases rule: gate_step.cases)
  case (voted u s t' user)
  with assms(2) have t: "u = t" by (simp add: gate_inv_def)
  have "life_step admits (t, g_acted g) (t', acts_after t t' user (g_acted g))"
    using voted t by (intro life_step.vote) simp_all
  then have "reachable admits t0 (t', acts_after t t' user (g_acted g))"
    using assms(2) by (auto simp: gate_inv_def intro: reachable.step)
  moreover have "task_verdict t \<noteq> Approved" using approved_closed voted(5) t by blast
  ultimately have "gate_inv lookup runs ns n t0 g' t'"
    using assms(2) voted t by (auto simp: gate_inv_def with_api_def stored_good_def intro: run_good_mono)
  then show ?thesis ..
next
  case (handled key se env err w')
  with inv_handled [OF assms(2) handled(2-4)] show ?thesis by simp
next
  case (edited r s r')
  with assms(2) have "gate_inv lookup runs ns n t0 g' t"
    by (auto simp: gate_inv_def with_api_def stored_good_def intro: edit_good)
  then show ?thesis ..
next
  case (elsewhere s)
  with assms(2) have "gate_inv lookup runs ns n t0 g' t"
    by (auto simp: gate_inv_def with_api_def stored_good_def)
  then show ?thesis ..
qed

lemma inv_gate_reachable: "gate_reachable cl rc lookup runs ns n t0 g \<Longrightarrow> \<exists>t. gate_inv lookup runs ns n t0 g t"
  by (induction rule: gate_reachable.induct) (blast intro: inv_start, blast dest: inv_gate_step)

text \<open>A run stored as succeeded has its quorum of people.\<close>

lemma success_needs_people:
  assumes "gate_reachable cl rc lookup runs ns n t0 g" and "runs (w_api (g_world g)) ns n = Some r"
    and "IsSuccessful (ro_Run r)"
  shows "\<exists>t. lookup (w_api (g_world g)) ns n = Some t \<and> quorum_of_people t0 t (g_acted g)"
proof -
  obtain t where i: "gate_inv lookup runs ns n t0 g t" using inv_gate_reachable [OF assms(1)] ..
  then have "run_good ns n (task_verdict t = Approved) r" using assms(2) by (simp add: gate_inv_def stored_good_def)
  with assms(3) have v: "task_verdict t = Approved" by (simp add: run_good_def status_good_def)
  have "life_inv t0 (t, g_acted g)" using i webhook.inv_reachable by (simp add: gate_inv_def)
  from approved_people [OF this v] i show ?thesis by (auto simp: gate_inv_def)
qed

end

interpretation fake_gate: gate fake_tasks cluster_task "\<lambda>s c. c" fake_runs cluster_run
proof unfold_locales
  show "frames fake_tasks cluster_run" by (rule fakes.tasks_frame)
qed (auto simp: cluster_defs Let_def fun_eq_iff split: option.splits if_splits)


end
