(* ===== verification/Gate_Concurrent.thy ===== *)
theory Gate_Concurrent
  imports Gate_System
begin

text \<open>
  Reconciliations that do not have the cluster to themselves: between any two calls of the API,
  updates that the webhook admits may land (changes of the approvers included), the owner may
  edit the run, and another replica may write the status of the task or of the run. \<open>gate_move\<close> says
  what each party may do in one go. In the locale
  \<open>busy_gate\<close>, where every call of the API may come after any number of such moves and writes are
  checked against the object they were based on, a whole reconciliation of the key is itself
  nothing but such moves, so that replicas can be taken one at a time, and a run that is stored as
  succeeded has the quorum of its task.
\<close>

subsection \<open>The moves\<close>

text \<open>
  What is observed of a cluster for one key: the task, the run, who has had which updates admitted, and
  the versions of the run that were ever stored, which an informer may still have.
\<close>

record 's view =
  vw_task :: "'s \<Rightarrow> approval_task option"
  vw_run :: "'s \<Rightarrow> run_object option"
  vw_acted :: "'s \<Rightarrow> acts"
  vw_seen :: "'s \<Rightarrow> run_object set"

definition approved_in :: "'s view \<Rightarrow> 's \<Rightarrow> bool" where
  "approved_in V s \<longleftrightarrow> (\<exists>t. vw_task V s = Some t \<and> task_verdict t = Approved)"

definition fair_status :: "approval_task \<Rightarrow> bool" where
  "fair_status t \<longleftrightarrow> (st_State (at_Status t) = approvedState \<longrightarrow> task_verdict t = Approved)"

inductive gate_move :: "'s view \<Rightarrow> string \<Rightarrow> string \<Rightarrow> 's \<Rightarrow> 's \<Rightarrow> bool" for V ns n where
  voted: "vw_task V s = Some t \<Longrightarrow> vw_task V s' = Some t' \<Longrightarrow> admits t t' user \<Longrightarrow>
      at_Status t' = at_Status t \<Longrightarrow> at_name t' = at_name t \<Longrightarrow> at_namespace t' = at_namespace t \<Longrightarrow>
      vw_run V s' = vw_run V s \<Longrightarrow> vw_seen V s' = vw_seen V s \<Longrightarrow>
      vw_acted V s' = acts_after t t' user (vw_acted V s) \<Longrightarrow> gate_move V ns n s s'"
| decided: "vw_task V s = Some t \<Longrightarrow> vw_task V s' = Some t' \<Longrightarrow> at_Spec t' = at_Spec t \<Longrightarrow>
      at_Meta t' = at_Meta t \<Longrightarrow> fair_status t' \<Longrightarrow>
      vw_run V s' = vw_run V s \<Longrightarrow> vw_seen V s' = vw_seen V s \<Longrightarrow> vw_acted V s' = vw_acted V s \<Longrightarrow>
      gate_move V ns n s s'"
| edited: "vw_run V s = Some r \<Longrightarrow> vw_run V s' = Some r' \<Longrightarrow> edit_of r r' \<Longrightarrow>
      vw_seen V s' = insert r' (vw_seen V s) \<Longrightarrow> vw_task V s' = vw_task V s \<Longrightarrow> vw_acted V s' = vw_acted V s \<Longrightarrow>
      gate_move V ns n s s'"
| finished: "run_good ns n (approved_in V s) r \<Longrightarrow> vw_run V s' = Some r \<Longrightarrow>
      vw_seen V s' = insert r (vw_seen V s) \<Longrightarrow> vw_task V s' = vw_task V s \<Longrightarrow> vw_acted V s' = vw_acted V s \<Longrightarrow>
      gate_move V ns n s s'"
| apart: "vw_task V s' = vw_task V s \<Longrightarrow> vw_run V s' = vw_run V s \<Longrightarrow> vw_acted V s' = vw_acted V s \<Longrightarrow>
      vw_seen V s' = vw_seen V s \<Longrightarrow> gate_move V ns n s s'"

definition drift :: "'s view \<Rightarrow> string \<Rightarrow> string \<Rightarrow> 's \<Rightarrow> 's \<Rightarrow> bool" where
  "drift V ns n = (gate_move V ns n)\<^sup>*\<^sup>*"

lemma drift_refl [simp]: "drift V ns n s s"
  by (simp add: drift_def)

lemma drift_trans [trans]: "drift V ns n s s' \<Longrightarrow> drift V ns n s' s'' \<Longrightarrow> drift V ns n s s''"
  by (simp add: drift_def)

lemma drift_move: "gate_move V ns n s s' \<Longrightarrow> drift V ns n s s'"
  by (simp add: drift_def)

definition busy_inv :: "'s view \<Rightarrow> string \<Rightarrow> string \<Rightarrow> approval_task \<Rightarrow> 's \<Rightarrow> bool" where
  "busy_inv V ns n t0 s \<longleftrightarrow>
     (\<exists>t. vw_task V s = Some t \<and> at_namespace t = ns \<and> at_name t = n \<and> life_inv t0 (t, vw_acted V s))
     \<and> (\<forall>r \<in> vw_seen V s. run_good ns n (approved_in V s) r) \<and> set_option (vw_run V s) \<subseteq> vw_seen V s"

lemma approved_in_cong:
  "vw_task V s' = vw_task V s \<Longrightarrow> approved_in V s' = approved_in V s"
  "vw_task V s = Some t \<Longrightarrow> vw_task V s' = Some t' \<Longrightarrow> at_Spec t' = at_Spec t \<Longrightarrow> approved_in V s' = approved_in V s"
  by (simp_all add: approved_in_def task_verdict_def)

text \<open>Every move keeps the invariant, and none takes an approval back.\<close>

lemma move_keeps:
  assumes "gate_move V ns n s s'" and "busy_inv V ns n t0 s"
  shows "busy_inv V ns n t0 s' \<and> (approved_in V s \<longrightarrow> approved_in V s')"
  using assms(1)
proof (cases rule: gate_move.cases)
  case (voted t t' user)
  have i: "life_inv t0 (t, vw_acted V s)" "at_namespace t = ns" "at_name t = n"
    using assms(2) voted(1) by (auto simp: busy_inv_def)
  have "life_inv t0 (t', vw_acted V s')"
    unfolding voted(9) by (rule webhook.inv_step [OF _ i(1)]) (use voted in \<open>intro life_step.vote, simp_all\<close>)
  moreover have "\<not> approved_in V s" using voted approved_closed by (auto simp: approved_in_def)
  ultimately show ?thesis
    using assms(2) voted i(2,3) by (auto simp: busy_inv_def intro: run_good_mono)
next
  case (decided t t')
  have i: "life_inv t0 (t, vw_acted V s)" "at_namespace t = ns" "at_name t = n"
    using assms(2) decided(1) by (auto simp: busy_inv_def)
  then have "life_inv t0 (t', vw_acted V s')" using decided by (auto simp: life_inv_def fair_status_def split: prod.splits)
  with assms(2) decided i(2,3) show ?thesis
    using approved_in_cong(2) [OF decided(1-3)] by (auto simp: busy_inv_def)
next
  case (edited r r')
  with assms(2) have "run_good ns n (approved_in V s) r'" by (auto simp: busy_inv_def intro: edit_good)
  with assms(2) edited approved_in_cong(1) [OF edited(5)] show ?thesis by (auto simp: busy_inv_def)
next
  case (finished r)
  with assms(2) approved_in_cong(1) [OF finished(4)] show ?thesis by (auto simp: busy_inv_def)
next
  case apart
  with assms(2) approved_in_cong(1) [OF apart(1)] show ?thesis by (simp add: busy_inv_def)
qed

lemma drift_keeps:
  assumes "drift V ns n s s'" and "busy_inv V ns n t0 s"
  shows "busy_inv V ns n t0 s'" and "approved_in V s \<Longrightarrow> approved_in V s'"
proof -
  from assms(1) have "busy_inv V ns n t0 s' \<and> (approved_in V s \<longrightarrow> approved_in V s')"
    unfolding drift_def
  proof (induction rule: rtranclp_induct)
    case base
    with assms(2) show ?case by simp
  next
    case (step y z)
    with move_keeps [OF step.hyps(2), of t0] show ?case by simp
  qed
  then show "busy_inv V ns n t0 s'" and "approved_in V s \<Longrightarrow> approved_in V s'" by blast+
qed

lemma drift_stored: "drift V ns n s s' \<Longrightarrow> vw_task V s \<noteq> None \<Longrightarrow> vw_task V s' \<noteq> None"
  unfolding drift_def
proof (induction rule: rtranclp_induct)
  case (step y z)
  from step.hyps(2) step.IH [OF step.prems] show ?case by cases simp_all
qed

text \<open>A run that is stored as succeeded under the invariant has its quorum of people who acted.\<close>

lemma busy_success:
  assumes "busy_inv V ns n t0 s" and "vw_run V s = Some r" and "IsSuccessful (ro_Run r)"
  shows "\<exists>t. vw_task V s = Some t \<and> quorum_of_people t0 t (vw_acted V s)"
proof -
  have "run_good ns n (approved_in V s) r" using assms(1,2) by (auto simp: busy_inv_def)
  with assms(3) obtain t where t: "vw_task V s = Some t" "task_verdict t = Approved"
    by (auto simp: run_good_def status_good_def approved_in_def)
  moreover have "life_inv t0 (t, vw_acted V s)" using assms(1) t(1) by (auto simp: busy_inv_def)
  ultimately show ?thesis using approved_people by blast
qed

subsection \<open>The API under interference\<close>

text \<open>
  A read may come after any number of moves and gives what is stored then, or fails, but not with
  "not found", as nobody deletes the task. A write of a task's status may be lost; when it counts, the
  object it was based on had the metadata and the spec that are stored (the API server compares
  resource versions). A write of a run's status stores the object sent or the stored one with the status sent.
\<close>

locale busy_gate =
  fixes cl :: "'s at_client" and rc :: "'s run_client" and V :: "'s view" and ns n :: string
  assumes read_task: "cl_Get cl ns n s = (res, s') \<Longrightarrow> vw_task V s \<noteq> None \<Longrightarrow>
      drift V ns n s s' \<and> (case res of Inl e \<Rightarrow> \<not> IsNotFound (api_go e) | Inr t \<Rightarrow> vw_task V s' = Some t)"
    and write_task: "cl_UpdateStatus cl ns' t s = (res', s') \<Longrightarrow>
      drift V ns n s s'
      \<or> ns' = ns \<and> at_name t = n \<and> (\<exists>s1 old. drift V ns n s s1 \<and> vw_task V s1 = Some old
          \<and> at_Spec old = at_Spec t \<and> at_Meta old = at_Meta t
          \<and> vw_task V s' = Some (old\<lparr>at_Status := at_Status t\<rparr>) \<and> vw_run V s' = vw_run V s1
          \<and> vw_acted V s' = vw_acted V s1 \<and> vw_seen V s' = vw_seen V s1)"
    and read_run: "rc_Get rc ns n s = (rres, s') \<Longrightarrow>
      drift V ns n s s' \<and> (case rres of Inl _ \<Rightarrow> True | Inr r \<Rightarrow> vw_run V s' = Some r)"
    and write_run: "rc_UpdateStatus rc ns' r s = (rres', s') \<Longrightarrow>
      drift V ns n s s'
      \<or> run_id (ro_Run r) = (ns, n) \<and> (\<exists>s1 old new. drift V ns n s s1 \<and> vw_run V s1 = Some old
          \<and> (new = r \<or> new = with_status_of old r)
          \<and> vw_run V s' = Some new \<and> vw_seen V s' = insert new (vw_seen V s1)
          \<and> vw_task V s' = vw_task V s1 \<and> vw_acted V s' = vw_acted V s1)"
begin

lemma drift_task:
  assumes "drift V ns n s s'" and "busy_inv V ns n t0 s"
  shows "vw_task V s' \<noteq> None"
  using drift_keeps(1) [OF assms] by (auto simp: busy_inv_def)

lemma write_task_drifts:
  assumes "ApprovalTasks_UpdateStatus cl ns' t s = (res, s')" and "fair_status t"
  shows "drift V ns n s s'"
proof -
  obtain r where "cl_UpdateStatus cl ns' t s = (r, s')"
    using assms(1) by (auto simp: ApprovalTasks_UpdateStatus_def split: prod.splits)
  from write_task [OF this] show ?thesis
  proof (elim disjE conjE exE)
    fix s1 old
    assume a: "drift V ns n s s1" "vw_task V s1 = Some old" "at_Spec old = at_Spec t"
      "vw_task V s' = Some (old\<lparr>at_Status := at_Status t\<rparr>)" "vw_run V s' = vw_run V s1"
      "vw_acted V s' = vw_acted V s1" "vw_seen V s' = vw_seen V s1"
    have "gate_move V ns n s1 s'"
      by (rule gate_move.decided [OF a(2,4)]) (use a assms(2) in \<open>simp_all add: fair_status_def task_verdict_def\<close>)
    then show ?thesis using drift_trans [OF a(1) drift_move] by blast
  qed
qed

subsection \<open>The task\<close>

lemma updateApprovalState_drifts:
  assumes "updateApprovalState env cl task s = (e, task', s')" and "fair_status task"
  shows "drift V ns n s s'"
proof (cases "answered (sp_Approvers (at_Spec task))")
  case True
  let ?t = "fst (decideState (e_map_order env) task)"
  have "st_State (at_Status ?t) = found_state task" by (simp add: found_state_def decideState_refines)
  then have "fair_status ?t"
    using found_state_approved [of task] assms(2) task_verdict_cong [of ?t task] by (auto simp: fair_status_def)
  moreover obtain r where "ApprovalTasks_UpdateStatus cl (at_namespace task) ?t s = (r, s')"
    using assms(1) True by (auto simp: updateApprovalState_writes split: prod.splits)
  ultimately show ?thesis using write_task_drifts by blast
next
  case False
  with assms(1) show ?thesis by (simp add: updateApprovalState_silent)
qed

lemma reconcile_task_drifts:
  assumes "reconcile_task env cl (start_task task) r s = (err, r', s')" and "fair_status task"
  shows "drift V ns n s s'"
proof (cases "timed_out env r (start_task task)")
  case True
  let ?t = "(start_task task)\<lparr>at_Status := (at_Status (start_task task))\<lparr>st_State := rejectedState\<rparr>\<rparr>"
  have "fair_status ?t" by (simp add: fair_status_def)
  moreover obtain x where "ApprovalTasks_UpdateStatus cl (at_namespace (start_task task)) ?t s = (x, s')"
    using assms(1) True by (auto simp: reconcile_task_timed_out split: prod.splits option.splits)
  ultimately show ?thesis using write_task_drifts by blast
next
  case False
  have "fair_status (start_task task)" using assms(2) by (simp add: fair_status_def)
  then have "checkIfUpdateRequired env cl (start_task task) r s = (e, x, s1) \<Longrightarrow> drift V ns n s s1" for e x s1
    by (auto simp: checkIfUpdateRequired_def split: if_splits prod.splits option.splits
        dest: updateApprovalState_drifts)
  with assms(1) False show ?thesis by (auto simp: reconcile_task_live split: prod.splits option.splits)
qed

lemma getOrCreate_reads:
  assumes "cr_CustomRef run \<noteq> None" and "run_id run = (ns, n)" and "vw_task V s \<noteq> None"
    and "ApprovalTasks_Get cl ns n s = ((got, e), s')"
  shows "getOrCreateApprovalTask env cl run s = (Inr got, run, s')" and "drift V ns n s s'"
    and "got = empty_task \<or> vw_task V s' = Some got"
proof -
  obtain g s1 where g: "cl_Get cl ns n s = (g, s1)" by force
  from read_task [OF g assms(3)] g assms(1,2,4)
  show "getOrCreateApprovalTask env cl run s = (Inr got, run, s')" "drift V ns n s s'"
    "got = empty_task \<or> vw_task V s' = Some got"
    by (cases g; auto simp: getOrCreateApprovalTask_def ApprovalTasks_Get_def run_id_def)+
qed

lemma empty_task_found [simp]: "found_state empty_task \<noteq> approvedState" "fair_status empty_task"
  by (simp_all add: found_state_def task_verdict_def decide_def fair_status_def empty_task_def empty_spec_def
      empty_status_def answered_def Let_def)

text \<open>A task found approved is approved in the cluster, and stays it.\<close>

lemma found_approved_in:
  assumes "busy_inv V ns n t0 s" and "vw_task V s = Some task"
  shows "fair_status task" and "found_state task = approvedState \<Longrightarrow> approved_in V s"
proof -
  show f: "fair_status task" using assms by (auto simp: busy_inv_def life_inv_def fair_status_def split: prod.splits)
  show "found_state task = approvedState \<Longrightarrow> approved_in V s"
    using f assms(2) found_state_approved [of task] by (auto simp: fair_status_def approved_in_def)
qed

lemma reconcile_drifts:
  assumes "cr_CustomRef run \<noteq> None" and "run_id run = (ns, n)" and "busy_inv V ns n t0 s"
    and "reconcile env cl run st s = (err, run', st', s')"
  shows "drift V ns n s s'" and "approved_task env cl run s task \<Longrightarrow> approved_in V s'"
proof -
  have v: "vw_task V s \<noteq> None" using assms(3) by (auto simp: busy_inv_def)
  obtain got e s1 where get: "ApprovalTasks_Get cl ns n s = ((got, e), s1)"
    by (metis prod.collapse)
  note g = getOrCreate_reads(1) [OF assms(1,2) v get] and d1 = getOrCreate_reads(2) [OF assms(1,2) v get]
    and t = getOrCreate_reads(3) [OF assms(1,2) v get]
  have i1: "busy_inv V ns n t0 s1" by (rule drift_keeps(1) [OF d1 assms(3)])
  have "fair_status got" using t found_approved_in(1) [OF i1] by auto
  moreover obtain r where "reconcile_task env cl (start_task got) r s1 = (err, run', s')"
    using assms(4) g by (auto simp: reconcile_def Let_def split: prod.splits)
  ultimately have d2: "drift V ns n s1 s'" using reconcile_task_drifts by blast
  then show "drift V ns n s s'" using drift_trans [OF d1] by blast
  assume "approved_task env cl run s task"
  then obtain r s2 where r: "same_request r run" "getOrCreateApprovalTask env cl r s = (Inr task, r, s2)"
    and f: "found_state task = approvedState" by (auto simp: approved_task_def)
  have "cr_CustomRef r \<noteq> None" "run_id r = (ns, n)" using r(1) assms(1,2) by (simp_all add: same_request_def run_id_def)
  from getOrCreate_reads(1) [OF this v get] r(2) have "task = got" by simp
  with f have "got = task" "found_state task = approvedState" by simp_all
  then show "approved_in V s'" using t found_approved_in(2) [OF i1] drift_keeps(2) [OF d2 i1] by auto
qed

end

subsection \<open>The run\<close>

text \<open>\<open>ReconcileKind\<close> calls the API through \<open>reconcile\<close> alone, and nothing else makes a run succeed.\<close>

lemma ReconcileKind_valid_calls:
  assumes "ReconcileKind_valid env cl run w = (err, run', w')"
  shows "\<exists>r st e r' st'. same_request r run \<and> reconcile env cl r st (w_api w) = (e, r', st', w_api w')"
proof -
  obtain status derr where d: "DecodeExtraFields (e_unmarshal_status env) (cr_Status run) empty_run_status = (status, derr)"
    by force
  define run1 where "run1 = (case derr of None \<Rightarrow> run
     | Some e \<Rightarrow> run\<lparr>cr_Status := MarkCustomRunFailed (e_now_decode env) (reason_String ReasonInternalError)
          (''Internal error calling DecodeExtraFields: '' @ e) (cr_Status run)\<rparr>)"
  have "same_request run1 run" by (auto simp: run1_def same_request_def split: option.split)
  moreover obtain e run2 st2 s2 where r: "reconcile env cl run1 status (w_api w) = (e, run2, st2, s2)"
    by (cases "reconcile env cl run1 status (w_api w)") auto
  moreover have "w_api w' = s2"
    using assms d r
    by (auto simp: ReconcileKind_valid_def run1_def [symmetric] Let_def split: option.splits prod.splits
        dest: updateLabels_api)
  ultimately show ?thesis by blast
qed

lemma ReconcileKind_calls:
  assumes "ReconcileKind env cl run w = (err, run', w')" and "run_conditions_ok run"
  shows "w_api w' = w_api w \<and> (IsSuccessful run' \<longrightarrow> IsSuccessful run)
    \<or> (\<exists>r st e r' st'. same_request r run \<and> reconcile env cl r st (w_api w) = (e, r', st', w_api w'))"
proof -
  obtain run1 evs where i: "initializeCustomRun env run (w_events w) = (run1, evs)" by force
  have ok1: "run_conditions_ok run1" using initialize_ok [OF assms(2) i] .
  have s1: "IsSuccessful run1 \<longleftrightarrow> IsSuccessful run"
    using initialize_status [OF assms(2) i] by (simp add: run_status_iff)
  note failed = failed_not_successful [OF ok1]
  consider d where "ReconcileKind_valid env cl (run1\<lparr>cr_Timeout := d\<rparr>) (w\<lparr>w_events := evs\<rparr>) = (err, run', w')"
    | "w_api w' = w_api w" "IsSuccessful run' \<longrightarrow> IsSuccessful run"
    using assms(1) i s1 failed
    by (auto simp: ReconcileKind_def Let_def split: option.splits if_splits sum.splits)
  then show ?thesis
  proof cases
    case 1
    from ReconcileKind_valid_calls [OF this] initialize_request(1) [OF i] show ?thesis
      by (fastforce simp: same_request_def)
  qed blast
qed

context busy_gate
begin

lemma ReconcileKind_drifts:
  assumes "run_good ns n (approved_in V (w_api w)) r" and "busy_inv V ns n t0 (w_api w)"
    and "ReconcileKind env cl (ro_Run r) w = (err, run', w')"
  shows "drift V ns n (w_api w) (w_api w')" and "status_good (approved_in V (w_api w')) run'"
proof -
  have ok: "run_conditions_ok (ro_Run r)" and old: "IsSuccessful (ro_Run r) \<Longrightarrow> approved_in V (w_api w)"
    and id: "cr_CustomRef (ro_Run r) \<noteq> None" "run_id (ro_Run r) = (ns, n)"
    using assms(1) by (simp_all add: run_good_def status_good_def)
  have ok': "run_conditions_ok run'" by (rule ReconcileKind_conditions_ok [OF assms(3) ok])
  have "drift V ns n (w_api w) (w_api w') \<and> (IsSuccessful run' \<longrightarrow> approved_in V (w_api w'))"
    using ReconcileKind_calls [OF assms(3) ok]
  proof (elim disjE exE conjE)
    fix q st e q' st'
    assume q: "same_request q (ro_Run r)" and k: "reconcile env cl q st (w_api w) = (e, q', st', w_api w')"
    have "cr_CustomRef q \<noteq> None" "run_id q = (ns, n)" using q id by (simp_all add: same_request_def run_id_def)
    note d = reconcile_drifts [OF this assms(2) k]
    have "approved_in V (w_api w')" if s: "IsSuccessful run'"
    proof (cases "IsSuccessful (ro_Run r)")
      case True
      with drift_keeps(2) [OF d(1) assms(2)] old show ?thesis by blast
    next
      case False
      with ReconcileKind_success [OF assms(3) ok _ s]
      obtain task where "approved_task env cl (ro_Run r) (w_api w) task" by blast
      then have "approved_task env cl q (w_api w) task"
        using q by (auto intro: approved_task_request simp: same_request_def)
      then show ?thesis by (rule d(2))
    qed
    with d(1) show ?thesis by blast
  qed (use old in simp)
  with ok' show "drift V ns n (w_api w) (w_api w')" "status_good (approved_in V (w_api w')) run'"
    by (simp_all add: status_good_def)
qed

lemma reconcile_run_object_drifts:
  assumes "run_good ns n (approved_in V (w_api w)) r" and "busy_inv V ns n t0 (w_api w)"
    and "reconcile_run_object se env cl r w = (err, res, w')"
  shows "drift V ns n (w_api w) (w_api w')" and "status_good (approved_in V (w_api w')) (ro_Run res)"
    and "run_id (ro_Run res) = (ns, n)"
proof -
  have "drift V ns n (w_api w) (w_api w') \<and> status_good (approved_in V (w_api w')) (ro_Run res)
      \<and> run_id (ro_Run res) = (ns, n)"
  proof (cases "IsZero (ro_DeletionTimestamp r)")
    case True
    let ?p = "PreProcessReconcile (se_now_pre se) r"
    obtain run' where k: "ReconcileKind env cl (ro_Run ?p) w = (err, run', w')"
      and res: "res = PostProcessReconcile (se_now_post se) (?p\<lparr>ro_Run := run'\<rparr>) r"
      using assms(3) True by (auto simp: reconcile_run_object_def Let_def split: prod.splits)
    note d = ReconcileKind_drifts [OF PreProcess_good [OF assms(1)] assms(2) k]
    have "status_good (approved_in V (w_api w')) (ro_Run res)"
      using PostProcess_good [of "approved_in V (w_api w')" "?p\<lparr>ro_Run := run'\<rparr>"] d(2) by (simp add: res)
    moreover have "run_id (ro_Run res) = (ns, n)"
      using ReconcileKind_id [OF k] assms(1) by (simp add: res run_good_def)
    ultimately show ?thesis using d(1) by blast
  next
    case False
    with assms(1,3) show ?thesis by (auto simp: reconcile_run_object_def run_good_def)
  qed
  then show "drift V ns n (w_api w) (w_api w')" "status_good (approved_in V (w_api w')) (ro_Run res)"
    "run_id (ro_Run res) = (ns, n)" by blast+
qed

lemma status_good_mono: "status_good Q run \<Longrightarrow> (Q \<Longrightarrow> Q') \<Longrightarrow> status_good Q' run"
  by (auto simp: status_good_def)

lemma write_run_drifts:
  assumes "rc_UpdateStatus rc ns' r s = (res, s')" and "busy_inv V ns n t0 s"
    and "run_good ns n (approved_in V s) r"
  shows "drift V ns n s s'"
proof (rule disjE [OF write_run [OF assms(1)]])
  assume "run_id (ro_Run r) = (ns, n) \<and> (\<exists>s1 old new. drift V ns n s s1 \<and> vw_run V s1 = Some old
    \<and> (new = r \<or> new = with_status_of old r) \<and> vw_run V s' = Some new \<and> vw_seen V s' = insert new (vw_seen V s1)
    \<and> vw_task V s' = vw_task V s1 \<and> vw_acted V s' = vw_acted V s1)"
  then obtain s1 old new where a: "drift V ns n s s1" "vw_run V s1 = Some old" "vw_run V s' = Some new"
    "vw_seen V s' = insert new (vw_seen V s1)" "vw_task V s' = vw_task V s1" "vw_acted V s' = vw_acted V s1"
    and new: "new = r \<or> new = with_status_of old r" by blast
  note k = drift_keeps [OF a(1) assms(2)]
  have r: "run_good ns n (approved_in V s1) r" using run_good_mono [OF assms(3) k(2)] .
  have old: "run_good ns n (approved_in V s1) old" using k(1) a(2) by (auto simp: busy_inv_def)
  have "run_good ns n (approved_in V s1) new"
    using new r run_good_with_status [OF old, of r] by (auto simp: run_good_def)
  from drift_move [OF gate_move.finished [OF this a(3-6)]] show ?thesis by (rule drift_trans [OF a(1)])
qed

text \<open>One attempt to write the status back.\<close>

lemma attempt_drifts:
  assumes "busy_inv V ns n t0 s" and "run_good ns n (approved_in V s) original"
    and "status_good (approved_in V s) (ro_Run desired)" and "run_id (ro_Run desired) = (ns, n)"
    and "update_attempt rc original desired k s = (err, s')"
  shows "drift V ns n s s'"
proof -
  obtain res s1 where g: "(if 0 < k then rc_Get rc (ro_namespace desired) (ro_name desired) s else (Inr original, s)) = (res, s1)"
    by force
  have d1: "drift V ns n s s1" using g assms(4) read_run by (auto simp: run_id_def split: if_splits)
  note k1 = drift_keeps [OF d1 assms(1)]
  have st: "status_good (approved_in V s1) (ro_Run desired)" using status_good_mono [OF assms(3) k1(2)] .
  have ex: "run_good ns n (approved_in V s1) existing" if "res = Inr existing" for existing
    using g that assms(2,4) read_run [of s res s1] k1 run_good_mono [OF assms(2) k1(2)]
    by (auto simp: busy_inv_def run_id_def split: if_splits)
  show ?thesis
  proof (cases res)
    case (Inl e)
    with assms(5) g d1 show ?thesis by (simp add: update_attempt_def)
  next
    case (Inr existing)
    have "run_good ns n (approved_in V s1) (with_status_of existing desired)"
      by (rule run_good_with_status [OF ex [OF Inr] st])
    then have "rc_UpdateStatus rc m (with_status_of existing desired) s1 = (u, s2) \<Longrightarrow> drift V ns n s s2" for m u s2
      using write_run_drifts [OF _ k1(1)] drift_trans [OF d1] by blast
    with assms(5) g Inr d1 show ?thesis
      by (auto simp: update_attempt_def split: if_splits prod.splits sum.splits)
  qed
qed

lemma updateStatus_drifts:
  assumes "busy_inv V ns n t0 s" and "run_good ns n (approved_in V s) original"
    and "status_good (approved_in V s) (ro_Run desired)" and "run_id (ro_Run desired) = (ns, n)"
    and "updateStatus rc original desired s = (err, s')"
  shows "drift V ns n s s'"
proof -
  have "drift V ns n s (snd (updateStatus rc original desired s))"
    unfolding updateStatus_def RetryUpdateConflicts_def
  proof (rule OnError_keeps [where I = "drift V ns n s"])
    fix k s1 assume d: "drift V ns n s s1"
    note k1 = drift_keeps [OF d assms(1)]
    have "drift V ns n s1 (snd (update_attempt rc original desired k s1))"
      by (rule attempt_drifts [OF k1(1) run_good_mono [OF assms(2) k1(2)] status_good_mono [OF assms(3) k1(2)] assms(4)
            prod.collapse [symmetric]])
    then show "drift V ns n s (snd (update_attempt rc original desired k s1))" by (rule drift_trans [OF d])
  qed simp
  with assms(5) show ?thesis by simp
qed

text \<open>The reconciliation of the key, as a whole.\<close>

lemma Reconcile_key_drifts:
  assumes "SplitMetaNamespaceKey key = Inr (ns, n)" and "busy_inv V ns n t0 (w_api w)"
    and "\<And>r. se_Lister se ns n = Inr r \<Longrightarrow> r \<in> vw_seen V (w_api w)"
    and "Reconcile_key se env cl rc key w = (err, w')"
  shows "drift V ns n (w_api w) (w_api w')"
proof (cases "se_IsLeaderFor se ns n")
  case True
  show ?thesis
  proof (cases "se_Lister se ns n")
    case (Inl e)
    with assms(1,4) True show ?thesis by (auto simp: Reconcile_key_def)
  next
    case (Inr r)
    have r: "run_good ns n (approved_in V (w_api w)) r" using assms(2) assms(3) [OF Inr] by (simp add: busy_inv_def)
    obtain e1 res w1 where o: "reconcile_run_object se env cl r w = (e1, res, w1)"
      by (cases "reconcile_run_object se env cl r w") auto
    note m = reconcile_run_object_drifts [OF r assms(2) o]
    note k = drift_keeps [OF m(1) assms(2)]
    have "w_api w' = w_api w1 \<or> (\<exists>u s. updateStatus rc r res (w_api w1) = (u, s) \<and> w_api w' = s)"
      using assms(1,4) True Inr o by (auto simp: Reconcile_key_def Let_def split: if_splits prod.splits option.splits)
    with m(1) updateStatus_drifts [OF k(1) run_good_mono [OF r k(2)] m(2,3)] show ?thesis
      by (auto dest: drift_trans)
  qed
next
  case False
  with assms(1,4) show ?thesis by (auto simp: Reconcile_key_def)
qed

end

subsection \<open>Histories\<close>

text \<open>
  The key is handled again and again, by any replica, from any version of the run that was ever stored;
  around the calls and between the handlings everybody else moves.
\<close>

definition busy_start :: "'s view \<Rightarrow> string \<Rightarrow> string \<Rightarrow> approval_task \<Rightarrow> 's \<Rightarrow> bool" where
  "busy_start V ns n t0 s \<longleftrightarrow>
     initial t0 \<and> vw_task V s = Some t0 \<and> at_namespace t0 = ns \<and> at_name t0 = n
     \<and> vw_acted V s = ({}, {}) \<and> vw_seen V s = set_option (vw_run V s) \<and> (\<forall>r \<in> vw_seen V s. run_good ns n False r)"

inductive busy_reachable ::
  "'s at_client \<Rightarrow> 's run_client \<Rightarrow> 's view \<Rightarrow> string \<Rightarrow> string \<Rightarrow> approval_task \<Rightarrow> 's world \<Rightarrow> bool"
  for cl rc V ns n t0 where
  opened: "busy_start V ns n t0 (w_api w) \<Longrightarrow> busy_reachable cl rc V ns n t0 w"
| others: "busy_reachable cl rc V ns n t0 w \<Longrightarrow> gate_move V ns n (w_api w) s \<Longrightarrow>
      busy_reachable cl rc V ns n t0 (w\<lparr>w_api := s\<rparr>)"
| handles: "busy_reachable cl rc V ns n t0 w \<Longrightarrow> SplitMetaNamespaceKey key = Inr (ns, n) \<Longrightarrow>
      (\<forall>r. se_Lister se ns n = Inr r \<longrightarrow> r \<in> vw_seen V (w_api w)) \<Longrightarrow>
      Reconcile_key se env cl rc key w = (err, w') \<Longrightarrow> busy_reachable cl rc V ns n t0 w'"

lemma busy_start_inv: "busy_start V ns n t0 s \<Longrightarrow> busy_inv V ns n t0 s"
  by (auto simp: busy_start_def busy_inv_def intro: webhook.inv_start run_good_mono)

context busy_gate
begin

lemma reachable_busy_inv: "busy_reachable cl rc V ns n t0 w \<Longrightarrow> busy_inv V ns n t0 (w_api w)"
proof (induction rule: busy_reachable.induct)
  case (opened w)
  then show ?case by (rule busy_start_inv)
next
  case (others w s)
  with move_keeps [OF others.hyps(2) others.IH] show ?case by simp
next
  case (handles w key se env err w')
  then show ?case using drift_keeps(1) [OF Reconcile_key_drifts] by blast
qed

lemma interrupted_success:
  assumes "busy_reachable cl rc V ns n t0 w" and "vw_run V (w_api w) = Some r" and "IsSuccessful (ro_Run r)"
  shows "\<exists>t. vw_task V (w_api w) = Some t \<and> quorum_of_people t0 t (vw_acted V (w_api w))"
  by (rule busy_success [OF reachable_busy_inv [OF assms(1)] assms(2,3)])

end

subsection \<open>A busy cluster\<close>

text \<open>
  The fake client sets with a schedule: before each call the next batch of requests is served, votes
  through the webhook's decision and edits of the run by its owner; a status that was computed from
  another version of its object is refused with a conflict.
\<close>

datatype request = VoteRequest user_info approval_task | EditRequest run_object

record busy =
  bz_cluster :: fake_cluster
  bz_acted :: acts
  bz_seen :: "run_object set"
  bz_pending :: "request list list"

definition vote_ok :: "user_info \<Rightarrow> approval_task \<Rightarrow> approval_task \<Rightarrow> bool" where
  "vote_ok user t t' \<longleftrightarrow> admits t t' user \<and> at_Status t' = at_Status t
     \<and> at_name t' = at_name t \<and> at_namespace t' = at_namespace t"

definition put_task :: "string \<Rightarrow> string \<Rightarrow> approval_task \<Rightarrow> busy \<Rightarrow> busy" where
  "put_task ns n t b = b\<lparr>bz_cluster := (fmupd (ns, n) t (fst (bz_cluster b)), snd (bz_cluster b))\<rparr>"

definition put_run :: "string \<Rightarrow> string \<Rightarrow> run_object \<Rightarrow> busy \<Rightarrow> busy" where
  "put_run ns n r b = b\<lparr>bz_cluster := (fst (bz_cluster b), fmupd (ns, n) r (snd (bz_cluster b)))\<rparr>"

fun serve :: "string \<Rightarrow> string \<Rightarrow> request \<Rightarrow> busy \<Rightarrow> busy" where
  "serve ns n (VoteRequest user t') b =
     (case cluster_task (bz_cluster b) ns n of
        Some t \<Rightarrow> if vote_ok user t t' then put_task ns n t' (b\<lparr>bz_acted := acts_after t t' user (bz_acted b)\<rparr>) else b
      | None \<Rightarrow> b)"
| "serve ns n (EditRequest r') b =
     (case cluster_run (bz_cluster b) ns n of
        Some r \<Rightarrow> if edit_of r r' then put_run ns n r' (b\<lparr>bz_seen := insert r' (bz_seen b)\<rparr>) else b
      | None \<Rightarrow> b)"

definition arrive :: "string \<Rightarrow> string \<Rightarrow> busy \<Rightarrow> busy" where
  "arrive ns n b =
     (case bz_pending b of [] \<Rightarrow> b | rs # rest \<Rightarrow> fold (serve ns n) rs (b\<lparr>bz_pending := rest\<rparr>))"

definition after_arrivals :: "string \<Rightarrow> string \<Rightarrow> (fake_cluster \<Rightarrow> 'r \<times> fake_cluster) \<Rightarrow> busy \<Rightarrow> 'r \<times> busy" where
  "after_arrivals ns n f b =
     (let b1 = arrive ns n b; (r, c) = f (bz_cluster b1) in (r, b1\<lparr>bz_cluster := c\<rparr>))"

definition busy_status :: "string \<Rightarrow> string \<Rightarrow> string \<Rightarrow> approval_task \<Rightarrow> busy \<Rightarrow> (api_error + approval_task) \<times> busy" where
  "busy_status ns n ns' t b =
     (let b1 = arrive ns n b
      in case cluster_task (bz_cluster b1) ns' (at_name t) of
           None \<Rightarrow> (Inl (Answered (NewNotFound ''approvaltasks'' (at_name t))), b1)
         | Some old \<Rightarrow>
             if at_Spec old = at_Spec t \<and> at_Meta old = at_Meta t then (Inr t, put_task ns' (at_name t) t b1)
             else (Inl (Answered (NewConflict ''approvaltasks'' (at_name t))), b1))"

definition busy_run_status :: "string \<Rightarrow> string \<Rightarrow> string \<Rightarrow> run_object \<Rightarrow> busy \<Rightarrow> (go_error + run_object) \<times> busy" where
  "busy_run_status ns n ns' r b =
     (let b1 = arrive ns n b
      in case cluster_run (bz_cluster b1) (ro_namespace r) (ro_name r) of
           None \<Rightarrow> (Inl (StatusErr (NewNotFound ''customruns'' (ro_name r))), b1)
         | Some old \<Rightarrow>
             if r = with_status_of old r
             then (Inr r, put_run (ro_namespace r) (ro_name r) r
                 (if ro_namespace r = ns \<and> ro_name r = n then b1\<lparr>bz_seen := insert r (bz_seen b1)\<rparr> else b1))
             else (Inl (StatusErr (NewConflict ''customruns'' (ro_name r))), b1))"

definition busy_tasks :: "string \<Rightarrow> string \<Rightarrow> busy at_client" where
  "busy_tasks ns n =
     \<lparr>cl_Get = \<lambda>ns' n'. after_arrivals ns n (cl_Get fake_tasks ns' n'),
      cl_Create = \<lambda>ns' t. after_arrivals ns n (cl_Create fake_tasks ns' t),
      cl_Update = \<lambda>ns' t. after_arrivals ns n (cl_Update fake_tasks ns' t),
      cl_UpdateStatus = busy_status ns n\<rparr>"

definition busy_runs :: "string \<Rightarrow> string \<Rightarrow> busy run_client" where
  "busy_runs ns n =
     \<lparr>rc_Get = \<lambda>ns' n'. after_arrivals ns n (rc_Get fake_runs ns' n'), rc_UpdateStatus = busy_run_status ns n\<rparr>"

definition busy_view :: "string \<Rightarrow> string \<Rightarrow> busy view" where
  "busy_view ns n =
     \<lparr>vw_task = \<lambda>b. cluster_task (bz_cluster b) ns n, vw_run = \<lambda>b. cluster_run (bz_cluster b) ns n,
      vw_acted = bz_acted, vw_seen = bz_seen\<rparr>"

lemmas busy_defs = busy_view_def put_task_def put_run_def cluster_task_def cluster_run_def tracker_lookup_def

lemma serve_drifts: "drift (busy_view ns n) ns n b (serve ns n q b)"
proof (cases q)
  case (VoteRequest user t')
  show ?thesis
  proof (cases "\<exists>t. cluster_task (bz_cluster b) ns n = Some t \<and> vote_ok user t t'")
    case True
    then obtain t where t: "cluster_task (bz_cluster b) ns n = Some t" "vote_ok user t t'" by blast
    then have "gate_move (busy_view ns n) ns n b (serve ns n q b)"
      by (intro gate_move.voted [of _ _ t _ t' user]) (simp_all add: VoteRequest vote_ok_def busy_defs)
    then show ?thesis by (rule drift_move)
  qed (auto simp: VoteRequest split: option.splits)
next
  case (EditRequest r')
  show ?thesis
  proof (cases "\<exists>r. cluster_run (bz_cluster b) ns n = Some r \<and> edit_of r r'")
    case True
    then obtain r where r: "cluster_run (bz_cluster b) ns n = Some r" "edit_of r r'" by blast
    then have "gate_move (busy_view ns n) ns n b (serve ns n q b)"
      by (intro gate_move.edited [of _ _ r _ r']) (simp_all add: EditRequest busy_defs)
    then show ?thesis by (rule drift_move)
  qed (auto simp: EditRequest split: option.splits)
qed

lemma fold_serve_drifts: "drift (busy_view ns n) ns n b (fold (serve ns n) qs b)"
proof (induction qs arbitrary: b)
  case (Cons q qs)
  show ?case using drift_trans [OF serve_drifts Cons.IH] by simp
qed simp

lemma arrive_drifts: "drift (busy_view ns n) ns n b (arrive ns n b)"
proof (cases "bz_pending b")
  case (Cons rs rest)
  have "gate_move (busy_view ns n) ns n b (b\<lparr>bz_pending := rest\<rparr>)"
    by (rule gate_move.apart) (simp_all add: busy_view_def)
  then have "drift (busy_view ns n) ns n b (b\<lparr>bz_pending := rest\<rparr>)" by (rule drift_move)
  from drift_trans [OF this fold_serve_drifts] show ?thesis by (simp add: arrive_def Cons)
qed (simp add: arrive_def)

text \<open>A write elsewhere leaves the key alone.\<close>

lemma put_elsewhere:
  "(ns', n') \<noteq> (ns, n) \<Longrightarrow> gate_move (busy_view ns n) ns n b (put_task ns' n' t b)"
  "(ns', n') \<noteq> (ns, n) \<Longrightarrow> gate_move (busy_view ns n) ns n b (put_run ns' n' r b)"
  by (auto simp: busy_defs intro!: gate_move.apart)

lemma busy_run_status_cases:
  assumes "busy_run_status ns n ns' r b = (res, b')"
  shows "b' = arrive ns n b \<or> (\<exists>old. cluster_run (bz_cluster (arrive ns n b)) (ro_namespace r) (ro_name r) = Some old
    \<and> b' = put_run (ro_namespace r) (ro_name r) r
        (if ro_namespace r = ns \<and> ro_name r = n then (arrive ns n b)\<lparr>bz_seen := insert r (bz_seen (arrive ns n b))\<rparr>
         else arrive ns n b))"
  using assms by (auto simp: busy_run_status_def Let_def split: option.splits if_splits)

lemma busy_status_cases:
  assumes "busy_status ns n ns' t b = (res, b')"
  shows "b' = arrive ns n b \<or> (\<exists>old. cluster_task (bz_cluster (arrive ns n b)) ns' (at_name t) = Some old
    \<and> at_Spec old = at_Spec t \<and> at_Meta old = at_Meta t \<and> b' = put_task ns' (at_name t) t (arrive ns n b))"
  using assms by (auto simp: busy_status_def Let_def split: option.splits if_splits)

lemma busy_laws: "busy_gate (busy_tasks ns n) (busy_runs ns n) (busy_view ns n) ns n"
proof unfold_locales
  note arrived = arrive_drifts [of ns n]
  let ?V = "busy_view ns n"
  show "drift ?V ns n s s' \<and> (case res of Inl e \<Rightarrow> \<not> IsNotFound (api_go e) | Inr t \<Rightarrow> vw_task ?V s' = Some t)"
    if "cl_Get (busy_tasks ns n) ns n s = (res, s')" "vw_task ?V s \<noteq> None" for s res s'
  proof -
    have s': "s' = arrive ns n s" and res: "res = tracker_Get ns n (fst (bz_cluster (arrive ns n s)))"
      using that(1) by (auto simp: busy_tasks_def after_arrivals_def fake_tasks_def on_tasks_def react_Get_def Let_def)
    have "vw_task ?V (arrive ns n s) \<noteq> None" using drift_stored [OF arrived] that(2) by blast
    then show ?thesis using arrived [of s] by (auto simp: s' res tracker_Get_def busy_defs)
  qed
  show "drift ?V ns n s s' \<or> ns' = ns \<and> at_name t = n \<and> (\<exists>s1 old. drift ?V ns n s s1 \<and> vw_task ?V s1 = Some old
      \<and> at_Spec old = at_Spec t \<and> at_Meta old = at_Meta t \<and> vw_task ?V s' = Some (old\<lparr>at_Status := at_Status t\<rparr>)
      \<and> vw_run ?V s' = vw_run ?V s1 \<and> vw_acted ?V s' = vw_acted ?V s1 \<and> vw_seen ?V s' = vw_seen ?V s1)"
    if "cl_UpdateStatus (busy_tasks ns n) ns' t s = (res, s')" for ns' t s res s'
  proof -
    note u = that
    consider "s' = arrive ns n s"
      | old where "cluster_task (bz_cluster (arrive ns n s)) ns' (at_name t) = Some old" "at_Spec old = at_Spec t"
        "at_Meta old = at_Meta t" "s' = put_task ns' (at_name t) t (arrive ns n s)"
      using busy_status_cases [of ns n ns' t s res s'] u by (auto simp: busy_tasks_def)
    then show ?thesis
    proof cases
      case 1
      then show ?thesis using arrived by blast
    next
      case 2
      show ?thesis
      proof (cases "(ns', at_name t) = (ns, n)")
        case True
        then have "old\<lparr>at_Status := at_Status t\<rparr> = t" using 2(2,3) by simp
        with True 2 arrived [of s] show ?thesis by (auto simp: busy_defs)
      next
        case False
        from drift_trans [OF arrived drift_move [OF put_elsewhere(1) [OF this]]] 2(4) show ?thesis by blast
      qed
    qed
  qed
  show "drift ?V ns n s s' \<and> (case rres of Inl _ \<Rightarrow> True | Inr r \<Rightarrow> vw_run ?V s' = Some r)"
    if "rc_Get (busy_runs ns n) ns n s = (rres, s')" for s rres s'
  proof -
    have "s' = arrive ns n s" "rres = run_tracker_Get ns n (snd (bz_cluster (arrive ns n s)))"
      using that by (auto simp: busy_runs_def after_arrivals_def fake_runs_def on_runs_def Let_def)
    then show ?thesis using arrived [of s] by (auto simp: run_tracker_Get_def busy_defs split: option.split)
  qed
  show "drift ?V ns n s s' \<or> run_id (ro_Run r) = (ns, n) \<and> (\<exists>s1 old new. drift ?V ns n s s1 \<and> vw_run ?V s1 = Some old
      \<and> (new = r \<or> new = with_status_of old r) \<and> vw_run ?V s' = Some new \<and> vw_seen ?V s' = insert new (vw_seen ?V s1)
      \<and> vw_task ?V s' = vw_task ?V s1 \<and> vw_acted ?V s' = vw_acted ?V s1)"
    if "rc_UpdateStatus (busy_runs ns n) ns' r s = (rres', s')" for ns' r s rres' s'
  proof -
    note u = that
    consider "s' = arrive ns n s"
      | old where "cluster_run (bz_cluster (arrive ns n s)) (ro_namespace r) (ro_name r) = Some old"
        "s' = put_run (ro_namespace r) (ro_name r) r
          (if ro_namespace r = ns \<and> ro_name r = n then (arrive ns n s)\<lparr>bz_seen := insert r (bz_seen (arrive ns n s))\<rparr>
           else arrive ns n s)"
      using busy_run_status_cases [of ns n ns' r s rres' s'] u by (auto simp: busy_runs_def)
    then show ?thesis
    proof cases
      case 1
      then show ?thesis using arrived by blast
    next
      case 2
      show ?thesis
      proof (cases "run_id (ro_Run r) = (ns, n)")
        case True
        then have k: "ro_namespace r = ns" "ro_name r = n" by (simp_all add: run_id_def)
        have "drift ?V ns n s (arrive ns n s) \<and> vw_run ?V (arrive ns n s) = Some old \<and> (r = r \<or> r = with_status_of old r)
            \<and> vw_run ?V s' = Some r \<and> vw_seen ?V s' = insert r (vw_seen ?V (arrive ns n s))
            \<and> vw_task ?V s' = vw_task ?V (arrive ns n s) \<and> vw_acted ?V s' = vw_acted ?V (arrive ns n s)"
          using 2 k arrived [of s] by (simp add: busy_defs)
        with True show ?thesis by blast
      next
        case False
        then have "(ro_namespace r, ro_name r) \<noteq> (ns, n)" by (simp add: run_id_def)
        from drift_trans [OF arrived drift_move [OF put_elsewhere(2) [OF this]]] 2(2) False
        show ?thesis by (auto simp: run_id_def)
      qed
    qed
  qed
qed

interpretation busy_api: busy_gate "busy_tasks ns n" "busy_runs ns n" "busy_view ns n" ns n
  by (rule busy_laws)

subsection \<open>A reconciliation that decides, call by call\<close>

lemma ReconcileKind_answers:
  assumes "ready env run" and "ApprovalTasks_Get cl (run_ns run) (run_name run) (w_api w) = ((t, None), s1)"
    and "in_time env run t" and "hash_changed env t" and "answered (sp_Approvers (at_Spec t))"
    and "ApprovalTasks_UpdateStatus cl (at_namespace t) (fst (decideState (e_map_order env) (start_task t))) s1 = ((x, None), s2)"
  obtains evs where "ReconcileKind env cl run w = (Some (MultiErr [RequeueErr (delay_of env run t)]),
      next_run env run t, w\<lparr>w_events := evs, w_api := s2\<rparr>)"
proof -
  let ?r = "propagateApprovalTaskLabelsAndAnnotations (begun env run) (at_Meta t)"
  have g: "getOrCreateApprovalTask env cl (begun env run) (w_api w) = (Inr t, begun env run, s1)"
    using assms(1,2) by (auto simp: getOrCreateApprovalTask_def ready_def)
  have "updateApprovalState env cl (start_task t) s1 = (None, fst (decideState (e_map_order env) (start_task t)), s2)"
    using assms(5,6) by (simp add: updateApprovalState_writes)
  then have "checkIfUpdateRequired env cl (start_task t) ?r s1 = (None, next_run env run t, s2)"
    using assms(4) by (simp add: checkIfUpdateRequired_def next_run_def marked_after_def decideState_refines found_state_def)
  moreover have "\<not> timed_out env ?r (start_task t)" using assms(3) by (simp add: in_time_def)
  ultimately have rt: "reconcile_task env cl (start_task t) ?r s1 =
      (Some (RequeueErr (delay_of env run t)), next_run env run t, s2)"
    by (simp add: reconcile_task_live delay_of_def)
  show ?thesis
    by (rule ReconcileKind_ready [OF assms(1), of cl w], rule that) (use g rt in \<open>auto simp: reconcile_def Let_def\<close>)
qed

end
