(* ===== verification/Sync_Properties.thy ===== *)
theory Sync_Properties
  imports Gate_Flow Samples Lifecycle
begin

text \<open>
  Properties of the composed program: client, event, generated reconciler and controller, on the
  object trackers of the fake client sets, and of the retry loop against any API.
\<close>

subsection \<open>Samples\<close>

definition robj0 :: run_object where
  "robj0 = \<lparr>ro_Run = run0, ro_Generation = 1, ro_ObservedGeneration = 0, ro_DeletionTimestamp = None\<rparr>"

definition se0 :: sync_env where
  "se0 = \<lparr>se_IsLeaderFor = (\<lambda>ns n. True), se_Lister = (\<lambda>ns n. Inr robj0), se_now_pre = 90, se_now_post = 110,
     se_text = (\<lambda>e. [])\<rparr>"

definition cluster0 :: "approval_task \<Rightarrow> fake_cluster world" where
  "cluster0 t = \<lparr>w_api = (fmupd (''prod'', ''deploy'') t fmempty, fmupd (''prod'', ''deploy'') robj0 fmempty),
     w_events = [], w_patches = []\<rparr>"

text \<open>Alice approved; one more approval decides.\<close>

definition half_task0 :: approval_task where
  "half_task0 = with_approvers
     [(pending_user ''alice'')\<lparr>ad_Input := ''approve''\<rparr>, pending_user ''bob'', pending_group ''devs'']"

definition carol0 :: user_info where
  "carol0 = \<lparr>ui_Username = ''carol'', ui_Groups = [''devs'']\<rparr>"

lemma half_task0_ready:
  "keyed run0 half_task0" "in_time env0 run0 half_task0" "\<not> rejects (sp_Approvers (at_Spec half_task0))"
  "hash_changed env0 (updated_task opts half_task0)"
  "addressed (command_options input (run_name run0) (run_ns run0) msg carol0) (sp_Approvers (at_Spec half_task0))"
proof -
  show "in_time env0 run0 half_task0"
    unfolding in_time_def timed_out_def timeout_run0
    by (simp add: ApprovalTaskHasTimedOut_def start_task_def HasStarted_def TimeSub_def half_task0_def sample_defs)
qed (simp_all add: keyed_def half_task0_def rejects_def hash_changed_def addressed_def command_options_def carol0_def
    is_group_def DefaultedApproverType_def sample_defs)

lemma ro_Run_robj0 [simp]: "ro_Run robj0 = run0"
  by (simp add: robj0_def)

lemma in_charge0: "in_charge se0 robj0"
  by (simp add: in_charge_def se0_def IsZero_def) (simp add: robj0_def sample_defs)

lemma cluster0_lookup:
  "cluster_run (w_api (cluster0 t)) (ro_namespace robj0) (ro_name robj0) = Some robj0"
  "cluster_task (w_api (cluster0 t)) (ro_namespace robj0) (ro_name robj0) = Some t"
  by (simp_all add: cluster_run_def cluster_task_def tracker_lookup_def cluster0_def sample_defs)

subsection \<open>Properties\<close>



text \<open>
  C21. Writing the status back ends: whatever the API answers, there are at most five attempts, all
  but the last failed with a conflict, the answer is that of the last, and an attempt that was not
  the fifth is the last only when it did not end in a conflict.
\<close>

theorem status_write_bounded:
  assumes "updateStatus rc original desired s = (err, s')"
  shows "\<exists>ss. hd ss = s \<and> 0 < length ss \<and> length ss \<le> 5
    \<and> (\<forall>i. Suc i < length ss \<longrightarrow>
         (\<exists>e. update_attempt rc original desired i (ss ! i) = (Some e, ss ! Suc i) \<and> IsConflict e))
    \<and> update_attempt rc original desired (length ss - 1) (last ss) = (err, s')
    \<and> (length ss < 5 \<longrightarrow> (case err of None \<Rightarrow> True | Some e \<Rightarrow> \<not> IsConflict e))"
  using OnError_attempts [of DefaultRetry_Steps IsConflict "update_attempt rc original desired" 0 None s err s'] assms
  by (simp add: updateStatus_def RetryUpdateConflicts_def DefaultRetry_Steps_def attempts_made_def)

text \<open>A server that always answers with a conflict, on a counter of its calls.\<close>

definition conflict_runs :: "nat run_client" where
  "conflict_runs =
     \<lparr>rc_Get = \<lambda>ns n k. (Inr robj0, k),
      rc_UpdateStatus = \<lambda>ns r k. (Inl (StatusErr (NewConflict ''customruns'' (ro_name r))), Suc k)\<rparr>"

lemma status_differs0: "\<not> status_equal robj0 (robj0\<lparr>ro_ObservedGeneration := 1\<rparr>)"
  by (simp add: status_equal_def robj0_def)

lemma IsConflict_NewConflict [simp]: "IsConflict (StatusErr (NewConflict r n))"
  by (simp add: IsConflict_def reasonAndCodeForError_def NewConflict_def)

lemma conflict_runs_five:
  "\<exists>e. updateStatus conflict_runs robj0 (robj0\<lparr>ro_ObservedGeneration := 1\<rparr>) 0 = (Some e, 5) \<and> IsConflict e"
  using status_differs0
  by (simp add: updateStatus_def RetryUpdateConflicts_def DefaultRetry_Steps_def update_attempt_def conflict_runs_def
      eval_nat_numeral)

theorem status_write_bounded_witness:
  "\<exists>e ss. length ss = 5 \<and> IsConflict e
     \<and> update_attempt conflict_runs robj0 (robj0\<lparr>ro_ObservedGeneration := 1\<rparr>) 4 (last ss) = (Some e, 5)"
proof -
  obtain e where e: "updateStatus conflict_runs robj0 (robj0\<lparr>ro_ObservedGeneration := 1\<rparr>) 0 = (Some e, 5)"
    "IsConflict e"
    using conflict_runs_five by blast
  from status_write_bounded [OF e(1)] obtain ss where "0 < length ss" "length ss \<le> 5"
    "update_attempt conflict_runs robj0 (robj0\<lparr>ro_ObservedGeneration := 1\<rparr>) (length ss - 1) (last ss) = (Some e, 5)"
    "length ss < 5 \<longrightarrow> \<not> IsConflict e"
    by auto
  moreover from this e(2) have "length ss = 5" by auto
  ultimately show ?thesis using e(2) by auto
qed

text \<open>
  C22. Keys that are none of this replica's business: a key that is not one, of a run that another
  replica leads, that is gone, or that is being deleted causes no write, no event and no patch, and
  is not queued again.
\<close>

theorem key_left_alone:
  assumes "case SplitMetaNamespaceKey key of
      Inl _ \<Rightarrow> True
    | Inr (ns, n) \<Rightarrow> \<not> se_IsLeaderFor se ns n
        \<or> (case se_Lister se ns n of Inl e \<Rightarrow> IsNotFound e | Inr r \<Rightarrow> \<not> IsZero (ro_DeletionTimestamp r))"
  shows "\<exists>err. Reconcile_key se env cl rc key w = (err, w) \<and> processNextWorkItem False err = Forget"
proof (cases "SplitMetaNamespaceKey key")
  case (Inr p)
  obtain ns n where p: "p = (ns, n)" by force
  show ?thesis
  proof (cases "se_IsLeaderFor se ns n")
    case True
    with assms Inr p show ?thesis
      by (cases "se_Lister se ns n")
        (simp_all add: Reconcile_key_def reconcile_run_object_def report_error_def processNextWorkItem_def)
  next
    case False
    with Inr p show ?thesis
      by (simp add: Reconcile_key_def processNextWorkItem_def handleErr_def IsSkipKey_def)
  qed
qed (simp add: Reconcile_key_def processNextWorkItem_def)

theorem key_left_alone_witness:
  "\<exists>err. Reconcile_key (se0\<lparr>se_IsLeaderFor := (\<lambda>ns n. False)\<rparr>) env0 fake_tasks fake_runs ''prod/deploy'' (cluster0 task0)
     = (err, cluster0 task0) \<and> processNextWorkItem False err = Forget"
  by (rule key_left_alone) (simp split: sum.split)

text \<open>
  C15. A success can be undone: a change of a run's spec makes the generated reconciler forget that
  the run is done, so when the timeout is over by then, a run that has succeeded is stored as failed
  and its approved task as rejected.
\<close>

theorem success_undone:
  assumes "in_charge se r" and "workable env (ro_Run r)" and "ro_ObservedGeneration r \<noteq> ro_Generation r"
    and "cluster_run (w_api w) (ro_namespace r) (ro_name r) = Some r"
    and "cluster_task (w_api w) (ro_namespace r) (ro_name r) = Some t"
    and "keyed (ro_Run r) t" and "\<not> in_time env (ro_Run r) t"
  shows "\<exists>err w' r' t'.
    Reconcile_key se env fake_tasks fake_runs (safeKey (object_key (cr_Meta (ro_Run r)))) w = (err, w')
    \<and> cluster_run (w_api w') (ro_namespace r) (ro_name r) = Some r' \<and> IsFailure (ro_Run r')
    \<and> cluster_task (w_api w') (ro_namespace r) (ro_name r) = Some t' \<and> st_State (at_Status t') = rejectedState"
proof (rule fakes.key_expires [OF assms(1) PreProcess_ready [OF disjI2] assms(4-7)])
  show "workable env (ro_Run r) \<and> ro_ObservedGeneration r \<noteq> ro_Generation r" using assms(2,3) ..
next
  fix err w' r'
  assume "Reconcile_key se env fake_tasks fake_runs (safeKey (object_key (cr_Meta (ro_Run r)))) w = (err, w')"
    "cluster_run (w_api w') (ro_namespace r) (ro_name r) = Some r'" "IsFailure (ro_Run r')"
    "cluster_task (w_api w') (ro_namespace r) (ro_name r) = Some (expired_task t)"
  then show ?thesis by (auto simp: expired_task_sel(3))
qed

text \<open>The approved run of the samples, edited once, two hours after its task was created.\<close>

definition edited0 :: run_object where
  "edited0 = robj0\<lparr>ro_Run := run0\<lparr>cr_Status := (cr_Status run0)
       \<lparr>crs_Conditions := [new_condition ''Succeeded'' ''True'' '''' ''Succeeded'' ''TaskRun succeeded''],
        crs_StartTime := Some 5\<rparr>\<rparr>,
     ro_Generation := 2, ro_ObservedGeneration := 1\<rparr>"

definition late0 :: env where
  "late0 = env0\<lparr>e_clock_check := 7200000000001, e_clock_wait := 7200000000002\<rparr>"

definition decided0 :: approval_task where
  "decided0 = approved_task0\<lparr>at_Status := status0\<lparr>st_State := ''approved'', st_StartTime := Some 1\<rparr>\<rparr>"

definition late_world0 :: "fake_cluster world" where
  "late_world0 = \<lparr>w_api = (fmupd (''prod'', ''deploy'') decided0 fmempty, fmupd (''prod'', ''deploy'') edited0 fmempty),
     w_events = [], w_patches = []\<rparr>"

lemma edited0_sel [simp]:
  "cr_Meta (ro_Run edited0) = meta0" "cr_Params (ro_Run edited0) = cr_Params run0"
  "cr_CustomRef (ro_Run edited0) = cr_CustomRef run0" "cr_CustomSpec (ro_Run edited0) = cr_CustomSpec run0"
  "cr_Timeout (ro_Run edited0) = cr_Timeout run0"
  "ro_ObservedGeneration edited0 = 1" "ro_Generation edited0 = 2" "ro_DeletionTimestamp edited0 = None"
  by (simp_all add: edited0_def robj0_def run0_def)

lemma edited0_request: "same_request (ro_Run edited0) run0"
  by (simp add: same_request_def) (simp add: run0_def)

lemma edited0_workable: "workable late0 (ro_Run edited0)"
proof -
  have r: "checkCustomRunReferencesApprovalTask run0 = None" "ValidateCustomRunParameters (e_unmarshal_json env0) run0 = None"
    "\<forall>p \<in> set (cr_Params run0). p_Name p = ''approvers'' \<longrightarrow> array_only p" "cr_CustomRef run0 \<noteq> None"
    "case parse_timeout env0 run0 of Inl _ \<Rightarrow> False | Inr _ \<Rightarrow> True"
    using ready_run0 unfolding ready_def by blast+
  have f: "e_fraction late0 = e_fraction env0" by (simp add: late0_def)
  have "parse_timeout late0 run0 = parse_timeout env0 run0" unfolding parse_timeout_def f ..
  moreover have "run_conditions_ok (ro_Run edited0)" "crs_ExtraFields (cr_Status (ro_Run edited0)) = []"
    by (simp_all add: edited0_def run_conditions_ok_def conditions_ok_def run0_def)
  moreover have "e_unmarshal_json late0 = e_unmarshal_json env0" by (simp add: late0_def)
  ultimately show ?thesis
    using r by (simp only: workable_def same_request_checks [OF edited0_request] edited0_sel) simp
qed

lemma edited0_late: "\<not> in_time late0 (ro_Run edited0) decided0"
proof -
  have "run_timeout (begun late0 (ro_Run edited0)) = 3600000000000"
    by (simp add: run_timeout_def timeout_of_def parse_timeout_def run0_def StringParam_def ArrayParam_def)
  then show ?thesis
    by (simp add: in_time_def timed_out_def ApprovalTaskHasTimedOut_def start_task_def HasStarted_def TimeSub_def
        decided0_def late0_def sample_defs)
qed

theorem success_undone_witness:
  "IsSuccessful (ro_Run edited0) \<and> st_State (at_Status decided0) = approvedState \<and> (\<exists>err w' r' t'.
    Reconcile_key (se0\<lparr>se_Lister := (\<lambda>ns n. Inr edited0)\<rparr>) late0 fake_tasks fake_runs (safeKey (object_key meta0)) late_world0
      = (err, w')
    \<and> cluster_run (w_api w') (ro_namespace edited0) (ro_name edited0) = Some r' \<and> IsFailure (ro_Run r')
    \<and> cluster_task (w_api w') (ro_namespace edited0) (ro_name edited0) = Some t' \<and> st_State (at_Status t') = rejectedState)"
proof (intro conjI)
  show "IsSuccessful (ro_Run edited0)" "st_State (at_Status decided0) = approvedState"
    by (simp_all add: edited0_def IsSuccessful_def run_condition_def decided0_def)
  have "in_charge (se0\<lparr>se_Lister := (\<lambda>ns n. Inr edited0)\<rparr>) edited0"
    by (simp add: in_charge_def se0_def IsZero_def) (simp add: sample_defs)
  moreover have "cluster_run (w_api late_world0) (ro_namespace edited0) (ro_name edited0) = Some edited0"
    "cluster_task (w_api late_world0) (ro_namespace edited0) (ro_name edited0) = Some decided0"
    by (simp_all add: late_world0_def cluster_run_def cluster_task_def tracker_lookup_def meta0_def)
  moreover have "keyed (ro_Run edited0) decided0" by (simp add: keyed_def decided0_def sample_defs)
  ultimately show "\<exists>err w' r' t'.
    Reconcile_key (se0\<lparr>se_Lister := (\<lambda>ns n. Inr edited0)\<rparr>) late0 fake_tasks fake_runs (safeKey (object_key meta0)) late_world0
      = (err, w')
    \<and> cluster_run (w_api w') (ro_namespace edited0) (ro_name edited0) = Some r' \<and> IsFailure (ro_Run r')
    \<and> cluster_task (w_api w') (ro_namespace edited0) (ro_name edited0) = Some t' \<and> st_State (at_Status t') = rejectedState"
    using success_undone [OF _ edited0_workable _ _ _ _ edited0_late] by simp
qed

text \<open>
  C20. The delay until the next look at a waiting run: positive, at most the timeout (or a second, when
  that is longer), and long enough that the timeout is over when it has passed; the queue is told
  exactly this delay.
\<close>

theorem requeue_bounds:
  assumes "ready env run" and "tracker_lookup (w_api w) (run_ns run) (run_name run) = Some t"
    and "keyed run t" and "in_time env run t"
    and "s = (case st_StartTime (at_Status t) of Some s \<Rightarrow> s | None \<Rightarrow> om_CreationTimestamp (at_Meta t))"
    and "s \<le> e_clock_wait env"
    and "0 \<le> run_timeout (begun env run)" and "run_timeout (begun env run) \<le> max_int64"
  shows "\<exists>err run' w' d. ReconcileKind env fake_client run w = (Some err, run', w')
    \<and> processNextWorkItem False (Some err) = AddAfter d
    \<and> 0 < d \<and> d \<le> max 1000000000 (run_timeout (begun env run))
    \<and> run_timeout (begun env run) \<le> TimeSub (e_clock_wait env) s + d"
proof -
  have st: "st_StartTime (at_Status (start_task t)) = Some s" by (simp add: start_task_time assms(5))
  note b = requeue_delay_bounds [OF st assms(6-8)]
  have "0 < delay_of env run t" using requeue_delay_range by (simp add: delay_of_def)
  moreover have "processNextWorkItem False (Some (MultiErr [RequeueErr (delay_of env run t)])) = AddAfter (delay_of env run t)"
    by (simp add: processNextWorkItem_def)
  moreover obtain w' where "ReconcileKind env fake_client run w =
      (Some (MultiErr [RequeueErr (delay_of env run t)]), next_run env run t, w')"
    using fake.kind_stored [OF assms(1-4)] by metis
  ultimately show ?thesis using b unfolding delay_of_def by blast
qed

theorem requeue_bounds_witness:
  "\<exists>err run' w' d. ReconcileKind env0 fake_client run0 (world_of task0) = (Some err, run', w')
    \<and> processNextWorkItem False (Some err) = AddAfter d \<and> 0 < d \<and> d \<le> 3600000000000
    \<and> 3600000000000 \<le> TimeSub (e_clock_wait env0) 1 + d"
  using requeue_bounds [OF ready_run0 lookup_world_of keyed_samples(1) in_time_samples(1) refl]
  unfolding timeout_run0 by (simp add: sample_defs)

end
