(* ===== verification/Gate_Samples.thy ===== *)
theory Gate_Samples
  imports Sync_Properties
begin

text \<open>
  Inputs for the properties of the whole gate: a run that has not been worked on, Alice's approval,
  and a task that her approval alone decides.
\<close>

lemma run0_fresh: "run_conditions_ok run0" "\<not> IsSuccessful run0" "\<not> IsFailure run0" "run_status run0 = ConditionUnknown"
  by (simp_all add: run_conditions_ok_def conditions_ok_def IsSuccessful_def IsFailure_def run_status_def
      run_condition_def sample_defs)

definition opts0 :: cli_options where
  "opts0 = \<lparr>op_Namespace = ''prod'', op_Name = ''deploy'', op_Input = ''approve'', op_Username = ''alice'',
     op_Message = '''', op_Groups = []\<rparr>"

lemma task0_ok: "spec_ok (at_Spec task0)" "isApprovalRequired task0" "user_name_ok ''alice''" "user_name_ok ''bob''"
  by (simp_all add: spec_ok_def approver_ok_def user_name_ok_def group_name_ok_def users_ok_def input_ok_def
      blank_def is_user_def is_group_def isApprovalRequired_def sample_defs go_defs)

lemma opts0_admitted: "admits task0 (updated_task opts0 task0) (user_of opts0)"
proof (rule cli_update_admitted [OF task0_ok(1,2)])
  show "user_name_ok (op_Username opts0)" using task0_ok(3) by (simp add: opts0_def)
  show "decision (op_Input opts0)" by (simp add: opts0_def decision_def)
  show "effective opts0 (sp_Approvers (at_Spec task0))"
    by (simp add: effective_def opts0_def userProcessedAsIndividual_def is_user_def sample_defs)
  show "recorded (st_ApproversResponse (at_Status task0)) (op_Username opts0) = {}"
    by (simp add: recorded_def sample_defs)
qed

text \<open>The history in which Alice approves a task that needs one approval.\<close>

definition single0 :: approval_task where
  "single0 = task0\<lparr>at_Spec := spec0\<lparr>sp_NumberOfApprovalsRequired := 1\<rparr>\<rparr>"

lemma single0_initial: "initial single0"
  by (simp add: single0_def initial_def spec_ok_def approver_ok_def user_name_ok_def group_name_ok_def users_ok_def
      input_ok_def all_pending_def blank_def is_user_def is_group_def sample_defs go_defs)

lemma single0_admitted: "admits single0 (updated_task opts0 single0) (user_of opts0)"
proof (rule cli_update_admitted)
  show "spec_ok (at_Spec single0)" using single0_initial by (simp add: initial_def)
  show "isApprovalRequired single0"
    by (simp add: isApprovalRequired_def single0_def is_user_def is_group_def sample_defs)
  show "user_name_ok (op_Username opts0)" using task0_ok(3) by (simp add: opts0_def)
  show "decision (op_Input opts0)" by (simp add: opts0_def decision_def)
  show "effective opts0 (sp_Approvers (at_Spec single0))"
    by (simp add: effective_def opts0_def userProcessedAsIndividual_def is_user_def single0_def sample_defs)
  show "recorded (st_ApproversResponse (at_Status single0)) (op_Username opts0) = {}"
    by (simp add: recorded_def single0_def sample_defs)
qed

lemma single0_found:
  "hash_changed env0 (updated_task opts0 single0)" "found_state (updated_task opts0 single0) = approvedState"
proof -
  show "hash_changed env0 (updated_task opts0 single0)"
    by (simp add: hash_changed_def update_approvers_eq single0_def sample_defs)
  have "task_verdict (updated_task opts0 single0) = Approved"
    by (simp add: verdict_defs update_approvers_eq changed_def set_input_def single0_def opts0_def sample_defs)
  then show "found_state (updated_task opts0 single0) = approvedState" by (simp add: found_state_def)
qed

lemma single0_approved:
  "reachable admits single0 (stored_after env0 (updated_task opts0 single0), {''alice''}, {})"
  "st_State (at_Status (stored_after env0 (updated_task opts0 single0))) = approvedState"
proof -
  have "life_step admits (single0, {}, {}) (updated_task opts0 single0, insert (op_Username opts0) {}, {})"
    by (rule cli_update_step [OF single0_admitted])
  with reachable.start [OF single0_initial, of admits]
  have "reachable admits single0 (updated_task opts0 single0, {''alice''}, {})"
    using reachable.step [of admits single0 "(single0, {}, {})"] by (simp add: opts0_def)
  then show "reachable admits single0 (stored_after env0 (updated_task opts0 single0), {''alice''}, {})"
    using reachable.step reconciled by blast
  show "st_State (at_Status (stored_after env0 (updated_task opts0 single0))) = approvedState"
    using single0_found by (simp add: stored_after_state)
qed

text \<open>What the parameters of the sample run make of a task.\<close>

definition acc0 :: create_acc where
  "acc0 = fold add_approver [''alice'', ''bob'', ''group:devs''] create_init\<lparr>ca_number := 2\<rparr>"

lemma create_run0: "create_params (cr_Params run0) create_init = Inr acc0"
  by (simp add: acc0_def go_defs sample_defs fold_add_approver_other add_approver_other)

end
