(* ===== verification/Gate_Properties.thy ===== *)
theory Gate_Properties
  imports Gate_Concurrent Gate_Samples
begin

text \<open>
  Properties of histories of the whole gate: what a run that is stored as succeeded says about its
  task, when reconciliations have the cluster to themselves and when others write in between.
\<close>

text \<open>
  Safety of the gate, end to end: whatever updates the webhook admits, however the run is edited,
  and however often, from however old a version of the run and at whatever time replicas reconcile
  its key, in any order: a run that the API stores as succeeded has a task with a quorum of people.
\<close>

theorem stored_success_needs_people:
  assumes "gate_reachable fake_tasks fake_runs cluster_task cluster_run ns n t0 g"
    and "cluster_run (w_api (g_world g)) ns n = Some r" and "IsSuccessful (ro_Run r)"
  shows "\<exists>t. cluster_task (w_api (g_world g)) ns n = Some t \<and> quorum_of_people t0 t (g_acted g)"
  by (rule fake_gate.success_needs_people [OF assms])

text \<open>Alice approves a task that needs one approval, and her key is handled.\<close>

definition gate0 :: "fake_cluster gate_state" where
  "gate0 = \<lparr>g_world = cluster0 single0, g_seen = {robj0}, g_acted = ({}, {})\<rparr>"

definition voted0 :: "fake_cluster gate_state" where
  "voted0 = gate0\<lparr>g_world := cluster0 (updated_task opts0 single0), g_acted := ({''alice''}, {})\<rparr>"

lemma gate0_start: "gate_start cluster_task cluster_run ''prod'' ''deploy'' single0 gate0"
proof -
  have "cluster_run (w_api (cluster0 single0)) ''prod'' ''deploy'' = Some robj0"
    "cluster_task (w_api (cluster0 single0)) ''prod'' ''deploy'' = Some single0"
    using cluster0_lookup [of single0] by (simp_all add: sample_defs)
  moreover have "run_good ''prod'' ''deploy'' False robj0"
    using run0_fresh ready_run0 by (simp add: run_good_def status_good_def run_id_def ready_def) (simp add: sample_defs)
  ultimately show ?thesis
    using single0_initial by (simp add: gate_start_def gate0_def stored_good_def) (simp add: single0_def sample_defs)
qed

lemma voted0_reachable:
  "gate_reachable fake_tasks fake_runs cluster_task cluster_run ''prod'' ''deploy'' single0 voted0"
proof -
  have l: "cluster_run (w_api (cluster0 t)) ''prod'' ''deploy'' = Some robj0"
    "cluster_task (w_api (cluster0 t)) ''prod'' ''deploy'' = Some t" for t
    using cluster0_lookup [of t] by (simp_all add: sample_defs)
  have "gate_step fake_tasks fake_runs cluster_task cluster_run ''prod'' ''deploy'' gate0
      ((with_api (w_api (cluster0 (updated_task opts0 single0))) gate0)
        \<lparr>g_acted := acts_after single0 (updated_task opts0 single0) (user_of opts0) (g_acted gate0)\<rparr>)"
    by (rule gate_step.voted [OF _ _ _ single0_admitted]) (simp_all add: gate0_def l)
  also have "(with_api (w_api (cluster0 (updated_task opts0 single0))) gate0)
      \<lparr>g_acted := acts_after single0 (updated_task opts0 single0) (user_of opts0) (g_acted gate0)\<rparr> = voted0"
    by (simp add: with_api_def gate0_def voted0_def cluster0_def acts_after_def alters_def update_same_shape)
      (simp add: opts0_def)
  finally show ?thesis by (rule gate_reachable.followed [OF gate_reachable.begun_at [OF gate0_start]])
qed

theorem stored_success_needs_people_witness:
  "\<exists>g r t. gate_reachable fake_tasks fake_runs cluster_task cluster_run ''prod'' ''deploy'' single0 g
    \<and> cluster_run (w_api (g_world g)) ''prod'' ''deploy'' = Some r \<and> IsSuccessful (ro_Run r)
    \<and> cluster_task (w_api (g_world g)) ''prod'' ''deploy'' = Some t
    \<and> approved_users (sp_Approvers (at_Spec t)) \<subseteq> {''alice''}"
proof -
  let ?t = "updated_task opts0 single0"
  let ?key = "safeKey (object_key (cr_Meta (ro_Run robj0)))"
  have id: "run_ns run0 = ''prod''" "run_name run0 = ''deploy''" by (simp_all add: sample_defs)
  have kd: "keyed (ro_Run robj0) ?t" by (simp add: keyed_def single0_def sample_defs)
  have it: "in_time env0 (ro_Run robj0) ?t"
    unfolding in_time_def timed_out_def ro_Run_robj0 timeout_run0
    by (simp add: ApprovalTaskHasTimedOut_def start_task_def HasStarted_def TimeSub_def single0_def sample_defs)
  have rd: "ready env0 (ro_Run robj0)" using ready_run0 by simp
  obtain w' r' where k: "Reconcile_key se0 env0 fake_tasks fake_runs ?key (cluster0 ?t) =
      (Some (MultiErr [RequeueErr (delay_of env0 (ro_Run robj0) ?t)]), w')"
    and r': "cluster_run (w_api w') ''prod'' ''deploy'' = Some r'"
    and st: "run_status (ro_Run r') = run_status (next_run env0 (ro_Run (PreProcessReconcile (se_now_pre se0) robj0)) ?t)"
    by (rule fakes.key_reconciled [OF in_charge0 rd cluster0_lookup kd it]) (auto simp: id)
  have "IsSuccessful (next_run env0 (ro_Run (PreProcessReconcile (se_now_pre se0) robj0)) ?t)"
    by (rule next_run_status(1) [OF PreProcess_ready [OF disjI1, OF rd] single0_found])
  then have ok: "IsSuccessful (ro_Run r')" using st by (simp add: run_status_iff)
  let ?g = "voted0\<lparr>g_world := w', g_seen := g_seen voted0 \<union> set_option (cluster_run (w_api w') ''prod'' ''deploy'')\<rparr>"
  have "gate_step fake_tasks fake_runs cluster_task cluster_run ''prod'' ''deploy'' voted0 ?g"
    by (rule gate_step.handled [of ?key _ _ se0 _ env0])
      (use in_charge_key [OF in_charge0] k in \<open>simp_all add: id voted0_def gate0_def se0_def\<close>)
  then have g: "gate_reachable fake_tasks fake_runs cluster_task cluster_run ''prod'' ''deploy'' single0 ?g"
    by (rule gate_reachable.followed [OF voted0_reachable])
  moreover have l: "cluster_run (w_api (g_world ?g)) ''prod'' ''deploy'' = Some r'" using r' by simp
  moreover have "g_acted ?g = ({''alice''}, {})" by (simp add: voted0_def)
  moreover obtain t where "cluster_task (w_api (g_world ?g)) ''prod'' ''deploy'' = Some t" "quorum_of_people single0 t (g_acted ?g)"
    using stored_success_needs_people [OF g l ok] by blast
  ultimately show ?thesis using ok by (auto simp: quorum_of_people_def)
qed

text \<open>
  C4. Rely and guarantee. Between any two calls of a handling, votes may land, the run may be edited, and
  another replica may write, each by the moves that everybody is allowed; then the handling as a
  whole, with its errors, retries, conflicts and lost writes, is a sequence of such moves.
\<close>

theorem handling_is_moves:
  assumes "busy_gate cl rc V ns n" and "SplitMetaNamespaceKey key = Inr (ns, n)"
    and "busy_inv V ns n t0 (w_api w)" and "\<forall>r. se_Lister se ns n = Inr r \<longrightarrow> r \<in> vw_seen V (w_api w)"
    and "Reconcile_key se env cl rc key w = (err, w')"
  shows "drift V ns n (w_api w) (w_api w')"
  by (rule busy_gate.Reconcile_key_drifts [OF assms(1-3) _ assms(5)]) (use assms(4) in blast)

text \<open>Alice's vote is on its way when her key is handled, and lands before the first call.\<close>

definition busy0 :: "request list list \<Rightarrow> acts \<Rightarrow> approval_task \<Rightarrow> busy" where
  "busy0 pending A t = \<lparr>bz_cluster = w_api (cluster0 t), bz_acted = A, bz_seen = {robj0}, bz_pending = pending\<rparr>"

definition world0 :: "'s \<Rightarrow> 's world" where
  "world0 s = \<lparr>w_api = s, w_events = [], w_patches = []\<rparr>"

definition vote0 :: request where
  "vote0 = VoteRequest (user_of opts0) (updated_task opts0 single0)"

definition key0 :: string where
  "key0 = safeKey (object_key (cr_Meta (ro_Run robj0)))"

abbreviation (input) tasks0 :: "busy at_client" where "tasks0 \<equiv> busy_tasks ''prod'' ''deploy''"
abbreviation (input) runs0 :: "busy run_client" where "runs0 \<equiv> busy_runs ''prod'' ''deploy''"
abbreviation (input) view0 :: "busy view" where "view0 \<equiv> busy_view ''prod'' ''deploy''"

lemma run0_id: "run_ns run0 = ''prod''" "run_name run0 = ''deploy''"
  by (simp_all add: sample_defs)

lemma cluster0_objects:
  "cluster_run (w_api (cluster0 t)) ''prod'' ''deploy'' = Some robj0"
  "cluster_task (w_api (cluster0 t)) ''prod'' ''deploy'' = Some t"
  using cluster0_lookup [of t] by (simp_all add: run0_id)

lemma key0_split: "SplitMetaNamespaceKey key0 = Inr (''prod'', ''deploy'')"
  using in_charge_key [OF in_charge0] by (simp add: key0_def run0_id)

lemma busy0_start: "busy_start view0 ''prod'' ''deploy'' single0 (busy0 pending ({}, {}) single0)"
proof -
  have "run_good ''prod'' ''deploy'' False robj0"
    using run0_fresh ready_run0 by (simp add: run_good_def status_good_def run_id_def ready_def) (simp add: sample_defs)
  then show ?thesis
    using single0_initial cluster0_objects [of single0]
    by (simp add: busy_start_def busy0_def busy_view_def) (simp add: single0_def sample_defs)
qed

lemma busy0_idle: "arrive ns n (busy0 [] A t) = busy0 [] A t"
  by (simp add: arrive_def busy0_def)

lemma busy0_arrives:
  "arrive ''prod'' ''deploy'' (busy0 [[vote0]] ({}, {}) single0) = busy0 [] ({''alice''}, {}) (updated_task opts0 single0)"
proof -
  have "vote_ok (user_of opts0) single0 (updated_task opts0 single0)"
    using single0_admitted by (simp add: vote_ok_def update_same_shape)
  then show ?thesis
    using cluster0_objects [of single0]
    by (simp add: arrive_def busy0_def vote0_def put_task_def acts_after_def alters_def update_same_shape)
      (simp add: cluster0_def opts0_def)
qed

lemma busy0_reads:
  "ApprovalTasks_Get tasks0 ''prod'' ''deploy'' (busy0 [[vote0]] ({}, {}) single0) =
     ((updated_task opts0 single0, None), busy0 [] ({''alice''}, {}) (updated_task opts0 single0))"
  using busy0_arrives cluster0_objects(2) [of "updated_task opts0 single0"]
  by (simp add: ApprovalTasks_Get_def busy_tasks_def after_arrivals_def fake_tasks_def on_tasks_def react_Get_def
      tracker_Get_def cluster_task_def tracker_lookup_def Let_def) (simp add: busy0_def)

lemma busy0_writes:
  assumes "at_Spec t' = at_Spec t" and "at_Meta t' = at_Meta t" and "at_name t = ''deploy''"
  shows "ApprovalTasks_UpdateStatus tasks0 ''prod'' t' (busy0 [] A t) = ((t', None), busy0 [] A t')"
  using assms cluster0_objects(2) [of t]
  by (simp add: ApprovalTasks_UpdateStatus_def busy_tasks_def busy_status_def busy0_idle Let_def)
    (simp add: busy0_def put_task_def cluster0_def)

lemma busy0_writes_run:
  assumes "r = with_status_of robj0 r"
  shows "\<exists>s'. rc_UpdateStatus runs0 ''prod'' r (busy0 [] A t) = (Inr r, s') \<and> vw_run view0 s' = Some r \<and> vw_acted view0 s' = A"
proof -
  have m: "run_ns (ro_Run r) = ''prod''" "run_name (ro_Run r) = ''deploy''"
    using arg_cong [OF assms, of "\<lambda>r. cr_Meta (ro_Run r)"] run0_id by simp_all
  show ?thesis
    using assms m cluster0_objects(1) [of t]
    by (simp add: busy_runs_def busy_run_status_def busy0_idle Let_def) (simp add: busy0_def busy_defs)
qed

text \<open>The vote, the decision and the status of the run, within one handling of the key.\<close>

lemma busy0_handled:
  obtains err w' r where
    "Reconcile_key se0 env0 tasks0 runs0 key0 (world0 (busy0 [[vote0]] ({}, {}) single0)) = (err, w')"
    "vw_run view0 (w_api w') = Some r" "IsSuccessful (ro_Run r)" "vw_acted view0 (w_api w') = ({''alice''}, {})"
proof -
  let ?t = "updated_task opts0 single0" and ?p = "PreProcessReconcile (se_now_pre se0) robj0"
  let ?w = "world0 (busy0 [[vote0]] ({}, {}) single0)" and ?d = "fst (decideState (e_map_order env0) (start_task (updated_task opts0 single0)))"
  have rd: "ready env0 (ro_Run ?p)" by (rule PreProcess_ready [OF disjI1]) (simp add: ready_run0)
  have id: "run_ns (ro_Run ?p) = ''prod''" "run_name (ro_Run ?p) = ''deploy''"
    using PreProcess_request(1) [of "se_now_pre se0" robj0] by (simp_all add: same_request_def run0_id)
  have tid: "at_namespace ?t = ''prod''" "at_name ?t = ''deploy''" by (simp_all add: single0_def sample_defs)
  have "in_time env0 (ro_Run robj0) ?t"
    unfolding in_time_def timed_out_def ro_Run_robj0 timeout_run0
    by (simp add: ApprovalTaskHasTimedOut_def start_task_def HasStarted_def TimeSub_def single0_def sample_defs)
  then have it: "in_time env0 (ro_Run ?p) ?t" by (simp only: in_time_PreProcess)
  have an: "answered (sp_Approvers (at_Spec ?t))"
    using single0_found(2) by (rule contrapos_pp)
      (simp add: found_state_def task_verdict_def decide_def single0_def sample_defs)
  have get: "ApprovalTasks_Get tasks0 (run_ns (ro_Run ?p)) (run_name (ro_Run ?p)) (w_api ?w) =
      ((?t, None), busy0 [] ({''alice''}, {}) ?t)"
    using busy0_reads by (simp only: id world0_def world.simps)
  have put: "ApprovalTasks_UpdateStatus tasks0 (at_namespace ?t) ?d (busy0 [] ({''alice''}, {}) ?t) = ((?d, None), busy0 [] ({''alice''}, {}) ?d)"
    unfolding tid(1) by (rule busy0_writes) (use tid(2) in simp_all)
  obtain evs where k: "ReconcileKind env0 tasks0 (ro_Run ?p) ?w = (Some (MultiErr [RequeueErr (delay_of env0 (ro_Run ?p) ?t)]),
      next_run env0 (ro_Run ?p) ?t, ?w\<lparr>w_events := evs, w_api := busy0 [] ({''alice''}, {}) ?d\<rparr>)"
    by (rule ReconcileKind_answers [OF rd get it single0_found(1) an put])
  let ?res = "PostProcessReconcile (se_now_post se0) (?p\<lparr>ro_Run := next_run env0 (ro_Run ?p) ?t\<rparr>) robj0"
  let ?new = "with_status_of robj0 ?res"
  have "reconcile_run_object se0 env0 tasks0 robj0 ?w = (Some (MultiErr [RequeueErr (delay_of env0 (ro_Run ?p) ?t)]),
      ?res, ?w\<lparr>w_events := evs, w_api := busy0 [] ({''alice''}, {}) ?d\<rparr>)"
    using k in_charge0 by (simp add: reconcile_run_object_def in_charge_def Let_def)
  moreover have s: "IsSuccessful (ro_Run ?res)"
    using next_run_status(1) [OF rd single0_found] by (simp add: run_status_iff)
  then have ne: "\<not> status_equal robj0 ?res"
    using status_equal_run_status [of robj0 ?res] run0_fresh(2) by (auto simp: run_status_iff)
  obtain s' where u: "rc_UpdateStatus runs0 ''prod'' ?new (busy0 [] ({''alice''}, {}) ?d) = (Inr ?new, s')"
    and v: "vw_run view0 s' = Some ?new" "vw_acted view0 s' = ({''alice''}, {})"
    using busy0_writes_run [of ?new "({''alice''}, {})" ?d] by auto
  have "updateStatus runs0 robj0 ?res (busy0 [] ({''alice''}, {}) ?d) = (None, s')"
    using ne u by (simp add: updateStatus_def RetryUpdateConflicts_def DefaultRetry_Steps_def
        update_attempt_def eval_nat_numeral run0_id)
  ultimately obtain err w' where "Reconcile_key se0 env0 tasks0 runs0 key0 ?w = (err, w')" "w_api w' = s'"
    using ne key0_split by (simp add: Reconcile_key_def se0_def)
  moreover have "IsSuccessful (ro_Run ?new)" using s IsSuccessful_cong [of "ro_Run ?new" "ro_Run ?res"]
    by (simp add: with_status_of_def)
  ultimately show ?thesis using that v by simp
qed

theorem handling_is_moves_witness:
  "\<exists>err w' r. Reconcile_key se0 env0 tasks0 runs0 key0 (world0 (busy0 [[vote0]] ({}, {}) single0)) = (err, w')
    \<and> drift view0 ''prod'' ''deploy'' (busy0 [[vote0]] ({}, {}) single0) (w_api w')
    \<and> vw_run view0 (w_api w') = Some r \<and> IsSuccessful (ro_Run r)"
proof -
  obtain err w' r where k: "Reconcile_key se0 env0 tasks0 runs0 key0 (world0 (busy0 [[vote0]] ({}, {}) single0)) = (err, w')"
    and r: "vw_run view0 (w_api w') = Some r" "IsSuccessful (ro_Run r)"
    by (rule busy0_handled)
  have "drift view0 ''prod'' ''deploy'' (w_api (world0 (busy0 [[vote0]] ({}, {}) single0))) (w_api w')"
    by (rule handling_is_moves [OF busy_laws key0_split _ _ k, where ?t0.0 = single0])
      (use busy_start_inv [OF busy0_start] in \<open>simp_all add: world0_def busy_view_def busy0_def se0_def\<close>)
  with k r show ?thesis by (auto simp: world0_def)
qed

text \<open>
  C2. Safety of the gate under interference: in every history of updates that the webhook admits (all that it
  admits, changes of the approvers and of the number required included), edits of the run, writes of other
  replicas, and handlings of the key into whose calls all of these may fall, a run that is stored as
  succeeded has a task with at least as many people approving as it asks for by then and no approver entry
  whose input is a rejection (a member's rejection within a group can be overruled), and somebody had an
  update admitted. Unless somebody among these changed the approvers or the number required, the number is
  that of the first task and everybody who is counted had an update of their own admitted.
\<close>

theorem interrupted_success_needs_people:
  assumes "busy_gate cl rc V ns n" and "busy_reachable cl rc V ns n t0 w"
    and "vw_run V (w_api w) = Some r" and "IsSuccessful (ro_Run r)"
  shows "\<exists>t. vw_task V (w_api w) = Some t
    \<and> sp_NumberOfApprovalsRequired (at_Spec t) \<le> int (card (approved_users (sp_Approvers (at_Spec t))))
    \<and> \<not> rejects (sp_Approvers (at_Spec t))
    \<and> fst (vw_acted V (w_api w)) \<noteq> {} \<and> snd (vw_acted V (w_api w)) \<subseteq> fst (vw_acted V (w_api w))
    \<and> (snd (vw_acted V (w_api w)) \<noteq> {}
       \<or> sp_NumberOfApprovalsRequired (at_Spec t) = sp_NumberOfApprovalsRequired (at_Spec t0)
         \<and> approved_users (sp_Approvers (at_Spec t)) \<subseteq> fst (vw_acted V (w_api w)))"
  using busy_gate.interrupted_success [OF assms] by (simp only: quorum_of_people_def)

theorem interrupted_success_needs_people_witness:
  "\<exists>w r t. busy_reachable tasks0 runs0 view0 ''prod'' ''deploy'' single0 w
    \<and> vw_run view0 (w_api w) = Some r \<and> IsSuccessful (ro_Run r) \<and> vw_task view0 (w_api w) = Some t
    \<and> 1 \<le> int (card (approved_users (sp_Approvers (at_Spec t))))
    \<and> approved_users (sp_Approvers (at_Spec t)) \<subseteq> {''alice''}"
proof -
  obtain err w' r where k: "Reconcile_key se0 env0 tasks0 runs0 key0 (world0 (busy0 [[vote0]] ({}, {}) single0)) = (err, w')"
    and r: "vw_run view0 (w_api w') = Some r" "IsSuccessful (ro_Run r)" and a: "vw_acted view0 (w_api w') = ({''alice''}, {})"
    by (rule busy0_handled)
  have "busy_reachable tasks0 runs0 view0 ''prod'' ''deploy'' single0 (world0 (busy0 [[vote0]] ({}, {}) single0))"
    by (rule busy_reachable.opened) (simp add: world0_def busy0_start)
  then have w: "busy_reachable tasks0 runs0 view0 ''prod'' ''deploy'' single0 w'"
    by (rule busy_reachable.handles [OF _ key0_split _ k]) (simp add: world0_def busy_view_def busy0_def se0_def)
  have "sp_NumberOfApprovalsRequired (at_Spec single0) = 1" by (simp add: single0_def)
  with interrupted_success_needs_people [OF busy_laws w r] w r a show ?thesis by auto
qed

text \<open>
  C29. Tasks stay well typed: after any history of updates that the webhook admits, whatever they change,
  of reconciliations and of timeouts, from a fresh task with the status that it is created with, the approvers have the
  types, names and inputs that the structural checks demand and the number required is positive; the status
  has one of the three states and a number of approvals that is not negative, and that of an approved task
  records at least as many approvals as it records as required, and more than none.
\<close>

theorem reachable_well_typed:
  assumes "reachable admits t0 (t, H)" and "at_Status t0 = initial_status acc"
  shows "spec_ok (at_Spec t) \<and> validateApprovalTask t = None
    \<and> st_State (at_Status t) \<in> {pendingState, approvedState, rejectedState}
    \<and> 0 \<le> st_ApprovalsReceived (at_Status t)
    \<and> (st_State (at_Status t) = approvedState \<longrightarrow>
         0 < st_ApprovalsRequired (at_Status t)
         \<and> st_ApprovalsRequired (at_Status t) \<le> st_ApprovalsReceived (at_Status t))"
proof -
  have "status_ok (at_Status t0)"
    using assms(2) by (simp add: initial_status_def status_ok_def)
  from status_ok_reachable [OF assms(1) this] webhook.inv_reachable [OF assms(1)]
  show ?thesis by (auto simp: status_ok_def life_inv_def validateApprovalTask_iff)
qed

text \<open>In the history in which Alice's vote is decided on, the status says one of one.\<close>

theorem reachable_well_typed_witness:
  "let t = stored_after env0 (updated_task opts0 single0) in
    spec_ok (at_Spec t) \<and> validateApprovalTask t = None \<and> st_State (at_Status t) = approvedState
    \<and> 0 < st_ApprovalsRequired (at_Status t) \<and> st_ApprovalsRequired (at_Status t) \<le> st_ApprovalsReceived (at_Status t)"
proof -
  have "at_Status single0 = initial_status acc0"
    by (simp add: initial_status_def acc0_def add_approver_def approver_of_def create_init_def HasPrefix_def Let_def
        single0_def sample_defs empty_status_def)
  from reachable_well_typed [OF single0_approved(1) this] single0_approved(2)
  show ?thesis unfolding Let_def by blast
qed

end
