(* ===== verification/Go_Heap.thy ===== *)
theory Go_Heap
  imports Main
begin

text \<open>
  A store of cells for the code that is about sharing: addresses are allocated in increasing order,
  a slice is nil or a run of cells, a pointer is nil or the address of one. The locale \<open>copier\<close> is the
  contract of a deep copy: the copy has the value of the original, lies in cells that are new, and
  no cell that was there before is written.
\<close>

record 'c mem =
  lim :: nat
  cell :: "nat \<Rightarrow> 'c"

datatype slice = NilSlice | Slice (base: nat) (len: nat)

definition agree :: "nat set \<Rightarrow> 'c mem \<Rightarrow> 'c mem \<Rightarrow> bool" where
  "agree A m m' \<longleftrightarrow> (\<forall>a \<in> A. cell m' a = cell m a)"

definition write_cell :: "nat \<Rightarrow> 'c \<Rightarrow> 'c mem \<Rightarrow> 'c mem" where
  "write_cell a c m = m\<lparr>cell := (cell m)(a := c)\<rparr>"

text \<open>\<open>make\<close> and \<open>new\<close>: every cell is written before it is read, so its first content is left open.\<close>

definition alloc :: "nat \<Rightarrow> 'c mem \<Rightarrow> 'c mem" where
  "alloc n m = m\<lparr>lim := lim m + n\<rparr>"

lemma write_cell_sel [simp]:
  "lim (write_cell a c m) = lim m"
  "cell (write_cell a c m) b = (if b = a then c else cell m b)"
  by (simp_all add: write_cell_def)

lemma alloc_sel [simp]: "lim (alloc n m) = lim m + n" "cell (alloc n m) = cell m"
  by (simp_all add: alloc_def)

lemma agree_refl [simp]: "agree A m m"
  by (simp add: agree_def)

lemma agree_sym: "agree A m m' \<Longrightarrow> agree A m' m"
  by (simp add: agree_def)

lemma agree_trans: "agree A m m' \<Longrightarrow> agree A m' m'' \<Longrightarrow> agree A m m''"
  by (simp add: agree_def)

lemma agree_subset: "agree A m m' \<Longrightarrow> B \<subseteq> A \<Longrightarrow> agree B m m'"
  by (auto simp: agree_def)

lemma agree_write: "a \<notin> A \<Longrightarrow> agree A m (write_cell a c m)"
  by (auto simp: agree_def)

subsection \<open>Copying slices and pointers\<close>

text \<open>
  \<open>un\<close> and \<open>mk\<close> read and write an element of the slice's type in a cell. The loop copies the
  elements one by one with \<open>f\<close>, which may allocate.
\<close>

fun copy_loop :: "('c \<Rightarrow> 'e) \<Rightarrow> ('e \<Rightarrow> 'c) \<Rightarrow> ('e \<Rightarrow> 'c mem \<Rightarrow> 'e \<times> 'c mem) \<Rightarrow> nat \<Rightarrow> nat \<Rightarrow> nat \<Rightarrow> 'c mem \<Rightarrow> 'c mem" where
  "copy_loop un mk f src dst 0 m = m"
| "copy_loop un mk f src dst (Suc n) m =
     (let (e, m1) = f (un (cell m src)) m
      in copy_loop un mk f (Suc src) (Suc dst) n (write_cell dst (mk e) m1))"

definition copy_slice ::
  "('c \<Rightarrow> 'e) \<Rightarrow> ('e \<Rightarrow> 'c) \<Rightarrow> ('e \<Rightarrow> 'c mem \<Rightarrow> 'e \<times> 'c mem) \<Rightarrow> slice \<Rightarrow> 'c mem \<Rightarrow> slice \<times> 'c mem" where
  "copy_slice un mk f s m =
     (case s of
        NilSlice \<Rightarrow> (NilSlice, m)
      | Slice b n \<Rightarrow> (Slice (lim m) n, copy_loop un mk f b (lim m) n (alloc n m)))"

text \<open>\<open>copy(*out, *in)\<close> of elements without pointers.\<close>

definition by_value :: "'e \<Rightarrow> 'c mem \<Rightarrow> 'e \<times> 'c mem" where
  "by_value e m = (e, m)"

definition copy_pointer ::
  "('c \<Rightarrow> 'e) \<Rightarrow> ('e \<Rightarrow> 'c) \<Rightarrow> ('e \<Rightarrow> 'c mem \<Rightarrow> 'e \<times> 'c mem) \<Rightarrow> nat option \<Rightarrow> 'c mem \<Rightarrow> nat option \<times> 'c mem" where
  "copy_pointer un mk f p m =
     (case p of
        None \<Rightarrow> (None, m)
      | Some a \<Rightarrow>
          (let (e, m1) = f (un (cell m a)) (alloc 1 m)
           in (Some (lim m), write_cell (lim m) (mk e) m1)))"

subsection \<open>Reading\<close>

fun elements :: "('c \<Rightarrow> 'e) \<Rightarrow> 'c mem \<Rightarrow> slice \<Rightarrow> 'e list" where
  "elements un m NilSlice = []"
| "elements un m (Slice b n) = map (\<lambda>a. un (cell m a)) [b..<b + n]"

fun cells_of :: "slice \<Rightarrow> nat set" where
  "cells_of NilSlice = {}"
| "cells_of (Slice b n) = {b..<b + n}"

definition reach_slice :: "('c \<Rightarrow> 'e) \<Rightarrow> ('c mem \<Rightarrow> 'e \<Rightarrow> nat set) \<Rightarrow> 'c mem \<Rightarrow> slice \<Rightarrow> nat set" where
  "reach_slice un re m s = cells_of s \<union> (\<Union>e \<in> set (elements un m s). re m e)"

definition val_slice :: "('c \<Rightarrow> 'e) \<Rightarrow> ('c mem \<Rightarrow> 'e \<Rightarrow> 'v) \<Rightarrow> 'c mem \<Rightarrow> slice \<Rightarrow> 'v list" where
  "val_slice un ve m s = map (ve m) (elements un m s)"

fun as_slice :: "nat option \<Rightarrow> slice" where
  "as_slice None = NilSlice"
| "as_slice (Some a) = Slice a 1"

definition reach_pointer :: "('c \<Rightarrow> 'e) \<Rightarrow> ('c mem \<Rightarrow> 'e \<Rightarrow> nat set) \<Rightarrow> 'c mem \<Rightarrow> nat option \<Rightarrow> nat set" where
  "reach_pointer un re m p = (case p of None \<Rightarrow> {} | Some a \<Rightarrow> insert a (re m (un (cell m a))))"

definition val_pointer :: "('c \<Rightarrow> 'e) \<Rightarrow> ('c mem \<Rightarrow> 'e \<Rightarrow> 'v) \<Rightarrow> 'c mem \<Rightarrow> nat option \<Rightarrow> 'v option" where
  "val_pointer un ve m p = map_option (\<lambda>a. ve m (un (cell m a))) p"

subsection \<open>The contract\<close>

locale copier =
  fixes reach :: "'c mem \<Rightarrow> 'r \<Rightarrow> nat set" and val :: "'c mem \<Rightarrow> 'r \<Rightarrow> 'v"
    and copy :: "'r \<Rightarrow> 'c mem \<Rightarrow> 'r \<times> 'c mem"
  assumes reads: "agree (reach m r) m m' \<Longrightarrow> reach m' r = reach m r \<and> val m' r = val m r"
    and copies: "copy r m = (r', m') \<Longrightarrow> reach m r \<subseteq> {..<lim m} \<Longrightarrow>
      lim m \<le> lim m' \<and> agree {..<lim m} m m' \<and> val m' r' = val m r \<and> reach m' r' \<subseteq> {lim m..<lim m'}"
begin

lemma copy_loop_spec:
  assumes "\<And>e. un (mk e) = e"
    and "src + n \<le> L" and "L \<le> dst" and "dst + n \<le> lim m"
    and "\<And>i. i < n \<Longrightarrow> reach m (un (cell m (src + i))) \<subseteq> {..<L}"
    and "m' = copy_loop un mk copy src dst n m"
  shows "lim m \<le> lim m' \<and> agree ({..<lim m} - {dst..<dst + n}) m m'
    \<and> (\<forall>i < n. val m' (un (cell m' (dst + i))) = val m (un (cell m (src + i)))
          \<and> reach m' (un (cell m' (dst + i))) \<subseteq> {lim m..<lim m'})"
  using assms(2-)
proof (induction n arbitrary: src dst m)
  case (Suc n)
  obtain e m1 where e: "copy (un (cell m src)) m = (e, m1)" by force
  define m2 where "m2 = write_cell dst (mk e) m1"
  have r0: "reach m (un (cell m src)) \<subseteq> {..<lim m}" using Suc.prems(2,3) Suc.prems(4) [of 0] by fastforce
  note c = copies [OF e r0]
  have new: "reach m2 e \<subseteq> {lim m..<lim m1} \<and> val m2 e = val m (un (cell m src))"
    using c reads [of m1 e m2] agree_write [of dst "reach m1 e" m1 "mk e"] Suc.prems(3) by (fastforce simp: m2_def)
  have old: "cell m2 a = cell m a" if "a < lim m" "a \<noteq> dst" for a
    using c that by (simp add: m2_def agree_def)
  have same: "reach m2 x = reach m x \<and> val m2 x = val m x" if "reach m x \<subseteq> {..<L}" for x
    using that old Suc.prems(2,3) by (intro reads) (auto simp: agree_def)
  have src: "un (cell m2 (Suc src + i)) = un (cell m (src + Suc i))" if "i < n" for i
    using that old [of "src + Suc i"] Suc.prems(1-3) by simp
  have IH: "lim m2 \<le> lim m' \<and> agree ({..<lim m2} - {Suc dst..<Suc dst + n}) m2 m'
    \<and> (\<forall>i < n. val m' (un (cell m' (Suc dst + i))) = val m2 (un (cell m2 (Suc src + i)))
          \<and> reach m' (un (cell m' (Suc dst + i))) \<subseteq> {lim m2..<lim m'})"
  proof (rule Suc.IH)
    show "Suc src + n \<le> L" "L \<le> Suc dst" "Suc dst + n \<le> lim m2"
      using Suc.prems(1-3) c by (simp_all add: m2_def)
    show "reach m2 (un (cell m2 (Suc src + i))) \<subseteq> {..<L}" if "i < n" for i
      using that same Suc.prems(4) [of "Suc i"] src by simp
    show "m' = copy_loop un mk copy (Suc src) (Suc dst) n m2"
      using Suc.prems(5) e by (simp add: m2_def)
  qed
  have l2: "lim m2 = lim m1" "lim m \<le> lim m1" using c by (simp_all add: m2_def)
  have first: "cell m' dst = mk e"
    using IH Suc.prems(3) l2 by (auto simp: agree_def m2_def)
  have "agree (reach m2 e) m2 m'"
    using IH new Suc.prems(3) l2 by (auto simp: agree_def subset_iff)
  then have fresh: "reach m' e \<subseteq> {lim m..<lim m1} \<and> val m' e = val m (un (cell m src))"
    using reads [of m2 e m'] new by simp
  have "val m' (un (cell m' (dst + i))) = val m (un (cell m (src + i)))
      \<and> reach m' (un (cell m' (dst + i))) \<subseteq> {lim m..<lim m'}" if "i < Suc n" for i
  proof (cases i)
    case 0
    then show ?thesis using fresh first assms(1) IH l2 by fastforce
  next
    case (Suc j)
    with that have j: "j < n" by simp
    have "val m2 (un (cell m2 (Suc src + j))) = val m (un (cell m (src + i)))"
      using src [OF j] same Suc.prems(4) [of "Suc j"] j Suc by simp
    with IH j l2 Suc show ?thesis by fastforce
  qed
  moreover have "agree ({..<lim m} - {dst..<dst + Suc n}) m m'"
    using IH old l2 by (auto simp: agree_def)
  ultimately show ?case using IH l2 by auto
qed simp

end

subsection \<open>Combinations\<close>

lemma copierI:
  assumes "\<And>m r m'. agree (reach m r) m m' \<Longrightarrow> reach m' r = reach m r \<and> val m' r = val m r"
    and "\<And>r m r' m'. copy r m = (r', m') \<Longrightarrow> reach m r \<subseteq> {..<lim m} \<Longrightarrow>
      lim m \<le> lim m' \<and> agree {..<lim m} m m' \<and> val m' r' = val m r \<and> reach m' r' \<subseteq> {lim m..<lim m'}"
  shows "copier reach val copy"
  using assms by unfold_locales blast+

text \<open>Values without pointers.\<close>

lemma copier_value: "copier (\<lambda>m e. {}) (\<lambda>m. g) by_value"
  by (rule copierI) (simp_all add: by_value_def)

lemma elements_cong:
  "agree (cells_of s) m m' \<Longrightarrow> elements un m' s = elements un m s"
  by (cases s) (simp_all add: agree_def)

lemma cells_of_reach: "cells_of s \<subseteq> reach_slice un re m s"
  by (simp add: reach_slice_def)

lemma copier_slice:
  assumes "copier re ve f" and "\<And>e. un (mk e) = e"
  shows "copier (reach_slice un re) (val_slice un ve) (copy_slice un mk f)"
proof (rule copierI)
  fix m s m'
  assume a: "agree (reach_slice un re m s) m m'"
  then have el: "elements un m' s = elements un m s"
    by (intro elements_cong agree_subset [OF _ cells_of_reach])
  have "re m' e = re m e \<and> ve m' e = ve m e" if "e \<in> set (elements un m s)" for e
    using a that by (intro copier.reads [OF assms(1)]) (auto simp: agree_def reach_slice_def)
  with el show "reach_slice un re m' s = reach_slice un re m s \<and> val_slice un ve m' s = val_slice un ve m s"
    by (simp add: reach_slice_def val_slice_def)
next
  fix s m s' m'
  assume c: "copy_slice un mk f s m = (s', m')" and r: "reach_slice un re m s \<subseteq> {..<lim m}"
  show "lim m \<le> lim m' \<and> agree {..<lim m} m m' \<and> val_slice un ve m' s' = val_slice un ve m s
    \<and> reach_slice un re m' s' \<subseteq> {lim m..<lim m'}"
  proof (cases s)
    case NilSlice
    with c show ?thesis by (simp add: copy_slice_def val_slice_def reach_slice_def)
  next
    case (Slice b n)
    have m': "s' = Slice (lim m) n" "m' = copy_loop un mk f b (lim m) n (alloc n m)"
      using c by (simp_all add: copy_slice_def Slice)
    have ag: "re (alloc n m) e = re m e \<and> ve (alloc n m) e = ve m e" for e
      by (rule copier.reads [OF assms(1)]) (simp add: agree_def)
    have inc: "re m (un (cell m (b + i))) \<subseteq> {..<lim m}" "b + i < lim m" if "i < n" for i
    proof -
      have "b + i \<in> {b..<b + n}" using that by simp
      moreover have "{b..<b + n} \<subseteq> {..<lim m}" "(\<Union>a \<in> {b..<b + n}. re m (un (cell m a))) \<subseteq> {..<lim m}"
        using r by (simp_all add: Slice reach_slice_def image_image)
      ultimately show "re m (un (cell m (b + i))) \<subseteq> {..<lim m}" "b + i < lim m" by blast+
    qed
    have "lim (alloc n m) \<le> lim m' \<and> agree ({..<lim (alloc n m)} - {lim m..<lim m + n}) (alloc n m) m'
      \<and> (\<forall>i < n. ve m' (un (cell m' (lim m + i))) = ve (alloc n m) (un (cell (alloc n m) (b + i)))
            \<and> re m' (un (cell m' (lim m + i))) \<subseteq> {lim (alloc n m)..<lim m'})"
    proof (cases "n = 0")
      case False
      show ?thesis
      proof (rule copier.copy_loop_spec [OF assms(1,2) _ _ _ _ m'(2), where L = "lim m"])
        show "b + n \<le> lim m" using inc(2) [of "n - 1"] False by simp
      qed (use inc(1) ag in simp_all)
    qed (use m' in simp)
    then have l: "lim m + n \<le> lim m'" and o: "agree {..<lim m} m m'"
      and e: "\<And>i. i < n \<Longrightarrow> ve m' (un (cell m' (lim m + i))) = ve m (un (cell m (b + i)))
            \<and> re m' (un (cell m' (lim m + i))) \<subseteq> {lim m + n..<lim m'}"
      using ag by (auto simp: agree_def)
    have "val_slice un ve m' s' = val_slice un ve m s"
      using e by (auto simp: val_slice_def m' Slice intro!: nth_equalityI)
    moreover have "reach_slice un re m' s' \<subseteq> {lim m..<lim m'}"
    proof -
      have "re m' (un (cell m' a)) \<subseteq> {lim m..<lim m'}" if "a \<in> {lim m..<lim m + n}" for a
        using that e [of "a - lim m"] by fastforce
      then have "(\<Union>a \<in> {lim m..<lim m + n}. re m' (un (cell m' a))) \<subseteq> {lim m..<lim m'}" by (rule UN_least)
      with l show ?thesis by (auto simp: reach_slice_def m'(1) image_image)
    qed
    ultimately show ?thesis using l o by simp
  qed
qed

text \<open>A pointer is copied as the slice of its one cell is.\<close>

lemma copy_pointer_slice:
  "copy_slice un mk f (as_slice p) m = (case copy_pointer un mk f p m of (q, m') \<Rightarrow> (as_slice q, m'))"
  by (cases p) (simp_all add: copy_slice_def copy_pointer_def eval_nat_numeral split: prod.split)

lemma reach_pointer_slice: "reach_pointer un re m p = reach_slice un re m (as_slice p)"
  by (cases p) (simp_all add: reach_pointer_def reach_slice_def)

lemma val_pointer_slice:
  "val_pointer un ve m p = (case val_slice un ve m (as_slice p) of [] \<Rightarrow> None | v # _ \<Rightarrow> Some v)"
  by (cases p) (simp_all add: val_pointer_def val_slice_def)

lemma copier_pointer:
  assumes "copier re ve f" and "\<And>e. un (mk e) = e"
  shows "copier (reach_pointer un re) (val_pointer un ve) (copy_pointer un mk f)"
proof -
  note s = copier_slice [OF assms]
  show ?thesis
  proof (rule copierI)
    fix m p m'
    assume "agree (reach_pointer un re m p) m m'"
    then show "reach_pointer un re m' p = reach_pointer un re m p \<and> val_pointer un ve m' p = val_pointer un ve m p"
      using copier.reads [OF s, of m "as_slice p" m'] by (simp add: reach_pointer_slice val_pointer_slice)
  next
    fix p m p' m'
    assume "copy_pointer un mk f p m = (p', m')" and "reach_pointer un re m p \<subseteq> {..<lim m}"
    then show "lim m \<le> lim m' \<and> agree {..<lim m} m m' \<and> val_pointer un ve m' p' = val_pointer un ve m p
        \<and> reach_pointer un re m' p' \<subseteq> {lim m..<lim m'}"
      using copier.copies [OF s, of "as_slice p" m "as_slice p'" m']
      by (simp add: reach_pointer_slice val_pointer_slice copy_pointer_slice)
  qed
qed

text \<open>One part after the other, and a record around what is copied.\<close>

definition copy_pair ::
  "('a \<Rightarrow> 'c mem \<Rightarrow> 'a \<times> 'c mem) \<Rightarrow> ('b \<Rightarrow> 'c mem \<Rightarrow> 'b \<times> 'c mem) \<Rightarrow> 'a \<times> 'b \<Rightarrow> 'c mem \<Rightarrow> ('a \<times> 'b) \<times> 'c mem" where
  "copy_pair f g p m = (let (a, m1) = f (fst p) m; (b, m2) = g (snd p) m1 in ((a, b), m2))"

lemma copier_pair:
  assumes "copier r1 v1 f" and "copier r2 v2 g"
  shows "copier (\<lambda>m p. r1 m (fst p) \<union> r2 m (snd p)) (\<lambda>m p. (v1 m (fst p), v2 m (snd p))) (copy_pair f g)"
proof (rule copierI)
  fix m p m'
  assume "agree (r1 m (fst p) \<union> r2 m (snd p)) m m'"
  then have "agree (r1 m (fst p)) m m'" "agree (r2 m (snd p)) m m'" by (auto simp: agree_def)
  then show "r1 m' (fst p) \<union> r2 m' (snd p) = r1 m (fst p) \<union> r2 m (snd p)
      \<and> (v1 m' (fst p), v2 m' (snd p)) = (v1 m (fst p), v2 m (snd p))"
    using copier.reads [OF assms(1)] copier.reads [OF assms(2)] by auto
next
  fix p m p' m'
  assume c: "copy_pair f g p m = (p', m')" and r: "r1 m (fst p) \<union> r2 m (snd p) \<subseteq> {..<lim m}"
  obtain a m1 where a: "f (fst p) m = (a, m1)" by force
  with c obtain b where b: "g (snd p) m1 = (b, m')" and p': "p' = (a, b)"
    by (auto simp: copy_pair_def split: prod.splits)
  have ca: "lim m \<le> lim m1" "agree {..<lim m} m m1" "v1 m1 a = v1 m (fst p)" "r1 m1 a \<subseteq> {lim m..<lim m1}"
    using copier.copies [OF assms(1) a] r by auto
  have s: "r2 m1 (snd p) = r2 m (snd p)" "v2 m1 (snd p) = v2 m (snd p)"
    using copier.reads [OF assms(2), of m "snd p" m1] agree_subset [OF ca(2)] r by auto
  have cb: "lim m1 \<le> lim m'" "agree {..<lim m1} m1 m'" "v2 m' b = v2 m1 (snd p)" "r2 m' b \<subseteq> {lim m1..<lim m'}"
  proof -
    have "r2 m1 (snd p) \<subseteq> {..<lim m1}" using r s(1) ca(1) by fastforce
    then show "lim m1 \<le> lim m'" "agree {..<lim m1} m1 m'" "v2 m' b = v2 m1 (snd p)" "r2 m' b \<subseteq> {lim m1..<lim m'}"
      using copier.copies [OF assms(2) b] by auto
  qed
  have "r1 m' a = r1 m1 a" "v1 m' a = v1 m1 a"
  proof -
    have "r1 m1 a \<subseteq> {..<lim m1}" using ca(4) by fastforce
    then show "r1 m' a = r1 m1 a" "v1 m' a = v1 m1 a"
      using copier.reads [OF assms(1) agree_subset [OF cb(2)]] by auto
  qed
  moreover have "agree {..<lim m} m m'"
    using agree_trans [OF ca(2) agree_subset [OF cb(2)]] ca(1) by auto
  ultimately show "lim m \<le> lim m' \<and> agree {..<lim m} m m'
      \<and> (v1 m' (fst p'), v2 m' (snd p')) = (v1 m (fst p), v2 m (snd p))
      \<and> r1 m' (fst p') \<union> r2 m' (snd p') \<subseteq> {lim m..<lim m'}"
    using ca cb s p' by fastforce
qed

lemma copier_record:
  assumes "copier re ve f" and "\<And>r x. get (put r x) = r" and "\<And>r x v. F (put r x) v = F x v"
  shows "copier (\<lambda>m x. re m (get x)) (\<lambda>m x. F x (ve m (get x))) (\<lambda>x m. case f (get x) m of (r, m') \<Rightarrow> (put r x, m'))"
proof (rule copierI)
  fix m x m'
  assume "agree (re m (get x)) m m'"
  then show "re m' (get x) = re m (get x) \<and> F x (ve m' (get x)) = F x (ve m (get x))"
    using copier.reads [OF assms(1)] by metis
next
  fix x m x' m'
  assume "(case f (get x) m of (r, m') \<Rightarrow> (put r x, m')) = (x', m')" and r: "re m (get x) \<subseteq> {..<lim m}"
  then obtain y where y: "f (get x) m = (y, m')" "x' = put y x" by (auto split: prod.splits)
  then show "lim m \<le> lim m' \<and> agree {..<lim m} m m' \<and> F x' (ve m' (get x')) = F x (ve m (get x))
      \<and> re m' (get x') \<subseteq> {lim m..<lim m'}"
    using copier.copies [OF assms(1) y(1) r] assms(2,3) by simp
qed

subsection \<open>Independence\<close>

text \<open>
  Writing to what is reachable from a copy does not show in the original, and the other way round.
\<close>

context copier
begin

lemma copy_equal: "copy r m = (r', m') \<Longrightarrow> reach m r \<subseteq> {..<lim m} \<Longrightarrow> val m' r' = val m r"
  using copies by blast

lemma copy_fresh: "copy r m = (r', m') \<Longrightarrow> reach m r \<subseteq> {..<lim m} \<Longrightarrow> reach m' r' \<inter> {..<lim m} = {}"
  using copies [of r m r' m'] by force

lemma original_kept:
  assumes "copy r m = (r', m')" and "reach m r \<subseteq> {..<lim m}" and "agree (- reach m' r') m' m''"
  shows "val m'' r = val m r"
proof -
  note c = copies [OF assms(1,2)]
  have "agree (reach m r) m m''"
    unfolding agree_def
  proof
    fix a
    assume "a \<in> reach m r"
    with assms(2) have a: "a < lim m" by auto
    with c have "a \<notin> reach m' r'" by fastforce
    with c a assms(3) show "cell m'' a = cell m a" by (simp add: agree_def)
  qed
  then show ?thesis using reads by blast
qed

lemma copy_kept:
  assumes "copy r m = (r', m')" and "reach m r \<subseteq> {..<lim m}" and "agree (- {..<lim m}) m' m''"
  shows "val m'' r' = val m r"
proof -
  note c = copies [OF assms(1,2)]
  have "agree (reach m' r') m' m''"
    using c assms(3) by (auto simp: agree_def subset_iff)
  then show ?thesis using reads c by metis
qed

end

end
