(* ===== verification/Deep_Copy.thy ===== *)
theory Deep_Copy
  imports Go_Heap Api_Types
begin

text \<open>
  The deep copies of the API types (\<open>zz_generated.deepcopy.go\<close>), on a store of cells: here a slice or
  a pointer of a struct is an address, as in Go, so that sharing can be seen. Each struct with slices
  or pointers has a record \<open>\<dots>_ref\<close> of its fields; reading one through the store gives the value of
  \<open>Api_Types\<close>. Of \<open>ObjectMeta\<close>, whose copy is library code, the fields of the model are copied (the two
  flags of an owner reference are values in the model); the embedded \<open>duckv1.Status\<close>, which the
  program never uses, is left out.
\<close>

subsection \<open>Structs in memory\<close>

record approver_ref =
  dr_Name :: string
  dr_Input :: string
  dr_Message :: string
  dr_Type :: string
  dr_Users :: slice

record spec_ref =
  sr_Approvers :: slice
  sr_NumberOfApprovalsRequired :: int
  sr_Description :: string

record state_ref =
  er_Name :: string
  er_Response :: string
  er_Message :: string
  er_Type :: string
  er_GroupMembers :: slice

record status_ref =
  ur_State :: string
  ur_Approvers :: slice
  ur_ApproversResponse :: slice
  ur_StartTime :: "nat option"
  ur_ApprovalsRequired :: int
  ur_ApprovalsReceived :: int

record meta_ref =
  mr_Name :: string
  mr_Namespace :: string
  mr_UID :: string
  mr_Labels :: "nat option"
  mr_Annotations :: "nat option"
  mr_CreationTimestamp :: time
  mr_OwnerReferences :: slice

record atask_ref =
  kr_Meta :: meta_ref
  kr_Spec :: spec_ref
  kr_Status :: status_ref

text \<open>What a cell holds.\<close>

datatype obj =
    CUser (un_user: user_details)
  | CApprover (un_approver: approver_ref)
  | CMember (un_member: group_member_state)
  | CState (un_state: state_ref)
  | CName (un_name: string)
  | CTime (un_time: time)
  | CMap (un_map: str_map)
  | COwner (un_owner: owner_reference)
  | CSpec (un_spec: spec_ref)
  | CStatus (un_status: status_ref)
  | CTask (un_task: atask_ref)
  | CList (un_list: slice)
  | CRunStatus (un_run_status: "nat option")

type_synonym memory = "obj mem"

subsection \<open>\<open>DeepCopyInto\<close>\<close>

definition UserDetails_DeepCopyInto :: "user_details \<Rightarrow> memory \<Rightarrow> user_details \<times> memory" where
  "UserDetails_DeepCopyInto = by_value"

definition GroupMemberState_DeepCopyInto :: "group_member_state \<Rightarrow> memory \<Rightarrow> group_member_state \<times> memory" where
  "GroupMemberState_DeepCopyInto = by_value"

definition ApproverDetails_DeepCopyInto :: "approver_ref \<Rightarrow> memory \<Rightarrow> approver_ref \<times> memory" where
  "ApproverDetails_DeepCopyInto a m =
     (let (us, m1) = copy_slice un_user CUser by_value (dr_Users a) m in (a\<lparr>dr_Users := us\<rparr>, m1))"

definition ApproverState_DeepCopyInto :: "state_ref \<Rightarrow> memory \<Rightarrow> state_ref \<times> memory" where
  "ApproverState_DeepCopyInto a m =
     (let (ms, m1) = copy_slice un_member CMember by_value (er_GroupMembers a) m in (a\<lparr>er_GroupMembers := ms\<rparr>, m1))"

definition ApprovalTaskSpec_DeepCopyInto :: "spec_ref \<Rightarrow> memory \<Rightarrow> spec_ref \<times> memory" where
  "ApprovalTaskSpec_DeepCopyInto sp m =
     (let (as, m1) = copy_slice un_approver CApprover ApproverDetails_DeepCopyInto (sr_Approvers sp) m
      in (sp\<lparr>sr_Approvers := as\<rparr>, m1))"

definition ApprovalTaskStatus_DeepCopyInto :: "status_ref \<Rightarrow> memory \<Rightarrow> status_ref \<times> memory" where
  "ApprovalTaskStatus_DeepCopyInto st m =
     (let (as, m1) = copy_slice un_name CName by_value (ur_Approvers st) m;
          (rs, m2) = copy_slice un_state CState ApproverState_DeepCopyInto (ur_ApproversResponse st) m1;
          (t, m3) = copy_pointer un_time CTime by_value (ur_StartTime st) m2
      in (st\<lparr>ur_Approvers := as, ur_ApproversResponse := rs, ur_StartTime := t\<rparr>, m3))"

definition ObjectMeta_DeepCopyInto :: "meta_ref \<Rightarrow> memory \<Rightarrow> meta_ref \<times> memory" where
  "ObjectMeta_DeepCopyInto x m =
     (let (ls, m1) = copy_pointer un_map CMap by_value (mr_Labels x) m;
          (as, m2) = copy_pointer un_map CMap by_value (mr_Annotations x) m1;
          (os, m3) = copy_slice un_owner COwner by_value (mr_OwnerReferences x) m2
      in (x\<lparr>mr_Labels := ls, mr_Annotations := as, mr_OwnerReferences := os\<rparr>, m3))"

definition ApprovalTask_DeepCopyInto :: "atask_ref \<Rightarrow> memory \<Rightarrow> atask_ref \<times> memory" where
  "ApprovalTask_DeepCopyInto t m =
     (let (x, m1) = ObjectMeta_DeepCopyInto (kr_Meta t) m;
          (sp, m2) = ApprovalTaskSpec_DeepCopyInto (kr_Spec t) m1;
          (st, m3) = ApprovalTaskStatus_DeepCopyInto (kr_Status t) m2
      in (t\<lparr>kr_Meta := x, kr_Spec := sp, kr_Status := st\<rparr>, m3))"

definition ApprovalTaskList_DeepCopyInto :: "slice \<Rightarrow> memory \<Rightarrow> slice \<times> memory" where
  "ApprovalTaskList_DeepCopyInto items m = copy_slice un_task CTask ApprovalTask_DeepCopyInto items m"

definition ApprovalTaskRunStatus_DeepCopyInto :: "nat option \<Rightarrow> memory \<Rightarrow> nat option \<times> memory" where
  "ApprovalTaskRunStatus_DeepCopyInto sp m = copy_pointer un_spec CSpec ApprovalTaskSpec_DeepCopyInto sp m"

subsection \<open>\<open>DeepCopy\<close>\<close>

definition UserDetails_DeepCopy :: "nat option \<Rightarrow> memory \<Rightarrow> nat option \<times> memory" where
  "UserDetails_DeepCopy p m = copy_pointer un_user CUser UserDetails_DeepCopyInto p m"

definition GroupMemberState_DeepCopy :: "nat option \<Rightarrow> memory \<Rightarrow> nat option \<times> memory" where
  "GroupMemberState_DeepCopy p m = copy_pointer un_member CMember GroupMemberState_DeepCopyInto p m"

definition ApproverDetails_DeepCopy :: "nat option \<Rightarrow> memory \<Rightarrow> nat option \<times> memory" where
  "ApproverDetails_DeepCopy p m = copy_pointer un_approver CApprover ApproverDetails_DeepCopyInto p m"

definition ApproverState_DeepCopy :: "nat option \<Rightarrow> memory \<Rightarrow> nat option \<times> memory" where
  "ApproverState_DeepCopy p m = copy_pointer un_state CState ApproverState_DeepCopyInto p m"

definition ApprovalTaskSpec_DeepCopy :: "nat option \<Rightarrow> memory \<Rightarrow> nat option \<times> memory" where
  "ApprovalTaskSpec_DeepCopy p m = copy_pointer un_spec CSpec ApprovalTaskSpec_DeepCopyInto p m"

definition ApprovalTaskStatus_DeepCopy :: "nat option \<Rightarrow> memory \<Rightarrow> nat option \<times> memory" where
  "ApprovalTaskStatus_DeepCopy p m = copy_pointer un_status CStatus ApprovalTaskStatus_DeepCopyInto p m"

definition ApprovalTask_DeepCopy :: "nat option \<Rightarrow> memory \<Rightarrow> nat option \<times> memory" where
  "ApprovalTask_DeepCopy p m = copy_pointer un_task CTask ApprovalTask_DeepCopyInto p m"

definition ApprovalTaskList_DeepCopy :: "nat option \<Rightarrow> memory \<Rightarrow> nat option \<times> memory" where
  "ApprovalTaskList_DeepCopy p m = copy_pointer un_list CList ApprovalTaskList_DeepCopyInto p m"

definition ApprovalTaskRunStatus_DeepCopy :: "nat option \<Rightarrow> memory \<Rightarrow> nat option \<times> memory" where
  "ApprovalTaskRunStatus_DeepCopy p m = copy_pointer un_run_status CRunStatus ApprovalTaskRunStatus_DeepCopyInto p m"

text \<open>\<open>DeepCopyObject\<close> returns an interface: a nil copy gives a nil interface.\<close>

definition ApprovalTask_DeepCopyObject :: "nat option \<Rightarrow> memory \<Rightarrow> nat option \<times> memory" where
  "ApprovalTask_DeepCopyObject p m =
     (case ApprovalTask_DeepCopy p m of (Some c, m') \<Rightarrow> (Some c, m') | (None, m') \<Rightarrow> (None, m'))"

definition ApprovalTaskList_DeepCopyObject :: "nat option \<Rightarrow> memory \<Rightarrow> nat option \<times> memory" where
  "ApprovalTaskList_DeepCopyObject p m =
     (case ApprovalTaskList_DeepCopy p m of (Some c, m') \<Rightarrow> (Some c, m') | (None, m') \<Rightarrow> (None, m'))"

subsection \<open>What a struct in memory stands for, and the cells it reaches\<close>

abbreviation (input) no_cells :: "memory \<Rightarrow> 'e \<Rightarrow> nat set" where
  "no_cells \<equiv> \<lambda>m e. {}"

abbreviation (input) itself :: "memory \<Rightarrow> 'e \<Rightarrow> 'e" where
  "itself \<equiv> \<lambda>m. \<lambda>e. e"

definition val_approver :: "memory \<Rightarrow> approver_ref \<Rightarrow> approver_details" where
  "val_approver m a = \<lparr>ad_Name = dr_Name a, ad_Input = dr_Input a, ad_Message = dr_Message a, ad_Type = dr_Type a,
     ad_Users = val_slice un_user itself m (dr_Users a)\<rparr>"

definition reach_approver :: "memory \<Rightarrow> approver_ref \<Rightarrow> nat set" where
  "reach_approver m a = reach_slice un_user no_cells m (dr_Users a)"

definition val_state :: "memory \<Rightarrow> state_ref \<Rightarrow> approver_state" where
  "val_state m a = \<lparr>as_Name = er_Name a, as_Response = er_Response a, as_Message = er_Message a, as_Type = er_Type a,
     as_GroupMembers = val_slice un_member itself m (er_GroupMembers a)\<rparr>"

definition reach_state :: "memory \<Rightarrow> state_ref \<Rightarrow> nat set" where
  "reach_state m a = reach_slice un_member no_cells m (er_GroupMembers a)"

definition val_spec :: "memory \<Rightarrow> spec_ref \<Rightarrow> approval_task_spec" where
  "val_spec m sp = \<lparr>sp_Approvers = val_slice un_approver val_approver m (sr_Approvers sp),
     sp_NumberOfApprovalsRequired = sr_NumberOfApprovalsRequired sp, sp_Description = sr_Description sp\<rparr>"

definition reach_spec :: "memory \<Rightarrow> spec_ref \<Rightarrow> nat set" where
  "reach_spec m sp = reach_slice un_approver reach_approver m (sr_Approvers sp)"

definition val_status :: "memory \<Rightarrow> status_ref \<Rightarrow> approval_task_status" where
  "val_status m st = \<lparr>st_State = ur_State st, st_Approvers = val_slice un_name itself m (ur_Approvers st),
     st_ApproversResponse = val_slice un_state val_state m (ur_ApproversResponse st),
     st_StartTime = val_pointer un_time itself m (ur_StartTime st),
     st_ApprovalsRequired = ur_ApprovalsRequired st, st_ApprovalsReceived = ur_ApprovalsReceived st\<rparr>"

definition reach_status :: "memory \<Rightarrow> status_ref \<Rightarrow> nat set" where
  "reach_status m st = reach_slice un_name no_cells m (ur_Approvers st)
     \<union> (reach_slice un_state reach_state m (ur_ApproversResponse st)
        \<union> reach_pointer un_time no_cells m (ur_StartTime st))"

definition val_meta :: "memory \<Rightarrow> meta_ref \<Rightarrow> object_meta" where
  "val_meta m x = \<lparr>om_Name = mr_Name x, om_Namespace = mr_Namespace x, om_UID = mr_UID x,
     om_Labels = val_pointer un_map itself m (mr_Labels x),
     om_Annotations = val_pointer un_map itself m (mr_Annotations x),
     om_CreationTimestamp = mr_CreationTimestamp x,
     om_OwnerReferences = val_slice un_owner itself m (mr_OwnerReferences x)\<rparr>"

definition reach_meta :: "memory \<Rightarrow> meta_ref \<Rightarrow> nat set" where
  "reach_meta m x = reach_pointer un_map no_cells m (mr_Labels x)
     \<union> (reach_pointer un_map no_cells m (mr_Annotations x)
        \<union> reach_slice un_owner no_cells m (mr_OwnerReferences x))"

definition val_task :: "memory \<Rightarrow> atask_ref \<Rightarrow> approval_task" where
  "val_task m t = \<lparr>at_Meta = val_meta m (kr_Meta t), at_Spec = val_spec m (kr_Spec t),
     at_Status = val_status m (kr_Status t)\<rparr>"

definition reach_task :: "memory \<Rightarrow> atask_ref \<Rightarrow> nat set" where
  "reach_task m t = reach_meta m (kr_Meta t) \<union> (reach_spec m (kr_Spec t) \<union> reach_status m (kr_Status t))"

subsection \<open>Every copy meets the contract\<close>

lemma copy_pair_let:
  "copy_pair f (copy_pair g h) (a, b, c) m =
     (let (a', m1) = f a m; (b', m2) = g b m1; (c', m3) = h c m2 in ((a', b', c'), m3))"
  by (simp add: copy_pair_def split: prod.split)

lemmas copier_values = copier_slice [OF copier_value] copier_pointer [OF copier_value]

interpretation approver: copier reach_approver val_approver ApproverDetails_DeepCopyInto
proof -
  let ?F = "\<lambda>a us. \<lparr>ad_Name = dr_Name a, ad_Input = dr_Input a, ad_Message = dr_Message a, ad_Type = dr_Type a, ad_Users = us\<rparr>"
  have "copier (\<lambda>m a. reach_slice un_user no_cells m (dr_Users a)) (\<lambda>m a. ?F a (val_slice un_user itself m (dr_Users a)))
      (\<lambda>a m. case copy_slice un_user CUser by_value (dr_Users a) m of (us, m') \<Rightarrow> (a\<lparr>dr_Users := us\<rparr>, m'))"
    by (rule copier_record [OF copier_values(1)]) simp_all
  then show "copier reach_approver val_approver ApproverDetails_DeepCopyInto"
    unfolding reach_approver_def [abs_def] val_approver_def [abs_def] ApproverDetails_DeepCopyInto_def [abs_def] Let_def .
qed

interpretation state: copier reach_state val_state ApproverState_DeepCopyInto
proof -
  let ?F = "\<lambda>a ms. \<lparr>as_Name = er_Name a, as_Response = er_Response a, as_Message = er_Message a, as_Type = er_Type a,
    as_GroupMembers = ms\<rparr>"
  have "copier (\<lambda>m a. reach_slice un_member no_cells m (er_GroupMembers a))
      (\<lambda>m a. ?F a (val_slice un_member itself m (er_GroupMembers a)))
      (\<lambda>a m. case copy_slice un_member CMember by_value (er_GroupMembers a) m of (ms, m') \<Rightarrow> (a\<lparr>er_GroupMembers := ms\<rparr>, m'))"
    by (rule copier_record [OF copier_values(1)]) simp_all
  then show "copier reach_state val_state ApproverState_DeepCopyInto"
    unfolding reach_state_def [abs_def] val_state_def [abs_def] ApproverState_DeepCopyInto_def [abs_def] Let_def .
qed

interpretation spec: copier reach_spec val_spec ApprovalTaskSpec_DeepCopyInto
proof -
  let ?F = "\<lambda>sp as. \<lparr>sp_Approvers = as, sp_NumberOfApprovalsRequired = sr_NumberOfApprovalsRequired sp,
    sp_Description = sr_Description sp\<rparr>"
  have "copier (\<lambda>m sp. reach_slice un_approver reach_approver m (sr_Approvers sp))
      (\<lambda>m sp. ?F sp (val_slice un_approver val_approver m (sr_Approvers sp)))
      (\<lambda>sp m. case copy_slice un_approver CApprover ApproverDetails_DeepCopyInto (sr_Approvers sp) m of
         (as, m') \<Rightarrow> (sp\<lparr>sr_Approvers := as\<rparr>, m'))"
    by (rule copier_record [OF copier_slice [OF approver.copier_axioms]]) simp_all
  then show "copier reach_spec val_spec ApprovalTaskSpec_DeepCopyInto"
    unfolding reach_spec_def [abs_def] val_spec_def [abs_def] ApprovalTaskSpec_DeepCopyInto_def [abs_def] Let_def .
qed

interpretation status: copier reach_status val_status ApprovalTaskStatus_DeepCopyInto
proof -
  let ?F = "\<lambda>st (as, rs, t). \<lparr>st_State = ur_State st, st_Approvers = as, st_ApproversResponse = rs, st_StartTime = t,
    st_ApprovalsRequired = ur_ApprovalsRequired st, st_ApprovalsReceived = ur_ApprovalsReceived st\<rparr>"
  let ?put = "\<lambda>(as, rs, t) st. st\<lparr>ur_Approvers := as, ur_ApproversResponse := rs, ur_StartTime := t\<rparr>"
  let ?C = "copy_pair (copy_slice un_name CName by_value)
      (copy_pair (copy_slice un_state CState ApproverState_DeepCopyInto) (copy_pointer un_time CTime by_value))"
  let ?get = "\<lambda>st. (ur_Approvers st, ur_ApproversResponse st, ur_StartTime st)"
  have "copier (\<lambda>m st. reach_slice un_name no_cells m (fst (?get st))
        \<union> (reach_slice un_state reach_state m (fst (snd (?get st))) \<union> reach_pointer un_time no_cells m (snd (snd (?get st)))))
      (\<lambda>m st. ?F st (val_slice un_name itself m (fst (?get st)), val_slice un_state val_state m (fst (snd (?get st))),
        val_pointer un_time itself m (snd (snd (?get st)))))
      (\<lambda>st m. case ?C (?get st) m of (r, m') \<Rightarrow> (?put r st, m'))"
    by (rule copier_record [OF copier_pair [OF copier_values(1) copier_pair [OF copier_slice [OF state.copier_axioms]
          copier_values(2)]]]) auto
  then show "copier reach_status val_status ApprovalTaskStatus_DeepCopyInto"
    by (simp add: reach_status_def [abs_def] val_status_def [abs_def] ApprovalTaskStatus_DeepCopyInto_def [abs_def]
        copy_pair_let split_def Let_def)
qed

interpretation meta: copier reach_meta val_meta ObjectMeta_DeepCopyInto
proof -
  let ?F = "\<lambda>x (ls, as, os). \<lparr>om_Name = mr_Name x, om_Namespace = mr_Namespace x, om_UID = mr_UID x, om_Labels = ls,
    om_Annotations = as, om_CreationTimestamp = mr_CreationTimestamp x, om_OwnerReferences = os\<rparr>"
  let ?put = "\<lambda>(ls, as, os) x. x\<lparr>mr_Labels := ls, mr_Annotations := as, mr_OwnerReferences := os\<rparr>"
  let ?C = "copy_pair (copy_pointer un_map CMap by_value)
      (copy_pair (copy_pointer un_map CMap by_value) (copy_slice un_owner COwner by_value))"
  let ?get = "\<lambda>x. (mr_Labels x, mr_Annotations x, mr_OwnerReferences x)"
  have "copier (\<lambda>m x. reach_pointer un_map no_cells m (fst (?get x))
        \<union> (reach_pointer un_map no_cells m (fst (snd (?get x))) \<union> reach_slice un_owner no_cells m (snd (snd (?get x)))))
      (\<lambda>m x. ?F x (val_pointer un_map itself m (fst (?get x)), val_pointer un_map itself m (fst (snd (?get x))),
        val_slice un_owner itself m (snd (snd (?get x)))))
      (\<lambda>x m. case ?C (?get x) m of (r, m') \<Rightarrow> (?put r x, m'))"
    by (rule copier_record [OF copier_pair [OF copier_values(2) copier_pair [OF copier_values(2) copier_values(1)]]]) auto
  then show "copier reach_meta val_meta ObjectMeta_DeepCopyInto"
    by (simp add: reach_meta_def [abs_def] val_meta_def [abs_def] ObjectMeta_DeepCopyInto_def [abs_def]
        copy_pair_let split_def Let_def)
qed

interpretation task: copier reach_task val_task ApprovalTask_DeepCopyInto
proof -
  let ?F = "\<lambda>(t::atask_ref) (x, sp, st). \<lparr>at_Meta = x, at_Spec = sp, at_Status = st\<rparr>"
  let ?put = "\<lambda>(x, sp, st) t. t\<lparr>kr_Meta := x, kr_Spec := sp, kr_Status := st\<rparr>"
  let ?C = "copy_pair ObjectMeta_DeepCopyInto (copy_pair ApprovalTaskSpec_DeepCopyInto ApprovalTaskStatus_DeepCopyInto)"
  let ?get = "\<lambda>t. (kr_Meta t, kr_Spec t, kr_Status t)"
  have "copier (\<lambda>m t. reach_meta m (fst (?get t)) \<union> (reach_spec m (fst (snd (?get t))) \<union> reach_status m (snd (snd (?get t)))))
      (\<lambda>m t. ?F t (val_meta m (fst (?get t)), val_spec m (fst (snd (?get t))), val_status m (snd (snd (?get t)))))
      (\<lambda>t m. case ?C (?get t) m of (r, m') \<Rightarrow> (?put r t, m'))"
    by (rule copier_record [OF copier_pair [OF meta.copier_axioms copier_pair [OF spec.copier_axioms status.copier_axioms]]]) auto
  then show "copier reach_task val_task ApprovalTask_DeepCopyInto"
    by (simp add: reach_task_def [abs_def] val_task_def [abs_def] ApprovalTask_DeepCopyInto_def [abs_def]
        copy_pair_let split_def Let_def)
qed

text \<open>Pointers to tasks, to statuses of runs and to lists of tasks.\<close>

definition val_list :: "memory \<Rightarrow> slice \<Rightarrow> approval_task_list" where
  "val_list m s = \<lparr>atl_Items = val_slice un_task val_task m s\<rparr>"

definition val_run_status :: "memory \<Rightarrow> nat option \<Rightarrow> approval_task_run_status" where
  "val_run_status m p = \<lparr>rs_ApprovalTaskSpec = val_pointer un_spec val_spec m p\<rparr>"

interpretation tasks: copier "reach_slice un_task reach_task" val_list ApprovalTaskList_DeepCopyInto
proof -
  note c = copier_slice [OF task.copier_axioms, of un_task CTask]
  show "copier (reach_slice un_task reach_task) val_list ApprovalTaskList_DeepCopyInto"
    using copier.reads [OF c] copier.copies [OF c]
    by unfold_locales (simp_all add: val_list_def ApprovalTaskList_DeepCopyInto_def)
qed

interpretation run_status: copier "reach_pointer un_spec reach_spec" val_run_status ApprovalTaskRunStatus_DeepCopyInto
proof -
  note c = copier_pointer [OF spec.copier_axioms, of un_spec CSpec]
  show "copier (reach_pointer un_spec reach_spec) val_run_status ApprovalTaskRunStatus_DeepCopyInto"
    using copier.reads [OF c] copier.copies [OF c]
    by unfold_locales (simp_all add: val_run_status_def ApprovalTaskRunStatus_DeepCopyInto_def)
qed

interpretation task_pointer: copier "reach_pointer un_task reach_task" "val_pointer un_task val_task" ApprovalTask_DeepCopy
  unfolding ApprovalTask_DeepCopy_def [abs_def]
  by (rule copier_pointer [OF task.copier_axioms]) simp

interpretation list_pointer: copier "reach_pointer un_list (reach_slice un_task reach_task)" "val_pointer un_list val_list"
  ApprovalTaskList_DeepCopy
  unfolding ApprovalTaskList_DeepCopy_def [abs_def]
  by (rule copier_pointer [OF tasks.copier_axioms]) simp

lemma DeepCopyObject_eq: "ApprovalTask_DeepCopyObject = ApprovalTask_DeepCopy" "ApprovalTaskList_DeepCopyObject = ApprovalTaskList_DeepCopy"
  by (simp_all add: fun_eq_iff ApprovalTask_DeepCopyObject_def ApprovalTaskList_DeepCopyObject_def split: prod.split option.split)

lemma ApprovalTask_DeepCopy_Some:
  obtains m' where "ApprovalTask_DeepCopy (Some a) m = (Some (lim m), m')"
  by (cases "ApprovalTask_DeepCopyInto (un_task (cell m a)) (alloc 1 m)")
    (simp add: ApprovalTask_DeepCopy_def copy_pointer_def)

text \<open>
  C36. A deep copy of a task is a task of the same value that shares nothing with the original: after
  any writes to cells reachable from the copy (or allocated later) the original reads as before, and
  after any writes to cells that were there before the copy was made, the copy does.
\<close>

theorem deep_copy_independent:
  assumes "insert a (reach_task m (un_task (cell m a))) \<subseteq> {..<lim m}"
  shows "\<exists>b m'. ApprovalTask_DeepCopyObject (Some a) m = (Some b, m')
    \<and> val_task m' (un_task (cell m' b)) = val_task m (un_task (cell m a))
    \<and> insert b (reach_task m' (un_task (cell m' b))) \<inter> insert a (reach_task m (un_task (cell m a))) = {}
    \<and> (\<forall>m''. agree (- insert b (reach_task m' (un_task (cell m' b)))) m' m''
           \<longrightarrow> val_task m'' (un_task (cell m'' a)) = val_task m (un_task (cell m a)))
    \<and> (\<forall>m''. agree {lim m..} m' m'' \<longrightarrow> val_task m'' (un_task (cell m'' b)) = val_task m (un_task (cell m a)))"
proof -
  obtain m' where c: "ApprovalTask_DeepCopy (Some a) m = (Some (lim m), m')" by (rule ApprovalTask_DeepCopy_Some)
  have r: "reach_pointer un_task reach_task m (Some a) \<subseteq> {..<lim m}" using assms by (simp add: reach_pointer_def)
  have up: "{lim m..} = - {..<lim m}" by auto
  have "val_task m' (un_task (cell m' (lim m))) = val_task m (un_task (cell m a))"
    using task_pointer.copy_equal [OF c r] unfolding val_pointer_def option.map option.inject .
  moreover have "insert (lim m) (reach_task m' (un_task (cell m' (lim m)))) \<inter> insert a (reach_task m (un_task (cell m a))) = {}"
    using task_pointer.copy_fresh [OF c r] assms unfolding reach_pointer_def option.case by blast
  moreover have "val_task m'' (un_task (cell m'' a)) = val_task m (un_task (cell m a))"
    if "agree (- insert (lim m) (reach_task m' (un_task (cell m' (lim m))))) m' m''" for m''
    using task_pointer.original_kept [OF c r, of m''] that
    unfolding reach_pointer_def val_pointer_def option.case option.map option.inject .
  moreover have "val_task m'' (un_task (cell m'' (lim m))) = val_task m (un_task (cell m a))"
    if "agree {lim m..} m' m''" for m''
    using task_pointer.copy_kept [OF c r, of m''] that unfolding up val_pointer_def option.map option.inject .
  ultimately show ?thesis using c unfolding DeepCopyObject_eq by blast
qed

text \<open>A task whose one approver is a group with a member, at the addresses 0 to 2.\<close>

definition memory0 :: memory where
  "memory0 = \<lparr>lim = 3, cell = (\<lambda>a.
     if a = 0 then CTask \<lparr>kr_Meta = \<lparr>mr_Name = ''deploy'', mr_Namespace = ''prod'', mr_UID = [], mr_Labels = None,
         mr_Annotations = None, mr_CreationTimestamp = 1, mr_OwnerReferences = NilSlice\<rparr>,
       kr_Spec = \<lparr>sr_Approvers = Slice 1 1, sr_NumberOfApprovalsRequired = 1, sr_Description = []\<rparr>,
       kr_Status = \<lparr>ur_State = ''pending'', ur_Approvers = NilSlice, ur_ApproversResponse = NilSlice, ur_StartTime = None,
         ur_ApprovalsRequired = 1, ur_ApprovalsReceived = 0\<rparr>\<rparr>
     else if a = 1 then CApprover \<lparr>dr_Name = ''devs'', dr_Input = ''pending'', dr_Message = [], dr_Type = ''Group'',
       dr_Users = Slice 2 1\<rparr>
     else CUser \<lparr>ud_Name = ''carol'', ud_Input = ''pending'', ud_Message = []\<rparr>)\<rparr>"

lemma memory0_reach: "reach_task memory0 (un_task (cell memory0 0)) = {1, 2}"
  by (auto simp: reach_task_def reach_meta_def reach_spec_def reach_status_def reach_slice_def reach_pointer_def
      reach_approver_def memory0_def)

theorem deep_copy_independent_witness:
  "\<exists>b m'. ApprovalTask_DeepCopyObject (Some 0) memory0 = (Some b, m')
    \<and> (\<forall>m''. agree {3..} m' m'' \<longrightarrow>
         ad_Users (hd (sp_Approvers (at_Spec (val_task m'' (un_task (cell m'' b))))))
           = [\<lparr>ud_Name = ''carol'', ud_Input = ''pending'', ud_Message = []\<rparr>])"
proof -
  have v: "ad_Users (hd (sp_Approvers (at_Spec (val_task memory0 (un_task (cell memory0 0))))))
      = [\<lparr>ud_Name = ''carol'', ud_Input = ''pending'', ud_Message = []\<rparr>]"
    by (simp add: val_task_def val_spec_def val_slice_def val_approver_def memory0_def)
  have l: "lim memory0 = 3" by (simp add: memory0_def)
  have "insert 0 (reach_task memory0 (un_task (cell memory0 0))) \<subseteq> {..<lim memory0}"
    by (auto simp: memory0_reach l)
  from deep_copy_independent [OF this] v show ?thesis unfolding l by metis
qed

end
