(* ===== verification/Informer_Factory.thy ===== *)
theory Informer_Factory
  imports Api_Types "HOL-Library.Finite_Map"
begin

text \<open>
  The shared informers (\<open>pkg/client/informers/externalversions\<close>) and what hands them to the
  controllers (\<open>pkg/client/injection/informers\<close>). The factory is a state machine: informers are
  registered on demand, one per type; \<open>Start\<close> launches a goroutine for each that has none;
  \<open>Shutdown\<close> forbids further launches and waits for those that run. Every method takes the factory's
  lock, so it is one step. An informer is known by its number \<open>inf_id\<close>, which stands for its pointer;
  what it does once it runs is the client library's.
\<close>

type_synonym gotype = string

record list_options =
  lo_LabelSelector :: string
  lo_FieldSelector :: string

type_synonym tweak = "(list_options \<Rightarrow> list_options) option"

record informer =
  inf_id :: nat
  inf_ObjectType :: gotype
  inf_Namespace :: string
  inf_Resync :: duration
  inf_Indexers :: "string list"
  inf_Tweak :: tweak
  inf_Transform :: "(approval_task \<Rightarrow> approval_task) option"

text \<open>A goroutine runs the informer of a type until its stop channel is closed.\<close>

record goroutine =
  go_Type :: gotype
  go_Informer :: informer
  go_StopCh :: nat

record factory =
  f_namespace :: string
  f_tweakListOptions :: tweak
  f_defaultResync :: duration
  f_customResync :: "(gotype, duration) fmap"
  f_transform :: "(approval_task \<Rightarrow> approval_task) option"
  f_informers :: "(gotype, informer) fmap"
  f_startedInformers :: "(gotype, bool) fmap"
  f_wg :: nat
  f_shuttingDown :: bool
  f_allocated :: nat

subsection \<open>Construction\<close>

type_synonym factory_option = "factory \<Rightarrow> factory"

text \<open>The map of periods is given as the list of its entries in the order they are visited.\<close>

definition WithCustomResyncConfig :: "(gotype \<times> duration) list \<Rightarrow> factory_option" where
  "WithCustomResyncConfig resyncConfig f =
     f\<lparr>f_customResync := fold (\<lambda>(k, v) m. fmupd k v m) resyncConfig (f_customResync f)\<rparr>"

definition WithTweakListOptions :: "tweak \<Rightarrow> factory_option" where
  "WithTweakListOptions t f = f\<lparr>f_tweakListOptions := t\<rparr>"

definition WithNamespace :: "string \<Rightarrow> factory_option" where
  "WithNamespace ns f = f\<lparr>f_namespace := ns\<rparr>"

definition WithTransform :: "(approval_task \<Rightarrow> approval_task) option \<Rightarrow> factory_option" where
  "WithTransform t f = f\<lparr>f_transform := t\<rparr>"

definition NewSharedInformerFactoryWithOptions :: "duration \<Rightarrow> factory_option list \<Rightarrow> factory" where
  "NewSharedInformerFactoryWithOptions defaultResync options =
     fold (\<lambda>opt f. opt f) options
       \<lparr>f_namespace = [], f_tweakListOptions = None, f_defaultResync = defaultResync, f_customResync = fmempty,
        f_transform = None, f_informers = fmempty, f_startedInformers = fmempty, f_wg = 0,
        f_shuttingDown = False, f_allocated = 0\<rparr>"

definition NewSharedInformerFactory :: "duration \<Rightarrow> factory" where
  "NewSharedInformerFactory defaultResync = NewSharedInformerFactoryWithOptions defaultResync []"

definition NewFilteredSharedInformerFactory :: "duration \<Rightarrow> string \<Rightarrow> tweak \<Rightarrow> factory" where
  "NewFilteredSharedInformerFactory defaultResync ns t =
     NewSharedInformerFactoryWithOptions defaultResync [WithNamespace ns, WithTweakListOptions t]"

subsection \<open>Registration\<close>

text \<open>\<open>newFunc\<close> makes an informer for a resync period; a new informer has a new number.\<close>

definition InformerFor :: "gotype \<Rightarrow> (duration \<Rightarrow> informer) \<Rightarrow> factory \<Rightarrow> informer \<times> factory" where
  "InformerFor informerType newFunc f =
     (case fmlookup (f_informers f) informerType of
        Some i \<Rightarrow> (i, f)
      | None \<Rightarrow>
          (let resyncPeriod = (case fmlookup (f_customResync f) informerType of
                                 Some d \<Rightarrow> d | None \<Rightarrow> f_defaultResync f);
               i = (newFunc resyncPeriod)\<lparr>inf_id := f_allocated f, inf_Transform := f_transform f\<rparr>
           in (i, f\<lparr>f_informers := fmupd informerType i (f_informers f), f_allocated := Suc (f_allocated f)\<rparr>)))"

abbreviation (input) "ApprovalTaskType \<equiv> ''*v1alpha1.ApprovalTask''"
abbreviation (input) "NamespaceIndex \<equiv> ''namespace''"

definition NewFilteredApprovalTaskInformer :: "string \<Rightarrow> duration \<Rightarrow> string list \<Rightarrow> tweak \<Rightarrow> informer" where
  "NewFilteredApprovalTaskInformer ns resyncPeriod indexers t =
     \<lparr>inf_id = 0, inf_ObjectType = ApprovalTaskType, inf_Namespace = ns, inf_Resync = resyncPeriod,
      inf_Indexers = indexers, inf_Tweak = t, inf_Transform = None\<rparr>"

definition NewApprovalTaskInformer :: "string \<Rightarrow> duration \<Rightarrow> string list \<Rightarrow> informer" where
  "NewApprovalTaskInformer ns resyncPeriod indexers = NewFilteredApprovalTaskInformer ns resyncPeriod indexers None"

text \<open>\<open>ListFunc\<close>: the request an informer lists its objects with, as its namespace and options.\<close>

definition ListFunc :: "informer \<Rightarrow> list_options \<Rightarrow> string \<times> list_options" where
  "ListFunc i options =
     (inf_Namespace i, case inf_Tweak i of None \<Rightarrow> options | Some t \<Rightarrow> t options)"

text \<open>
  \<open>Openshiftpipelines().V1alpha1().ApprovalTasks()\<close> carries the namespace and the tweak of the
  factory down to the typed informer, by way of the group and the version.
\<close>

record informer_group =
  ig_namespace :: string
  ig_tweakListOptions :: tweak

record informer_version =
  iv_namespace :: string
  iv_tweakListOptions :: tweak

record typed_informer =
  ti_tweakListOptions :: tweak
  ti_namespace :: string

definition group_New :: "string \<Rightarrow> tweak \<Rightarrow> informer_group" where
  "group_New ns t = \<lparr>ig_namespace = ns, ig_tweakListOptions = t\<rparr>"

definition version_New :: "string \<Rightarrow> tweak \<Rightarrow> informer_version" where
  "version_New ns t = \<lparr>iv_namespace = ns, iv_tweakListOptions = t\<rparr>"

definition V1alpha1 :: "informer_group \<Rightarrow> informer_version" where
  "V1alpha1 g = version_New (ig_namespace g) (ig_tweakListOptions g)"

definition version_ApprovalTasks :: "informer_version \<Rightarrow> typed_informer" where
  "version_ApprovalTasks v = \<lparr>ti_tweakListOptions = iv_tweakListOptions v, ti_namespace = iv_namespace v\<rparr>"

definition Openshiftpipelines :: "factory \<Rightarrow> informer_group" where
  "Openshiftpipelines f = group_New (f_namespace f) (f_tweakListOptions f)"

definition typed_ApprovalTasks :: "factory \<Rightarrow> typed_informer" where
  "typed_ApprovalTasks f = version_ApprovalTasks (V1alpha1 (Openshiftpipelines f))"

lemma typed_ApprovalTasks_eq:
  "typed_ApprovalTasks f = \<lparr>ti_tweakListOptions = f_tweakListOptions f, ti_namespace = f_namespace f\<rparr>"
  by (simp add: typed_ApprovalTasks_def version_ApprovalTasks_def V1alpha1_def version_New_def Openshiftpipelines_def
      group_New_def)

definition defaultInformer :: "typed_informer \<Rightarrow> duration \<Rightarrow> informer" where
  "defaultInformer ti resyncPeriod =
     NewFilteredApprovalTaskInformer (ti_namespace ti) resyncPeriod [NamespaceIndex] (ti_tweakListOptions ti)"

definition typed_Informer :: "typed_informer \<Rightarrow> factory \<Rightarrow> informer \<times> factory" where
  "typed_Informer ti f = InformerFor ApprovalTaskType (defaultInformer ti) f"

record group_version_resource =
  gvr_Group :: string
  gvr_Version :: string
  gvr_Resource :: string

definition ForResource :: "group_version_resource \<Rightarrow> factory \<Rightarrow> (string + informer \<times> (string \<times> string)) \<times> factory" where
  "ForResource resource f =
     (if resource = \<lparr>gvr_Group = gv_Group SchemeGroupVersion, gvr_Version = gv_Version SchemeGroupVersion,
                     gvr_Resource = ''approvaltasks''\<rparr>
      then (case typed_Informer (typed_ApprovalTasks f) f of
              (i, f') \<Rightarrow> (Inr (i, gvr_Group resource, gvr_Resource resource), f'))
      else (Inl (''no informer found for '' @ gvr_Group resource @ ''/'' @ gvr_Version resource @ '', Resource='' @ gvr_Resource resource), f))"

subsection \<open>Running\<close>

definition started :: "factory \<Rightarrow> gotype \<Rightarrow> bool" where
  "started f t \<longleftrightarrow> fmlookup (f_startedInformers f) t = Some True"

text \<open>One turn of the loop of \<open>Start\<close>; the second component are the goroutines launched.\<close>

definition start_one :: "nat \<Rightarrow> gotype \<times> informer \<Rightarrow> factory \<times> goroutine list \<Rightarrow> factory \<times> goroutine list" where
  "start_one stopCh = (\<lambda>(t, i) (f, gs).
     if \<not> started f t
     then (f\<lparr>f_wg := Suc (f_wg f), f_startedInformers := fmupd t True (f_startedInformers f)\<rparr>,
           gs @ [\<lparr>go_Type = t, go_Informer = i, go_StopCh = stopCh\<rparr>])
     else (f, gs))"

text \<open>The map is visited in the order of its keys; every order launches the same goroutines.\<close>

definition Start :: "nat \<Rightarrow> factory \<Rightarrow> factory \<times> goroutine list" where
  "Start stopCh f =
     (if f_shuttingDown f then (f, [])
      else fold (start_one stopCh) (sorted_list_of_fmap (f_informers f)) (f, []))"

text \<open>\<open>Shutdown\<close> sets the flag and then waits; a goroutine that ends says so to the wait group.\<close>

definition Shutdown_begin :: "factory \<Rightarrow> factory" where
  "Shutdown_begin f = f\<lparr>f_shuttingDown := True\<rparr>"

definition Shutdown_may_return :: "factory \<Rightarrow> bool" where
  "Shutdown_may_return f \<longleftrightarrow> f_wg f = 0"

definition wg_Done :: "factory \<Rightarrow> factory" where
  "wg_Done f = f\<lparr>f_wg := f_wg f - 1\<rparr>"

text \<open>\<open>synced\<close> is the answer of \<open>cache.WaitForCacheSync\<close> for an informer.\<close>

definition WaitForCacheSync :: "(informer \<Rightarrow> bool) \<Rightarrow> factory \<Rightarrow> (gotype, bool) fmap" where
  "WaitForCacheSync synced f = fmmap synced (fmfilter (started f) (f_informers f))"

end
