(* ===== verification/Informer_Facts.thy ===== *)
theory Informer_Facts
  imports Informer_Factory "HOL-Library.Multiset"
begin

text \<open>
  What the users of the factory rely on: the same informer for every request, one goroutine per
  type, and silence after a shutdown. The locale \<open>informer_source\<close> is the interface the typed informer
  and the generic one work against (\<open>internalinterfaces.SharedInformerFactory\<close>).
\<close>

subsection \<open>One informer per type\<close>

fun request_all ::
  "(gotype \<Rightarrow> (duration \<Rightarrow> informer) \<Rightarrow> 's \<Rightarrow> informer \<times> 's) \<Rightarrow> (gotype \<times> (duration \<Rightarrow> informer)) list \<Rightarrow> 's \<Rightarrow> 's" where
  "request_all informer_for [] s = s"
| "request_all informer_for ((t, g) # rs) s = request_all informer_for rs (snd (informer_for t g s))"

locale informer_source =
  fixes informer_for :: "gotype \<Rightarrow> (duration \<Rightarrow> informer) \<Rightarrow> 's \<Rightarrow> informer \<times> 's"
  assumes again: "informer_for t g s = (i, s') \<Longrightarrow> informer_for t h s' = (i, s')"
    and stable: "informer_for t g s = (i, s') \<Longrightarrow> informer_for u h s' = (j, s'') \<Longrightarrow> informer_for t k s'' = (i, s'')"
begin

text \<open>Whatever is asked for in between, the first answer for a type stays the answer.\<close>

lemma same_informer:
  assumes "informer_for t g s = (i, s')"
  shows "fst (informer_for t h (request_all informer_for rs s')) = i"
proof -
  have "\<forall>k. informer_for t k s1 = (i, s1) \<Longrightarrow> \<forall>k. informer_for t k (request_all informer_for rs s1) = (i, request_all informer_for rs s1)" for s1
  proof (induction rs arbitrary: s1)
    case (Cons r rs)
    obtain u h' where r: "r = (u, h')" by force
    obtain j s2 where u: "informer_for u h' s1 = (j, s2)" by force
    have "\<forall>k. informer_for t k s2 = (i, s2)" using stable [OF spec [OF Cons.prems, of h'] u] by blast
    from Cons.IH [OF this] show ?case by (simp add: r u)
  qed simp
  moreover have "\<forall>k. informer_for t k s' = (i, s')" using again [OF assms] by blast
  ultimately show ?thesis by simp
qed

end

interpretation informers: informer_source InformerFor
  by unfold_locales
    (auto simp: InformerFor_def Let_def split: option.splits if_splits)

subsection \<open>Starting\<close>

lemma sorted_list_of_fmap_keys: "map fst (sorted_list_of_fmap m) = sorted_list_of_fset (fmdom m)"
  by (simp add: sorted_list_of_fmap_def comp_def)

lemma sorted_list_of_fmap_mem: "(t, i) \<in> set (sorted_list_of_fmap m) \<longleftrightarrow> fmlookup m t = Some i"
  by (auto simp: sorted_list_of_fmap_def fmlookup_dom_iff)

lemma start_one_simps [simp]:
  "started f t \<Longrightarrow> start_one ch (t, i) (f, gs) = (f, gs)"
  "\<not> started f t \<Longrightarrow> start_one ch (t, i) (f, gs) =
     (f\<lparr>f_wg := Suc (f_wg f), f_startedInformers := fmupd t True (f_startedInformers f)\<rparr>,
      gs @ [\<lparr>go_Type = t, go_Informer = i, go_StopCh = ch\<rparr>])"
  by (simp_all add: start_one_def)

lemma fold_start:
  assumes "fold (start_one ch) xs (f, gs0) = (f', gs)" and "distinct (map fst xs)"
  shows "gs = gs0 @ map (\<lambda>(t, i). \<lparr>go_Type = t, go_Informer = i, go_StopCh = ch\<rparr>) (filter (\<lambda>x. \<not> started f (fst x)) xs)
    \<and> f_informers f' = f_informers f \<and> f_shuttingDown f' = f_shuttingDown f \<and> f_allocated f' = f_allocated f
    \<and> f_wg f' + length gs0 = f_wg f + length gs
    \<and> (\<forall>t. started f' t \<longleftrightarrow> started f t \<or> t \<in> fst ` set xs)"
  using assms
proof (induction xs arbitrary: f gs0)
  case (Cons x xs)
  obtain t i where x: "x = (t, i)" by force
  show ?case
  proof (cases "started f t")
    case True
    have "fold (start_one ch) xs (f, gs0) = (f', gs)" using Cons.prems(1) True by (simp add: x)
    with Cons.IH [OF this] Cons.prems(2) True show ?thesis by (auto simp: x)
  next
    case False
    define f1 where "f1 = f\<lparr>f_wg := Suc (f_wg f), f_startedInformers := fmupd t True (f_startedInformers f)\<rparr>"
    have st: "started f1 u \<longleftrightarrow> started f u \<or> u = t" for u by (simp add: f1_def started_def)
    have "fold (start_one ch) xs (f1, gs0 @ [\<lparr>go_Type = t, go_Informer = i, go_StopCh = ch\<rparr>]) = (f', gs)"
      using Cons.prems(1) False by (simp add: x f1_def)
    note ih = Cons.IH [OF this]
    have "t \<notin> fst ` set xs" using Cons.prems(2) by (simp add: x)
    then have "filter (\<lambda>x. \<not> started f1 (fst x)) xs = filter (\<lambda>x. \<not> started f (fst x)) xs"
      by (intro filter_cong) (auto simp: st)
    with ih Cons.prems(2) False show ?thesis
      by (auto simp: x st) (auto simp: f1_def)
  qed
qed simp

lemma Start_spec:
  assumes "Start ch f = (f', gs)"
  shows "f_informers f' = f_informers f" and "f_shuttingDown f' = f_shuttingDown f" and "f_allocated f' = f_allocated f"
    and "f_wg f' = f_wg f + length gs"
    and "f_shuttingDown f \<Longrightarrow> f' = f \<and> gs = []"
    and "distinct (map go_Type gs)"
    and "g \<in> set gs \<Longrightarrow> fmlookup (f_informers f) (go_Type g) = Some (go_Informer g) \<and> \<not> started f (go_Type g) \<and> go_StopCh g = ch"
    and "started f' t \<longleftrightarrow> started f t \<or> t \<in> go_Type ` set gs"
    and "\<not> f_shuttingDown f \<Longrightarrow> t |\<in>| fmdom (f_informers f) \<Longrightarrow> started f' t"
proof -
  let ?xs = "sorted_list_of_fmap (f_informers f)"
  let ?new = "filter (\<lambda>x. \<not> started f (fst x)) ?xs"
  have d: "distinct (map fst ?xs)" by (simp add: sorted_list_of_fmap_keys sorted_list_of_fset.rep_eq)
  have f: "f' = f \<and> gs = [] \<or> \<not> f_shuttingDown f \<and> fold (start_one ch) ?xs (f, []) = (f', gs)"
    using assms by (auto simp: Start_def split: if_splits)
  note fs = fold_start [OF _ d, of ch f "[]" f' gs]
  show "f_informers f' = f_informers f" "f_shuttingDown f' = f_shuttingDown f" "f_allocated f' = f_allocated f"
    "f_wg f' = f_wg f + length gs"
    using f fs by auto
  show "f_shuttingDown f \<Longrightarrow> f' = f \<and> gs = []" using assms by (simp add: Start_def)
  have gs: "gs = [] \<or> gs = map (\<lambda>(t, i). \<lparr>go_Type = t, go_Informer = i, go_StopCh = ch\<rparr>) ?new" using f fs by auto
  have "map go_Type (map (\<lambda>(t, i). \<lparr>go_Type = t, go_Informer = i, go_StopCh = ch\<rparr>) ?new) = map fst ?new"
    by (simp add: comp_def split_def)
  with gs d show "distinct (map go_Type gs)" by (auto simp: distinct_map_filter simp del: map_map)
  show "fmlookup (f_informers f) (go_Type g) = Some (go_Informer g) \<and> \<not> started f (go_Type g) \<and> go_StopCh g = ch"
    if "g \<in> set gs"
    using that gs by (auto simp: sorted_list_of_fmap_mem)
  have im: "go_Type ` set gs = {u \<in> fst ` set ?xs. \<not> started f u}" if "\<not> (f' = f \<and> gs = [])"
    using that f fs by (force simp: image_iff)
  show "started f' t \<longleftrightarrow> started f t \<or> t \<in> go_Type ` set gs"
    using f fs im by (cases "f' = f \<and> gs = []") auto
  have keys: "fst ` set ?xs = {u. u |\<in>| fmdom (f_informers f)}"
    using arg_cong [OF sorted_list_of_fmap_keys [of "f_informers f"], of set] by simp
  show "started f' t" if "\<not> f_shuttingDown f" "t |\<in>| fmdom (f_informers f)"
  proof -
    have "fold (start_one ch) ?xs (f, []) = (f', gs)" using assms that(1) by (simp add: Start_def)
    from fs [OF this] that(2) keys show ?thesis by auto
  qed
qed

subsection \<open>Histories of a factory\<close>

text \<open>
  The factory with its goroutines: those running, all that were ever launched, and the stop
  channels closed so far. A goroutine ends after its channel was closed.
\<close>

record factory_state =
  fs_factory :: factory
  fs_running :: "goroutine list"
  fs_launched :: "goroutine list"
  fs_closed :: "nat set"

inductive factory_step :: "factory_state \<Rightarrow> factory_state \<Rightarrow> bool" where
  request: "InformerFor t newFunc (fs_factory s) = (i, f) \<Longrightarrow> factory_step s (s\<lparr>fs_factory := f\<rparr>)"
| start: "Start ch (fs_factory s) = (f, gs) \<Longrightarrow>
    factory_step s (s\<lparr>fs_factory := f, fs_running := fs_running s @ gs, fs_launched := fs_launched s @ gs\<rparr>)"
| close: "factory_step s (s\<lparr>fs_closed := insert ch (fs_closed s)\<rparr>)"
| finish: "g \<in> set (fs_running s) \<Longrightarrow> go_StopCh g \<in> fs_closed s \<Longrightarrow>
    factory_step s (s\<lparr>fs_factory := wg_Done (fs_factory s), fs_running := remove1 g (fs_running s)\<rparr>)"
| shutdown: "factory_step s (s\<lparr>fs_factory := Shutdown_begin (fs_factory s)\<rparr>)"

inductive_cases factory_stepE: "factory_step s s'"

inductive factory_run :: "factory_state \<Rightarrow> factory_state \<Rightarrow> bool" where
  here: "factory_run s s"
| there: "factory_run s s' \<Longrightarrow> factory_step s' s'' \<Longrightarrow> factory_run s s''"

definition fresh_factory :: "factory_state \<Rightarrow> bool" where
  "fresh_factory s \<longleftrightarrow>
     f_informers (fs_factory s) = fmempty \<and> f_startedInformers (fs_factory s) = fmempty \<and> f_wg (fs_factory s) = 0
     \<and> fs_running s = [] \<and> fs_launched s = []"

definition factory_inv :: "factory_state \<Rightarrow> bool" where
  "factory_inv s \<longleftrightarrow>
     f_wg (fs_factory s) = length (fs_running s) \<and> distinct (map go_Type (fs_launched s))
     \<and> (\<forall>t. started (fs_factory s) t \<longleftrightarrow> t \<in> go_Type ` set (fs_launched s))
     \<and> (\<forall>g \<in> set (fs_launched s). fmlookup (f_informers (fs_factory s)) (go_Type g) = Some (go_Informer g))
     \<and> mset (fs_running s) \<subseteq># mset (fs_launched s)"

lemma fresh_inv: "fresh_factory s \<Longrightarrow> factory_inv s"
  by (simp add: fresh_factory_def factory_inv_def started_def)

lemma InformerFor_sel:
  assumes "InformerFor t newFunc f = (i, f')"
  shows "f_wg f' = f_wg f" and "f_startedInformers f' = f_startedInformers f"
    and "f_shuttingDown f' = f_shuttingDown f"
    and "fmlookup (f_informers f) u = Some j \<Longrightarrow> fmlookup (f_informers f') u = Some j"
    and "fmlookup (f_informers f') t = Some i"
  using assms by (auto simp: InformerFor_def Let_def split: option.splits)

lemma step_inv:
  assumes "factory_step s s'" and "factory_inv s"
  shows "factory_inv s'"
  using assms(1)
proof (cases rule: factory_step.cases)
  case (request t newFunc i f)
  note sel = InformerFor_sel [OF request(2)]
  have "started f u = started (fs_factory s) u" for u by (simp add: started_def sel(2))
  with request sel(1,4) assms(2) show ?thesis by (simp add: factory_inv_def)
next
  case (start ch f gs)
  note sp = Start_spec [OF start(2)]
  have "go_Type ` set gs \<inter> go_Type ` set (fs_launched s) = {}"
    using sp(7) assms(2) by (fastforce simp: factory_inv_def)
  with start sp(1,4,6,7,8) assms(2) show ?thesis
    by (auto simp: factory_inv_def subset_mset.add_mono)
next
  case (finish g)
  have l: "length (remove1 g (fs_running s)) = length (fs_running s) - 1"
    using finish(2) by (simp add: length_remove1)
  have "mset (remove1 g (fs_running s)) \<subseteq># mset (fs_launched s)"
    using assms(2) by (auto simp: factory_inv_def intro: subset_mset.order_trans [OF diff_subset_eq_self])
  with finish l assms(2) show ?thesis by (simp add: factory_inv_def wg_Done_def started_def)
qed (use assms(2) in \<open>auto simp: factory_inv_def Shutdown_begin_def started_def\<close>)

lemma run_inv: "factory_run s s' \<Longrightarrow> factory_inv s \<Longrightarrow> factory_inv s'"
  by (induction rule: factory_run.induct) (auto intro: step_inv)

lemma shutdown_step:
  assumes "factory_step s s'" and "f_shuttingDown (fs_factory s)"
  shows "f_shuttingDown (fs_factory s') \<and> fs_launched s' = fs_launched s \<and> set (fs_running s') \<subseteq> set (fs_running s)"
  using assms(1)
proof (cases rule: factory_step.cases)
  case (start ch f gs)
  with Start_spec(5) [OF start(2)] assms(2) show ?thesis by simp
qed (use assms(2) InformerFor_sel(3) set_remove1_subset in \<open>fastforce simp: wg_Done_def Shutdown_begin_def\<close>)+

lemma shutdown_run:
  "factory_run s s' \<Longrightarrow> f_shuttingDown (fs_factory s) \<Longrightarrow>
     f_shuttingDown (fs_factory s') \<and> fs_launched s' = fs_launched s \<and> set (fs_running s') \<subseteq> set (fs_running s)"
  by (induction rule: factory_run.induct) (auto dest: shutdown_step)

subsection \<open>Properties\<close>

text \<open>
  C32. Informers run once: in every history of requests, starts, stops and shutdowns of a new
  factory, no type is ever launched twice, each goroutine runs the informer that is registered for
  its type, the started types are those launched, and the wait group counts the goroutines running. When
  \<open>Shutdown\<close> is called at any moment, nothing is launched any more in any history from there on, whatever is
  requested and started, and what runs then is what ran already.
\<close>

theorem informers_run_once:
  assumes "fresh_factory s" and "factory_run s s'"
  shows "distinct (map go_Type (fs_launched s'))
    \<and> (\<forall>t. started (fs_factory s') t \<longleftrightarrow> t \<in> go_Type ` set (fs_launched s'))
    \<and> (\<forall>g \<in> set (fs_launched s'). fmlookup (f_informers (fs_factory s')) (go_Type g) = Some (go_Informer g))
    \<and> f_wg (fs_factory s') = length (fs_running s') \<and> set (fs_running s') \<subseteq> set (fs_launched s')
    \<and> (\<forall>s''. factory_run (s'\<lparr>fs_factory := Shutdown_begin (fs_factory s')\<rparr>) s'' \<longrightarrow>
         fs_launched s'' = fs_launched s' \<and> set (fs_running s'') \<subseteq> set (fs_running s'))"
proof -
  have "factory_inv s'" using run_inv [OF assms(2) fresh_inv [OF assms(1)]] .
  moreover have "fs_launched s'' = fs_launched s' \<and> set (fs_running s'') \<subseteq> set (fs_running s')"
    if "factory_run (s'\<lparr>fs_factory := Shutdown_begin (fs_factory s')\<rparr>) s''" for s''
    using shutdown_run [OF that] by (simp add: Shutdown_begin_def)
  ultimately show ?thesis by (auto simp: factory_inv_def dest: mset_subset_eqD)
qed

definition fstate0 :: factory_state where
  "fstate0 = \<lparr>fs_factory = NewSharedInformerFactory 5, fs_running = [], fs_launched = [], fs_closed = {}\<rparr>"

lemma fstate0_fresh: "fresh_factory fstate0"
  by (simp add: fresh_factory_def fstate0_def NewSharedInformerFactory_def NewSharedInformerFactoryWithOptions_def)

text \<open>The typed informer is requested and started twice; it runs once.\<close>

definition requested0 :: "informer \<times> factory" where
  "requested0 = typed_Informer (typed_ApprovalTasks (fs_factory fstate0)) (fs_factory fstate0)"

lemma requested0_eval:
  "snd requested0 = (NewSharedInformerFactory 5)
     \<lparr>f_informers := fmupd ''*v1alpha1.ApprovalTask'' (fst requested0) fmempty, f_allocated := 1\<rparr>"
  by (simp add: requested0_def typed_Informer_def InformerFor_def fstate0_def NewSharedInformerFactory_def
      NewSharedInformerFactoryWithOptions_def Let_def)

lemma twice_started0:
  "\<exists>s'. factory_run fstate0 s' \<and> length (fs_launched s') = 1 \<and> f_wg (fs_factory s') = 1"
proof -
  define s1 where "s1 = fstate0\<lparr>fs_factory := snd requested0\<rparr>"
  obtain f2 gs where st: "Start 7 (fs_factory s1) = (f2, gs)" by force
  define s2 where "s2 = s1\<lparr>fs_factory := f2, fs_running := fs_running s1 @ gs, fs_launched := fs_launched s1 @ gs\<rparr>"
  obtain f3 hs where st2: "Start 8 (fs_factory s2) = (f3, hs)" by force
  define s3 where "s3 = s2\<lparr>fs_factory := f3, fs_running := fs_running s2 @ hs, fs_launched := fs_launched s2 @ hs\<rparr>"
  have "InformerFor ''*v1alpha1.ApprovalTask'' (defaultInformer (typed_ApprovalTasks (fs_factory fstate0)))
      (fs_factory fstate0) = (fst requested0, snd requested0)"
    by (simp add: requested0_def typed_Informer_def)
  then have "factory_run fstate0 s1" unfolding s1_def by (intro factory_run.there [OF factory_run.here] factory_step.request)
  then have "factory_run fstate0 s2"
    unfolding s2_def by (rule factory_run.there) (rule factory_step.start [OF st])
  then have r3: "factory_run fstate0 s3"
    unfolding s3_def by (rule factory_run.there) (rule factory_step.start [OF st2])
  have d: "fmdom (f_informers (fs_factory s1)) = {|''*v1alpha1.ApprovalTask''|}" "\<not> f_shuttingDown (fs_factory s1)"
    "fs_launched s1 = []" "f_wg (fs_factory s1) = 0"
    by (simp_all add: s1_def requested0_eval NewSharedInformerFactory_def NewSharedInformerFactoryWithOptions_def fstate0_def)
  have on: "started f2 ''*v1alpha1.ApprovalTask''" using Start_spec(9) [OF st] d by simp
  have "\<not> started (fs_factory s1) ''*v1alpha1.ApprovalTask''"
    by (simp add: started_def s1_def requested0_eval NewSharedInformerFactory_def NewSharedInformerFactoryWithOptions_def)
  moreover have "go_Type g = ''*v1alpha1.ApprovalTask''" if "g \<in> set gs" for g
    using Start_spec(7) [OF st that] fmdomI [of "f_informers (fs_factory s1)" "go_Type g"] d(1) by auto
  ultimately have "go_Type ` set gs = {''*v1alpha1.ApprovalTask''}"
    using Start_spec(8) [OF st, of "''*v1alpha1.ApprovalTask''"] on by auto
  then have g1: "length gs = 1" using distinct_card [OF Start_spec(6) [OF st]] by simp
  have "hs = []"
  proof (rule ccontr)
    assume "hs \<noteq> []"
    then obtain g where "g \<in> set hs" by (cases hs) auto
    from Start_spec(7) [OF st2 this] have "go_Type g |\<in>| fmdom (f_informers (fs_factory s1))" "\<not> started f2 (go_Type g)"
      using Start_spec(1) [OF st] by (auto simp: s2_def fmdom'_alt_def intro: fmdomI)
    with on d show False by simp
  qed
  with r3 g1 d Start_spec(4) [OF st] Start_spec(4) [OF st2] show ?thesis
    by (intro exI [of _ s3]) (simp add: s3_def s2_def)
qed

text \<open>Twice started, shut down, and started once more: still one.\<close>

theorem informers_run_once_witness:
  "\<exists>s' s''. factory_run fstate0 s' \<and> factory_run (s'\<lparr>fs_factory := Shutdown_begin (fs_factory s')\<rparr>) s''
     \<and> fs_factory s'' = fst (Start 9 (Shutdown_begin (fs_factory s')))
     \<and> distinct (map go_Type (fs_launched s'')) \<and> length (fs_launched s'') = 1 \<and> length (fs_running s') = 1"
proof -
  obtain s' where s': "factory_run fstate0 s'" "length (fs_launched s') = 1" "f_wg (fs_factory s') = 1"
    using twice_started0 by blast
  let ?s = "s'\<lparr>fs_factory := Shutdown_begin (fs_factory s')\<rparr>"
  obtain f gs where st: "Start 9 (fs_factory ?s) = (f, gs)" by force
  let ?e = "?s\<lparr>fs_factory := f, fs_running := fs_running ?s @ gs, fs_launched := fs_launched ?s @ gs\<rparr>"
  have r: "factory_run ?s ?e" by (rule factory_run.there [OF factory_run.here factory_step.start [OF st]])
  have "fs_launched ?e = fs_launched s'" "distinct (map go_Type (fs_launched s'))" "f_wg (fs_factory s') = length (fs_running s')"
    using informers_run_once [OF fstate0_fresh s'(1)] r by blast+
  then show ?thesis using s' r st by (intro exI [of _ s'] exI [of _ ?e]) simp
qed

lemma factory_run_first: "factory_run s' s'' \<Longrightarrow> factory_step s s' \<Longrightarrow> factory_run s s''"
  by (induction rule: factory_run.induct) (auto intro: factory_run.intros)

lemma drain:
  "go_StopCh ` set (fs_running s) \<subseteq> fs_closed s \<Longrightarrow> factory_inv s \<Longrightarrow>
     \<exists>s'. factory_run s s' \<and> Shutdown_may_return (fs_factory s')"
proof (induction "length (fs_running s)" arbitrary: s)
  case 0
  then show ?case
    using factory_run.here [of s] by (auto simp: factory_inv_def Shutdown_may_return_def)
next
  case (Suc n)
  then obtain g gs where g: "fs_running s = g # gs" by (cases "fs_running s") auto
  let ?s = "s\<lparr>fs_factory := wg_Done (fs_factory s), fs_running := remove1 g (fs_running s)\<rparr>"
  have st: "factory_step s ?s" using Suc.prems(1) g by (intro factory_step.finish) auto
  have "n = length (fs_running ?s)" "go_StopCh ` set (fs_running ?s) \<subseteq> fs_closed ?s" using Suc g by simp_all
  from Suc.hyps(1) [OF this step_inv [OF st Suc.prems(2)]]
  obtain s' where r: "factory_run ?s s'" "Shutdown_may_return (fs_factory s')" by blast
  from factory_run_first [OF r(1) st] r(2) show ?case by blast
qed

text \<open>
  Shutdown is final: once it was called no goroutine is launched any more; when all stop
  channels of the goroutines running are closed it can return, and after it may return nothing runs
  and nothing ever will.
\<close>

theorem shutdown_final:
  assumes "fresh_factory s" and "factory_run s s1" and "f_shuttingDown (fs_factory s1)" and "factory_run s1 s2"
  shows "fs_launched s2 = fs_launched s1 \<and> Start ch (fs_factory s2) = (fs_factory s2, [])
    \<and> (Shutdown_may_return (fs_factory s1) \<longrightarrow> fs_running s2 = [] \<and> Shutdown_may_return (fs_factory s2))
    \<and> (go_StopCh ` set (fs_running s2) \<subseteq> fs_closed s2 \<longrightarrow> (\<exists>s3. factory_run s2 s3 \<and> Shutdown_may_return (fs_factory s3)))"
proof -
  have i1: "factory_inv s1" by (rule run_inv [OF assms(2) fresh_inv [OF assms(1)]])
  have i2: "factory_inv s2" by (rule run_inv [OF assms(4) i1])
  note sd = shutdown_run [OF assms(4,3)]
  have "fs_running s2 = [] \<and> Shutdown_may_return (fs_factory s2)" if "Shutdown_may_return (fs_factory s1)"
    using that sd i1 i2 by (simp add: Shutdown_may_return_def factory_inv_def)
  with sd drain [OF _ i2] show ?thesis by (simp add: Start_def)
qed

theorem shutdown_final_witness:
  "\<exists>s1. factory_run fstate0 s1 \<and> f_shuttingDown (fs_factory s1) \<and> fs_running s1 = []
     \<and> Start 3 (fs_factory s1) = (fs_factory s1, [])"
proof -
  let ?s1 = "fstate0\<lparr>fs_factory := Shutdown_begin (fs_factory fstate0)\<rparr>"
  have r: "factory_run fstate0 ?s1" by (rule factory_run.there [OF factory_run.here factory_step.shutdown])
  have sd: "f_shuttingDown (fs_factory ?s1)" by (simp add: Shutdown_begin_def)
  have "Shutdown_may_return (fs_factory ?s1)"
    by (simp add: Shutdown_begin_def Shutdown_may_return_def fstate0_def NewSharedInformerFactory_def
        NewSharedInformerFactoryWithOptions_def)
  with shutdown_final [OF fstate0_fresh r sd factory_run.here, of 3] r sd show ?thesis by blast
qed

definition approvaltasks_resource :: group_version_resource where
  "approvaltasks_resource =
     \<lparr>gvr_Group = ''openshift-pipelines.org'', gvr_Version = ''v1alpha1'', gvr_Resource = ''approvaltasks''\<rparr>"

text \<open>
  Everybody shares one informer: the generic informer of the resource is the typed one, whatever
  was requested in between; and a typed informer that is new lists the factory's namespace with the
  factory's options, at the period set for its type or else the default one.
\<close>

theorem informer_shared:
  assumes "typed_Informer (typed_ApprovalTasks f) f = (i, f1)"
  shows "fst (ForResource approvaltasks_resource (request_all InformerFor rs f1))
      = Inr (i, ''openshift-pipelines.org'', ''approvaltasks'')
    \<and> (fmlookup (f_informers f) ''*v1alpha1.ApprovalTask'' = None \<longrightarrow>
         ListFunc i opts = (f_namespace f, case f_tweakListOptions f of None \<Rightarrow> opts | Some g \<Rightarrow> g opts)
         \<and> inf_Resync i = (case fmlookup (f_customResync f) ''*v1alpha1.ApprovalTask'' of Some d \<Rightarrow> d | None \<Rightarrow> f_defaultResync f))"
proof -
  have i: "InformerFor ''*v1alpha1.ApprovalTask'' (defaultInformer (typed_ApprovalTasks f)) f = (i, f1)"
    using assms by (simp add: typed_Informer_def)
  from informers.same_informer [OF i]
  have "fst (InformerFor ''*v1alpha1.ApprovalTask'' h (request_all InformerFor rs f1)) = i" for h .
  then have "fst (typed_Informer ti (request_all InformerFor rs f1)) = i" for ti by (simp add: typed_Informer_def)
  then have "fst (ForResource approvaltasks_resource (request_all InformerFor rs f1))
      = Inr (i, ''openshift-pipelines.org'', ''approvaltasks'')"
    by (simp add: ForResource_def approvaltasks_resource_def SchemeGroupVersion_def split: prod.split)
      (metis fst_conv)
  with i show ?thesis
    by (auto simp: InformerFor_def ListFunc_def defaultInformer_def NewFilteredApprovalTaskInformer_def
        typed_ApprovalTasks_eq Let_def)
qed

theorem informer_shared_witness:
  "\<exists>i f1. typed_Informer (typed_ApprovalTasks (NewFilteredSharedInformerFactory 9 ''prod'' None))
       (NewFilteredSharedInformerFactory 9 ''prod'' None) = (i, f1)
     \<and> fst (ForResource approvaltasks_resource f1) = Inr (i, ''openshift-pipelines.org'', ''approvaltasks'')
     \<and> fst (ListFunc i opts) = ''prod'' \<and> inf_Resync i = 9"
proof -
  let ?f = "NewFilteredSharedInformerFactory 9 ''prod'' None"
  obtain i f1 where i: "typed_Informer (typed_ApprovalTasks ?f) ?f = (i, f1)" by force
  have "fmlookup (f_informers ?f) ''*v1alpha1.ApprovalTask'' = None" "f_namespace ?f = ''prod''"
    "f_customResync ?f = fmempty" "f_defaultResync ?f = 9"
    by (simp_all add: NewFilteredSharedInformerFactory_def NewSharedInformerFactoryWithOptions_def WithNamespace_def
        WithTweakListOptions_def)
  with informer_shared [OF i, of "[]" opts] i show ?thesis by auto
qed

end
