(* ===== verification/Client_Setup.thy ===== *)
theory Client_Setup
  imports Complex_Main Cli_Commands
begin

text \<open>
  Setting up clients: the client set of ApprovalTasks (\<open>pkg/client/clientset/versioned\<close>), the
  parameters of the command line client with the clients made from a kubeconfig
  (\<open>pkg/cli/params.go\<close>), its one flag (\<open>pkg/cli/flags\<close>), and the commands from their flags on. What
  the client library makes of a configuration is a field of \<open>client_lib\<close>; cobra's parsing of the
  command line is left out.
\<close>

subsection \<open>Configurations\<close>

text \<open>
  \<open>rest.Config\<close>: the fields the code reads or writes; \<open>rf_Rest\<close> stands for the others. A rate limiter
  is a token bucket with a rate and a size.
\<close>

record 'c rest_config =
  rf_UserAgent :: string
  rf_QPS :: rat
  rf_Burst :: int
  rf_RateLimiter :: "(rat \<times> int) option"
  rf_GroupVersion :: "group_version option"
  rf_APIPath :: string
  rf_Rest :: 'c

record ('c, 'h, 'r, 'd, 'k, 'y) client_lib =
  lib_UserAgent :: string
  lib_HTTPClientFor :: "'c rest_config \<Rightarrow> go_error + 'h"
  lib_RESTClient :: "'c rest_config \<Rightarrow> 'h \<Rightarrow> go_error + 'r"
  lib_Discovery :: "'c rest_config \<Rightarrow> 'h \<Rightarrow> go_error + 'd"
  lib_RESTDiscovery :: "'r \<Rightarrow> 'd"
  lib_Kube :: "'c rest_config \<Rightarrow> go_error + 'k"
  lib_Dynamic :: "'c rest_config \<Rightarrow> go_error + 'y"
  lib_AuthV1 :: "'c rest_config \<Rightarrow> go_error + unit"
  lib_UserV1 :: "'c rest_config \<Rightarrow> go_error + unit"
  lib_SelfSubjectReview :: "'c rest_config \<Rightarrow> go_error + user_info"
  lib_UserObject :: "'c rest_config \<Rightarrow> go_error + user_info"
  lib_KubeNamespace :: "string \<Rightarrow> string \<Rightarrow> go_error + string"
  lib_KubeConfig :: "string \<Rightarrow> string \<Rightarrow> go_error + 'c rest_config"

subsection \<open>The typed client\<close>

definition or_default_agent :: "('c, 'h, 'r, 'd, 'k, 'y) client_lib \<Rightarrow> 'c rest_config \<Rightarrow> 'c rest_config" where
  "or_default_agent lib c = (if rf_UserAgent c = [] then c\<lparr>rf_UserAgent := lib_UserAgent lib\<rparr> else c)"

definition setConfigDefaults :: "('c, 'h, 'r, 'd, 'k, 'y) client_lib \<Rightarrow> 'c rest_config \<Rightarrow> 'c rest_config" where
  "setConfigDefaults lib c =
     or_default_agent lib (c\<lparr>rf_GroupVersion := Some SchemeGroupVersion, rf_APIPath := ''/apis''\<rparr>)"

definition typed_NewForConfigAndClient ::
  "('c, 'h, 'r, 'd, 'k, 'y) client_lib \<Rightarrow> 'c rest_config \<Rightarrow> 'h \<Rightarrow> go_error + 'r" where
  "typed_NewForConfigAndClient lib c h = lib_RESTClient lib (setConfigDefaults lib c) h"

definition typed_NewForConfig :: "('c, 'h, 'r, 'd, 'k, 'y) client_lib \<Rightarrow> 'c rest_config \<Rightarrow> go_error + 'r" where
  "typed_NewForConfig lib c =
     (let config = setConfigDefaults lib c
      in case lib_HTTPClientFor lib config of
           Inl e \<Rightarrow> Inl e
         | Inr h \<Rightarrow> typed_NewForConfigAndClient lib config h)"

definition typed_NewForConfigOrDie :: "('c, 'h, 'r, 'd, 'k, 'y) client_lib \<Rightarrow> 'c rest_config \<Rightarrow> 'r outcome" where
  "typed_NewForConfigOrDie lib c = (case typed_NewForConfig lib c of Inl e \<Rightarrow> Panic | Inr r \<Rightarrow> Ret r)"

text \<open>\<open>RESTClient\<close> of a client that may be nil.\<close>

definition typed_RESTClient :: "'r option \<Rightarrow> 'r option" where
  "typed_RESTClient c = c"

subsection \<open>The client set\<close>

record ('r, 'd) clientset =
  cs_openshiftpipelinesV1alpha1 :: 'r
  cs_DiscoveryClient :: 'd

definition cs_NewForConfigAndClient ::
  "('c, 'h, 'r, 'd, 'k, 'y) client_lib \<Rightarrow> 'c rest_config \<Rightarrow> 'h \<Rightarrow> go_error + ('r, 'd) clientset" where
  "cs_NewForConfigAndClient lib c h =
     (if rf_RateLimiter c = None \<and> 0 < rf_QPS c \<and> rf_Burst c \<le> 0
      then Inl (PlainErr ''burst is required to be greater than 0 when RateLimiter is not set and QPS is set to greater than 0'')
      else let config = (if rf_RateLimiter c = None \<and> 0 < rf_QPS c
                         then c\<lparr>rf_RateLimiter := Some (rf_QPS c, rf_Burst c)\<rparr> else c)
           in case typed_NewForConfigAndClient lib config h of
                Inl e \<Rightarrow> Inl e
              | Inr r \<Rightarrow>
                  (case lib_Discovery lib config h of
                     Inl e \<Rightarrow> Inl e
                   | Inr d \<Rightarrow> Inr \<lparr>cs_openshiftpipelinesV1alpha1 = r, cs_DiscoveryClient = d\<rparr>))"

definition cs_NewForConfig ::
  "('c, 'h, 'r, 'd, 'k, 'y) client_lib \<Rightarrow> 'c rest_config \<Rightarrow> go_error + ('r, 'd) clientset" where
  "cs_NewForConfig lib c =
     (let config = or_default_agent lib c
      in case lib_HTTPClientFor lib config of
           Inl e \<Rightarrow> Inl e
         | Inr h \<Rightarrow> cs_NewForConfigAndClient lib config h)"

definition cs_NewForConfigOrDie ::
  "('c, 'h, 'r, 'd, 'k, 'y) client_lib \<Rightarrow> 'c rest_config \<Rightarrow> ('r, 'd) clientset outcome" where
  "cs_NewForConfigOrDie lib c = (case cs_NewForConfig lib c of Inl e \<Rightarrow> Panic | Inr cs \<Rightarrow> Ret cs)"

definition cs_New :: "('c, 'h, 'r, 'd, 'k, 'y) client_lib \<Rightarrow> 'r \<Rightarrow> ('r, 'd) clientset" where
  "cs_New lib r = \<lparr>cs_openshiftpipelinesV1alpha1 = r, cs_DiscoveryClient = lib_RESTDiscovery lib r\<rparr>"

definition cs_OpenshiftpipelinesV1alpha1 :: "('r, 'd) clientset \<Rightarrow> 'r" where
  "cs_OpenshiftpipelinesV1alpha1 cs = cs_openshiftpipelinesV1alpha1 cs"

text \<open>\<open>Discovery\<close> of a client set that may be nil.\<close>

definition cs_Discovery :: "('r, 'd) clientset option \<Rightarrow> 'd option" where
  "cs_Discovery cs = map_option cs_DiscoveryClient cs"

subsection \<open>The parameters of the command line client\<close>

record ('c, 'r, 'd, 'k, 'y) cli_clients =
  ccl_Config :: "'c rest_config"
  ccl_Kube :: 'k
  ccl_Dynamic :: 'y
  ccl_ApprovalTask :: "('r, 'd) clientset"

record ('c, 'r, 'd, 'k, 'y) cli_params =
  pa_clients :: "('c, 'r, 'd, 'k, 'y) cli_clients option"
  pa_kubeConfigPath :: string
  pa_kubeContext :: string
  pa_namespace :: string

definition SetKubeConfigPath :: "string \<Rightarrow> ('c, 'r, 'd, 'k, 'y) cli_params \<Rightarrow> ('c, 'r, 'd, 'k, 'y) cli_params" where
  "SetKubeConfigPath path p = p\<lparr>pa_kubeConfigPath := path\<rparr>"

definition SetKubeContext :: "string \<Rightarrow> ('c, 'r, 'd, 'k, 'y) cli_params \<Rightarrow> ('c, 'r, 'd, 'k, 'y) cli_params" where
  "SetKubeContext context_name p = p\<lparr>pa_kubeContext := context_name\<rparr>"

definition SetNamespace :: "string \<Rightarrow> ('c, 'r, 'd, 'k, 'y) cli_params \<Rightarrow> ('c, 'r, 'd, 'k, 'y) cli_params" where
  "SetNamespace ns p = p\<lparr>pa_namespace := ns\<rparr>"

text \<open>\<open>config\<close>: the namespace is the kubeconfig's unless one was set; it is kept even if the rest fails.\<close>

definition config ::
  "('c, 'h, 'r, 'd, 'k, 'y) client_lib \<Rightarrow> ('c, 'r, 'd, 'k, 'y) cli_params
    \<Rightarrow> (go_error + 'c rest_config) \<times> ('c, 'r, 'd, 'k, 'y) cli_params" where
  "config lib p =
     (let path = pa_kubeConfigPath p; ctxt = pa_kubeContext p;
          ns = (if pa_namespace p = [] then lib_KubeNamespace lib path ctxt else Inr (pa_namespace p))
      in case ns of
           Inl e \<Rightarrow> (Inl (WrapErr (''Couldn'' @ [CHR 0x27] @ ''t get kubeConfiguration namespace'') e), p)
         | Inr n \<Rightarrow>
             (let p' = p\<lparr>pa_namespace := n\<rparr>
              in case lib_KubeConfig lib path ctxt of
                   Inl e \<Rightarrow> (Inl (WrapErr ''Parsing kubeconfig failed'' e), p')
                 | Inr c \<Rightarrow> (Inr (c\<lparr>rf_QPS := 50, rf_Burst := 300\<rparr>), p')))"

definition kubeClient :: "('c, 'h, 'r, 'd, 'k, 'y) client_lib \<Rightarrow> 'c rest_config \<Rightarrow> go_error + 'k" where
  "kubeClient lib c = map_sum (WrapErr ''failed to create k8s client from config'') id (lib_Kube lib c)"

definition dynamicClient :: "('c, 'h, 'r, 'd, 'k, 'y) client_lib \<Rightarrow> 'c rest_config \<Rightarrow> go_error + 'y" where
  "dynamicClient lib c = map_sum (WrapErr ''failed to create dynamic client from config'') id (lib_Dynamic lib c)"

definition approvalTaskClient ::
  "('c, 'h, 'r, 'd, 'k, 'y) client_lib \<Rightarrow> 'c rest_config \<Rightarrow> go_error + ('r, 'd) clientset" where
  "approvalTaskClient lib c =
     map_sum (WrapErr ''failed to create dynamic client from config'') id (cs_NewForConfig lib c)"

definition KubeClient ::
  "('c, 'h, 'r, 'd, 'k, 'y) client_lib \<Rightarrow> ('c, 'r, 'd, 'k, 'y) cli_params
    \<Rightarrow> (go_error + 'k) \<times> ('c, 'r, 'd, 'k, 'y) cli_params" where
  "KubeClient lib p =
     (case config lib p of
        (Inl e, p') \<Rightarrow> (Inl e, p')
      | (Inr c, p') \<Rightarrow> (kubeClient lib c, p'))"

text \<open>\<open>Clients\<close>, with its optional configuration, of which a nil one counts as none.\<close>

definition Clients ::
  "('c, 'h, 'r, 'd, 'k, 'y) client_lib \<Rightarrow> 'c rest_config option list \<Rightarrow> ('c, 'r, 'd, 'k, 'y) cli_params
    \<Rightarrow> (go_error + ('c, 'r, 'd, 'k, 'y) cli_clients) \<times> ('c, 'r, 'd, 'k, 'y) cli_params" where
  "Clients lib cfg p =
     (case (case cfg of Some c # _ \<Rightarrow> (Inr c, p) | _ \<Rightarrow> config lib p) of
        (Inl e, p1) \<Rightarrow> (Inl e, p1)
      | (Inr c, p1) \<Rightarrow>
          (case kubeClient lib c of
             Inl e \<Rightarrow> (Inl e, p1)
           | Inr kube \<Rightarrow>
               (case dynamicClient lib c of
                  Inl e \<Rightarrow> (Inl e, p1)
                | Inr dyn \<Rightarrow>
                    (case approvalTaskClient lib c of
                       Inl e \<Rightarrow> (Inl e, p1)
                     | Inr ats \<Rightarrow>
                         (let cs = \<lparr>ccl_Config = c, ccl_Kube = kube, ccl_Dynamic = dyn, ccl_ApprovalTask = ats\<rparr>
                          in (Inr cs, p1\<lparr>pa_clients := Some cs\<rparr>))))))"

text \<open>\<open>GetUserInfo\<close> reads \<open>p.clients.Config\<close>, which panics when \<open>Clients\<close> has not succeeded before.\<close>

definition GetUserInfo ::
  "('c, 'h, 'r, 'd, 'k, 'y) client_lib \<Rightarrow> ('c, 'r, 'd, 'k, 'y) cli_params \<Rightarrow> (go_error + user_info) outcome" where
  "GetUserInfo lib p =
     (case pa_clients p of
        None \<Rightarrow> Panic
      | Some cs \<Rightarrow>
          (case lib_AuthV1 lib (ccl_Config cs) of
             Inl e \<Rightarrow> Ret (Inl e)
           | Inr _ \<Rightarrow>
               (case lib_UserV1 lib (ccl_Config cs) of
                  Inl e \<Rightarrow> Ret (Inl e)
                | Inr _ \<Rightarrow>
                    Ret (Inr (getUserInfo (lib_SelfSubjectReview lib (ccl_Config cs)) (lib_UserObject lib (ccl_Config cs)))))))"

subsection \<open>A command from its flags on\<close>

definition InitParams ::
  "go_error + string \<Rightarrow> ('c, 'r, 'd, 'k, 'y) cli_params \<Rightarrow> go_error option \<times> ('c, 'r, 'd, 'k, 'y) cli_params" where
  "InitParams flag p =
     (case flag of
        Inl e \<Rightarrow> (Some e, p)
      | Inr ns \<Rightarrow> (None, if ns \<noteq> [] then SetNamespace ns p else p))"

text \<open>
  \<open>approve\<close> and \<open>reject\<close>: the flag, the clients, the namespace, the user, the update; \<open>client_of\<close> is the
  typed client of the clients made.
\<close>

definition decide_main ::
  "('c, 'h, 'r, 'd, 'k, 'y) client_lib \<Rightarrow> (('c, 'r, 'd, 'k, 'y) cli_clients \<Rightarrow> 's at_client) \<Rightarrow> string \<Rightarrow> string
    \<Rightarrow> go_error + string \<Rightarrow> go_error + 'g \<Rightarrow> string \<Rightarrow> string \<Rightarrow> ('c, 'r, 'd, 'k, 'y) cli_params \<Rightarrow> 's
    \<Rightarrow> ((go_error + string) \<times> 's) outcome" where
  "decide_main lib client_of input participle flag gvr name message p s =
     (case InitParams flag p of
        (Some e, _) \<Rightarrow> Ret (Inl e, s)
      | (None, p0) \<Rightarrow>
          (case Clients lib [] p0 of
             (Inl e, p1) \<Rightarrow> Ret (Inl e, s)
           | (Inr cs, p1) \<Rightarrow>
               (case GetUserInfo lib p1 of
                  Panic \<Rightarrow> Panic
                | Ret user \<Rightarrow>
                    Ret (decide_command input participle None user gvr (client_of cs) name (pa_namespace p1) message s))))"

end
