(* ===== verification/Client_Facts.thy ===== *)
theory Client_Facts
  imports Client_Setup
begin

text \<open>
  What setting up the clients gives a command: a configuration within the rate limits, the
  namespace of the flag or of the kubeconfig, and a user to ask for.
\<close>

definition resolved_namespace ::
  "('c, 'h, 'r, 'd, 'k, 'y) client_lib \<Rightarrow> ('c, 'r, 'd, 'k, 'y) cli_params \<Rightarrow> go_error + string" where
  "resolved_namespace lib p =
     (if pa_namespace p = [] then lib_KubeNamespace lib (pa_kubeConfigPath p) (pa_kubeContext p) else Inr (pa_namespace p))"

lemma config_Inr:
  assumes "config lib p = (Inr c, p')"
  shows "rf_QPS c = 50 \<and> rf_Burst c = 300 \<and> resolved_namespace lib p = Inr (pa_namespace p')"
  using assms by (auto simp: config_def resolved_namespace_def Let_def split: sum.splits if_splits)

lemma config_clients: "config lib p = (res, p') \<Longrightarrow> pa_clients p' = pa_clients p"
  by (auto simp: config_def Let_def split: sum.splits if_splits)

lemma Clients_Inr:
  assumes "Clients lib [] p = (Inr cs, p')"
  shows "pa_clients p' = Some cs" and "resolved_namespace lib p = Inr (pa_namespace p')"
    and "\<exists>p1. config lib p = (Inr (ccl_Config cs), p1)"
    and "cs_NewForConfig lib (ccl_Config cs) = Inr (ccl_ApprovalTask cs)"
proof -
  obtain c p1 where c: "config lib p = (Inr c, p1)"
    using assms by (cases "config lib p"; cases "fst (config lib p)") (auto simp: Clients_def)
  obtain kube dyn ats where "kubeClient lib c = Inr kube" "dynamicClient lib c = Inr dyn"
    and a: "approvalTaskClient lib c = Inr ats"
    and cs: "cs = \<lparr>ccl_Config = c, ccl_Kube = kube, ccl_Dynamic = dyn, ccl_ApprovalTask = ats\<rparr>"
    and p': "p' = p1\<lparr>pa_clients := Some cs\<rparr>"
    using assms c by (auto simp: Clients_def Let_def split: sum.splits)
  note k = config_Inr [OF c]
  show "pa_clients p' = Some cs" "resolved_namespace lib p = Inr (pa_namespace p')" using k by (simp_all add: p')
  show "\<exists>p1. config lib p = (Inr (ccl_Config cs), p1)" using c by (simp add: cs)
  show "cs_NewForConfig lib (ccl_Config cs) = Inr (ccl_ApprovalTask cs)"
    using a by (cases "cs_NewForConfig lib c") (auto simp: approvalTaskClient_def cs)
qed

lemma Clients_Inl: "Clients lib cfg p = (Inl e, p') \<Longrightarrow> pa_clients p' = pa_clients p"
  by (auto simp: Clients_def Let_def split: sum.splits prod.splits list.splits option.splits dest: config_clients)

lemma GetUserInfo_Panic: "GetUserInfo lib p = Panic \<longleftrightarrow> pa_clients p = None"
  by (auto simp: GetUserInfo_def split: option.split sum.split)

text \<open>The rate limiter: a positive rate needs a positive burst, which the client's own configuration has.\<close>

definition rate_ok :: "'c rest_config \<Rightarrow> bool" where
  "rate_ok c \<longleftrightarrow> rf_RateLimiter c \<noteq> None \<or> rf_QPS c \<le> 0 \<or> 0 < rf_Burst c"

lemma cs_NewForConfigAndClient_rate: "cs_NewForConfigAndClient lib c h = Inr cs \<Longrightarrow> rate_ok c"
  by (auto simp: cs_NewForConfigAndClient_def rate_ok_def split: if_splits)

lemma config_rate_ok: "config lib p = (Inr c, p') \<Longrightarrow> rate_ok c"
  by (drule config_Inr) (simp add: rate_ok_def)

text \<open>
  Setting up: clients are made only from a configuration with the rate 50 and the burst 300, so
  the client set's own check of them never fails; the namespace is the one set before, else the
  kubeconfig's; and only then may the user be asked for: \<open>GetUserInfo\<close> panics exactly when no call of
  \<open>Clients\<close> has succeeded.
\<close>

theorem clients_set_up:
  assumes "Clients lib [] p = (res, p')"
  shows "case res of
      Inl e \<Rightarrow> pa_clients p' = pa_clients p \<and> (GetUserInfo lib p' = Panic \<longleftrightarrow> pa_clients p = None)
    | Inr cs \<Rightarrow> rf_QPS (ccl_Config cs) = 50 \<and> rf_Burst (ccl_Config cs) = 300 \<and> rate_ok (ccl_Config cs)
        \<and> pa_clients p' = Some cs \<and> GetUserInfo lib p' \<noteq> Panic
        \<and> resolved_namespace lib p = Inr (pa_namespace p')"
proof (cases res)
  case (Inl e)
  with Clients_Inl [of lib "[]" p e p'] assms show ?thesis by (simp add: GetUserInfo_Panic)
next
  case (Inr cs)
  note k = Clients_Inr [OF assms [unfolded Inr]]
  from k(3) obtain p1 where c: "config lib p = (Inr (ccl_Config cs), p1)" by blast
  from config_Inr [OF c] config_rate_ok [OF c] k(1,2) Inr show ?thesis by (simp add: GetUserInfo_Panic)
qed

text \<open>A library for which everything succeeds.\<close>

definition lib0 :: "(unit, unit, unit, unit, unit, unit) client_lib" where
  "lib0 = \<lparr>lib_UserAgent = ''agent'', lib_HTTPClientFor = (\<lambda>c. Inr ()), lib_RESTClient = (\<lambda>c h. Inr ()),
     lib_Discovery = (\<lambda>c h. Inr ()), lib_RESTDiscovery = (\<lambda>r. ()), lib_Kube = (\<lambda>c. Inr ()), lib_Dynamic = (\<lambda>c. Inr ()),
     lib_AuthV1 = (\<lambda>c. Inr ()), lib_UserV1 = (\<lambda>c. Inr ()),
     lib_SelfSubjectReview = (\<lambda>c. Inr \<lparr>ui_Username = ''alice'', ui_Groups = []\<rparr>),
     lib_UserObject = (\<lambda>c. Inl (PlainErr [])), lib_KubeNamespace = (\<lambda>p c. Inr ''prod''),
     lib_KubeConfig = (\<lambda>p c. Inr \<lparr>rf_UserAgent = [], rf_QPS = 0, rf_Burst = 0, rf_RateLimiter = None,
        rf_GroupVersion = None, rf_APIPath = [], rf_Rest = ()\<rparr>)\<rparr>"

definition params0 :: "(unit, unit, unit, unit, unit) cli_params" where
  "params0 = \<lparr>pa_clients = None, pa_kubeConfigPath = [], pa_kubeContext = [], pa_namespace = []\<rparr>"

lemma config0: "config lib0 params0 =
    (Inr \<lparr>rf_UserAgent = [], rf_QPS = 50, rf_Burst = 300, rf_RateLimiter = None, rf_GroupVersion = None,
       rf_APIPath = [], rf_Rest = ()\<rparr>, params0\<lparr>pa_namespace := ''prod''\<rparr>)"
  by (simp add: config_def lib0_def params0_def)

lemma lib0_simps [simp]:
  "lib_HTTPClientFor lib0 c = Inr ()" "lib_RESTClient lib0 c h = Inr ()" "lib_Discovery lib0 c h = Inr ()"
  "lib_Kube lib0 c = Inr ()" "lib_Dynamic lib0 c = Inr ()"
  by (simp_all add: lib0_def)

lemma approvalTaskClient0:
  "rate_ok c \<Longrightarrow> approvalTaskClient lib0 c = Inr \<lparr>cs_openshiftpipelinesV1alpha1 = (), cs_DiscoveryClient = ()\<rparr>"
  by (auto simp: approvalTaskClient_def cs_NewForConfig_def cs_NewForConfigAndClient_def
      typed_NewForConfigAndClient_def or_default_agent_def rate_ok_def)

lemma clients0: "\<exists>cs p'. Clients lib0 [] params0 = (Inr cs, p')"
  by (simp add: Clients_def config0 kubeClient_def dynamicClient_def Let_def approvalTaskClient0 [OF config_rate_ok [OF config0]])

theorem clients_set_up_witness:
  "\<exists>cs p'. Clients lib0 [] params0 = (Inr cs, p') \<and> rate_ok (ccl_Config cs) \<and> pa_namespace p' = ''prod''
     \<and> GetUserInfo lib0 p' \<noteq> Panic"
proof -
  obtain cs p' where c: "Clients lib0 [] params0 = (Inr cs, p')" using clients0 by blast
  have "resolved_namespace lib0 params0 = Inr ''prod''" by (simp add: resolved_namespace_def lib0_def params0_def)
  with clients_set_up [OF c] c show ?thesis by auto
qed

text \<open>
  A command from its flags on never panics: it ends with an error and nothing done, or is the
  decision of the user who was found, in the namespace of the flag, else the one set before, else the
  kubeconfig's.
\<close>

theorem command_set_up:
  "\<exists>r. decide_main lib client_of input participle flag gvr name message p s = Ret r
    \<and> ((\<exists>e. r = (Inl e, s))
       \<or> (\<exists>cs user ns f. r = decide_command input participle None user gvr (client_of cs) name ns message s
            \<and> flag = Inr f \<and> resolved_namespace lib (if f = [] then p else SetNamespace f p) = Inr ns))"
proof (cases flag)
  case (Inl e)
  then show ?thesis by (simp add: decide_main_def InitParams_def)
next
  case (Inr f)
  define p0 where "p0 = (if f = [] then p else SetNamespace f p)"
  obtain res p1 where c: "Clients lib [] p0 = (res, p1)" by force
  have ip: "InitParams flag p = (None, p0)" by (simp add: InitParams_def Inr p0_def)
  show ?thesis
  proof (cases res)
    case (Inl e)
    with c ip show ?thesis by (simp add: decide_main_def)
  next
    case (Inr cs)
    note k = Clients_Inr [OF c [unfolded Inr]]
    then obtain user where u: "GetUserInfo lib p1 = Ret user"
      using GetUserInfo_Panic [of lib p1] by (cases "GetUserInfo lib p1") auto
    with c ip Inr have "decide_main lib client_of input participle flag gvr name message p s =
        Ret (decide_command input participle None user gvr (client_of cs) name (pa_namespace p1) message s)"
      by (simp add: decide_main_def)
    with k(2) \<open>flag = Inr f\<close> show ?thesis unfolding p0_def by blast
  qed
qed

end
