(* ===== verification/Rest_Client.thy ===== *)
theory Rest_Client
  imports Gate_System
begin

text \<open>
  The typed client of the controller as it really talks to the API server: the generated methods
  (\<open>pkg/client/clientset/versioned/typed\<close>) build requests (\<open>k8s.io/client-go/gentype\<close>,
  \<open>k8s.io/client-go/rest\<close>), and a request that is not well formed is never sent. What the server and the
  connection make of a request that is sent is the parameter \<open>send\<close>. The encoding of options
  into query parameters is left out, but for the timeout, so an argument holds them as encoded.
\<close>

subsection \<open>Requests\<close>

datatype rest_body = NoBody | TaskBody approval_task | RawBody string

record rest_request =
  rr_Verb :: string
  rr_Prefix :: "string list"
  rr_Namespace :: "string option"
  rr_Resource :: string
  rr_Name :: string
  rr_SubResource :: "string list"
  rr_Params :: "(string \<times> string) list"
  rr_Timeout :: duration
  rr_Body :: rest_body
  rr_Err :: "string option"

text \<open>The client's configuration sets the path: \<open>/apis\<close>, the group and the version, below a server URL
  without a path of its own.\<close>

definition NewRequest :: "string \<Rightarrow> rest_request" where
  "NewRequest method =
     \<lparr>rr_Verb = method, rr_Prefix = [''apis'', gv_Group SchemeGroupVersion, gv_Version SchemeGroupVersion],
      rr_Namespace = None, rr_Resource = [], rr_Name = [], rr_SubResource = [], rr_Params = [], rr_Timeout = 0,
      rr_Body = NoBody, rr_Err = None\<rparr>"

definition IsValidPathSegmentName :: "string \<Rightarrow> string list" where
  "IsValidPathSegmentName name =
     (if name = ''.'' then [''may not be '' @ [CHR 0x27] @ ''.'' @ [CHR 0x27]]
      else if name = ''..'' then [''may not be '' @ [CHR 0x27] @ ''..'' @ [CHR 0x27]]
      else map (\<lambda>c. ''may not contain '' @ [CHR 0x27, c, CHR 0x27]) (filter (\<lambda>c. c \<in> set name) [CHR ''/'', CHR ''%'']))"

text \<open>\<open>Sprintf\<close> of a list of strings with \<open>%v\<close>.\<close>

fun spaced :: "string list \<Rightarrow> string" where
  "spaced [] = []"
| "spaced [s] = s"
| "spaced (s # ss) = s @ '' '' @ spaced ss"

definition invalid_msg :: "string \<Rightarrow> string \<Rightarrow> string" where
  "invalid_msg what name = ''invalid '' @ what @ '' '' @ quote name @ '': ['' @ spaced (IsValidPathSegmentName name) @ '']''"

definition already_msg :: "string \<Rightarrow> string \<Rightarrow> string \<Rightarrow> string" where
  "already_msg what old new = what @ '' already set to '' @ quote old @ '', cannot change to '' @ quote new"

text \<open>\<open>path.Join\<close> of segments that are valid, of which it drops the empty ones.\<close>

fun slashed :: "string list \<Rightarrow> string" where
  "slashed [] = []"
| "slashed [s] = s"
| "slashed (s # ss) = s @ ''/'' @ slashed ss"

definition path_Join :: "string list \<Rightarrow> string" where
  "path_Join segments = slashed (filter (\<lambda>s. s \<noteq> []) segments)"

definition req_fail :: "string \<Rightarrow> rest_request \<Rightarrow> rest_request" where
  "req_fail msg r = r\<lparr>rr_Err := Some msg\<rparr>"

definition req_Namespace :: "string \<Rightarrow> rest_request \<Rightarrow> rest_request" where
  "req_Namespace ns r =
     (if rr_Err r \<noteq> None then r
      else case rr_Namespace r of
        Some old \<Rightarrow> req_fail (already_msg ''namespace'' old ns) r
      | None \<Rightarrow>
          if IsValidPathSegmentName ns \<noteq> []
          then req_fail (invalid_msg ''namespace'' ns) r
          else r\<lparr>rr_Namespace := Some ns\<rparr>)"

definition req_NamespaceIfScoped :: "string \<Rightarrow> bool \<Rightarrow> rest_request \<Rightarrow> rest_request" where
  "req_NamespaceIfScoped ns scoped r = (if scoped then req_Namespace ns r else r)"

definition req_Resource :: "string \<Rightarrow> rest_request \<Rightarrow> rest_request" where
  "req_Resource resource r =
     (if rr_Err r \<noteq> None then r
      else if rr_Resource r \<noteq> []
      then req_fail (already_msg ''resource'' (rr_Resource r) resource) r
      else if IsValidPathSegmentName resource \<noteq> []
      then req_fail (invalid_msg ''resource'' resource) r
      else r\<lparr>rr_Resource := resource\<rparr>)"

definition req_Name :: "string \<Rightarrow> rest_request \<Rightarrow> rest_request" where
  "req_Name name r =
     (if rr_Err r \<noteq> None then r
      else if name = [] then req_fail ''resource name may not be empty'' r
      else if rr_Name r \<noteq> []
      then req_fail (already_msg ''resource name'' (rr_Name r) name) r
      else if IsValidPathSegmentName name \<noteq> []
      then req_fail (invalid_msg ''resource name'' name) r
      else r\<lparr>rr_Name := name\<rparr>)"

text \<open>The first of the segments that is not valid makes the error.\<close>

definition req_SubResource :: "string list \<Rightarrow> rest_request \<Rightarrow> rest_request" where
  "req_SubResource subs r =
     (if rr_Err r \<noteq> None then r
      else if rr_SubResource r \<noteq> [] then req_fail (already_msg ''subresource'' (path_Join (rr_SubResource r)) (path_Join subs)) r
      else case find (\<lambda>s. IsValidPathSegmentName s \<noteq> []) subs of
        Some s \<Rightarrow> req_fail (invalid_msg ''subresource'' s) r
      | None \<Rightarrow> r\<lparr>rr_SubResource := filter (\<lambda>s. s \<noteq> []) subs\<rparr>)"

definition req_VersionedParams :: "(string \<times> string) list \<Rightarrow> rest_request \<Rightarrow> rest_request" where
  "req_VersionedParams params r = (if rr_Err r \<noteq> None then r else r\<lparr>rr_Params := rr_Params r @ params\<rparr>)"

definition req_Timeout :: "duration \<Rightarrow> rest_request \<Rightarrow> rest_request" where
  "req_Timeout d r = (if rr_Err r \<noteq> None then r else r\<lparr>rr_Timeout := d\<rparr>)"

definition req_Body :: "rest_body \<Rightarrow> rest_request \<Rightarrow> rest_request" where
  "req_Body b r = (if rr_Err r \<noteq> None then r else r\<lparr>rr_Body := b\<rparr>)"

definition requestPreflightCheck :: "rest_request \<Rightarrow> string option" where
  "requestPreflightCheck r =
     (if rr_Namespace r \<noteq> Some [] then None
      else if rr_Verb r = ''POST'' then Some ''an empty namespace may not be set during creation''
      else if rr_Verb r \<in> {''GET'', ''PUT'', ''DELETE''} \<and> rr_Name r \<noteq> []
      then Some ''an empty namespace may not be set when a resource name is provided''
      else None)"

text \<open>The path as its segments; the resource is in lower case already.\<close>

definition request_path :: "rest_request \<Rightarrow> string list" where
  "request_path r =
     rr_Prefix r
     @ (case rr_Namespace r of Some (c # cs) \<Rightarrow> [''namespaces'', c # cs] | _ \<Rightarrow> [])
     @ (if rr_Resource r = [] then [] else [rr_Resource r])
     @ (if rr_Name r = [] then [] else [rr_Name r]) @ rr_SubResource r"

type_synonym 's server = "rest_request \<Rightarrow> 's \<Rightarrow> (api_error + approval_task) \<times> 's"

definition rest_Do :: "'s server \<Rightarrow> rest_request \<Rightarrow> 's \<Rightarrow> (api_error + approval_task) \<times> 's" where
  "rest_Do send r s =
     (case rr_Err r of
        Some e \<Rightarrow> (Inl (Unanswered e), s)
      | None \<Rightarrow>
          (case requestPreflightCheck r of
             Some e \<Rightarrow> (Inl (Unanswered e), s)
           | None \<Rightarrow> send r s))"

subsection \<open>The generated client\<close>

record gentype_client =
  gc_Resource :: string
  gc_Namespace :: string

definition newApprovalTasks :: "string \<Rightarrow> gentype_client" where
  "newApprovalTasks namespace = \<lparr>gc_Resource = ''approvaltasks'', gc_Namespace = namespace\<rparr>"

definition typed_ApprovalTasks_client :: "string \<Rightarrow> gentype_client" where
  "typed_ApprovalTasks_client namespace = newApprovalTasks namespace"

definition scoped_request :: "gentype_client \<Rightarrow> string \<Rightarrow> rest_request" where
  "scoped_request c method =
     req_Resource (gc_Resource c) (req_NamespaceIfScoped (gc_Namespace c) (gc_Namespace c \<noteq> []) (NewRequest method))"

type_synonym params = "(string \<times> string) list"

definition gentype_Get :: "gentype_client \<Rightarrow> string \<Rightarrow> params \<Rightarrow> rest_request" where
  "gentype_Get c name opts = req_VersionedParams opts (req_Name name (scoped_request c ''GET''))"

text \<open>The timeout is the one of the options, in seconds, if they have one.\<close>

definition list_timeout :: "int option \<Rightarrow> duration" where
  "list_timeout timeoutSeconds = (case timeoutSeconds of None \<Rightarrow> 0 | Some n \<Rightarrow> wrap64 (n * 1000000000))"

definition gentype_List :: "gentype_client \<Rightarrow> params \<Rightarrow> int option \<Rightarrow> rest_request" where
  "gentype_List c opts timeoutSeconds =
     req_Timeout (list_timeout timeoutSeconds) (req_VersionedParams opts (scoped_request c ''GET''))"

definition gentype_Watch :: "gentype_client \<Rightarrow> params \<Rightarrow> int option \<Rightarrow> rest_request" where
  "gentype_Watch c opts timeoutSeconds =
     req_Timeout (list_timeout timeoutSeconds)
       (req_VersionedParams ((''watch'', ''true'') # opts) (scoped_request c ''GET''))"

definition gentype_Create :: "gentype_client \<Rightarrow> approval_task \<Rightarrow> params \<Rightarrow> rest_request" where
  "gentype_Create c obj opts = req_Body (TaskBody obj) (req_VersionedParams opts (scoped_request c ''POST''))"

definition gentype_Update :: "gentype_client \<Rightarrow> approval_task \<Rightarrow> params \<Rightarrow> rest_request" where
  "gentype_Update c obj opts =
     req_Body (TaskBody obj) (req_VersionedParams opts (req_Name (at_name obj) (scoped_request c ''PUT'')))"

definition gentype_UpdateStatus :: "gentype_client \<Rightarrow> approval_task \<Rightarrow> params \<Rightarrow> rest_request" where
  "gentype_UpdateStatus c obj opts =
     req_Body (TaskBody obj) (req_VersionedParams opts
       (req_SubResource [''status''] (req_Name (at_name obj) (scoped_request c ''PUT''))))"

definition gentype_Delete :: "gentype_client \<Rightarrow> string \<Rightarrow> string \<Rightarrow> rest_request" where
  "gentype_Delete c name opts = req_Body (RawBody opts) (req_Name name (scoped_request c ''DELETE''))"

definition gentype_DeleteCollection :: "gentype_client \<Rightarrow> string \<Rightarrow> params \<Rightarrow> int option \<Rightarrow> rest_request" where
  "gentype_DeleteCollection c opts listOpts timeoutSeconds =
     req_Body (RawBody opts) (req_Timeout (list_timeout timeoutSeconds)
       (req_VersionedParams listOpts (scoped_request c ''DELETE'')))"

definition gentype_Patch :: "gentype_client \<Rightarrow> string \<Rightarrow> string \<Rightarrow> params \<Rightarrow> string list \<Rightarrow> rest_request" where
  "gentype_Patch c name data opts subresources =
     req_Body (RawBody data) (req_VersionedParams opts
       (req_SubResource subresources (req_Name name (scoped_request c ''PATCH''))))"

text \<open>The client the program is given, over a connection to a server.\<close>

definition rest_tasks :: "'s server \<Rightarrow> 's at_client" where
  "rest_tasks send =
     \<lparr>cl_Get = \<lambda>ns n. rest_Do send (gentype_Get (typed_ApprovalTasks_client ns) n []),
      cl_Create = \<lambda>ns t. rest_Do send (gentype_Create (typed_ApprovalTasks_client ns) t []),
      cl_Update = \<lambda>ns t. rest_Do send (gentype_Update (typed_ApprovalTasks_client ns) t []),
      cl_UpdateStatus = \<lambda>ns t. rest_Do send (gentype_UpdateStatus (typed_ApprovalTasks_client ns) t [])\<rparr>"

lemmas request_defs = NewRequest_def req_fail_def req_Namespace_def req_NamespaceIfScoped_def req_Resource_def
  req_Name_def req_SubResource_def req_VersionedParams_def req_Timeout_def req_Body_def scoped_request_def
  gentype_Get_def gentype_List_def gentype_Watch_def gentype_Create_def gentype_Update_def gentype_UpdateStatus_def
  gentype_Delete_def gentype_DeleteCollection_def gentype_Patch_def newApprovalTasks_def typed_ApprovalTasks_client_def

subsection \<open>What is sent\<close>

definition path_name :: "string \<Rightarrow> bool" where
  "path_name s \<longleftrightarrow> s \<noteq> [] \<and> IsValidPathSegmentName s = []"

lemma IsValidPathSegmentName_iff:
  "IsValidPathSegmentName s = [] \<longleftrightarrow> s \<noteq> ''.'' \<and> s \<noteq> ''..'' \<and> CHR ''/'' \<notin> set s \<and> CHR ''%'' \<notin> set s"
  by (auto simp: IsValidPathSegmentName_def)

lemma valid_constants [simp]:
  "IsValidPathSegmentName ''approvaltasks'' = []" "IsValidPathSegmentName ''status'' = []" "IsValidPathSegmentName [] = []"
  by (simp_all add: IsValidPathSegmentName_iff)

definition task_path :: "string \<Rightarrow> string list" where
  "task_path ns = [''apis'', ''openshift-pipelines.org'', ''v1alpha1''] @ [''namespaces'', ns] @ [''approvaltasks'']"

text \<open>A request without an error is sent with its verb, path and body.\<close>

definition sends :: "rest_request \<Rightarrow> string \<Rightarrow> string list \<Rightarrow> rest_body \<Rightarrow> bool" where
  "sends r method path body \<longleftrightarrow>
     rr_Err r = None \<and> requestPreflightCheck r = None \<and> rr_Verb r = method \<and> request_path r = path \<and> rr_Body r = body"

lemma scoped_request_valid:
  assumes "path_name ns"
  shows "scoped_request (newApprovalTasks ns) method =
    (NewRequest method)\<lparr>rr_Namespace := Some ns, rr_Resource := ''approvaltasks''\<rparr>"
  using assms by (simp add: path_name_def request_defs)

lemma sends_requests:
  assumes "path_name ns"
  shows "path_name n \<Longrightarrow> sends (gentype_Get (newApprovalTasks ns) n opts) ''GET'' (task_path ns @ [n]) NoBody"
    and "sends (gentype_List (newApprovalTasks ns) opts secs) ''GET'' (task_path ns) NoBody"
    and "sends (gentype_Watch (newApprovalTasks ns) opts secs) ''GET'' (task_path ns) NoBody"
    and "sends (gentype_Create (newApprovalTasks ns) t opts) ''POST'' (task_path ns) (TaskBody t)"
    and "path_name (at_name t) \<Longrightarrow>
           sends (gentype_Update (newApprovalTasks ns) t opts) ''PUT'' (task_path ns @ [at_name t]) (TaskBody t)"
    and "path_name (at_name t) \<Longrightarrow>
           sends (gentype_UpdateStatus (newApprovalTasks ns) t opts) ''PUT'' (task_path ns @ [at_name t, ''status'']) (TaskBody t)"
    and "path_name n \<Longrightarrow> sends (gentype_Delete (newApprovalTasks ns) n d) ''DELETE'' (task_path ns @ [n]) (RawBody d)"
    and "path_name n \<Longrightarrow> sends (gentype_Patch (newApprovalTasks ns) n d opts []) ''PATCH'' (task_path ns @ [n]) (RawBody d)"
  using assms scoped_request_valid [OF assms]
  unfolding gentype_Get_def gentype_List_def gentype_Watch_def gentype_Create_def gentype_Update_def
    gentype_UpdateStatus_def gentype_Delete_def gentype_Patch_def
  by (cases ns; simp add: sends_def path_name_def req_Name_def req_VersionedParams_def req_Timeout_def req_SubResource_def
      req_Body_def NewRequest_def requestPreflightCheck_def request_path_def task_path_def SchemeGroupVersion_def)+

text \<open>Without a name nothing is sent.\<close>

lemma scoped_request_name: "rr_Name (scoped_request c method) = []"
  by (simp add: request_defs split: option.split)

lemma unnamed_unsent:
  "rr_Err (req_Name [] r) \<noteq> None"
  by (simp add: req_Name_def req_fail_def)

lemma rr_Err_kept:
  "rr_Err r \<noteq> None \<Longrightarrow> rr_Err (req_VersionedParams ps r) = rr_Err r" "rr_Err r \<noteq> None \<Longrightarrow> rr_Err (req_Body b r) = rr_Err r"
  "rr_Err r \<noteq> None \<Longrightarrow> rr_Err (req_SubResource ss r) = rr_Err r" "rr_Err r \<noteq> None \<Longrightarrow> rr_Err (req_Name n r) = rr_Err r"
  by (simp_all add: req_VersionedParams_def req_Body_def req_SubResource_def req_Name_def)

lemma rest_unsent: "rr_Err r \<noteq> None \<Longrightarrow> \<exists>e. rest_Do send r s = (Inl (Unanswered e), s)"
  by (auto simp: rest_Do_def)

lemma nameless_unsent:
  "\<exists>e. cl_Get (rest_tasks send) ns [] s = (Inl (Unanswered e), s)"
  "at_name t = [] \<Longrightarrow> \<exists>e. cl_Update (rest_tasks send) ns t s = (Inl (Unanswered e), s)"
  "at_name t = [] \<Longrightarrow> \<exists>e. cl_UpdateStatus (rest_tasks send) ns t s = (Inl (Unanswered e), s)"
  using unnamed_unsent
  by (simp_all add: rest_tasks_def gentype_Get_def gentype_Update_def gentype_UpdateStatus_def rr_Err_kept rest_unsent)

subsection \<open>A server that keeps tasks by their paths\<close>

text \<open>
  The object tracker behind paths. It answers the requests of the typed client as the reactor of the
  fake client set answers its actions.
\<close>

definition serve_tasks :: "tracker server" where
  "serve_tasks r objs =
     (case drop 3 (request_path r) of
        [_, ns, _] \<Rightarrow> (case rr_Body r of TaskBody t \<Rightarrow> react_Create ns t objs | _ \<Rightarrow> (Inl (Answered NewBadRequest), objs))
      | [_, ns, _, n] \<Rightarrow>
          (case rr_Body r of TaskBody t \<Rightarrow> react_Update ns t objs | _ \<Rightarrow> react_Get ns n objs)
      | [_, ns, _, n, _] \<Rightarrow>
          (case rr_Body r of TaskBody t \<Rightarrow> react_Update ns t objs | _ \<Rightarrow> (Inl (Answered NewBadRequest), objs))
      | _ \<Rightarrow> (Inl (Answered NewBadRequest), objs))"

lemma served:
  "sends r m (task_path ns) (TaskBody t) \<Longrightarrow> rest_Do serve_tasks r = react_Create ns t"
  "sends r m (task_path ns @ [n]) NoBody \<Longrightarrow> rest_Do serve_tasks r = react_Get ns n"
  "sends r m (task_path ns @ [n]) (TaskBody t) \<Longrightarrow> rest_Do serve_tasks r = react_Update ns t"
  "sends r m (task_path ns @ [n, sub]) (TaskBody t) \<Longrightarrow> rest_Do serve_tasks r = react_Update ns t"
  by (auto simp: fun_eq_iff rest_Do_def serve_tasks_def sends_def task_path_def)

lemma served_like_fake:
  assumes "path_name ns"
  shows "path_name n \<Longrightarrow> cl_Get (rest_tasks serve_tasks) ns n = cl_Get fake_client ns n"
    and "cl_Create (rest_tasks serve_tasks) ns t = cl_Create fake_client ns t"
    and "path_name (at_name t) \<Longrightarrow> cl_Update (rest_tasks serve_tasks) ns t = cl_Update fake_client ns t"
    and "path_name (at_name t) \<Longrightarrow> cl_UpdateStatus (rest_tasks serve_tasks) ns t = cl_UpdateStatus fake_client ns t"
  using served(2) [OF sends_requests(1) [OF assms]] served(1) [OF sends_requests(4) [OF assms]]
    served(3) [OF sends_requests(5) [OF assms]] served(4) [OF sends_requests(6) [OF assms]]
  by (simp_all add: rest_tasks_def typed_ApprovalTasks_client_def fake_client_def)

end
