(* ===== verification/Client_Agreement.thy ===== *)
theory Client_Agreement
  imports Rest_Client Failure_Facts
begin

text \<open>
  Two clients of ApprovalTasks that answer alike about one task make the controller and the commands
  do the same. The fake client of the tests and the typed client over a server that keeps tasks by
  their paths are two such clients, for every name that can be part of a path; that the dynamic
  client is one as well is shown in \<open>Dynamic_Client\<close>.
\<close>

subsection \<open>Clients that agree about a task\<close>

definition named :: "string \<Rightarrow> string \<Rightarrow> approval_task \<Rightarrow> bool" where
  "named ns n t \<longleftrightarrow> at_namespace t = ns \<and> at_name t = n"

text \<open>
  \<open>K\<close> holds of the states in which a task found at a name has this name; \<open>C\<close> and \<open>U\<close> say for which creations
  and updates the answers agree.
\<close>

definition agree_about ::
  "('s \<Rightarrow> bool) \<Rightarrow> (approval_task \<Rightarrow> bool) \<Rightarrow> ('s \<Rightarrow> approval_task \<Rightarrow> bool) \<Rightarrow> string \<Rightarrow> string \<Rightarrow> 's at_client
    \<Rightarrow> 's at_client \<Rightarrow> bool" where
  "agree_about K C U ns n cl cl' \<longleftrightarrow>
     (\<forall>s. K s \<longrightarrow> cl_Get cl' ns n s = cl_Get cl ns n s
        \<and> K (snd (cl_Get cl ns n s)) \<and> (\<forall>t. fst (cl_Get cl ns n s) = Inr t \<longrightarrow> named ns n t)
        \<and> (\<forall>t. named ns n t \<longrightarrow>
             (C t \<longrightarrow> cl_Create cl' ns t s = cl_Create cl ns t s \<and> K (snd (cl_Create cl ns t s)))
             \<and> (U s t \<longrightarrow> cl_Update cl' ns t s = cl_Update cl ns t s)
             \<and> cl_UpdateStatus cl' ns t s = cl_UpdateStatus cl ns t s \<and> K (snd (cl_UpdateStatus cl ns t s))))"

lemma agree_Get:
  assumes "agree_about K C U ns n cl cl'" and "K s" and "ApprovalTasks_Get cl ns n s = ((t, err), s')"
  shows "ApprovalTasks_Get cl' ns n s = ((t, err), s')" and "K s'" and "err = None \<Longrightarrow> named ns n t"
    and "err \<noteq> None \<Longrightarrow> t = empty_task"
  using assms unfolding agree_about_def
  by (auto simp: ApprovalTasks_Get_def typed_result_def split: prod.splits sum.splits)

lemma agree_writes:
  assumes "agree_about K C U ns n cl cl'" and "K s" and "named ns n t"
  shows "C t \<Longrightarrow> ApprovalTasks_Create cl' ns t s = ApprovalTasks_Create cl ns t s"
    and "U s t \<Longrightarrow> ApprovalTasks_Update cl' ns t s = ApprovalTasks_Update cl ns t s"
    and "ApprovalTasks_UpdateStatus cl' ns t s = ApprovalTasks_UpdateStatus cl ns t s"
    and "C t \<Longrightarrow> ApprovalTasks_Create cl ns t s = (r, s') \<Longrightarrow> K s'"
    and "ApprovalTasks_UpdateStatus cl ns t s = (r, s') \<Longrightarrow> K s'"
  using assms unfolding agree_about_def
  by (auto simp: ApprovalTasks_Create_def ApprovalTasks_Update_def ApprovalTasks_UpdateStatus_def split: prod.splits)
    (metis snd_conv)+

subsection \<open>The controller\<close>

definition creates_only :: "(approval_task \<Rightarrow> bool) \<Rightarrow> custom_run \<Rightarrow> bool" where
  "creates_only C run \<longleftrightarrow> (\<forall>acc. create_params (cr_Params run) create_init = Inr acc \<longrightarrow> C (new_task run acc))"

lemma creates_only_cong:
  "cr_Meta run' = cr_Meta run \<Longrightarrow> cr_Params run' = cr_Params run \<Longrightarrow> creates_only C run' = creates_only C run"
  by (simp add: creates_only_def new_task_def)

lemma createApprovalTask_agrees:
  assumes "agree_about K C U (run_ns run) (run_name run) cl cl'" and "K s" and "creates_only C run"
  shows "createApprovalTask env cl' run s = createApprovalTask env cl run s
    \<and> (\<forall>t s'. createApprovalTask env cl run s = (Inr t, s') \<longrightarrow> named (run_ns run) (run_name run) t \<and> K s')"
proof (cases "create_params (cr_Params run) create_init")
  case (Inr acc)
  let ?t = "new_task run acc"
  have n: "named (run_ns run) (run_name run) ?t" by (simp add: named_def new_task_sel)
  obtain t1 e1 s1 where c: "ApprovalTasks_Create cl (run_ns run) ?t s = ((t1, e1), s1)" by (metis prod.collapse)
  obtain t2 e2 s2 where g: "ApprovalTasks_Get cl (run_ns run) (run_name run) s1 = ((t2, e2), s2)" by (metis prod.collapse)
  have ok: "C ?t" using assms(3) Inr by (simp add: creates_only_def)
  note w = agree_writes [OF assms(1,2) n]
  have k: "K s1" using w(4) [OF ok] c by blast
  note a = agree_Get [OF assms(1) k g]
  have st: "named (run_ns run) (run_name run) (t2\<lparr>at_Status := x\<rparr>)" if "e2 = None" for x
    using a(3) [OF that] by (simp add: named_def)
  show ?thesis
    using Inr c g w(1) [OF ok] a(1) agree_writes(3,5) [OF assms(1) a(2) st]
    by (auto simp: createApprovalTask_def Let_def st split: option.splits prod.splits)
qed (simp add: createApprovalTask_def)

lemma getOrCreate_agrees:
  assumes "agree_about K C U (run_ns run) (run_name run) cl cl'" and "K s" and "cr_CustomRef run \<noteq> None"
    and "creates_only C run" and "getOrCreateApprovalTask env cl run s = (res, run', s')"
  shows "getOrCreateApprovalTask env cl' run s = (res, run', s')" and "run' = run"
    and "res = Inr t \<Longrightarrow> (t = empty_task \<or> named (run_ns run) (run_name run) t) \<and> K s'"
proof -
  obtain t1 e1 s1 where g: "ApprovalTasks_Get cl (run_ns run) (run_name run) s = ((t1, e1), s1)" by (metis prod.collapse)
  note a = agree_Get [OF assms(1,2) g]
  note c = createApprovalTask_agrees [OF assms(1) a(2) assms(4), of env]
  show "getOrCreateApprovalTask env cl' run s = (res, run', s')" "run' = run"
    "res = Inr t \<Longrightarrow> (t = empty_task \<or> named (run_ns run) (run_name run) t) \<and> K s'"
    using assms(3,5) g a c by (auto simp: getOrCreateApprovalTask_def split: option.splits if_splits prod.splits sum.splits)
qed

lemma reconcile_task_agrees:
  assumes "agree_about K C U (run_ns run) (run_name run) cl cl'" and "K s"
    and "t = empty_task \<or> named (run_ns run) (run_name run) t"
  shows "reconcile_task env cl' (start_task t) r s = reconcile_task env cl (start_task t) r s"
proof (cases "t = empty_task")
  case True
  let ?t = "start_task empty_task"
  have "updateApprovalState env c ?t s = (None, fst (decideState (e_map_order env) ?t), s)" for c
    by (rule updateApprovalState_silent) simp
  then have "checkIfUpdateRequired env cl' ?t r s = checkIfUpdateRequired env cl ?t r s"
    by (simp add: checkIfUpdateRequired_def)
  then show ?thesis using True by (simp add: reconcile_task_live empty_task_in_time)
next
  case False
  let ?d = "fst (decideState (e_map_order env) (start_task t))"
  have n: "named (run_ns run) (run_name run) t" using assms(3) False by simp
  then have w: "ApprovalTasks_UpdateStatus cl' (at_namespace t) u s = ApprovalTasks_UpdateStatus cl (at_namespace t) u s"
    if "at_Meta u = at_Meta t" for u
    using agree_writes(3) [OF assms(1,2), of u] that by (simp add: named_def)
  then have "updateApprovalState env cl' (start_task t) s = updateApprovalState env cl (start_task t) s"
    using w [of ?d] decideState_spec(2) [of "e_map_order env" "start_task t"]
    by (cases "decideState (e_map_order env) (start_task t)") (simp add: updateApprovalState_def split: bool.split)
  then show ?thesis using w by (simp add: reconcile_task_def checkIfUpdateRequired_def Let_def)
qed

lemma reconcile_agrees:
  assumes "agree_about K C U (run_ns run) (run_name run) cl cl'" and "K s" and "cr_CustomRef run \<noteq> None"
    and "creates_only C run"
  shows "reconcile env cl' run status s = reconcile env cl run status s"
proof -
  obtain res run' s' where g: "getOrCreateApprovalTask env cl run s = (res, run', s')" by (metis prod.collapse)
  note a = getOrCreate_agrees [OF assms g]
  show ?thesis
  proof (cases res)
    case (Inr t)
    then show ?thesis
      using Inr g a(1) reconcile_task_agrees [OF assms(1)] a(3) [OF Inr] by (simp add: reconcile_def Let_def)
  qed (use g a(1) in \<open>simp add: reconcile_def\<close>)
qed

lemma ReconcileKind_valid_agrees:
  assumes "agree_about K C U (run_ns run) (run_name run) cl cl'" and "K (w_api w)" and "cr_CustomRef run \<noteq> None"
    and "creates_only C run"
  shows "ReconcileKind_valid env cl' run w = ReconcileKind_valid env cl run w"
proof -
  have "reconcile env cl' (run\<lparr>cr_Status := x\<rparr>) st (w_api w) = reconcile env cl (run\<lparr>cr_Status := x\<rparr>) st (w_api w)"
    and "reconcile env cl' run st (w_api w) = reconcile env cl run st (w_api w)" for x st
    using reconcile_agrees [of K C U "run\<lparr>cr_Status := x\<rparr>" cl cl'] reconcile_agrees [of K C U run cl cl'] assms
      creates_only_cong [of "run\<lparr>cr_Status := x\<rparr>" run] by simp_all
  then show ?thesis
    by (cases "DecodeExtraFields (e_unmarshal_status env) (cr_Status run) empty_run_status")
      (simp add: ReconcileKind_valid_def Let_def split: option.split)
qed

lemma ReconcileKind_agrees:
  assumes "agree_about K C U (run_ns run) (run_name run) cl cl'" and "K (w_api w)" and "cr_CustomRef run \<noteq> None"
    and "creates_only C run"
  shows "ReconcileKind env cl' run w = ReconcileKind env cl run w"
proof -
  obtain run1 evs where i: "initializeCustomRun env run (w_events w) = (run1, evs)" by (metis prod.collapse)
  then have r: "cr_Meta run1 = cr_Meta run" "cr_CustomRef run1 = cr_CustomRef run" "cr_Params run1 = cr_Params run"
    using initialize_request [of env run "w_events w"] by (simp_all add: same_request_def)
  have "ReconcileKind_valid env cl' (run1\<lparr>cr_Timeout := d\<rparr>) (w\<lparr>w_events := evs\<rparr>) =
      ReconcileKind_valid env cl (run1\<lparr>cr_Timeout := d\<rparr>) (w\<lparr>w_events := evs\<rparr>)" for d
    by (rule ReconcileKind_valid_agrees [of K C U])
      (use assms r creates_only_cong [of "run1\<lparr>cr_Timeout := d\<rparr>" run] in simp_all)
  with i show ?thesis by (simp add: ReconcileKind_def Let_def split: option.split sum.split)
qed

subsection \<open>The commands\<close>

lemma decide_command_agrees:
  assumes "agree_about K C U ns n cl cl'" and "K s"
    and "\<And>t s' u. cl_Get cl ns n s = (Inr t, s') \<Longrightarrow> user = Inr u \<Longrightarrow> U s' (updated_task (command_options input n ns message u) t)"
  shows "decide_command input participle clients user gvr cl' n ns message s =
    decide_command input participle clients user gvr cl n ns message s"
proof -
  obtain t e s' where g: "ApprovalTasks_Get cl ns n s = ((t, e), s')" by (metis prod.collapse)
  note a = agree_Get [OF assms(1,2) g]
  have up: "ApprovalTasks_Update cl' ns (updated_task (command_options input n ns message u) t) s' =
      ApprovalTasks_Update cl ns (updated_task (command_options input n ns message u) t) s'"
    if "e = None" and "user = Inr u" for u
  proof -
    have "cl_Get cl ns n s = (Inr t, s')" using g that(1) by (auto simp: ApprovalTasks_Get_def typed_result_def split: prod.splits sum.splits)
    then show ?thesis
      by (intro agree_writes(2) [OF assms(1) a(2)] assms(3)) (use a(3) that in \<open>simp_all add: named_def updated_task_def\<close>)
  qed
  then have "Update cl' gvr (command_options input n ns message u) s = Update cl gvr (command_options input n ns message u) s"
    if "user = Inr u" for u
    using g a(1) that by (cases e) (simp_all add: Update_def cli_get_def cli_update_def command_options_def split: sum.split)
  then show ?thesis by (simp add: decide_command_def split: option.split sum.split)
qed

lemma describe_command_agrees:
  assumes "agree_about K C U ns n cl cl'" and "K s"
  shows "describe_command paint clients gvr cl' n ns s = describe_command paint clients gvr cl n ns s"
proof -
  obtain t e s' where g: "ApprovalTasks_Get cl ns n s = ((t, e), s')" by (metis prod.collapse)
  have "Get cl' gvr \<lparr>op_Namespace = ns, op_Name = n, op_Input = i, op_Username = u, op_Message = m, op_Groups = gs\<rparr> s =
      Get cl gvr \<lparr>op_Namespace = ns, op_Name = n, op_Input = i, op_Username = u, op_Message = m, op_Groups = gs\<rparr> s" for i u m gs
    using g agree_Get(1) [OF assms g] by (simp add: Get_def cli_get_def split: sum.split)
  then show ?thesis by (simp add: describe_command_def split: option.split)
qed

subsection \<open>The typed client and the fake one\<close>

definition keyed_at :: "string \<Rightarrow> string \<Rightarrow> tracker \<Rightarrow> bool" where
  "keyed_at ns n objs \<longleftrightarrow> (\<forall>t. tracker_lookup objs ns n = Some t \<longrightarrow> named ns n t)"

text \<open>What another client has to answer as the fake one does, for the two to agree about a task.\<close>

lemma agrees_with_fake:
  assumes "cl_Get cl ns n = cl_Get fake_client ns n" and "\<And>t. cl_Create cl ns t = cl_Create fake_client ns t"
    and "\<And>t. named ns n t \<Longrightarrow> cl_Update cl ns t = cl_Update fake_client ns t"
    and "\<And>t. named ns n t \<Longrightarrow> cl_UpdateStatus cl ns t = cl_UpdateStatus fake_client ns t"
  shows "agree_about (keyed_at ns n) (\<lambda>_. True) (\<lambda>_ _. True) ns n fake_client cl"
proof -
  have "keyed_at ns n (snd (cl_Get fake_client ns n s)) \<and> (\<forall>t. fst (cl_Get fake_client ns n s) = Inr t \<longrightarrow> named ns n t)"
    "named ns n t \<Longrightarrow> keyed_at ns n (snd (cl_Create fake_client ns t s))"
    "named ns n t \<Longrightarrow> keyed_at ns n (snd (cl_UpdateStatus fake_client ns t s))" if "keyed_at ns n s" for s t
    using that by (auto simp: tracker_defs keyed_at_def named_def split: option.split)
  then show ?thesis using assms unfolding agree_about_def by metis
qed

lemma rest_agrees:
  assumes "path_name ns" and "path_name n"
  shows "agree_about (keyed_at ns n) (\<lambda>_. True) (\<lambda>_ _. True) ns n fake_client (rest_tasks serve_tasks)"
  by (rule agrees_with_fake [OF served_like_fake(1) [OF assms] served_like_fake(2) [OF assms(1)]])
    (use served_like_fake(3,4) [OF assms(1)] assms(2) in \<open>simp_all add: named_def\<close>)

end
