(* ===== verification/Dynamic_Client.thy ===== *)
theory Dynamic_Client
  imports Client_Agreement Informer_Factory
begin

text \<open>
  The client that the commands use (\<open>c.Dynamic\<close> in \<open>pkg/actions/actions.go\<close>): the dynamic client of
  \<open>k8s.io/client-go/dynamic\<close> for the resource that discovery found. It checks names itself, before there is a
  request, and gives the request its whole path. An unstructured object is represented by the task whose fields it
  holds, to which \<open>FromUnstructured\<close> and from which \<open>ToUnstructured\<close> convert; the encoding of options into
  query parameters is left out, as in \<open>Rest_Client\<close>.
\<close>

subsection \<open>Requests\<close>

record dynamic_resource_client =
  dc_Namespace :: string
  dc_Resource :: group_version_resource

definition dynamic_Resource :: "group_version_resource \<Rightarrow> dynamic_resource_client" where
  "dynamic_Resource resource = \<lparr>dc_Namespace = [], dc_Resource = resource\<rparr>"

definition dynamic_Namespace :: "string \<Rightarrow> dynamic_resource_client \<Rightarrow> dynamic_resource_client" where
  "dynamic_Namespace ns c = c\<lparr>dc_Namespace := ns\<rparr>"

definition makeURLSegments :: "string \<Rightarrow> dynamic_resource_client \<Rightarrow> string list" where
  "makeURLSegments name c =
     (if gvr_Group (dc_Resource c) = [] then [''api''] else [''apis'', gvr_Group (dc_Resource c)])
     @ [gvr_Version (dc_Resource c)]
     @ (if dc_Namespace c = [] then [] else [''namespaces'', dc_Namespace c])
     @ [gvr_Resource (dc_Resource c)]
     @ (if name = [] then [] else [name])"

text \<open>\<open>None\<close>: nothing is wrong with the names.\<close>

definition validateNamespaceWithOptionalName :: "string \<Rightarrow> string option \<Rightarrow> string option" where
  "validateNamespaceWithOptionalName namespace name =
     (if IsValidPathSegmentName namespace \<noteq> [] then Some (invalid_msg ''namespace'' namespace)
      else case name of
        None \<Rightarrow> None
      | Some n \<Rightarrow> if IsValidPathSegmentName n \<noteq> [] then Some (invalid_msg ''resource name'' n) else None)"

text \<open>The path of the configuration is never used: \<open>AbsPath\<close> replaces it.\<close>

definition dynamic_NewRequest :: "string \<Rightarrow> rest_request" where
  "dynamic_NewRequest method = (NewRequest method)\<lparr>rr_Prefix := [''if-you-see-this-search-for-the-break'']\<rparr>"

definition req_AbsPath :: "string list \<Rightarrow> rest_request \<Rightarrow> rest_request" where
  "req_AbsPath segments r = (if rr_Err r \<noteq> None then r else r\<lparr>rr_Prefix := filter (\<lambda>s. s \<noteq> []) segments\<rparr>)"

definition dynamic_request :: "string \<Rightarrow> string list \<Rightarrow> rest_body \<Rightarrow> params \<Rightarrow> rest_request" where
  "dynamic_request method segments body opts =
     req_VersionedParams opts (req_Body body (req_AbsPath segments (dynamic_NewRequest method)))"

definition dynamic_Get :: "dynamic_resource_client \<Rightarrow> string \<Rightarrow> params \<Rightarrow> string + rest_request" where
  "dynamic_Get c name opts =
     (if name = [] then Inl ''name is required''
      else case validateNamespaceWithOptionalName (dc_Namespace c) (Some name) of
        Some e \<Rightarrow> Inl e
      | None \<Rightarrow> Inr (dynamic_request ''GET'' (makeURLSegments name c) NoBody opts))"

definition dynamic_List :: "dynamic_resource_client \<Rightarrow> params \<Rightarrow> string + rest_request" where
  "dynamic_List c opts =
     (case validateNamespaceWithOptionalName (dc_Namespace c) None of
        Some e \<Rightarrow> Inl e
      | None \<Rightarrow> Inr (dynamic_request ''GET'' (makeURLSegments [] c) NoBody opts))"

definition dynamic_Create :: "dynamic_resource_client \<Rightarrow> approval_task \<Rightarrow> params \<Rightarrow> string + rest_request" where
  "dynamic_Create c obj opts =
     (case validateNamespaceWithOptionalName (dc_Namespace c) (Some []) of
        Some e \<Rightarrow> Inl e
      | None \<Rightarrow> Inr (dynamic_request ''POST'' (makeURLSegments [] c) (TaskBody obj) opts))"

definition dynamic_Update :: "dynamic_resource_client \<Rightarrow> approval_task \<Rightarrow> params \<Rightarrow> string + rest_request" where
  "dynamic_Update c obj opts =
     (let name = at_name obj
      in if name = [] then Inl ''name is required''
         else case validateNamespaceWithOptionalName (dc_Namespace c) (Some name) of
           Some e \<Rightarrow> Inl e
         | None \<Rightarrow> Inr (dynamic_request ''PUT'' (makeURLSegments name c) (TaskBody obj) opts))"

definition dynamic_UpdateStatus :: "dynamic_resource_client \<Rightarrow> approval_task \<Rightarrow> params \<Rightarrow> string + rest_request" where
  "dynamic_UpdateStatus c obj opts =
     (let name = at_name obj
      in if name = [] then Inl ''name is required''
         else case validateNamespaceWithOptionalName (dc_Namespace c) (Some name) of
           Some e \<Rightarrow> Inl e
         | None \<Rightarrow> Inr (dynamic_request ''PUT'' (makeURLSegments name c @ [''status'']) (TaskBody obj) opts))"

definition dynamic_Do :: "'s server \<Rightarrow> string + rest_request \<Rightarrow> 's \<Rightarrow> (api_error + approval_task) \<times> 's" where
  "dynamic_Do send x s = (case x of Inl e \<Rightarrow> (Inl (Unanswered e), s) | Inr r \<Rightarrow> rest_Do send r s)"

text \<open>The client of the commands, over a connection to a server.\<close>

definition dynamic_tasks :: "group_version_resource \<Rightarrow> 's server \<Rightarrow> 's at_client" where
  "dynamic_tasks gvr send =
     \<lparr>cl_Get = \<lambda>ns n. dynamic_Do send (dynamic_Get (dynamic_Namespace ns (dynamic_Resource gvr)) n []),
      cl_Create = \<lambda>ns t. dynamic_Do send (dynamic_Create (dynamic_Namespace ns (dynamic_Resource gvr)) t []),
      cl_Update = \<lambda>ns t. dynamic_Do send (dynamic_Update (dynamic_Namespace ns (dynamic_Resource gvr)) t []),
      cl_UpdateStatus = \<lambda>ns t. dynamic_Do send (dynamic_UpdateStatus (dynamic_Namespace ns (dynamic_Resource gvr)) t [])\<rparr>"

lemmas dynamic_defs = dynamic_tasks_def dynamic_Namespace_def dynamic_Resource_def dynamic_Get_def dynamic_Create_def
  dynamic_Update_def dynamic_UpdateStatus_def dynamic_Do_def

subsection \<open>What is sent\<close>

text \<open>The resource that discovery finds for the group and the resource that the commands name.\<close>

definition task_resource :: group_version_resource where
  "task_resource = \<lparr>gvr_Group = ''openshift-pipelines.org'', gvr_Version = ''v1alpha1'', gvr_Resource = ''approvaltasks''\<rparr>"

lemma dynamic_request_sends:
  "sends (dynamic_request method segments body opts) method (filter (\<lambda>s. s \<noteq> []) segments) body"
  by (simp add: sends_def dynamic_request_def req_VersionedParams_def req_Body_def req_AbsPath_def dynamic_NewRequest_def
      NewRequest_def requestPreflightCheck_def request_path_def)

lemma dynamic_path:
  assumes "path_name ns"
  shows "filter (\<lambda>s. s \<noteq> []) (makeURLSegments n (dynamic_Namespace ns (dynamic_Resource task_resource)))
      = task_path ns @ (if n = [] then [] else [n])"
  using assms
  by (simp add: makeURLSegments_def dynamic_Namespace_def dynamic_Resource_def task_resource_def task_path_def path_name_def)

lemma dynamic_sends:
  assumes "path_name ns"
  shows "path_name n \<Longrightarrow> \<exists>r. dynamic_Get (dynamic_Namespace ns (dynamic_Resource task_resource)) n opts = Inr r
      \<and> sends r ''GET'' (task_path ns @ [n]) NoBody"
    and "\<exists>r. dynamic_Create (dynamic_Namespace ns (dynamic_Resource task_resource)) t opts = Inr r
      \<and> sends r ''POST'' (task_path ns) (TaskBody t)"
    and "path_name (at_name t) \<Longrightarrow> \<exists>r. dynamic_Update (dynamic_Namespace ns (dynamic_Resource task_resource)) t opts = Inr r
      \<and> sends r ''PUT'' (task_path ns @ [at_name t]) (TaskBody t)"
    and "path_name (at_name t) \<Longrightarrow> \<exists>r. dynamic_UpdateStatus (dynamic_Namespace ns (dynamic_Resource task_resource)) t opts = Inr r
      \<and> sends r ''PUT'' (task_path ns @ [at_name t, ''status'']) (TaskBody t)"
proof -
  have v: "validateNamespaceWithOptionalName (dc_Namespace (dynamic_Namespace ns c)) (Some m) = None"
    if "IsValidPathSegmentName m = []" for m c
    using assms that by (simp add: validateNamespaceWithOptionalName_def dynamic_Namespace_def path_name_def)
  note s = dynamic_request_sends [of _ "makeURLSegments _ (dynamic_Namespace ns (dynamic_Resource task_resource))",
      unfolded dynamic_path [OF assms]]
  show "path_name n \<Longrightarrow> \<exists>r. dynamic_Get (dynamic_Namespace ns (dynamic_Resource task_resource)) n opts = Inr r
      \<and> sends r ''GET'' (task_path ns @ [n]) NoBody"
    using v s [of "''GET''" n NoBody opts] by (simp add: dynamic_Get_def path_name_def)
  show "\<exists>r. dynamic_Create (dynamic_Namespace ns (dynamic_Resource task_resource)) t opts = Inr r
      \<and> sends r ''POST'' (task_path ns) (TaskBody t)"
    using v s [of "''POST''" "[]" "TaskBody t" opts] by (simp add: dynamic_Create_def)
  show "path_name (at_name t) \<Longrightarrow> \<exists>r. dynamic_Update (dynamic_Namespace ns (dynamic_Resource task_resource)) t opts = Inr r
      \<and> sends r ''PUT'' (task_path ns @ [at_name t]) (TaskBody t)"
    using v s [of "''PUT''" "at_name t" "TaskBody t" opts] by (simp add: dynamic_Update_def path_name_def)
  show "path_name (at_name t) \<Longrightarrow> \<exists>r. dynamic_UpdateStatus (dynamic_Namespace ns (dynamic_Resource task_resource)) t opts = Inr r
      \<and> sends r ''PUT'' (task_path ns @ [at_name t, ''status'']) (TaskBody t)"
    using v dynamic_path [OF assms, of "at_name t"]
      dynamic_request_sends [of "''PUT''" "makeURLSegments (at_name t) (dynamic_Namespace ns (dynamic_Resource task_resource)) @ [''status'']"
        "TaskBody t" opts]
    by (simp add: dynamic_UpdateStatus_def path_name_def)
qed

text \<open>Over the server that keeps tasks by their paths it answers as the fake client does.\<close>

lemma dynamic_like_fake:
  assumes "path_name ns"
  shows "path_name n \<Longrightarrow> cl_Get (dynamic_tasks task_resource serve_tasks) ns n = cl_Get fake_client ns n"
    and "cl_Create (dynamic_tasks task_resource serve_tasks) ns t = cl_Create fake_client ns t"
    and "path_name (at_name t) \<Longrightarrow> cl_Update (dynamic_tasks task_resource serve_tasks) ns t = cl_Update fake_client ns t"
    and "path_name (at_name t) \<Longrightarrow> cl_UpdateStatus (dynamic_tasks task_resource serve_tasks) ns t = cl_UpdateStatus fake_client ns t"
proof -
  have d: "dynamic_Do serve_tasks x = h" if "\<exists>r. x = Inr r \<and> sends r m p b" "\<And>r. sends r m p b \<Longrightarrow> rest_Do serve_tasks r = h" for x m p b h
    using that by (auto simp: dynamic_Do_def fun_eq_iff)
  note c = dynamic_tasks_def fake_client_def
  show "path_name n \<Longrightarrow> cl_Get (dynamic_tasks task_resource serve_tasks) ns n = cl_Get fake_client ns n"
    using d [OF dynamic_sends(1) [OF assms] served(2)] by (simp add: c)
  show "cl_Create (dynamic_tasks task_resource serve_tasks) ns t = cl_Create fake_client ns t"
    using d [OF dynamic_sends(2) [OF assms] served(1)] by (simp add: c)
  show "path_name (at_name t) \<Longrightarrow> cl_Update (dynamic_tasks task_resource serve_tasks) ns t = cl_Update fake_client ns t"
    using d [OF dynamic_sends(3) [OF assms] served(3)] by (simp add: c)
  show "path_name (at_name t) \<Longrightarrow> cl_UpdateStatus (dynamic_tasks task_resource serve_tasks) ns t = cl_UpdateStatus fake_client ns t"
    using d [OF dynamic_sends(4) [OF assms] served(4)] by (simp add: c)
qed

lemma dynamic_agrees:
  assumes "path_name ns" and "path_name n"
  shows "agree_about (keyed_at ns n) (\<lambda>_. True) (\<lambda>_ _. True) ns n fake_client (dynamic_tasks task_resource serve_tasks)"
  by (rule agrees_with_fake [OF dynamic_like_fake(1) [OF assms] dynamic_like_fake(2) [OF assms(1)]])
    (use dynamic_like_fake(3,4) [OF assms(1)] assms(2) in \<open>simp_all add: named_def\<close>)

subsection \<open>Names that are no part of a path\<close>

definition name_error :: "string \<Rightarrow> string \<Rightarrow> string option" where
  "name_error ns name = (if name = [] then Some ''name is required'' else validateNamespaceWithOptionalName ns (Some name))"

lemma name_error_iff: "name_error ns name \<noteq> None \<longleftrightarrow> \<not> path_name name \<or> IsValidPathSegmentName ns \<noteq> []"
  by (simp add: name_error_def path_name_def validateNamespaceWithOptionalName_def)

lemma bad_name_unsent:
  assumes "name_error ns name = Some e"
  shows "ApprovalTasks_Get (dynamic_tasks gvr send) ns name s = ((empty_task, Some (PlainErr e)), s)"
  using assms
  by (auto simp: ApprovalTasks_Get_def typed_result_def dynamic_defs name_error_def split: if_splits)

lemma bad_name_commands:
  assumes "name_error ns name = Some e"
  shows "decide_command input participle None (Inr u) (Inr g) (dynamic_tasks gvr send) name ns message s =
      (Inl (TextErr (''failed to '' @ input @ '' approvalTask from namespace '' @ ns @ '': '') (PlainErr e)), s)"
    and "describe_command paint None (Inr g) (dynamic_tasks gvr send) name ns s =
      (Inl (PlainErr (''failed to Get ApprovalTasks '' @ name @ '' from '' @ ns @ '' namespace'')), s)"
  by (simp_all add: bad_name_unsent [OF assms] decide_command_def describe_command_def Update_def Get_def cli_get_def command_options_def)

end
