(* ===== verification/Startup.thy ===== *)
theory Startup
  imports Informer_Factory Event_Filters Webhook_Config
begin

text \<open>
  What the programs do before they serve: the webhook's names from the environment
  (\<open>cmd/webhook/main.go\<close>) and its reconciler (\<open>NewAdmissionController\<close>), the informer factories that
  are put into the context (\<open>pkg/client/injection\<close>), and the listers over an informer's cache
  (\<open>pkg/client/listers\<close>).
\<close>

subsection \<open>The webhook's names\<close>

definition getEnvOrDefault :: "(string \<Rightarrow> string) \<Rightarrow> string \<Rightarrow> string \<Rightarrow> string" where
  "getEnvOrDefault getenv key defaultValue = (let value = getenv key in if value = [] then defaultValue else value)"

record webhook_options =
  wo_ServiceName :: string
  wo_SecretName :: string

text \<open>\<open>system.Namespace\<close> panics when the variable is not set.\<close>

definition system_Namespace :: "(string \<Rightarrow> string) \<Rightarrow> string outcome" where
  "system_Namespace getenv = (if getenv ''SYSTEM_NAMESPACE'' = [] then Panic else Ret (getenv ''SYSTEM_NAMESPACE''))"

definition NewAdmissionController ::
  "(string \<Rightarrow> string) \<Rightarrow> webhook_options \<Rightarrow> string \<Rightarrow> string \<Rightarrow> webhook_reconciler outcome" where
  "NewAdmissionController getenv options name path =
     (case system_Namespace getenv of
        Panic \<Rightarrow> Panic
      | Ret ns \<Rightarrow> Ret \<lparr>wr_Namespace = ns, wr_Name = name, wr_Path = path, wr_SecretName = wo_SecretName options\<rparr>)"

definition newValidationAdmissionController ::
  "(string \<Rightarrow> string) \<Rightarrow> webhook_options \<Rightarrow> string \<Rightarrow> webhook_reconciler outcome" where
  "newValidationAdmissionController getenv options name =
     NewAdmissionController getenv options name ''/approval-validation''"

definition webhook_main :: "(string \<Rightarrow> string) \<Rightarrow> webhook_reconciler outcome" where
  "webhook_main getenv =
     (let serviceName = getEnvOrDefault getenv ''WEBHOOK_SERVICE_NAME'' ''manual-approval-webhook'';
          secretName = getEnvOrDefault getenv ''WEBHOOK_SECRET_NAME'' ''manual-approval-gate-webhook-certs'';
          webhookName = getEnvOrDefault getenv ''WEBHOOK_ADMISSION_CONTROLLER_NAME''
            ''validation.webhook.manual-approval.openshift-pipelines.org''
      in newValidationAdmissionController getenv \<lparr>wo_ServiceName = serviceName, wo_SecretName = secretName\<rparr> webhookName)"

text \<open>The key queued when the replica becomes the leader, and the path the webhook answers on.\<close>

definition PromoteFunc :: "webhook_reconciler \<Rightarrow> namespaced_name" where
  "PromoteFunc r = \<lparr>nn_Namespace = wr_Namespace r, nn_Name = wr_Name r\<rparr>"

definition webhook_Path :: "webhook_reconciler \<Rightarrow> string" where
  "webhook_Path r = wr_Path r"

lemma webhook_main_sel:
  assumes "webhook_main getenv = Ret r"
  shows "webhook_Path r = ''/approval-validation''" and "wr_Namespace r \<noteq> []" and "wr_Name r \<noteq> []" and "wr_SecretName r \<noteq> []"
  using assms
  by (auto simp: webhook_main_def newValidationAdmissionController_def NewAdmissionController_def system_Namespace_def
      getEnvOrDefault_def webhook_Path_def Let_def split: if_splits)

text \<open>The objects this reconciler reads wake it.\<close>

lemma webhook_woken:
  "om_Name m = wr_Name r \<Longrightarrow> webhook_handler (wr_Name r) (Updated m m) = [object_key m]"
  "om_Name m = wr_SecretName r \<Longrightarrow> om_Namespace m = wr_Namespace r \<Longrightarrow>
     secret_handler (wr_Namespace r) (wr_SecretName r) (Updated m m) = [object_key m]"
  by (simp_all add: webhook_handler_def secret_handler_def FilterWithName_def FilterWithNameAndNamespace_def)

subsection \<open>Factories in the context\<close>

text \<open>\<open>scope\<close> is the namespace scope of the context, if it has one.\<close>

definition withInformerFactory :: "string option \<Rightarrow> duration \<Rightarrow> factory" where
  "withInformerFactory scope resync =
     NewSharedInformerFactoryWithOptions resync (case scope of None \<Rightarrow> [] | Some ns \<Rightarrow> [WithNamespace ns])"

definition select_label :: "string \<Rightarrow> list_options \<Rightarrow> list_options" where
  "select_label selector l = l\<lparr>lo_LabelSelector := selector\<rparr>"

definition filtered_factory :: "string option \<Rightarrow> duration \<Rightarrow> string \<Rightarrow> factory" where
  "filtered_factory scope resync selector =
     NewSharedInformerFactoryWithOptions resync
       ((case scope of None \<Rightarrow> [] | Some ns \<Rightarrow> [WithNamespace ns]) @ [WithTweakListOptions (Some (select_label selector))])"

text \<open>The filtered factories by selector; a context without selectors makes it panic.\<close>

definition withFilteredInformerFactory :: "string option \<Rightarrow> duration \<Rightarrow> string list option \<Rightarrow> (string \<rightharpoonup> factory) outcome" where
  "withFilteredInformerFactory scope resync labelSelectors =
     (case labelSelectors of
        None \<Rightarrow> Panic
      | Some sels \<Rightarrow> Ret (fold (\<lambda>sel m. m(sel \<mapsto> filtered_factory scope resync sel)) sels Map.empty))"

definition get_filtered :: "(string \<rightharpoonup> factory) \<Rightarrow> string \<Rightarrow> factory outcome" where
  "get_filtered factories selector = (case factories selector of None \<Rightarrow> Panic | Some f \<Rightarrow> Ret f)"

text \<open>The informers of the filtered factories, in the order of the selectors.\<close>

fun withFilteredInformers :: "string list \<Rightarrow> (string \<rightharpoonup> factory) \<Rightarrow> (informer list \<times> (string \<rightharpoonup> factory)) outcome" where
  "withFilteredInformers [] factories = Ret ([], factories)"
| "withFilteredInformers (sel # sels) factories =
     (case get_filtered factories sel of
        Panic \<Rightarrow> Panic
      | Ret f \<Rightarrow>
          (case typed_Informer (typed_ApprovalTasks f) f of
             (i, f') \<Rightarrow>
               (case withFilteredInformers sels (factories(sel \<mapsto> f')) of
                  Panic \<Rightarrow> Panic
                | Ret (is, fs) \<Rightarrow> Ret (i # is, fs))))"

lemma filtered_factory_sel [simp]:
  "f_tweakListOptions (filtered_factory scope resync sel) = Some (select_label sel)"
  "f_namespace (filtered_factory scope resync sel) = (case scope of None \<Rightarrow> [] | Some ns \<Rightarrow> ns)"
  "f_informers (filtered_factory scope resync sel) = fmempty"
  by (simp_all add: filtered_factory_def NewSharedInformerFactoryWithOptions_def WithNamespace_def WithTweakListOptions_def
      split: option.split)

lemma filtered_factories:
  "withFilteredInformerFactory scope resync (Some sels) = Ret fs \<Longrightarrow> sel \<in> set sels \<Longrightarrow>
     get_filtered fs sel = Ret (filtered_factory scope resync sel)"
proof -
  have "fold (\<lambda>sel m. m(sel \<mapsto> filtered_factory scope resync sel)) sels m sel =
      (if sel \<in> set sels then Some (filtered_factory scope resync sel) else m sel)" for m
    by (induction sels arbitrary: m) auto
  then show "withFilteredInformerFactory scope resync (Some sels) = Ret fs \<Longrightarrow> sel \<in> set sels \<Longrightarrow>
     get_filtered fs sel = Ret (filtered_factory scope resync sel)"
    by (auto simp: withFilteredInformerFactory_def get_filtered_def)
qed

subsection \<open>Listers\<close>

text \<open>An informer's cache: the objects by their keys.\<close>

type_synonym indexer = "(string, approval_task) fmap"

definition indexer_Add :: "approval_task \<Rightarrow> indexer \<Rightarrow> indexer" where
  "indexer_Add t idx = fmupd (safeKey (object_key (at_Meta t))) t idx"

definition lister_List :: "indexer \<Rightarrow> string \<Rightarrow> (approval_task \<Rightarrow> bool) \<Rightarrow> approval_task list" where
  "lister_List idx ns selector =
     filter (\<lambda>t. (ns = [] \<or> at_namespace t = ns) \<and> selector t) (map snd (sorted_list_of_fmap idx))"

definition lister_Get :: "indexer \<Rightarrow> string \<Rightarrow> string \<Rightarrow> go_error + approval_task" where
  "lister_Get idx ns name =
     (case fmlookup idx (if ns = [] then name else ns @ ''/'' @ name) of
        None \<Rightarrow> Inl (StatusErr (NewNotFound ''approvaltask'' name))
      | Some t \<Rightarrow> Inr t)"

lemma lister_Get_Add: "lister_Get (indexer_Add t idx) (at_namespace t) (at_name t) = Inr t"
  by (simp add: lister_Get_def indexer_Add_def safeKey_def object_key_def)

lemma safeKey_inject:
  assumes "CHR ''/'' \<notin> set (nn_Namespace k)" and "CHR ''/'' \<notin> set (nn_Name k)"
    and "CHR ''/'' \<notin> set (nn_Namespace k')" and "CHR ''/'' \<notin> set (nn_Name k')" and "safeKey k = safeKey k'"
  shows "k = k'"
proof -
  have "Inr (nn_Namespace k, nn_Name k) = (Inr (nn_Namespace k', nn_Name k') :: go_error + string \<times> string)"
    unfolding SplitMetaNamespaceKey_safeKey [OF assms(1,2), symmetric] SplitMetaNamespaceKey_safeKey [OF assms(3,4), symmetric]
      assms(5) ..
  then show ?thesis by simp
qed

lemma lister_Get_other:
  assumes "CHR ''/'' \<notin> set ns" and "CHR ''/'' \<notin> set n"
    and "CHR ''/'' \<notin> set (at_namespace t)" and "CHR ''/'' \<notin> set (at_name t)"
    and "(ns, n) \<noteq> (at_namespace t, at_name t)"
  shows "lister_Get (indexer_Add t idx) ns n = lister_Get idx ns n"
proof -
  have "(if ns = [] then n else ns @ ''/'' @ n) = safeKey \<lparr>nn_Namespace = ns, nn_Name = n\<rparr>" by (simp add: safeKey_def)
  moreover have "safeKey \<lparr>nn_Namespace = ns, nn_Name = n\<rparr> \<noteq> safeKey (object_key (at_Meta t))"
    using safeKey_inject [of "\<lparr>nn_Namespace = ns, nn_Name = n\<rparr>" "object_key (at_Meta t)"] assms
    by (auto simp: object_key_def)
  ultimately show ?thesis by (simp add: lister_Get_def indexer_Add_def)
qed

end
