(* ===== verification/Scheme_Registry.thy ===== *)
theory Scheme_Registry
  imports Api_Types Go_Errors
begin

text \<open>
  Schemes: which Go type stands for which group, version and kind (\<open>k8s.io/apimachinery/pkg/runtime\<close>),
  the types of ApprovalTasks that \<open>register.go\<close> adds, and the schemes of the client set and of the
  fake one. Conversion and defaulting functions are left out; a registration that contradicts an
  earlier one panics.
\<close>

subsection \<open>Kinds and resources\<close>

record group_version_kind =
  gvk_Group :: string
  gvk_Version :: string
  gvk_Kind :: string

definition WithKind :: "group_version \<Rightarrow> string \<Rightarrow> group_version_kind" where
  "WithKind gv kind = \<lparr>gvk_Group = gv_Group gv, gvk_Version = gv_Version gv, gvk_Kind = kind\<rparr>"

definition gvk_GroupVersion :: "group_version_kind \<Rightarrow> group_version" where
  "gvk_GroupVersion gvk = \<lparr>gv_Group = gvk_Group gvk, gv_Version = gvk_Version gvk\<rparr>"

type_synonym group_kind = "string \<times> string"
type_synonym group_resource = "string \<times> string"

definition api_Kind :: "string \<Rightarrow> group_kind" where
  "api_Kind kind = (gvk_Group (WithKind SchemeGroupVersion kind), gvk_Kind (WithKind SchemeGroupVersion kind))"

definition api_Resource :: "string \<Rightarrow> group_resource" where
  "api_Resource resource = (gv_Group SchemeGroupVersion, resource)"

subsection \<open>Schemes\<close>

text \<open>A type is its package and its name.\<close>

datatype go_type = GoType (ty_Pkg: string) (ty_Name: string)

record scheme =
  sc_gvkToType :: "group_version_kind \<rightharpoonup> go_type"
  sc_typeToGVK :: "go_type \<Rightarrow> group_version_kind list"
  sc_unversionedTypes :: "go_type \<rightharpoonup> group_version_kind"
  sc_unversionedKinds :: "string \<rightharpoonup> go_type"
  sc_observedVersions :: "group_version list"

definition NewScheme :: scheme where
  "NewScheme = \<lparr>sc_gvkToType = Map.empty, sc_typeToGVK = \<lambda>_. [], sc_unversionedTypes = Map.empty,
     sc_unversionedKinds = Map.empty, sc_observedVersions = []\<rparr>"

abbreviation (input) "APIVersionInternal \<equiv> ''__internal''"

definition addObservedVersion :: "group_version \<Rightarrow> scheme \<Rightarrow> scheme" where
  "addObservedVersion v s =
     (if gv_Version v = [] \<or> gv_Version v = APIVersionInternal \<or> v \<in> set (sc_observedVersions s) then s
      else s\<lparr>sc_observedVersions := sc_observedVersions s @ [v]\<rparr>)"

definition AddKnownTypeWithName :: "group_version_kind \<Rightarrow> go_type \<Rightarrow> scheme \<Rightarrow> scheme outcome" where
  "AddKnownTypeWithName gvk t s =
     (let s1 = addObservedVersion (gvk_GroupVersion gvk) s
      in if gvk_Version gvk = [] then Panic
         else if sc_gvkToType s1 gvk \<noteq> None \<and> sc_gvkToType s1 gvk \<noteq> Some t then Panic
         else let s2 = s1\<lparr>sc_gvkToType := (sc_gvkToType s1)(gvk \<mapsto> t)\<rparr>
              in if gvk \<in> set (sc_typeToGVK s2 t) then Ret s2
                 else Ret (s2\<lparr>sc_typeToGVK := (sc_typeToGVK s2)(t := sc_typeToGVK s2 t @ [gvk])\<rparr>))"

fun known_types_loop :: "group_version \<Rightarrow> go_type list \<Rightarrow> scheme \<Rightarrow> scheme outcome" where
  "known_types_loop gv [] s = Ret s"
| "known_types_loop gv (t # ts) s =
     (case AddKnownTypeWithName (WithKind gv (ty_Name t)) t s of
        Panic \<Rightarrow> Panic
      | Ret s' \<Rightarrow> known_types_loop gv ts s')"

definition AddKnownTypes :: "group_version \<Rightarrow> go_type list \<Rightarrow> scheme \<Rightarrow> scheme outcome" where
  "AddKnownTypes gv types s = known_types_loop gv types (addObservedVersion gv s)"

fun unversioned_loop :: "group_version \<Rightarrow> go_type list \<Rightarrow> scheme \<Rightarrow> scheme outcome" where
  "unversioned_loop v [] s = Ret s"
| "unversioned_loop v (t # ts) s =
     (let s1 = s\<lparr>sc_unversionedTypes := (sc_unversionedTypes s)(t \<mapsto> WithKind v (ty_Name t))\<rparr>
      in if sc_unversionedKinds s1 (ty_Name t) \<noteq> None \<and> sc_unversionedKinds s1 (ty_Name t) \<noteq> Some t then Panic
         else unversioned_loop v ts (s1\<lparr>sc_unversionedKinds := (sc_unversionedKinds s1)(ty_Name t \<mapsto> t)\<rparr>))"

definition AddUnversionedTypes :: "group_version \<Rightarrow> go_type list \<Rightarrow> scheme \<Rightarrow> scheme outcome" where
  "AddUnversionedTypes v types s =
     (case AddKnownTypes v types (addObservedVersion v s) of
        Panic \<Rightarrow> Panic
      | Ret s' \<Rightarrow> unversioned_loop v types s')"

subsection \<open>The common types of an API group\<close>

abbreviation (input) "meta_type n \<equiv> GoType ''k8s.io/apimachinery/pkg/apis/meta/v1'' n"

definition optionsTypes :: "go_type list" where
  "optionsTypes = [meta_type ''ListOptions'', meta_type ''GetOptions'', meta_type ''DeleteOptions'',
     meta_type ''CreateOptions'', meta_type ''UpdateOptions'', meta_type ''PatchOptions'']"

definition Unversioned :: group_version where
  "Unversioned = \<lparr>gv_Group = [], gv_Version = ''v1''\<rparr>"

definition AddToGroupVersion :: "group_version \<Rightarrow> scheme \<Rightarrow> scheme outcome" where
  "AddToGroupVersion gv s =
     (case AddKnownTypeWithName (WithKind gv ''WatchEvent'') (meta_type ''WatchEvent'') s of
        Panic \<Rightarrow> Panic
      | Ret s1 \<Rightarrow>
          (case AddKnownTypeWithName (WithKind (gv\<lparr>gv_Version := APIVersionInternal\<rparr>) ''WatchEvent'')
                  (meta_type ''InternalEvent'') s1 of
             Panic \<Rightarrow> Panic
           | Ret s2 \<Rightarrow>
               (case AddKnownTypes gv optionsTypes s2 of
                  Panic \<Rightarrow> Panic
                | Ret s3 \<Rightarrow>
                    AddUnversionedTypes Unversioned
                      [meta_type ''Status'', meta_type ''APIVersions'', meta_type ''APIGroupList'', meta_type ''APIGroup'',
                       meta_type ''APIResourceList''] s3)))"

subsection \<open>The types of ApprovalTasks\<close>

abbreviation (input) "api_type n \<equiv> GoType ''github.com/openshift-pipelines/manual-approval-gate/pkg/apis/approvaltask/v1alpha1'' n"

type_synonym scheme_builder = "(scheme \<Rightarrow> (go_error option \<times> scheme) outcome) list"

definition addKnownTypes :: "scheme \<Rightarrow> (go_error option \<times> scheme) outcome" where
  "addKnownTypes s =
     (case AddKnownTypes SchemeGroupVersion [api_type ''ApprovalTask'', api_type ''ApprovalTaskList''] s of
        Panic \<Rightarrow> Panic
      | Ret s1 \<Rightarrow>
          (case AddToGroupVersion SchemeGroupVersion s1 of Panic \<Rightarrow> Panic | Ret s2 \<Rightarrow> Ret (None, s2)))"

fun builder_AddToScheme :: "scheme_builder \<Rightarrow> scheme \<Rightarrow> (go_error option \<times> scheme) outcome" where
  "builder_AddToScheme [] s = Ret (None, s)"
| "builder_AddToScheme (f # fs) s =
     (case f s of
        Panic \<Rightarrow> Panic
      | Ret (Some e, s') \<Rightarrow> Ret (Some e, s')
      | Ret (None, s') \<Rightarrow> builder_AddToScheme fs s')"

definition schemeBuilder :: scheme_builder where
  "schemeBuilder = [addKnownTypes]"

definition api_AddToScheme :: "scheme \<Rightarrow> (go_error option \<times> scheme) outcome" where
  "api_AddToScheme = builder_AddToScheme schemeBuilder"

subsection \<open>The schemes of the client sets\<close>

definition localSchemeBuilder :: scheme_builder where
  "localSchemeBuilder = [api_AddToScheme]"

definition clientset_AddToScheme :: "scheme \<Rightarrow> (go_error option \<times> scheme) outcome" where
  "clientset_AddToScheme = builder_AddToScheme localSchemeBuilder"

text \<open>The package's \<open>init\<close>; \<open>Must\<close> panics on an error.\<close>

definition scheme_init :: "scheme \<Rightarrow> scheme outcome" where
  "scheme_init s =
     (case AddToGroupVersion \<lparr>gv_Group = [], gv_Version = ''v1''\<rparr> s of
        Panic \<Rightarrow> Panic
      | Ret s1 \<Rightarrow>
          (case clientset_AddToScheme s1 of
             Ret (None, s2) \<Rightarrow> Ret s2
           | _ \<Rightarrow> Panic))"

definition fake_localSchemeBuilder :: scheme_builder where
  "fake_localSchemeBuilder = [api_AddToScheme]"

definition fake_AddToScheme :: "scheme \<Rightarrow> (go_error option \<times> scheme) outcome" where
  "fake_AddToScheme = builder_AddToScheme fake_localSchemeBuilder"

definition fake_scheme_init :: "scheme \<Rightarrow> scheme outcome" where
  "fake_scheme_init s =
     (case AddToGroupVersion \<lparr>gv_Group = [], gv_Version = ''v1''\<rparr> s of
        Panic \<Rightarrow> Panic
      | Ret s1 \<Rightarrow>
          (case fake_AddToScheme s1 of
             Ret (None, s2) \<Rightarrow> Ret s2
           | _ \<Rightarrow> Panic))"

subsection \<open>Adding again\<close>

definition registered :: "scheme \<Rightarrow> group_version_kind \<Rightarrow> go_type \<Rightarrow> bool" where
  "registered s gvk t \<longleftrightarrow>
     sc_gvkToType s gvk = Some t \<and> gvk \<in> set (sc_typeToGVK s t) \<and> gvk_Version gvk \<noteq> []
     \<and> addObservedVersion (gvk_GroupVersion gvk) s = s"

definition unversioned :: "scheme \<Rightarrow> group_version \<Rightarrow> go_type \<Rightarrow> bool" where
  "unversioned s v t \<longleftrightarrow> sc_unversionedTypes s t = Some (WithKind v (ty_Name t)) \<and> sc_unversionedKinds s (ty_Name t) = Some t"

text \<open>\<open>s'\<close> has all that \<open>s\<close> has.\<close>

definition extends :: "scheme \<Rightarrow> scheme \<Rightarrow> bool" where
  "extends s' s \<longleftrightarrow> (\<forall>gvk t. registered s gvk t \<longrightarrow> registered s' gvk t)
     \<and> (\<forall>v. addObservedVersion v s = s \<longrightarrow> addObservedVersion v s' = s')"

lemma extends_refl [simp]: "extends s s"
  by (simp add: extends_def)

lemma extends_trans [trans]: "extends s2 s1 \<Longrightarrow> extends s1 s \<Longrightarrow> extends s2 s"
  by (auto simp: extends_def)

lemma observed_iff:
  "addObservedVersion v s = s \<longleftrightarrow> gv_Version v = [] \<or> gv_Version v = APIVersionInternal \<or> v \<in> set (sc_observedVersions s)"
proof -
  have "sc_observedVersions (s\<lparr>sc_observedVersions := sc_observedVersions s @ [v]\<rparr>) \<noteq> sc_observedVersions s" by simp
  then have "s\<lparr>sc_observedVersions := sc_observedVersions s @ [v]\<rparr> \<noteq> s" by metis
  then show ?thesis by (simp add: addObservedVersion_def)
qed

lemma observed_sel [simp]:
  "sc_gvkToType (addObservedVersion v s) = sc_gvkToType s" "sc_typeToGVK (addObservedVersion v s) = sc_typeToGVK s"
  "sc_unversionedTypes (addObservedVersion v s) = sc_unversionedTypes s"
  "sc_unversionedKinds (addObservedVersion v s) = sc_unversionedKinds s"
  by (simp_all add: addObservedVersion_def)

lemma observed_set:
  "set (sc_observedVersions s) \<subseteq> set (sc_observedVersions (addObservedVersion v s))"
  "addObservedVersion v (addObservedVersion v s) = addObservedVersion v s"
  by (auto simp: addObservedVersion_def)

lemma extends_observed: "extends (addObservedVersion v s) s"
  using observed_set(1) [of s v] by (auto simp: extends_def registered_def observed_iff)

lemma AddKnownType_added:
  assumes "AddKnownTypeWithName gvk t s = Ret s'"
  shows "registered s' gvk t" and "extends s' s" and "sc_unversionedTypes s' = sc_unversionedTypes s"
    and "sc_unversionedKinds s' = sc_unversionedKinds s"
proof -
  let ?s1 = "addObservedVersion (gvk_GroupVersion gvk) s"
  have v: "gvk_Version gvk \<noteq> []" and n: "sc_gvkToType s gvk = None \<or> sc_gvkToType s gvk = Some t"
    and m: "sc_gvkToType s' = (sc_gvkToType s)(gvk \<mapsto> t)"
    and l: "\<And>u. set (sc_typeToGVK s' u) = (if u = t then insert gvk (set (sc_typeToGVK s t)) else set (sc_typeToGVK s u))"
    and o: "sc_observedVersions s' = sc_observedVersions ?s1"
    using assms by (auto simp: AddKnownTypeWithName_def Let_def split: if_splits)
  have "addObservedVersion (gvk_GroupVersion gvk) s' = s'"
    using observed_set(2) [of "gvk_GroupVersion gvk" s] o by (simp add: observed_iff)
  with v m l show "registered s' gvk t" by (simp add: registered_def)
  show "extends s' s"
    using m l n o observed_set(1) [of s "gvk_GroupVersion gvk"] by (auto simp: extends_def registered_def observed_iff)
  show "sc_unversionedTypes s' = sc_unversionedTypes s" "sc_unversionedKinds s' = sc_unversionedKinds s"
    using assms by (auto simp: AddKnownTypeWithName_def Let_def split: if_splits)
qed

lemma AddKnownType_again: "registered s gvk t \<Longrightarrow> AddKnownTypeWithName gvk t s = Ret s"
  by (simp add: registered_def AddKnownTypeWithName_def Let_def fun_upd_idem)

lemma known_types_added:
  "known_types_loop gv ts s = Ret s' \<Longrightarrow> extends s' s \<and> (\<forall>t \<in> set ts. registered s' (WithKind gv (ty_Name t)) t)
     \<and> sc_unversionedTypes s' = sc_unversionedTypes s \<and> sc_unversionedKinds s' = sc_unversionedKinds s"
proof (induction ts arbitrary: s)
  case (Cons t ts)
  from Cons.prems obtain s1 where a: "AddKnownTypeWithName (WithKind gv (ty_Name t)) t s = Ret s1"
    and l: "known_types_loop gv ts s1 = Ret s'" by (auto split: outcome.splits)
  note k = AddKnownType_added [OF a] and r = Cons.IH [OF l]
  have "registered s' (WithKind gv (ty_Name t)) t" using k(1) r by (simp add: extends_def)
  with k r show ?case by (auto intro: extends_trans)
qed simp

lemma AddKnownTypes_added:
  assumes "AddKnownTypes gv ts s = Ret s'"
  shows "extends s' s" and "\<forall>t \<in> set ts. registered s' (WithKind gv (ty_Name t)) t" and "addObservedVersion gv s' = s'"
    and "sc_unversionedTypes s' = sc_unversionedTypes s" and "sc_unversionedKinds s' = sc_unversionedKinds s"
proof -
  have l: "known_types_loop gv ts (addObservedVersion gv s) = Ret s'" using assms by (simp add: AddKnownTypes_def)
  note k = known_types_added [OF l]
  show "extends s' s" using k extends_observed extends_trans by blast
  show "addObservedVersion gv s' = s'" using k observed_set(2) [of gv s] by (auto simp: extends_def)
qed (use assms known_types_added in \<open>auto simp: AddKnownTypes_def\<close>)

lemma AddKnownTypes_again:
  assumes "\<forall>t \<in> set ts. registered s (WithKind gv (ty_Name t)) t" and "addObservedVersion gv s = s"
  shows "AddKnownTypes gv ts s = Ret s"
proof -
  have "known_types_loop gv ts s = Ret s"
    using assms(1) by (induction ts) (simp_all add: AddKnownType_again)
  with assms(2) show ?thesis by (simp add: AddKnownTypes_def)
qed

lemma unversioned_added:
  "unversioned_loop v ts s = Ret s' \<Longrightarrow> distinct (map ty_Name ts) \<Longrightarrow>
     sc_gvkToType s' = sc_gvkToType s \<and> sc_typeToGVK s' = sc_typeToGVK s \<and> sc_observedVersions s' = sc_observedVersions s
     \<and> (\<forall>t. unversioned s v t \<longrightarrow> unversioned s' v t) \<and> (\<forall>t \<in> set ts. unversioned s' v t)"
proof (induction ts arbitrary: s)
  case (Cons t ts)
  let ?s1 = "s\<lparr>sc_unversionedTypes := (sc_unversionedTypes s)(t \<mapsto> WithKind v (ty_Name t)),
    sc_unversionedKinds := (sc_unversionedKinds s)(ty_Name t \<mapsto> t)\<rparr>"
  have l: "unversioned_loop v ts ?s1 = Ret s'" and n: "sc_unversionedKinds s (ty_Name t) = None \<or> sc_unversionedKinds s (ty_Name t) = Some t"
    using Cons.prems(1) by (auto simp: Let_def split: if_splits)
  have "unversioned ?s1 v t" by (simp add: unversioned_def)
  moreover have "unversioned s v u \<Longrightarrow> unversioned ?s1 v u" for u
    using n by (auto simp: unversioned_def)
  ultimately show ?case using Cons.IH [OF l] Cons.prems(2) by auto
qed simp

lemma unversioned_again: "\<forall>t \<in> set ts. unversioned s v t \<Longrightarrow> unversioned_loop v ts s = Ret s"
  by (induction ts) (simp_all add: unversioned_def fun_upd_idem Let_def)

lemma same_registered:
  "sc_gvkToType s' = sc_gvkToType s \<Longrightarrow> sc_typeToGVK s' = sc_typeToGVK s \<Longrightarrow>
     sc_observedVersions s' = sc_observedVersions s \<Longrightarrow> extends s' s"
  by (simp add: extends_def registered_def observed_iff)

lemma AddUnversionedTypes_added:
  assumes "AddUnversionedTypes v ts s = Ret s'" and "distinct (map ty_Name ts)"
  shows "extends s' s" and "AddUnversionedTypes v ts s' = Ret s'"
proof -
  obtain s1 where k: "AddKnownTypes v ts (addObservedVersion v s) = Ret s1" and l: "unversioned_loop v ts s1 = Ret s'"
    using assms(1) by (auto simp: AddUnversionedTypes_def split: outcome.splits)
  note a = AddKnownTypes_added [OF k] and u = unversioned_added [OF l assms(2)]
  have e: "extends s' s1" using u by (blast intro: same_registered)
  then show "extends s' s" using a(1) extends_observed extends_trans by blast
  have "AddKnownTypes v ts (addObservedVersion v s') = Ret s'"
    using AddKnownTypes_again [of ts s' v] a(2,3) e by (simp add: extends_def)
  then show "AddUnversionedTypes v ts s' = Ret s'" using unversioned_again [of ts s' v] u by (simp add: AddUnversionedTypes_def)
qed

lemma unversioned_kept:
  "AddUnversionedTypes v ts s = Ret s' \<Longrightarrow> distinct (map ty_Name ts) \<Longrightarrow> extends s'' s' \<Longrightarrow>
     sc_unversionedTypes s'' = sc_unversionedTypes s' \<Longrightarrow> sc_unversionedKinds s'' = sc_unversionedKinds s' \<Longrightarrow>
     AddUnversionedTypes v ts s'' = Ret s''"
proof -
  assume a: "AddUnversionedTypes v ts s = Ret s'" "distinct (map ty_Name ts)" and e: "extends s'' s'"
    and u: "sc_unversionedTypes s'' = sc_unversionedTypes s'" "sc_unversionedKinds s'' = sc_unversionedKinds s'"
  obtain s1 where k: "AddKnownTypes v ts (addObservedVersion v s) = Ret s1" and l: "unversioned_loop v ts s1 = Ret s'"
    using a(1) by (auto simp: AddUnversionedTypes_def split: outcome.splits)
  note r = AddKnownTypes_added [OF k] and n = unversioned_added [OF l a(2)]
  have "extends s' s1" using n by (blast intro: same_registered)
  with e have x: "extends s'' s1" by (rule extends_trans)
  have "AddKnownTypes v ts (addObservedVersion v s'') = Ret s''"
    using AddKnownTypes_again [of ts s'' v] r(2,3) x by (simp add: extends_def)
  moreover have "\<forall>t \<in> set ts. unversioned s'' v t" using n u by (simp add: unversioned_def)
  ultimately show ?thesis using unversioned_again [of ts s'' v] by (simp add: AddUnversionedTypes_def)
qed

lemma AddToGroupVersion_added:
  assumes "AddToGroupVersion gv s = Ret s'"
  shows "extends s' s" and "AddToGroupVersion gv s' = Ret s'"
proof -
  let ?w = "WithKind gv ''WatchEvent''" and ?i = "WithKind (gv\<lparr>gv_Version := APIVersionInternal\<rparr>) ''WatchEvent''"
  let ?ts = "[meta_type ''Status'', meta_type ''APIVersions'', meta_type ''APIGroupList'', meta_type ''APIGroup'',
    meta_type ''APIResourceList'']"
  obtain s1 s2 s3 where a: "AddKnownTypeWithName ?w (meta_type ''WatchEvent'') s = Ret s1"
    and b: "AddKnownTypeWithName ?i (meta_type ''InternalEvent'') s1 = Ret s2"
    and c: "AddKnownTypes gv optionsTypes s2 = Ret s3" and d: "AddUnversionedTypes Unversioned ?ts s3 = Ret s'"
    using assms by (auto simp: AddToGroupVersion_def split: outcome.splits)
  have dist: "distinct (map ty_Name ?ts)" by simp
  note ra = AddKnownType_added [OF a] and rb = AddKnownType_added [OF b] and rc = AddKnownTypes_added [OF c]
    and rd = AddUnversionedTypes_added [OF d dist]
  have e3: "extends s' s3" and e2: "extends s' s2" and e1: "extends s' s1"
    using rd(1) rc(1) rb(2) extends_trans by blast+
  then show "extends s' s" using ra(2) extends_trans by blast
  have "AddKnownTypeWithName ?w (meta_type ''WatchEvent'') s' = Ret s'"
    using ra(1) e1 by (intro AddKnownType_again) (simp add: extends_def)
  moreover have "AddKnownTypeWithName ?i (meta_type ''InternalEvent'') s' = Ret s'"
    using rb(1) e2 by (intro AddKnownType_again) (simp add: extends_def)
  moreover have "AddKnownTypes gv optionsTypes s' = Ret s'"
    using rc(2,3) e3 by (intro AddKnownTypes_again) (simp_all add: extends_def)
  ultimately show "AddToGroupVersion gv s' = Ret s'" using rd(2) by (simp add: AddToGroupVersion_def)
qed

text \<open>Adding the types succeeds or panics; afterwards the types are known, and adding them again changes nothing.\<close>

lemma addKnownTypes_added:
  assumes "addKnownTypes s = Ret (e, s')"
  shows "e = None" and "extends s' s" and "addKnownTypes s' = Ret (None, s')"
    and "\<forall>n \<in> {''ApprovalTask'', ''ApprovalTaskList''}. registered s' (WithKind SchemeGroupVersion n) (api_type n)"
proof -
  let ?ts = "[api_type ''ApprovalTask'', api_type ''ApprovalTaskList'']"
  obtain s1 where a: "AddKnownTypes SchemeGroupVersion ?ts s = Ret s1" and b: "AddToGroupVersion SchemeGroupVersion s1 = Ret s'"
    and e: "e = None"
    using assms by (auto simp: addKnownTypes_def split: outcome.splits)
  note ra = AddKnownTypes_added [OF a] and rb = AddToGroupVersion_added [OF b]
  show "e = None" by (rule e)
  show "extends s' s" using extends_trans [OF rb(1) ra(1)] .
  have r: "\<forall>t \<in> set ?ts. registered s' (WithKind SchemeGroupVersion (ty_Name t)) t" using ra(2) rb(1) by (simp add: extends_def)
  then show "\<forall>n \<in> {''ApprovalTask'', ''ApprovalTaskList''}. registered s' (WithKind SchemeGroupVersion n) (api_type n)"
    by simp
  have "AddKnownTypes SchemeGroupVersion ?ts s' = Ret s'"
    using AddKnownTypes_again [OF r] ra(3) rb(1) by (simp add: extends_def)
  with rb(2) show "addKnownTypes s' = Ret (None, s')" by (simp add: addKnownTypes_def)
qed

lemma builder_single: "builder_AddToScheme [f] = (\<lambda>s. case f s of Panic \<Rightarrow> Panic | Ret (e, s') \<Rightarrow> Ret (e, s'))"
  by (rule ext) (auto split: outcome.split option.split prod.split)

lemma AddToScheme_eq:
  "api_AddToScheme s = addKnownTypes s" "clientset_AddToScheme s = addKnownTypes s" "fake_AddToScheme s = addKnownTypes s"
proof -
  show a: "api_AddToScheme s = addKnownTypes s" for s
    by (simp add: api_AddToScheme_def schemeBuilder_def builder_single split: outcome.split)
  show "clientset_AddToScheme s = addKnownTypes s" "fake_AddToScheme s = addKnownTypes s"
    by (simp_all add: clientset_AddToScheme_def fake_AddToScheme_def localSchemeBuilder_def fake_localSchemeBuilder_def
        builder_single a split: outcome.split)
qed

text \<open>On a fresh scheme nothing contradicts.\<close>

lemma scheme_init_fresh: "scheme_init NewScheme \<noteq> Panic" "fake_scheme_init NewScheme = scheme_init NewScheme"
proof -
  have "\<not> is_panic (scheme_init NewScheme)" by code_simp
  then show "scheme_init NewScheme \<noteq> Panic" by simp
  show "fake_scheme_init NewScheme = scheme_init NewScheme"
    unfolding scheme_init_def fake_scheme_init_def AddToScheme_eq by (rule refl)
qed

end
