(* ===== verification/Test_Support.thy ===== *)
theory Test_Support
  imports Startup Cli_Actions
begin

text \<open>
  The fake client set (\<open>pkg/client/clientset/versioned/fake\<close>) with its chain of reactors
  (\<open>k8s.io/client-go/testing\<close>), and the helpers of the repository's tests (\<open>pkg/test\<close>): the reactor that
  is to feed an informer's cache, the seeding of test data, and the parameters of a command under test.
  The state is the object tracker and the cache. The resource version of an object, a field the program
  never reads, is the parameter \<open>version\<close>.
\<close>

subsection \<open>Reactors\<close>

datatype fake_action =
    GetAction string string
  | CreateAction string approval_task
  | UpdateAction string string approval_task

text \<open>The second argument of an update is the namespace, the first the subresource.\<close>

fun action_verb :: "fake_action \<Rightarrow> string" where
  "action_verb (GetAction ns name) = ''get''"
| "action_verb (CreateAction ns t) = ''create''"
| "action_verb (UpdateAction sub ns t) = ''update''"

fun action_subresource :: "fake_action \<Rightarrow> string" where
  "action_subresource (UpdateAction sub ns t) = sub"
| "action_subresource _ = []"

definition action_resource :: "fake_action \<Rightarrow> string" where
  "action_resource a = ''approvaltasks''"

text \<open>The answer of a reaction is \<open>None\<close> when the action was not handled.\<close>

type_synonym 's reaction = "fake_action \<Rightarrow> 's \<Rightarrow> (api_error + approval_task) option \<times> 's"

record 's reactor =
  re_Verb :: string
  re_Resource :: string
  re_Reaction :: "'s reaction"

definition resourceCovers :: "string \<Rightarrow> fake_action \<Rightarrow> bool" where
  "resourceCovers resource a \<longleftrightarrow>
     resource = ''*'' \<or> resource = action_resource a
     \<or> (CHR ''/'' \<in> set resource
        \<and> takeWhile (\<lambda>c. c \<noteq> CHR ''/'') resource = action_resource a
        \<and> tl (dropWhile (\<lambda>c. c \<noteq> CHR ''/'') resource) = action_subresource a)"

definition Handles :: "'s reactor \<Rightarrow> fake_action \<Rightarrow> bool" where
  "Handles r a \<longleftrightarrow> (re_Verb r = ''*'' \<or> re_Verb r = action_verb a) \<and> resourceCovers (re_Resource r) a"

text \<open>The first reactor that handles the action answers; without one the empty object is returned.\<close>

fun Invokes :: "'s reactor list \<Rightarrow> fake_action \<Rightarrow> 's \<Rightarrow> (api_error + approval_task) \<times> 's" where
  "Invokes [] a s = (Inr empty_task, s)"
| "Invokes (r # rs) a s =
     (if \<not> Handles r a then Invokes rs a s
      else case re_Reaction r a s of
             (None, s') \<Rightarrow> Invokes rs a s'
           | (Some res, s') \<Rightarrow> (res, s'))"

definition AddReactor :: "string \<Rightarrow> string \<Rightarrow> 's reaction \<Rightarrow> 's reactor list \<Rightarrow> 's reactor list" where
  "AddReactor verbs resource reaction rs = rs @ [\<lparr>re_Verb = verbs, re_Resource = resource, re_Reaction = reaction\<rparr>]"

definition PrependReactor :: "string \<Rightarrow> string \<Rightarrow> 's reaction \<Rightarrow> 's reactor list \<Rightarrow> 's reactor list" where
  "PrependReactor verbs resource reaction rs = \<lparr>re_Verb = verbs, re_Resource = resource, re_Reaction = reaction\<rparr> # rs"

definition fake_of :: "'s reactor list \<Rightarrow> 's at_client" where
  "fake_of rs =
     \<lparr>cl_Get = \<lambda>ns n. Invokes rs (GetAction ns n), cl_Create = \<lambda>ns t. Invokes rs (CreateAction ns t),
      cl_Update = \<lambda>ns t. Invokes rs (UpdateAction [] ns t), cl_UpdateStatus = \<lambda>ns t. Invokes rs (UpdateAction ''status'' ns t)\<rparr>"

subsection \<open>The fake client set\<close>

type_synonym test_state = "tracker \<times> indexer"

fun ObjectReaction :: "test_state reaction" where
  "ObjectReaction (GetAction ns n) (tr, idx) = (case react_Get ns n tr of (r, tr') \<Rightarrow> (Some r, (tr', idx)))"
| "ObjectReaction (CreateAction ns t) (tr, idx) = (case react_Create ns t tr of (r, tr') \<Rightarrow> (Some r, (tr', idx)))"
| "ObjectReaction (UpdateAction sub ns t) (tr, idx) = (case react_Update ns t tr of (r, tr') \<Rightarrow> (Some r, (tr', idx)))"

text \<open>\<open>NewSimpleClientset\<close> panics when an object cannot be added.\<close>

fun add_objects :: "approval_task list \<Rightarrow> tracker \<Rightarrow> tracker outcome" where
  "add_objects [] tr = Ret tr"
| "add_objects (t # ts) tr =
     (case tracker_add t (at_namespace t) False tr of
        (Some e, _) \<Rightarrow> Panic
      | (None, tr') \<Rightarrow> add_objects ts tr')"

definition NewSimpleClientset :: "approval_task list \<Rightarrow> (test_state reactor list \<times> tracker) outcome" where
  "NewSimpleClientset objects =
     (case add_objects objects fmempty of
        Panic \<Rightarrow> Panic
      | Ret tr \<Rightarrow> Ret (AddReactor ''*'' ''*'' ObjectReaction [], tr))"

subsection \<open>The helpers of the tests\<close>

fun AddToInformer :: "(approval_task \<Rightarrow> string) \<Rightarrow> test_state reaction" where
  "AddToInformer version (GetAction ns n) s = (None, s)"
| "AddToInformer version (CreateAction ns t) (tr, idx) = (None, (tr, indexer_Add t idx))"
| "AddToInformer version (UpdateAction sub ns t) (tr, idx) =
     (case fmlookup idx (at_namespace t @ ''/'' @ at_name t) of
        None \<Rightarrow> (None, (tr, idx))
      | Some old \<Rightarrow>
          if version old \<noteq> version t
          then (Some (Inl (Answered (NewConflict ''approvaltasks'' (at_name t)))), (tr, idx))
          else (None, (tr, indexer_Add t idx)))"

definition seeded_chain :: "(approval_task \<Rightarrow> string) \<Rightarrow> test_state reactor list" where
  "seeded_chain version =
     PrependReactor ''*'' ''approvaltask'' (AddToInformer version) (AddReactor ''*'' ''*'' ObjectReaction [])"

text \<open>The creations of the test data; \<open>t.Fatal\<close> ends the test, which is the value \<open>None\<close>.\<close>

fun seed :: "test_state at_client \<Rightarrow> approval_task list \<Rightarrow> test_state \<Rightarrow> test_state option" where
  "seed cl [] s = Some s"
| "seed cl (t # ts) s =
     (case ApprovalTasks_Create cl (at_namespace t) t s of
        ((_, Some e), s') \<Rightarrow> None
      | ((_, None), s') \<Rightarrow> seed cl ts s')"

definition SeedTestData :: "(approval_task \<Rightarrow> string) \<Rightarrow> approval_task list \<Rightarrow> (test_state at_client \<times> test_state) option" where
  "SeedTestData version tasks =
     map_option (Pair (fake_of (seeded_chain version))) (seed (fake_of (seeded_chain version)) tasks (fmempty, fmempty))"

text \<open>The parameters of a command under test: clients are made once, and discovery is asked then.\<close>

record ('a, 'k, 'y) test_clients =
  tc_Kube :: 'k
  tc_ApprovalTask :: "'a option"
  tc_Dynamic :: 'y

record ('a, 'k, 'y) test_params =
  tp_ns :: string
  tp_kubeCfg :: string
  tp_kubeCtx :: string
  tp_ApprovalTask :: "'a option"
  tp_Kube :: 'k
  tp_Cls :: "('a, 'k, 'y) test_clients option"
  tp_Dynamic :: 'y
  tp_Username :: string
  tp_Groups :: "string list"

definition test_SetNamespace :: "string \<Rightarrow> ('a, 'k, 'y) test_params \<Rightarrow> ('a, 'k, 'y) test_params" where
  "test_SetNamespace ns p = p\<lparr>tp_ns := ns\<rparr>"

definition test_SetKubeConfigPath :: "string \<Rightarrow> ('a, 'k, 'y) test_params \<Rightarrow> ('a, 'k, 'y) test_params" where
  "test_SetKubeConfigPath path p = p\<lparr>tp_kubeCfg := path\<rparr>"

definition test_SetKubeContext :: "string \<Rightarrow> ('a, 'k, 'y) test_params \<Rightarrow> ('a, 'k, 'y) test_params" where
  "test_SetKubeContext ctxt p = p\<lparr>tp_kubeCtx := ctxt\<rparr>"

definition test_GetUserInfo :: "('a, 'k, 'y) test_params \<Rightarrow> go_error + user_info" where
  "test_GetUserInfo p = Inr \<lparr>ui_Username = tp_Username p, ui_Groups = tp_Groups p\<rparr>"

definition test_Clients ::
  "('a \<Rightarrow> go_error + 'r) \<Rightarrow> ('a, 'k, 'y) test_params \<Rightarrow> 'r discovery_state
    \<Rightarrow> (go_error + ('a, 'k, 'y) test_clients) \<times> ('a, 'k, 'y) test_params \<times> 'r discovery_state" where
  "test_Clients discover p d =
     (case tp_Cls p of
        Some cs \<Rightarrow> (Inr cs, p, d)
      | None \<Rightarrow>
          (let (err, d') = (case tp_ApprovalTask p of
                              None \<Rightarrow> (None, d)
                            | Some a \<Rightarrow> InitializeAPIGroupRes (discover a) d)
           in case err of
                Some e \<Rightarrow> (Inl e, p, d')
              | None \<Rightarrow>
                  (let cs = \<lparr>tc_Kube = tp_Kube p, tc_ApprovalTask = tp_ApprovalTask p, tc_Dynamic = tp_Dynamic p\<rparr>
                   in (Inr cs, p\<lparr>tp_Cls := Some cs\<rparr>, d'))))"

subsection \<open>What the tests run against\<close>

text \<open>
  The reactor of \<open>SeedTestData\<close> is registered for a resource of another name than the client's, so it
  is never asked: the client of the tests is the plain object tracker, no write is checked for its
  version, and the cache of the informer stays empty.
\<close>

lemma other_name: "\<not> resourceCovers ''approvaltask'' a"
  by (simp add: resourceCovers_def action_resource_def)

lemma seeded_Invokes:
  "Invokes (seeded_chain version) a (tr, idx) =
     (case ObjectReaction a (tr, idx) of (r, s) \<Rightarrow> (case r of None \<Rightarrow> (Inr empty_task, s) | Some x \<Rightarrow> (x, s)))"
  by (simp add: seeded_chain_def PrependReactor_def AddReactor_def Handles_def other_name)
    (auto simp: resourceCovers_def split: prod.split option.split)

lemma seeded_client:
  "cl_Get (fake_of (seeded_chain version)) ns n (tr, idx) = (case react_Get ns n tr of (r, tr') \<Rightarrow> (r, (tr', idx)))"
  "cl_Create (fake_of (seeded_chain version)) ns t (tr, idx) = (case react_Create ns t tr of (r, tr') \<Rightarrow> (r, (tr', idx)))"
  "cl_Update (fake_of (seeded_chain version)) ns t (tr, idx) = (case react_Update ns t tr of (r, tr') \<Rightarrow> (r, (tr', idx)))"
  "cl_UpdateStatus (fake_of (seeded_chain version)) ns t (tr, idx) = (case react_Update ns t tr of (r, tr') \<Rightarrow> (r, (tr', idx)))"
  by (simp_all add: fake_of_def seeded_Invokes split: prod.split)

interpretation seeded: task_editor "fake_of (seeded_chain version)" "\<lambda>s. tracker_lookup (fst s)" "\<lambda>s c. c"
  for version :: "approval_task \<Rightarrow> string"
proof (unfold_locales, goal_cases)
  case (1 s ns n t)
  then show ?case using fake.get_hit by (cases s) (simp add: seeded_client tracker_defs)
next
  case (2 s ns n)
  then show ?case using fake.get_miss by (cases s) (auto simp: seeded_client tracker_defs)
next
  case (3 s ns t)
  then show ?case by (cases s) (auto simp: seeded_client tracker_defs same_sent_def)
next
  case (4 s ns t)
  then show ?case by (cases s) (auto simp: seeded_client tracker_defs)
next
  case (5 s ns t old)
  then show ?case by (cases s) (auto simp: seeded_client tracker_defs)
next
  case (6 s ns t)
  then show ?case by (cases s) (auto simp: seeded_client tracker_defs)
next
  case (7 s ns t old)
  then show ?case by (cases s) (auto simp: seeded_client tracker_defs)
qed

lemma same_namespace: "at_namespace t = ns \<Longrightarrow> t\<lparr>at_Meta := (at_Meta t)\<lparr>om_Namespace := ns\<rparr>\<rparr> = t"
  by (cases t; cases "at_Meta t") simp

lemma seed_step:
  "seed (fake_of (seeded_chain version)) (t # ts) (tr, idx) =
     (if tracker_lookup tr (at_namespace t) (at_name t) = None
      then seed (fake_of (seeded_chain version)) ts (fmupd (at_namespace t, at_name t) t tr, idx) else None)"
  by (auto simp: ApprovalTasks_Create_def seeded_client tracker_defs same_namespace split: option.split)

lemma seed_keeps:
  "seed (fake_of (seeded_chain version)) ts (tr, idx) = Some (tr', idx') \<Longrightarrow>
     idx' = idx \<and> tr \<subseteq>\<^sub>f tr' \<and> (\<forall>t \<in> set ts. tracker_lookup tr' (at_namespace t) (at_name t) = Some t)"
proof (induction ts arbitrary: tr)
  case (Cons t ts)
  let ?tr = "fmupd (at_namespace t, at_name t) t tr"
  from Cons.prems have n: "fmlookup tr (at_namespace t, at_name t) = None"
    and s: "seed (fake_of (seeded_chain version)) ts (?tr, idx) = Some (tr', idx')"
    unfolding seed_step by (auto simp: tracker_lookup_def split: if_splits)
  from Cons.IH [OF s] have i: "idx' = idx" "?tr \<subseteq>\<^sub>f tr'"
    "\<forall>t \<in> set ts. tracker_lookup tr' (at_namespace t) (at_name t) = Some t" by simp_all
  have "fmlookup ?tr (at_namespace t, at_name t) = fmlookup tr' (at_namespace t, at_name t)"
    using i(2) unfolding fmsubset.rep_eq map_le_def by (rule bspec) simp
  then have "fmlookup tr' (at_namespace t, at_name t) = Some t" by simp
  moreover have "tr \<subseteq>\<^sub>f ?tr" using n by (auto simp: fmsubset.rep_eq map_le_def fmlookup_dom'_iff)
  ultimately show ?case using i by (auto simp: tracker_lookup_def fmsubset.rep_eq intro: map_le_trans)
qed (simp add: fmsubset.rep_eq map_le_def)

theorem seeded_tests:
  assumes "SeedTestData version tasks = Some (cl, tr, idx)"
  shows "idx = fmempty"
    and "t \<in> set tasks \<Longrightarrow> tracker_lookup tr (at_namespace t) (at_name t) = Some t"
    and "snd (snd (cl_Update cl ns u (tr', idx'))) = idx'"
    and "fst (cl_Update cl ns u (tr', idx')) = fst (react_Update ns u tr')"
proof -
  have "seed (fake_of (seeded_chain version)) tasks (fmempty, fmempty) = Some (tr, idx)"
    and cl: "cl = fake_of (seeded_chain version)"
    using assms by (auto simp: SeedTestData_def)
  then show "idx = fmempty" "t \<in> set tasks \<Longrightarrow> tracker_lookup tr (at_namespace t) (at_name t) = Some t"
    using seed_keeps by blast+
  show "snd (snd (cl_Update cl ns u (tr', idx'))) = idx'"
    "fst (cl_Update cl ns u (tr', idx')) = fst (react_Update ns u tr')"
    by (simp_all add: cl seeded_client split: prod.split)
qed

text \<open>Registered for the name the client uses, the reactor would answer a stale write with a conflict.\<close>

lemma conflict_if_named:
  assumes "fmlookup idx (at_namespace t @ ''/'' @ at_name t) = Some old" and "version old \<noteq> version t"
  shows "Invokes (PrependReactor ''*'' ''approvaltasks'' (AddToInformer version) rs) (UpdateAction sub ns t) (tr, idx)
    = (Inl (Answered (NewConflict ''approvaltasks'' (at_name t))), (tr, idx))"
  using assms by (simp add: PrependReactor_def Handles_def resourceCovers_def action_resource_def)

text \<open>Clients under test are made once; asking again changes nothing.\<close>

lemma test_Clients_once:
  "test_Clients discover p d = (Inr cs, p', d') \<Longrightarrow> test_Clients discover p' d'' = (Inr cs, p', d'')"
  by (auto simp: test_Clients_def Let_def split: option.splits prod.splits)


end
