(* ===== verification/Injection.thy ===== *)
theory Injection
  imports Startup Client_Setup Scheme_Registry Test_Support
begin

text \<open>
  What the controller finds in its context and who put it there: the injectors that the packages
  under \<open>pkg/client/injection\<close> register when they are loaded, the order the library calls them in
  (\<open>knative.dev/pkg/injection\<close>), the constructor of the controller
  (\<open>pkg/reconciler/approvaltask/controller.go\<close>), and the main program (\<open>cmd/controller/main.go\<close>). A
  context is the record of the values at the keys that are read here; looking up one that is not there
  panics. A factory is shared by its pointer: what a typed informer registers shows in the context.

  The informers of the runs come from the same generators, in \<open>github.com/tektoncd/pipeline\<close>: its factory is
  line for line the one of this program (\<open>Informer_Factory\<close>), so it is the same record here, and its injectors
  are modelled. What the other packages that are linked in put into the context (\<open>cx_Rest\<close>: the filtered and the
  namespaced factory of Kubernetes' own kinds, the cache and the sender of events) is at keys of
  their own, which nothing here reads; their injectors are parameters.
\<close>

subsection \<open>Listers\<close>

text \<open>A lister reads the cache of an informer, known by the informer's number.\<close>

record resource_indexer =
  ri_Indexer :: nat
  ri_Resource :: group_resource
  ri_Namespace :: string

definition listers_New :: "nat \<Rightarrow> group_resource \<Rightarrow> resource_indexer" where
  "listers_New indexer resource = \<lparr>ri_Indexer = indexer, ri_Resource = resource, ri_Namespace = []\<rparr>"

definition listers_NewNamespaced :: "resource_indexer \<Rightarrow> string \<Rightarrow> resource_indexer" where
  "listers_NewNamespaced parent ns =
     \<lparr>ri_Indexer = ri_Indexer parent, ri_Resource = ri_Resource parent, ri_Namespace = ns\<rparr>"

definition NewApprovalTaskLister :: "nat \<Rightarrow> resource_indexer" where
  "NewApprovalTaskLister indexer = listers_New indexer (api_Resource ''approvaltask'')"

definition lister_ApprovalTasks :: "resource_indexer \<Rightarrow> string \<Rightarrow> resource_indexer" where
  "lister_ApprovalTasks s ns = listers_NewNamespaced s ns"

type_synonym caches = "nat \<Rightarrow> indexer"

definition ri_List :: "caches \<Rightarrow> resource_indexer \<Rightarrow> (approval_task \<Rightarrow> bool) \<Rightarrow> approval_task list" where
  "ri_List cs l selector = lister_List (cs (ri_Indexer l)) (ri_Namespace l) selector"

definition ri_Get :: "caches \<Rightarrow> resource_indexer \<Rightarrow> string \<Rightarrow> go_error + approval_task" where
  "ri_Get cs l name = lister_Get (cs (ri_Indexer l)) (ri_Namespace l) name"

definition typed_Lister :: "typed_informer \<Rightarrow> factory \<Rightarrow> resource_indexer \<times> factory" where
  "typed_Lister ti f = (case typed_Informer ti f of (i, f') \<Rightarrow> (NewApprovalTaskLister (inf_id i), f'))"

text \<open>The generic informer of \<open>ForResource\<close>.\<close>

record generic_informer =
  gi_informer :: informer
  gi_resource :: group_resource

definition generic_of :: "informer \<times> group_resource \<Rightarrow> generic_informer" where
  "generic_of p = \<lparr>gi_informer = fst p, gi_resource = snd p\<rparr>"

definition generic_Informer :: "generic_informer \<Rightarrow> informer" where
  "generic_Informer g = gi_informer g"

definition generic_Lister :: "generic_informer \<Rightarrow> resource_indexer" where
  "generic_Lister g = listers_New (inf_id (generic_Informer g)) (gi_resource g)"

subsection \<open>The context\<close>

record ('k, 'p, 'a, 'r) app_context =
  cx_Scope :: string
  cx_Resync :: duration
  cx_KubeSelectors :: "string list option"
  cx_Kube :: "'k option"
  cx_Pipeline :: "'p option"
  cx_PipelineFactory :: "factory option"
  cx_CustomRunInformer :: "typed_informer option"
  cx_Client :: "'a option"
  cx_Factory :: "factory option"
  cx_Informer :: "typed_informer option"
  cx_Labels :: "string list option"
  cx_FilteredFactories :: "string \<rightharpoonup> factory"
  cx_FilteredInformers :: "string \<rightharpoonup> typed_informer"
  cx_Rest :: 'r

definition from_context :: "'v option \<Rightarrow> 'v outcome" where
  "from_context untyped = (case untyped of None \<Rightarrow> Panic | Some v \<Rightarrow> Ret v)"

definition HasNamespaceScope :: "('k, 'p, 'a, 'r) app_context \<Rightarrow> bool" where
  "HasNamespaceScope ctx \<longleftrightarrow> cx_Scope ctx \<noteq> []"

definition scope_of :: "('k, 'p, 'a, 'r) app_context \<Rightarrow> string option" where
  "scope_of ctx = (if HasNamespaceScope ctx then Some (cx_Scope ctx) else None)"

subsection \<open>Injectors\<close>

text \<open>\<open>new\<close> is \<open>versioned.NewForConfigOrDie\<close>.\<close>

definition withClientFromConfig ::
  "('c \<Rightarrow> 'a outcome) \<Rightarrow> ('k, 'p, 'a, 'r) app_context \<Rightarrow> 'c \<Rightarrow> ('k, 'p, 'a, 'r) app_context outcome" where
  "withClientFromConfig new ctx cfg =
     (case new cfg of Panic \<Rightarrow> Panic | Ret cs \<Rightarrow> Ret (ctx\<lparr>cx_Client := Some cs\<rparr>))"

definition client_Get :: "('k, 'p, 'a, 'r) app_context \<Rightarrow> 'a outcome" where
  "client_Get ctx = from_context (cx_Client ctx)"

definition factory_withInformerFactory :: "('k, 'p, 'a, 'r) app_context \<Rightarrow> ('k, 'p, 'a, 'r) app_context outcome" where
  "factory_withInformerFactory ctx =
     (case client_Get ctx of
        Panic \<Rightarrow> Panic
      | Ret c \<Rightarrow> Ret (ctx\<lparr>cx_Factory := Some (withInformerFactory (scope_of ctx) (cx_Resync ctx))\<rparr>))"

definition factory_Get :: "('k, 'p, 'a, 'r) app_context \<Rightarrow> factory outcome" where
  "factory_Get ctx = from_context (cx_Factory ctx)"

definition informer_withInformer ::
  "('k, 'p, 'a, 'r) app_context \<Rightarrow> (('k, 'p, 'a, 'r) app_context \<times> informer) outcome" where
  "informer_withInformer ctx =
     (case factory_Get ctx of
        Panic \<Rightarrow> Panic
      | Ret f \<Rightarrow>
          (let inf = typed_ApprovalTasks f
           in case typed_Informer inf f of
                (i, f') \<Rightarrow> Ret (ctx\<lparr>cx_Informer := Some inf, cx_Factory := Some f'\<rparr>, i)))"

definition informer_Get :: "('k, 'p, 'a, 'r) app_context \<Rightarrow> typed_informer outcome" where
  "informer_Get ctx = from_context (cx_Informer ctx)"

definition WithSelectors :: "string list \<Rightarrow> ('k, 'p, 'a, 'r) app_context \<Rightarrow> ('k, 'p, 'a, 'r) app_context" where
  "WithSelectors selectors ctx = ctx\<lparr>cx_Labels := Some selectors\<rparr>"

definition filtered_withInformerFactory :: "('k, 'p, 'a, 'r) app_context \<Rightarrow> ('k, 'p, 'a, 'r) app_context outcome" where
  "filtered_withInformerFactory ctx =
     (case client_Get ctx of
        Panic \<Rightarrow> Panic
      | Ret c \<Rightarrow>
          (case withFilteredInformerFactory (scope_of ctx) (cx_Resync ctx) (cx_Labels ctx) of
             Panic \<Rightarrow> Panic
           | Ret fs \<Rightarrow> Ret (ctx\<lparr>cx_FilteredFactories := cx_FilteredFactories ctx ++ fs\<rparr>)))"

definition filtered_withInformer ::
  "('k, 'p, 'a, 'r) app_context \<Rightarrow> (('k, 'p, 'a, 'r) app_context \<times> informer list) outcome" where
  "filtered_withInformer ctx =
     (case cx_Labels ctx of
        None \<Rightarrow> Panic
      | Some selectors \<Rightarrow>
          (case withFilteredInformers selectors (cx_FilteredFactories ctx) of
             Panic \<Rightarrow> Panic
           | Ret (infs, fs) \<Rightarrow>
               Ret (ctx\<lparr>cx_FilteredFactories := fs,
                        cx_FilteredInformers := fold (\<lambda>sel m. m(sel := map_option typed_ApprovalTasks (fs sel))) selectors
                          (cx_FilteredInformers ctx)\<rparr>, infs)))"

definition filtered_Get :: "('k, 'p, 'a, 'r) app_context \<Rightarrow> string \<Rightarrow> typed_informer outcome" where
  "filtered_Get ctx selector = from_context (cx_FilteredInformers ctx selector)"

definition filtered_factory_Get :: "('k, 'p, 'a, 'r) app_context \<Rightarrow> string \<Rightarrow> factory outcome" where
  "filtered_factory_Get ctx selector = get_filtered (cx_FilteredFactories ctx) selector"

subsection \<open>The clients and the runs' informer\<close>

definition kube_withClientFromConfig ::
  "('c \<Rightarrow> 'k outcome) \<Rightarrow> ('k, 'p, 'a, 'r) app_context \<Rightarrow> 'c \<Rightarrow> ('k, 'p, 'a, 'r) app_context outcome" where
  "kube_withClientFromConfig new ctx cfg =
     (case new cfg of Panic \<Rightarrow> Panic | Ret cs \<Rightarrow> Ret (ctx\<lparr>cx_Kube := Some cs\<rparr>))"

definition kube_client_Get :: "('k, 'p, 'a, 'r) app_context \<Rightarrow> 'k outcome" where
  "kube_client_Get ctx = from_context (cx_Kube ctx)"

definition pipeline_withClientFromConfig ::
  "('c \<Rightarrow> 'p outcome) \<Rightarrow> ('k, 'p, 'a, 'r) app_context \<Rightarrow> 'c \<Rightarrow> ('k, 'p, 'a, 'r) app_context outcome" where
  "pipeline_withClientFromConfig new ctx cfg =
     (case new cfg of Panic \<Rightarrow> Panic | Ret cs \<Rightarrow> Ret (ctx\<lparr>cx_Pipeline := Some cs\<rparr>))"

definition pipeline_client_Get :: "('k, 'p, 'a, 'r) app_context \<Rightarrow> 'p outcome" where
  "pipeline_client_Get ctx = from_context (cx_Pipeline ctx)"

definition pipeline_withInformerFactory :: "('k, 'p, 'a, 'r) app_context \<Rightarrow> ('k, 'p, 'a, 'r) app_context outcome" where
  "pipeline_withInformerFactory ctx =
     (case pipeline_client_Get ctx of
        Panic \<Rightarrow> Panic
      | Ret c \<Rightarrow> Ret (ctx\<lparr>cx_PipelineFactory := Some (withInformerFactory (scope_of ctx) (cx_Resync ctx))\<rparr>))"

definition pipeline_factory_Get :: "('k, 'p, 'a, 'r) app_context \<Rightarrow> factory outcome" where
  "pipeline_factory_Get ctx = from_context (cx_PipelineFactory ctx)"

abbreviation (input) "CustomRunType \<equiv> ''*v1beta1.CustomRun''"

text \<open>\<open>f.Tekton().V1beta1().CustomRuns()\<close>\<close>

definition V1beta1 :: "informer_group \<Rightarrow> informer_version" where
  "V1beta1 g = version_New (ig_namespace g) (ig_tweakListOptions g)"

definition version_CustomRuns :: "informer_version \<Rightarrow> typed_informer" where
  "version_CustomRuns v = \<lparr>ti_tweakListOptions = iv_tweakListOptions v, ti_namespace = iv_namespace v\<rparr>"

definition Tekton :: "factory \<Rightarrow> informer_group" where
  "Tekton f = group_New (f_namespace f) (f_tweakListOptions f)"

definition typed_CustomRuns :: "factory \<Rightarrow> typed_informer" where
  "typed_CustomRuns f = version_CustomRuns (V1beta1 (Tekton f))"

definition NewFilteredCustomRunInformer :: "string \<Rightarrow> duration \<Rightarrow> string list \<Rightarrow> tweak \<Rightarrow> informer" where
  "NewFilteredCustomRunInformer ns resyncPeriod indexers t =
     \<lparr>inf_id = 0, inf_ObjectType = CustomRunType, inf_Namespace = ns, inf_Resync = resyncPeriod,
      inf_Indexers = indexers, inf_Tweak = t, inf_Transform = None\<rparr>"

definition run_defaultInformer :: "typed_informer \<Rightarrow> duration \<Rightarrow> informer" where
  "run_defaultInformer ti resyncPeriod =
     NewFilteredCustomRunInformer (ti_namespace ti) resyncPeriod [NamespaceIndex] (ti_tweakListOptions ti)"

definition run_Informer :: "typed_informer \<Rightarrow> factory \<Rightarrow> informer \<times> factory" where
  "run_Informer ti f = InformerFor CustomRunType (run_defaultInformer ti) f"

definition NewCustomRunLister :: "nat \<Rightarrow> resource_indexer" where
  "NewCustomRunLister indexer = listers_New indexer (''tekton.dev'', ''customrun'')"

definition run_Lister :: "typed_informer \<Rightarrow> factory \<Rightarrow> resource_indexer \<times> factory" where
  "run_Lister ti f = (case run_Informer ti f of (i, f') \<Rightarrow> (NewCustomRunLister (inf_id i), f'))"

definition customrun_withInformer ::
  "('k, 'p, 'a, 'r) app_context \<Rightarrow> (('k, 'p, 'a, 'r) app_context \<times> informer) outcome" where
  "customrun_withInformer ctx =
     (case pipeline_factory_Get ctx of
        Panic \<Rightarrow> Panic
      | Ret f \<Rightarrow>
          (let inf = typed_CustomRuns f
           in case run_Informer inf f of
                (i, f') \<Rightarrow> Ret (ctx\<lparr>cx_CustomRunInformer := Some inf, cx_PipelineFactory := Some f'\<rparr>, i)))"

definition customrun_Get :: "('k, 'p, 'a, 'r) app_context \<Rightarrow> typed_informer outcome" where
  "customrun_Get ctx = from_context (cx_CustomRunInformer ctx)"

text \<open>An injector of another package: it reads the context, and writes at its own keys.\<close>

definition rest_injector ::
  "(('k, 'p, 'a, 'r) app_context \<Rightarrow> 'r outcome) \<Rightarrow> ('k, 'p, 'a, 'r) app_context \<Rightarrow> ('k, 'p, 'a, 'r) app_context outcome" where
  "rest_injector g ctx = (case g ctx of Panic \<Rightarrow> Panic | Ret x \<Rightarrow> Ret (ctx\<lparr>cx_Rest := x\<rparr>))"

subsection \<open>The fakes of the tests\<close>

type_synonym fake_clientset = "test_state reactor list \<times> tracker"

definition fake_Tracker :: "fake_clientset \<Rightarrow> tracker" where
  "fake_Tracker cs = snd cs"

text \<open>The typed fake shares the chain of reactors; its actions carry the resource and the kind.\<close>

definition fake_OpenshiftpipelinesV1alpha1 :: "fake_clientset \<Rightarrow> test_state reactor list" where
  "fake_OpenshiftpipelinesV1alpha1 cs = fst cs"

record fake_tasks_client =
  fk_Reactors :: "test_state reactor list"
  fk_Namespace :: string
  fk_Resource :: group_version_resource
  fk_Kind :: group_version_kind

definition newFakeApprovalTasks :: "test_state reactor list \<Rightarrow> string \<Rightarrow> fake_tasks_client" where
  "newFakeApprovalTasks fake namespace =
     \<lparr>fk_Reactors = fake, fk_Namespace = namespace,
      fk_Resource = \<lparr>gvr_Group = gv_Group SchemeGroupVersion, gvr_Version = gv_Version SchemeGroupVersion,
                     gvr_Resource = ''approvaltasks''\<rparr>,
      fk_Kind = WithKind SchemeGroupVersion ''ApprovalTask''\<rparr>"

definition fake_ApprovalTasks :: "test_state reactor list \<Rightarrow> string \<Rightarrow> fake_tasks_client" where
  "fake_ApprovalTasks c namespace = newFakeApprovalTasks c namespace"

definition fake_With ::
  "approval_task list \<Rightarrow> ('k, 'p, fake_clientset, 'r) app_context
     \<Rightarrow> (('k, 'p, fake_clientset, 'r) app_context \<times> fake_clientset) outcome" where
  "fake_With objects ctx =
     (case NewSimpleClientset objects of Panic \<Rightarrow> Panic | Ret cs \<Rightarrow> Ret (ctx\<lparr>cx_Client := Some cs\<rparr>, cs))"

definition fake_withClient ::
  "('k, 'p, fake_clientset, 'r) app_context \<Rightarrow> 'c \<Rightarrow> ('k, 'p, fake_clientset, 'r) app_context outcome" where
  "fake_withClient ctx cfg = (case fake_With [] ctx of Panic \<Rightarrow> Panic | Ret (ctx', _) \<Rightarrow> Ret ctx')"

definition fake_Get :: "('k, 'p, fake_clientset, 'r) app_context \<Rightarrow> fake_clientset outcome" where
  "fake_Get ctx = from_context (cx_Client ctx)"

definition fake_withInformerFactory ::
  "('k, 'p, fake_clientset, 'r) app_context \<Rightarrow> ('k, 'p, fake_clientset, 'r) app_context outcome" where
  "fake_withInformerFactory ctx =
     (case fake_Get ctx of
        Panic \<Rightarrow> Panic
      | Ret c \<Rightarrow> Ret (ctx\<lparr>cx_Factory := Some (withInformerFactory (scope_of ctx) (cx_Resync ctx))\<rparr>))"

definition fake_withInformer ::
  "('k, 'p, fake_clientset, 'r) app_context \<Rightarrow> (('k, 'p, fake_clientset, 'r) app_context \<times> informer) outcome" where
  "fake_withInformer ctx =
     (case factory_Get ctx of
        Panic \<Rightarrow> Panic
      | Ret f \<Rightarrow>
          (let inf = typed_ApprovalTasks f
           in case typed_Informer inf f of
                (i, f') \<Rightarrow> Ret (ctx\<lparr>cx_Informer := Some inf, cx_Factory := Some f'\<rparr>, i)))"

definition fake_filtered_withInformerFactory ::
  "('k, 'p, fake_clientset, 'r) app_context \<Rightarrow> ('k, 'p, fake_clientset, 'r) app_context outcome" where
  "fake_filtered_withInformerFactory ctx =
     (case fake_Get ctx of
        Panic \<Rightarrow> Panic
      | Ret c \<Rightarrow>
          (case withFilteredInformerFactory (scope_of ctx) (cx_Resync ctx) (cx_Labels ctx) of
             Panic \<Rightarrow> Panic
           | Ret fs \<Rightarrow> Ret (ctx\<lparr>cx_FilteredFactories := cx_FilteredFactories ctx ++ fs\<rparr>)))"

definition fake_filtered_withInformer ::
  "('k, 'p, fake_clientset, 'r) app_context \<Rightarrow> (('k, 'p, fake_clientset, 'r) app_context \<times> informer list) outcome" where
  "fake_filtered_withInformer ctx =
     (case cx_Labels ctx of
        None \<Rightarrow> Panic
      | Some selectors \<Rightarrow>
          (case withFilteredInformers selectors (cx_FilteredFactories ctx) of
             Panic \<Rightarrow> Panic
           | Ret (infs, fs) \<Rightarrow>
               Ret (ctx\<lparr>cx_FilteredFactories := fs,
                        cx_FilteredInformers := fold (\<lambda>sel m. m(sel := map_option typed_ApprovalTasks (fs sel))) selectors
                          (cx_FilteredInformers ctx)\<rparr>, infs)))"

subsection \<open>The registry\<close>

datatype ('k, 'p, 'a) any_client = KubeClient 'k | PipelineClient 'p | TaskClient 'a

record ('k, 'p, 'a, 'r, 'c) registry =
  in_clients :: "(('k, 'p, 'a, 'r) app_context \<Rightarrow> 'c \<Rightarrow> ('k, 'p, 'a, 'r) app_context outcome) list"
  in_clientFetchers :: "(('k, 'p, 'a, 'r) app_context \<Rightarrow> ('k, 'p, 'a) any_client outcome) list"
  in_factories :: "(('k, 'p, 'a, 'r) app_context \<Rightarrow> ('k, 'p, 'a, 'r) app_context outcome) list"
  in_informers :: "(('k, 'p, 'a, 'r) app_context \<Rightarrow> (('k, 'p, 'a, 'r) app_context \<times> informer) outcome) list"
  in_filteredInformers :: "(('k, 'p, 'a, 'r) app_context \<Rightarrow> (('k, 'p, 'a, 'r) app_context \<times> informer list) outcome) list"

definition empty_registry :: "('k, 'p, 'a, 'r, 'c) registry" where
  "empty_registry = \<lparr>in_clients = [], in_clientFetchers = [], in_factories = [], in_informers = [], in_filteredInformers = []\<rparr>"

text \<open>What the packages register when they are loaded.\<close>

definition client_init :: "('c \<Rightarrow> 'a outcome) \<Rightarrow> ('k, 'p, 'a, 'r, 'c) registry \<Rightarrow> ('k, 'p, 'a, 'r, 'c) registry" where
  "client_init new reg =
     reg\<lparr>in_clients := in_clients reg @ [withClientFromConfig new], 
       in_clientFetchers := in_clientFetchers reg @ [\<lambda>ctx. map_outcome TaskClient (client_Get ctx)]\<rparr>"

definition factory_init :: "('k, 'p, 'a, 'r, 'c) registry \<Rightarrow> ('k, 'p, 'a, 'r, 'c) registry" where
  "factory_init reg = reg\<lparr>in_factories := in_factories reg @ [factory_withInformerFactory]\<rparr>"

definition informer_init :: "('k, 'p, 'a, 'r, 'c) registry \<Rightarrow> ('k, 'p, 'a, 'r, 'c) registry" where
  "informer_init reg = reg\<lparr>in_informers := in_informers reg @ [informer_withInformer]\<rparr>"

definition filtered_factory_init :: "('k, 'p, 'a, 'r, 'c) registry \<Rightarrow> ('k, 'p, 'a, 'r, 'c) registry" where
  "filtered_factory_init reg = reg\<lparr>in_factories := in_factories reg @ [filtered_withInformerFactory]\<rparr>"

definition filtered_informer_init :: "('k, 'p, 'a, 'r, 'c) registry \<Rightarrow> ('k, 'p, 'a, 'r, 'c) registry" where
  "filtered_informer_init reg = reg\<lparr>in_filteredInformers := in_filteredInformers reg @ [filtered_withInformer]\<rparr>"

definition kube_client_init :: "('c \<Rightarrow> 'k outcome) \<Rightarrow> ('k, 'p, 'a, 'r, 'c) registry \<Rightarrow> ('k, 'p, 'a, 'r, 'c) registry" where
  "kube_client_init new reg =
     reg\<lparr>in_clients := in_clients reg @ [kube_withClientFromConfig new],
       in_clientFetchers := in_clientFetchers reg @ [\<lambda>ctx. map_outcome KubeClient (kube_client_Get ctx)]\<rparr>"

definition pipeline_client_init :: "('c \<Rightarrow> 'p outcome) \<Rightarrow> ('k, 'p, 'a, 'r, 'c) registry \<Rightarrow> ('k, 'p, 'a, 'r, 'c) registry" where
  "pipeline_client_init new reg =
     reg\<lparr>in_clients := in_clients reg @ [pipeline_withClientFromConfig new],
       in_clientFetchers := in_clientFetchers reg @ [\<lambda>ctx. map_outcome PipelineClient (pipeline_client_Get ctx)]\<rparr>"

definition pipeline_factory_init :: "('k, 'p, 'a, 'r, 'c) registry \<Rightarrow> ('k, 'p, 'a, 'r, 'c) registry" where
  "pipeline_factory_init reg = reg\<lparr>in_factories := in_factories reg @ [pipeline_withInformerFactory]\<rparr>"

definition customrun_init :: "('k, 'p, 'a, 'r, 'c) registry \<Rightarrow> ('k, 'p, 'a, 'r, 'c) registry" where
  "customrun_init reg = reg\<lparr>in_informers := in_informers reg @ [customrun_withInformer]\<rparr>"

text \<open>The other packages: clients that are made from the configuration, and factories.\<close>

definition rest_init ::
  "('c \<Rightarrow> ('k, 'p, 'a, 'r) app_context \<Rightarrow> 'r outcome) list \<Rightarrow> (('k, 'p, 'a, 'r) app_context \<Rightarrow> 'r outcome) list
     \<Rightarrow> ('k, 'p, 'a, 'r, 'c) registry \<Rightarrow> ('k, 'p, 'a, 'r, 'c) registry" where
  "rest_init clients factories reg =
     reg\<lparr>in_clients := in_clients reg @ map (\<lambda>g ctx cfg. rest_injector (g cfg) ctx) clients,
       in_factories := in_factories reg @ map rest_injector factories\<rparr>"

definition fake_client_init ::
  "('k, 'p, fake_clientset, 'r, 'c) registry \<Rightarrow> ('k, 'p, fake_clientset, 'r, 'c) registry" where
  "fake_client_init reg =
     reg\<lparr>in_clients := in_clients reg @ [fake_withClient], 
       in_clientFetchers := in_clientFetchers reg @ [\<lambda>ctx. map_outcome TaskClient (fake_Get ctx)]\<rparr>"

definition fake_factory_init ::
  "('k, 'p, fake_clientset, 'r, 'c) registry \<Rightarrow> ('k, 'p, fake_clientset, 'r, 'c) registry" where
  "fake_factory_init reg = reg\<lparr>in_factories := in_factories reg @ [fake_withInformerFactory]\<rparr>"

definition fake_informer_init ::
  "('k, 'p, fake_clientset, 'r, 'c) registry \<Rightarrow> ('k, 'p, fake_clientset, 'r, 'c) registry" where
  "fake_informer_init reg = reg\<lparr>in_informers := in_informers reg @ [fake_withInformer]\<rparr>"

definition fake_filtered_factory_init ::
  "('k, 'p, fake_clientset, 'r, 'c) registry \<Rightarrow> ('k, 'p, fake_clientset, 'r, 'c) registry" where
  "fake_filtered_factory_init reg = reg\<lparr>in_factories := in_factories reg @ [fake_filtered_withInformerFactory]\<rparr>"

definition fake_filtered_informer_init ::
  "('k, 'p, fake_clientset, 'r, 'c) registry \<Rightarrow> ('k, 'p, fake_clientset, 'r, 'c) registry" where
  "fake_filtered_informer_init reg = reg\<lparr>in_filteredInformers := in_filteredInformers reg @ [fake_filtered_withInformer]\<rparr>"

text \<open>The setup: all clients, then all factories, then all informers; the informers are those to be started.\<close>

fun run_steps :: "('x \<Rightarrow> 'x outcome) list \<Rightarrow> 'x \<Rightarrow> 'x outcome" where
  "run_steps [] x = Ret x"
| "run_steps (f # fs) x = (case f x of Panic \<Rightarrow> Panic | Ret y \<Rightarrow> run_steps fs y)"

fun collect_steps :: "('x \<Rightarrow> ('x \<times> 'i list) outcome) list \<Rightarrow> 'x \<Rightarrow> 'i list \<Rightarrow> ('x \<times> 'i list) outcome" where
  "collect_steps [] x is = Ret (x, is)"
| "collect_steps (f # fs) x is = (case f x of Panic \<Rightarrow> Panic | Ret (y, js) \<Rightarrow> collect_steps fs y (is @ js))"

definition one_informer :: "('x \<Rightarrow> ('x \<times> 'i) outcome) \<Rightarrow> 'x \<Rightarrow> ('x \<times> 'i list) outcome" where
  "one_informer f x = (case f x of Panic \<Rightarrow> Panic | Ret (y, i) \<Rightarrow> Ret (y, [i]))"

definition SetupInformers ::
  "('k, 'p, 'a, 'r, 'c) registry \<Rightarrow> ('k, 'p, 'a, 'r) app_context \<Rightarrow> 'c
     \<Rightarrow> (('k, 'p, 'a, 'r) app_context \<times> informer list) outcome" where
  "SetupInformers reg ctx cfg =
     (case run_steps (map (\<lambda>ci x. ci x cfg) (in_clients reg)) ctx of
        Panic \<Rightarrow> Panic
      | Ret ctx1 \<Rightarrow>
          (case run_steps (in_factories reg) ctx1 of
             Panic \<Rightarrow> Panic
           | Ret ctx2 \<Rightarrow>
               collect_steps (map one_informer (in_informers reg) @ in_filteredInformers reg) ctx2 []))"

subsection \<open>The controller\<close>

text \<open>
  Of the listers of the reconciler, those of \<open>Runs\<close> and \<open>TaskRuns\<close> stay nil and are never read. The constructor
  of the generated reconciler (\<open>NewImpl\<close>) reads the same lister and the same clients again.
\<close>

record ('k, 'p, 'a, 'ck) reconciler_struct =
  rcs_clock :: 'ck
  rcs_pipelineClientSet :: 'p
  rcs_kubeClientSet :: 'k
  rcs_approvaltaskClientSet :: 'a
  rcs_customRunLister :: resource_indexer
  rcs_approvaltaskLister :: resource_indexer

record ('k, 'p, 'a, 'ck) controller_impl =
  ci_Reconciler :: "('k, 'p, 'a, 'ck) reconciler_struct"
  ci_AgentName :: string
  ci_Lister :: resource_indexer
  ci_RunInformer :: informer
  ci_RunHandler :: "custom_run watch_event \<Rightarrow> namespaced_name list"
  ci_TaskInformer :: informer
  ci_TaskHandler :: "approval_task watch_event \<Rightarrow> namespaced_name list"

definition NewController ::
  "'ck \<Rightarrow> ('k, 'p, 'a, 'r) app_context
     \<Rightarrow> (('k, 'p, 'a, 'ck) controller_impl \<times> ('k, 'p, 'a, 'r) app_context) outcome" where
  "NewController clock ctx =
     (case kube_client_Get ctx of Panic \<Rightarrow> Panic | Ret kubeclientset \<Rightarrow>
     (case pipeline_client_Get ctx of Panic \<Rightarrow> Panic | Ret pipelineclientset \<Rightarrow>
     (case client_Get ctx of Panic \<Rightarrow> Panic | Ret approvaltaskclientset \<Rightarrow>
     (case customrun_Get ctx of Panic \<Rightarrow> Panic | Ret customRunInformer \<Rightarrow>
     (case informer_Get ctx of Panic \<Rightarrow> Panic | Ret approvaltaskInformer \<Rightarrow>
     (case cx_PipelineFactory ctx of None \<Rightarrow> Panic | Some pf \<Rightarrow>
     (case cx_Factory ctx of None \<Rightarrow> Panic | Some f \<Rightarrow>
        (let (runLister, pf1) = run_Lister customRunInformer pf;
             (taskLister, f1) = typed_Lister approvaltaskInformer f;
             c = \<lparr>rcs_clock = clock, rcs_pipelineClientSet = pipelineclientset, rcs_kubeClientSet = kubeclientset,
                  rcs_approvaltaskClientSet = approvaltaskclientset, rcs_customRunLister = runLister,
                  rcs_approvaltaskLister = taskLister\<rparr>;
             (lister, pf2) = run_Lister customRunInformer pf1;
             (ri, pf3) = run_Informer customRunInformer pf2;
             (ti, f2) = typed_Informer approvaltaskInformer f1
         in Ret (\<lparr>ci_Reconciler = c, ci_AgentName = ''run-approvaltask'', ci_Lister = lister, ci_RunInformer = ri,
                  ci_RunHandler = run_handler, ci_TaskInformer = ti, ci_TaskHandler = task_handler\<rparr>,
                 ctx\<lparr>cx_PipelineFactory := Some pf3, cx_Factory := Some f2\<rparr>)))))))))"

text \<open>
  The packages that the controller is linked with and that register something, in the order of their import
  paths; each writes at its own keys, so that the order within a group makes no difference. The parameters
  are the constructors of the three clients (\<open>NewForConfigOrDie\<close>) and the other packages' injectors.
\<close>

record ('k, 'p, 'a, 'r, 'c) linked =
  li_Kube :: "'c \<Rightarrow> 'k outcome"
  li_Pipeline :: "'c \<Rightarrow> 'p outcome"
  li_Tasks :: "'c \<Rightarrow> 'a outcome"
  li_RestClients :: "('c \<Rightarrow> ('k, 'p, 'a, 'r) app_context \<Rightarrow> 'r outcome) list"
  li_RestFactories :: "(('k, 'p, 'a, 'r) app_context \<Rightarrow> 'r outcome) list"

definition task_packages :: "('c \<Rightarrow> 'a outcome) \<Rightarrow> ('k, 'p, 'a, 'r, 'c) registry \<Rightarrow> ('k, 'p, 'a, 'r, 'c) registry" where
  "task_packages new reg = informer_init (factory_init (client_init new reg))"

definition pipeline_packages :: "('c \<Rightarrow> 'p outcome) \<Rightarrow> ('k, 'p, 'a, 'r, 'c) registry \<Rightarrow> ('k, 'p, 'a, 'r, 'c) registry" where
  "pipeline_packages new reg = customrun_init (pipeline_factory_init (pipeline_client_init new reg))"

definition controller_packages :: "('k, 'p, 'a, 'r, 'c) linked \<Rightarrow> ('k, 'p, 'a, 'r, 'c) registry" where
  "controller_packages new =
     rest_init (li_RestClients new) (li_RestFactories new) (kube_client_init (li_Kube new)
       (pipeline_packages (li_Pipeline new) (task_packages (li_Tasks new) empty_registry)))"

text \<open>
  The main program: the flag gives the namespace the informers are limited to, and the empty one is no
  limit. The configuration is what parsing the flags gave. The informers are those that are then started.
\<close>

abbreviation (input) "ManagedByLabelKey \<equiv> ''app.kubernetes.io/managed-by''"

definition controller_main ::
  "('k, 'p, 'a, 'r, 'c) linked \<Rightarrow> 'ck \<Rightarrow> string \<Rightarrow> 'c \<Rightarrow> ('k, 'p, 'a, 'r) app_context
     \<Rightarrow> (('k, 'p, 'a, 'ck) controller_impl \<times> ('k, 'p, 'a, 'r) app_context \<times> informer list) outcome" where
  "controller_main new clock namespace cfg ctx0 =
     (let ctx = ctx0\<lparr>cx_Scope := namespace, cx_KubeSelectors := Some [ManagedByLabelKey]\<rparr>
      in case SetupInformers (controller_packages new) ctx cfg of
           Panic \<Rightarrow> Panic
         | Ret (ctx1, infs) \<Rightarrow>
             (case NewController clock ctx1 of
                Panic \<Rightarrow> Panic
              | Ret (impl, ctx2) \<Rightarrow> Ret (impl, ctx2, infs)))"

subsection \<open>Facts\<close>

lemma withInformerFactory_sel [simp]:
  "f_namespace (withInformerFactory scope d) = (case scope of None \<Rightarrow> [] | Some ns \<Rightarrow> ns)"
  "f_tweakListOptions (withInformerFactory scope d) = None" "f_informers (withInformerFactory scope d) = fmempty"
  "f_allocated (withInformerFactory scope d) = 0" "f_transform (withInformerFactory scope d) = None"
  "f_customResync (withInformerFactory scope d) = fmempty" "f_defaultResync (withInformerFactory scope d) = d"
  by (simp_all add: withInformerFactory_def NewSharedInformerFactoryWithOptions_def WithNamespace_def split: option.split)

lemma typed_Informer_again:
  assumes "typed_Informer ti f = (i, f')"
  shows "typed_Informer ti' f' = (i, f')" and "fmlookup (f_informers f') ApprovalTaskType = Some i"
  using assms by (auto simp: typed_Informer_def InformerFor_def Let_def split: option.splits)

definition main_informer :: "string \<Rightarrow> duration \<Rightarrow> informer" where
  "main_informer namespace resync =
     \<lparr>inf_id = 0, inf_ObjectType = ApprovalTaskType, inf_Namespace = namespace, inf_Resync = resync,
      inf_Indexers = [NamespaceIndex], inf_Tweak = None, inf_Transform = None\<rparr>"

lemma main_informer_made:
  assumes "f = withInformerFactory (scope_of ctx) (cx_Resync ctx)"
  obtains f' where "typed_Informer (typed_ApprovalTasks f) f = (main_informer (cx_Scope ctx) (cx_Resync ctx), f')"
  using that by (cases "cx_Scope ctx")
    (simp_all add: assms typed_Informer_def InformerFor_def typed_ApprovalTasks_eq defaultInformer_def
      NewFilteredApprovalTaskInformer_def main_informer_def scope_of_def HasNamespaceScope_def Let_def)

definition run_informer :: "string \<Rightarrow> duration \<Rightarrow> informer" where
  "run_informer namespace resync =
     \<lparr>inf_id = 0, inf_ObjectType = CustomRunType, inf_Namespace = namespace, inf_Resync = resync,
      inf_Indexers = [NamespaceIndex], inf_Tweak = None, inf_Transform = None\<rparr>"

lemma run_Informer_again:
  assumes "run_Informer ti f = (i, f')"
  shows "run_Informer ti' f' = (i, f')" and "fmlookup (f_informers f') CustomRunType = Some i"
  using assms by (auto simp: run_Informer_def InformerFor_def Let_def split: option.splits)

lemma run_informer_made:
  assumes "f = withInformerFactory (scope_of ctx) (cx_Resync ctx)"
  obtains f' where "run_Informer (typed_CustomRuns f) f = (run_informer (cx_Scope ctx) (cx_Resync ctx), f')"
  using that by (cases "cx_Scope ctx")
    (simp_all add: assms run_Informer_def InformerFor_def typed_CustomRuns_def version_CustomRuns_def V1beta1_def
      version_New_def Tekton_def group_New_def run_defaultInformer_def NewFilteredCustomRunInformer_def run_informer_def
      scope_of_def HasNamespaceScope_def Let_def)

lemma scope_of_update [simp]:
  "scope_of (ctx\<lparr>cx_Client := a\<rparr>) = scope_of ctx" "scope_of (ctx\<lparr>cx_Pipeline := p\<rparr>) = scope_of ctx"
  "scope_of (ctx\<lparr>cx_Kube := k\<rparr>) = scope_of ctx" "scope_of (ctx\<lparr>cx_Rest := x\<rparr>) = scope_of ctx"
  "scope_of (ctx\<lparr>cx_Factory := f\<rparr>) = scope_of ctx"
  by (simp_all add: scope_of_def HasNamespaceScope_def)

lemma run_steps_append:
  "run_steps (fs @ gs) x = (case run_steps fs x of Panic \<Rightarrow> Panic | Ret y \<Rightarrow> run_steps gs y)"
  by (induction fs arbitrary: x) (simp_all split: outcome.split)

text \<open>What other packages inject is not seen by anybody here.\<close>

lemma run_rest:
  "run_steps (map rest_injector gs) ctx = Ret ctx' \<Longrightarrow> \<exists>x. ctx' = ctx\<lparr>cx_Rest := x\<rparr>"
proof (induction gs arbitrary: ctx)
  case Nil
  then have "ctx' = ctx\<lparr>cx_Rest := cx_Rest ctx\<rparr>" by simp
  then show ?case by (rule exI)
next
  case (Cons g gs)
  have "g ctx \<noteq> Panic" using Cons.prems by (auto simp: rest_injector_def)
  then obtain y where "g ctx = Ret y" by (cases "g ctx") blast+
  then have r: "rest_injector g ctx = Ret (ctx\<lparr>cx_Rest := y\<rparr>)" by (simp add: rest_injector_def)
  have "run_steps (map rest_injector gs) (ctx\<lparr>cx_Rest := y\<rparr>) = Ret ctx'"
    using Cons.prems by (simp only: list.map run_steps.simps r outcome.case)
  from Cons.IH [OF this] show ?case by simp
qed

text \<open>The setup of the controller: when it comes to an end, these are the context and the informers.\<close>

lemma SetupInformers_controller:
  assumes "SetupInformers (controller_packages new) ctx cfg = Ret (ctx', infs)"
    and "fac = withInformerFactory (scope_of ctx) (cx_Resync ctx)"
    and "typed_Informer (typed_ApprovalTasks fac) fac = (ti, f)" and "run_Informer (typed_CustomRuns fac) fac = (ri, pf)"
  obtains cs p k x where "li_Tasks new cfg = Ret cs" "li_Pipeline new cfg = Ret p" "li_Kube new cfg = Ret k"
    "infs = [ti, ri]"
    "ctx' = ctx\<lparr>cx_Client := Some cs, cx_Pipeline := Some p, cx_Kube := Some k, cx_Rest := x,
       cx_Informer := Some (typed_ApprovalTasks fac), cx_Factory := Some f,
       cx_CustomRunInformer := Some (typed_CustomRuns fac), cx_PipelineFactory := Some pf\<rparr>"
proof -
  let ?rc = "map rest_injector (map (\<lambda>g. g cfg) (li_RestClients new))" and ?rf = "map rest_injector (li_RestFactories new)"
  let ?clients = "[\<lambda>x. withClientFromConfig (li_Tasks new) x cfg, \<lambda>x. pipeline_withClientFromConfig (li_Pipeline new) x cfg,
      \<lambda>x. kube_withClientFromConfig (li_Kube new) x cfg]"
  have reg: "map (\<lambda>ci x. ci x cfg) (in_clients (controller_packages new)) = ?clients @ ?rc"
    "in_factories (controller_packages new) = [factory_withInformerFactory, pipeline_withInformerFactory] @ ?rf"
    "map one_informer (in_informers (controller_packages new)) = [one_informer informer_withInformer, one_informer customrun_withInformer]"
    "in_filteredInformers (controller_packages new) = []"
    by (simp_all add: controller_packages_def rest_init_def kube_client_init_def pipeline_packages_def customrun_init_def
        pipeline_factory_init_def pipeline_client_init_def task_packages_def informer_init_def factory_init_def client_init_def
        empty_registry_def o_def)
  obtain c1 c2 where c1: "run_steps (?clients @ ?rc) ctx = Ret c1"
    and c2: "run_steps ([factory_withInformerFactory, pipeline_withInformerFactory] @ ?rf) c1 = Ret c2"
    and c3: "collect_steps [one_informer informer_withInformer, one_informer customrun_withInformer] c2 [] = Ret (ctx', infs)"
    using assms(1) unfolding SetupInformers_def reg by (auto split: outcome.splits)
  obtain cs p k where m: "li_Tasks new cfg = Ret cs" "li_Pipeline new cfg = Ret p" "li_Kube new cfg = Ret k"
    and r1: "run_steps ?rc (ctx\<lparr>cx_Client := Some cs, cx_Pipeline := Some p, cx_Kube := Some k\<rparr>) = Ret c1"
    using c1 unfolding run_steps_append
    by (auto simp: withClientFromConfig_def pipeline_withClientFromConfig_def kube_withClientFromConfig_def split: outcome.splits)
  obtain x where x: "c1 = ctx\<lparr>cx_Client := Some cs, cx_Pipeline := Some p, cx_Kube := Some k, cx_Rest := x\<rparr>"
    using run_rest [OF r1] by auto
  have "run_steps ?rf (c1\<lparr>cx_Factory := Some fac, cx_PipelineFactory := Some fac\<rparr>) = Ret c2"
    using c2 unfolding run_steps_append
    by (simp add: factory_withInformerFactory_def pipeline_withInformerFactory_def client_Get_def pipeline_client_Get_def
        from_context_def x assms(2))
  from run_rest [OF this] obtain y where y: "c2 = c1\<lparr>cx_Factory := Some fac, cx_PipelineFactory := Some fac, cx_Rest := y\<rparr>" by auto
  show thesis
    by (rule that [OF m, of y])
      (use c3 assms(3,4) in \<open>simp_all add: x y one_informer_def informer_withInformer_def customrun_withInformer_def
        factory_Get_def pipeline_factory_Get_def from_context_def Let_def\<close>)
qed

text \<open>The constructor asks for informers that are there already, and adds none.\<close>

definition wired :: "'ck \<Rightarrow> 'k \<Rightarrow> 'p \<Rightarrow> 'a \<Rightarrow> informer \<Rightarrow> informer \<Rightarrow> ('k, 'p, 'a, 'ck) controller_impl" where
  "wired clock k p cs ti ri =
     \<lparr>ci_Reconciler = \<lparr>rcs_clock = clock, rcs_pipelineClientSet = p, rcs_kubeClientSet = k, rcs_approvaltaskClientSet = cs,
        rcs_customRunLister = NewCustomRunLister (inf_id ri), rcs_approvaltaskLister = NewApprovalTaskLister (inf_id ti)\<rparr>,
      ci_AgentName = ''run-approvaltask'', ci_Lister = NewCustomRunLister (inf_id ri), ci_RunInformer = ri,
      ci_RunHandler = run_handler, ci_TaskInformer = ti, ci_TaskHandler = task_handler\<rparr>"

lemma NewController_wired:
  assumes "cx_Kube ctx = Some k" and "cx_Pipeline ctx = Some p" and "cx_Client ctx = Some cs"
    and "cx_CustomRunInformer ctx = Some rs" and "cx_Informer ctx = Some ts"
    and "cx_PipelineFactory ctx = Some pf" and "cx_Factory ctx = Some f"
    and "\<And>x. typed_Informer x f = (ti, f)" and "\<And>x. run_Informer x pf = (ri, pf)"
  shows "NewController clock ctx = Ret (wired clock k p cs ti ri, ctx\<lparr>cx_PipelineFactory := Some pf, cx_Factory := Some f\<rparr>)"
  using assms
  by (simp add: NewController_def from_context_def client_Get_def pipeline_client_Get_def kube_client_Get_def
      customrun_Get_def informer_Get_def typed_Lister_def run_Lister_def wired_def)

text \<open>What the main program builds, when it gets as far as its controller.\<close>

lemma controller_main_wired:
  assumes "controller_main new clock namespace cfg ctx0 = Ret (impl, ctx, infs)"
  obtains cs p k f pf where "li_Tasks new cfg = Ret cs" "li_Pipeline new cfg = Ret p" "li_Kube new cfg = Ret k"
    "infs = [main_informer namespace (cx_Resync ctx0), run_informer namespace (cx_Resync ctx0)]"
    "impl = wired clock k p cs (main_informer namespace (cx_Resync ctx0)) (run_informer namespace (cx_Resync ctx0))"
    "cx_Factory ctx = Some f" "fmlookup (f_informers f) ApprovalTaskType = Some (main_informer namespace (cx_Resync ctx0))"
    "cx_PipelineFactory ctx = Some pf" "fmlookup (f_informers pf) CustomRunType = Some (run_informer namespace (cx_Resync ctx0))"
proof -
  let ?ctx = "ctx0\<lparr>cx_Scope := namespace, cx_KubeSelectors := Some [ManagedByLabelKey]\<rparr>"
  let ?fac = "withInformerFactory (scope_of ?ctx) (cx_Resync ?ctx)"
  obtain f where f: "typed_Informer (typed_ApprovalTasks ?fac) ?fac = (main_informer namespace (cx_Resync ctx0), f)"
    by (rule main_informer_made [of ?fac ?ctx]) simp_all
  obtain pf where pf: "run_Informer (typed_CustomRuns ?fac) ?fac = (run_informer namespace (cx_Resync ctx0), pf)"
    by (rule run_informer_made [of ?fac ?ctx]) simp_all
  obtain ctx1 infs1 where s: "SetupInformers (controller_packages new) ?ctx cfg = Ret (ctx1, infs1)"
    and c: "NewController clock ctx1 = Ret (impl, ctx)" "infs1 = infs"
    using assms by (auto simp: controller_main_def Let_def split: outcome.splits)
  obtain cs p k x where m: "li_Tasks new cfg = Ret cs" "li_Pipeline new cfg = Ret p" "li_Kube new cfg = Ret k"
    and infs: "infs1 = [main_informer namespace (cx_Resync ctx0), run_informer namespace (cx_Resync ctx0)]"
    and ctx1: "ctx1 = ?ctx\<lparr>cx_Client := Some cs, cx_Pipeline := Some p, cx_Kube := Some k, cx_Rest := x,
       cx_Informer := Some (typed_ApprovalTasks ?fac), cx_Factory := Some f,
       cx_CustomRunInformer := Some (typed_CustomRuns ?fac), cx_PipelineFactory := Some pf\<rparr>"
    by (rule SetupInformers_controller [OF s refl f pf])
  note again = typed_Informer_again [OF f] run_Informer_again [OF pf]
  have ids: "inf_id (main_informer namespace (cx_Resync ctx0)) = 0" "inf_id (run_informer namespace (cx_Resync ctx0)) = 0"
    by (simp_all add: main_informer_def run_informer_def)
  have "NewController clock ctx1 = Ret (wired clock k p cs (main_informer namespace (cx_Resync ctx0)) (run_informer namespace (cx_Resync ctx0)),
      ctx1\<lparr>cx_PipelineFactory := Some pf, cx_Factory := Some f\<rparr>)"
    by (rule NewController_wired [OF _ _ _ _ _ _ _ again(1,3)]) (simp_all add: ctx1)
  then have i: "impl = wired clock k p cs (main_informer namespace (cx_Resync ctx0)) (run_informer namespace (cx_Resync ctx0))"
    and x: "ctx = ctx1\<lparr>cx_PipelineFactory := Some pf, cx_Factory := Some f\<rparr>" using c(1) by auto
  show thesis
    by (rule that [OF m, of f pf]) (use c(2) infs again ids in \<open>simp_all add: i x\<close>)
qed

lemma controller_main_dies: "li_Tasks new cfg = Panic \<Longrightarrow> controller_main new clock namespace cfg ctx0 = Panic"
  by (cases "controller_main new clock namespace cfg ctx0") (auto elim: controller_main_wired)

text \<open>Over the fakes the controller is wired in the same way; its client is the fake set without objects.\<close>

lemma fake_injectors:
  "fake_Get = client_Get" "fake_withInformerFactory = factory_withInformerFactory" "fake_withInformer = informer_withInformer"
  "fake_filtered_withInformerFactory = filtered_withInformerFactory" "fake_filtered_withInformer = filtered_withInformer"
  "fake_withClient = withClientFromConfig (\<lambda>_. NewSimpleClientset [])"
proof -
  show g: "fake_Get = client_Get" by (rule ext) (simp add: fake_Get_def client_Get_def)
  show "fake_withInformerFactory = factory_withInformerFactory"
    by (rule ext) (simp add: fake_withInformerFactory_def factory_withInformerFactory_def g)
  show "fake_withInformer = informer_withInformer"
    by (rule ext) (simp add: fake_withInformer_def informer_withInformer_def)
  show "fake_filtered_withInformerFactory = filtered_withInformerFactory"
    by (rule ext) (simp add: fake_filtered_withInformerFactory_def filtered_withInformerFactory_def g)
  show "fake_filtered_withInformer = filtered_withInformer"
    by (rule ext) (simp add: fake_filtered_withInformer_def filtered_withInformer_def)
  show "fake_withClient = withClientFromConfig (\<lambda>_. NewSimpleClientset [])"
    by (intro ext) (simp add: fake_withClient_def fake_With_def withClientFromConfig_def split: outcome.split)
qed

definition fake_packages :: "('k, 'p, fake_clientset, 'r, 'c) registry" where
  "fake_packages = fake_informer_init (fake_factory_init (fake_client_init empty_registry))"

lemma fake_packages_eq: "fake_packages = task_packages (\<lambda>_. NewSimpleClientset []) empty_registry"
  by (simp add: fake_packages_def task_packages_def fake_informer_init_def informer_init_def fake_factory_init_def
      factory_init_def fake_client_init_def client_init_def fake_injectors)

text \<open>The namespaced lister of a lister lists what the lister itself does, of that namespace.\<close>

lemma namespaced_List:
  assumes "ri_Namespace l = []" and "ns \<noteq> []"
  shows "ri_List cs (lister_ApprovalTasks l ns) selector = filter (\<lambda>t. at_namespace t = ns) (ri_List cs l selector)"
  using assms by (auto simp: ri_List_def lister_List_def lister_ApprovalTasks_def listers_NewNamespaced_def intro!: filter_cong)

lemma namespaced_Get:
  assumes "fmlookup (cs (ri_Indexer l)) (ns @ ''/'' @ n) = Some t" and "ns \<noteq> []"
  shows "ri_Get cs (lister_ApprovalTasks l ns) n = Inr t"
  using assms by (simp add: ri_Get_def lister_Get_def lister_ApprovalTasks_def listers_NewNamespaced_def)

end
