(* ===== verification/Cli_Root.thy ===== *)
theory Cli_Root
  imports Client_Setup
begin

text \<open>
  The command line client as a whole (\<open>pkg/cli/cmd/root.go\<close>, \<open>cmd/tkn-approvaltask/main.go\<close>): its
  subcommands, the flag they share, and the exit code. Which subcommand the arguments name and the values
  of the flags are the parser's (cobra), so they are arguments here.
\<close>

datatype subcommand = ListCommand | ApproveCommand | DescribeCommand | RejectCommand

record cli_flag =
  fl_Name :: string
  fl_Shorthand :: string
  fl_Default :: string

record root_command =
  rt_Use :: string
  rt_Commands :: "(string \<times> subcommand) list"

definition AddOptions :: "cli_flag list \<Rightarrow> cli_flag list" where
  "AddOptions fs = fs @ [\<lparr>fl_Name = ''namespace'', fl_Shorthand = ''n'', fl_Default = []\<rparr>]"

definition Root :: root_command where
  "Root =
     \<lparr>rt_Use = ''tkn-approvaltask'',
      rt_Commands = [(''list'', ListCommand), (''approve'', ApproveCommand), (''describe'', DescribeCommand),
        (''reject'', RejectCommand)]\<rparr>"

definition empty_params :: "('c, 'r, 'd, 'k, 'y) cli_params" where
  "empty_params = \<lparr>pa_clients = None, pa_kubeConfigPath = [], pa_kubeContext = [], pa_namespace = []\<rparr>"

text \<open>The namespace of the parameters, which the commands pass on.\<close>

definition params_Namespace :: "('c, 'r, 'd, 'k, 'y) cli_params \<Rightarrow> string" where
  "params_Namespace p = pa_namespace p"

text \<open>
  Execution of a subcommand on fresh parameters; \<open>None\<close> stands for a name that is
  none of the two that decide. Approving and
  rejecting may change the state behind the API.
\<close>

definition run_decision ::
  "('c, 'h, 'r, 'd, 'k, 'y) client_lib \<Rightarrow> (('c, 'r, 'd, 'k, 'y) cli_clients \<Rightarrow> 's at_client)
    \<Rightarrow> go_error + string \<Rightarrow> go_error + 'g \<Rightarrow> string \<Rightarrow> string \<Rightarrow> string \<Rightarrow> 's
    \<Rightarrow> ((go_error + string) \<times> 's) outcome option" where
  "run_decision lib client_of flag gvr command name message s =
     (case map_of (rt_Commands Root) command of
        Some ApproveCommand \<Rightarrow> Some (decide_main lib client_of ''approve'' ''approved'' flag gvr name message empty_params s)
      | Some RejectCommand \<Rightarrow> Some (decide_main lib client_of ''reject'' ''rejected'' flag gvr name message empty_params s)
      | _ \<Rightarrow> None)"

definition exit_code :: "go_error + 'x \<Rightarrow> nat" where
  "exit_code r = (case r of Inl _ \<Rightarrow> 1 | Inr _ \<Rightarrow> 0)"

subsection \<open>The columns of the listing\<close>

definition list_state :: "(nat \<Rightarrow> string \<Rightarrow> string) \<Rightarrow> approval_task \<Rightarrow> string" where
  "list_state paint task =
     ColorStatus paint
       (if st_State (at_Status task) = ''approved'' then ''Approved''
        else if st_State (at_Status task) = ''rejected'' then ''Rejected''
        else if st_State (at_Status task) = ''pending'' then ''Pending'' else [])"

definition describe_pendingApprovals :: "approval_task \<Rightarrow> int" where
  "describe_pendingApprovals task =
     sp_NumberOfApprovalsRequired (at_Spec task)
       - int (card (responded_users (st_ApproversResponse (at_Status task)) {}))"

text \<open>Both commands show the same counts and states.\<close>

lemma columns_agree:
  "list_state paint task = ColorStatus paint (state_label task)"
  "describe_pendingApprovals task = pendingApprovals task"
  by (simp_all add: list_state_def state_label_def describe_pendingApprovals_def pendingApprovals_def)

text \<open>A command that fails to set up its clients changes nothing and ends with an error.\<close>

lemma Root_names: "map fst (rt_Commands Root) = [''list'', ''approve'', ''describe'', ''reject'']"
  by (simp add: Root_def)

lemma run_decision_unset:
  assumes "command = ''approve'' \<or> command = ''reject''"
    and "flag = Inr ns" and "fst (Clients lib [] (snd (InitParams flag empty_params))) = Inl e"
  shows "run_decision lib client_of flag gvr command name message s = Some (Ret (Inl e, s))" and "exit_code (Inl e) = 1"
proof -
  obtain p1 where c: "Clients lib [] (snd (InitParams flag empty_params)) = (Inl e, p1)"
    using assms(3) by (metis prod.collapse)
  have "decide_main lib client_of input participle flag gvr name message empty_params s = Ret (Inl e, s)" for input participle
    using c assms(2) by (simp add: decide_main_def InitParams_def)
  with assms(1) show "run_decision lib client_of flag gvr command name message s = Some (Ret (Inl e, s))"
    by (auto simp: run_decision_def Root_def)
  show "exit_code (Inl e) = 1" by (simp add: exit_code_def)
qed

end
