(* ===== verification/Client_Properties.thy ===== *)
theory Client_Properties
  imports Dynamic_Client Injection Cli_Root Gate_Samples
begin

text \<open>
  Properties of the parts around the reconciliation: the controller that the main program builds, and
  the clients of the tasks: the typed one that it uses, and the dynamic one that the commands use.
\<close>


text \<open>A context as the library fills it, and clients that can be made.\<close>

definition context0 :: "(nat, nat, nat, string) app_context" where
  "context0 = \<lparr>cx_Scope = [], cx_Resync = 36000000000000, cx_KubeSelectors = None, cx_Kube = None, cx_Pipeline = None,
     cx_PipelineFactory = None, cx_CustomRunInformer = None, cx_Client = None, cx_Factory = None, cx_Informer = None,
     cx_Labels = None, cx_FilteredFactories = Map.empty, cx_FilteredInformers = Map.empty, cx_Rest = []\<rparr>"

definition linked0 :: "(nat, nat, nat, string, nat) linked" where
  "linked0 = \<lparr>li_Kube = Ret, li_Pipeline = Ret, li_Tasks = Ret, li_RestClients = [\<lambda>cfg ctx. Ret ''cache''],
     li_RestFactories = [\<lambda>ctx. case cx_Kube ctx of None \<Rightarrow> Panic | Some k \<Rightarrow> Ret ''kube informers'']\<rparr>"

lemma main0_runs: "controller_main linked0 () ''prod'' 7 context0 \<noteq> Panic"
  by (simp add: controller_main_def SetupInformers_def controller_packages_def rest_init_def kube_client_init_def
      pipeline_packages_def customrun_init_def pipeline_factory_init_def pipeline_client_init_def task_packages_def
      informer_init_def factory_init_def client_init_def empty_registry_def withClientFromConfig_def
      pipeline_withClientFromConfig_def kube_withClientFromConfig_def factory_withInformerFactory_def
      pipeline_withInformerFactory_def client_Get_def pipeline_client_Get_def kube_client_Get_def customrun_Get_def
      informer_Get_def from_context_def one_informer_def informer_withInformer_def customrun_withInformer_def factory_Get_def
      pipeline_factory_Get_def rest_injector_def NewController_def context0_def linked0_def Let_def split: prod.split)

definition options0 :: list_options where
  "options0 = \<lparr>lo_LabelSelector = [], lo_FieldSelector = []\<rparr>"


text \<open>
  C34. The clients talk as the fake one answers: over a server that keeps tasks by their paths, a reconciliation
  does through the typed client's requests, and the commands do through those of the dynamic client that
  they use, what they do with the fake client set, for all names that can be part of a path.
\<close>

theorem clients_like_fake:
  assumes "path_name (run_ns run)" and "path_name (run_name run)" and "cr_CustomRef run \<noteq> None"
    and "keyed_at (run_ns run) (run_name run) (w_api w)"
  shows "ReconcileKind env (rest_tasks serve_tasks) run w = ReconcileKind env fake_client run w
    \<and> decide_command input participle clients user (Inr task_resource) (dynamic_tasks task_resource serve_tasks)
          (run_name run) (run_ns run) message (w_api w)
        = decide_command input participle clients user (Inr task_resource) fake_client (run_name run) (run_ns run) message (w_api w)
    \<and> describe_command paint clients (Inr task_resource) (dynamic_tasks task_resource serve_tasks) (run_name run) (run_ns run) (w_api w)
        = describe_command paint clients (Inr task_resource) fake_client (run_name run) (run_ns run) (w_api w)"
  by (intro conjI ReconcileKind_agrees [OF rest_agrees [OF assms(1,2)] assms(4,3)]
      decide_command_agrees [OF dynamic_agrees [OF assms(1,2)] assms(4) TrueI]
      describe_command_agrees [OF dynamic_agrees [OF assms(1,2)] assms(4)])
    (simp add: creates_only_def)

theorem clients_like_fake_witness:
  "ReconcileKind env0 (rest_tasks serve_tasks) run0 (world_of approved_task0) = ReconcileKind env0 fake_client run0 (world_of approved_task0)
    \<and> approve_command None (Inr (user_of opts0)) (Inr task_resource) (dynamic_tasks task_resource serve_tasks)
          ''deploy'' ''prod'' [] (w_api (world_of task0))
        = approve_command None (Inr (user_of opts0)) (Inr task_resource) fake_client ''deploy'' ''prod'' [] (w_api (world_of task0))"
proof -
  have p: "path_name (run_ns run0)" "path_name (run_name run0)" and c: "cr_CustomRef run0 \<noteq> None"
    and i: "run_ns run0 = ''prod''" "run_name run0 = ''deploy''"
    by (simp_all add: path_name_def IsValidPathSegmentName_def sample_defs)
  have k: "keyed_at (run_ns run0) (run_name run0) (w_api (world_of t))" if "keyed run0 t" for t
    using that lookup_world_of [of t] by (simp add: keyed_at_def named_def keyed_def)
  show ?thesis
    using conjunct1 [OF clients_like_fake [OF p c k [OF keyed_samples(2)]]]
      conjunct1 [OF conjunct2 [OF clients_like_fake [OF p c k [OF keyed_samples(1)]]], unfolded i]
    unfolding approve_command_def by (intro conjI)
qed



end
