(* ===== verification/Work_Queue.thy ===== *)
theory Work_Queue
  imports Go_Errors
begin

text \<open>
  The work queue of the controller: the queue of \<open>k8s.io/client-go/util/workqueue\<close>, the two lanes that
  \<open>knative.dev/pkg/controller\<close> builds from three of them, the delays, and the workers. Each step below is
  what one goroutine does under one lock or by one message; the steps of all of them come in any order.
  The times of delays are left out: a delayed key may become due at any moment.
\<close>

subsection \<open>A queue\<close>

record 'k typed_queue =
  wq_queue :: "'k list"
  wq_dirty :: "'k set"
  wq_processing :: "'k set"
  wq_shuttingDown :: bool

datatype 'k got = Waits | Ended | Got 'k

definition newQueue :: "'k typed_queue" where
  "newQueue = \<lparr>wq_queue = [], wq_dirty = {}, wq_processing = {}, wq_shuttingDown = False\<rparr>"

definition wq_Add :: "'k \<Rightarrow> 'k typed_queue \<Rightarrow> 'k typed_queue" where
  "wq_Add item q =
     (if wq_shuttingDown q then q
      else if item \<in> wq_dirty q then q
      else let q1 = q\<lparr>wq_dirty := insert item (wq_dirty q)\<rparr>
           in if item \<in> wq_processing q1 then q1 else q1\<lparr>wq_queue := wq_queue q1 @ [item]\<rparr>)"

text \<open>\<open>Waits\<close>: the caller sleeps and tries again.\<close>

definition wq_Get :: "'k typed_queue \<Rightarrow> 'k got \<times> 'k typed_queue" where
  "wq_Get q =
     (case wq_queue q of
        [] \<Rightarrow> (if wq_shuttingDown q then Ended else Waits, q)
      | item # rest \<Rightarrow>
          (Got item, q\<lparr>wq_queue := rest, wq_processing := insert item (wq_processing q),
                      wq_dirty := wq_dirty q - {item}\<rparr>))"

definition wq_Done :: "'k \<Rightarrow> 'k typed_queue \<Rightarrow> 'k typed_queue" where
  "wq_Done item q =
     (let q1 = q\<lparr>wq_processing := wq_processing q - {item}\<rparr>
      in if item \<in> wq_dirty q1 then q1\<lparr>wq_queue := wq_queue q1 @ [item]\<rparr> else q1)"

definition wq_ShutDown :: "'k typed_queue \<Rightarrow> 'k typed_queue" where
  "wq_ShutDown q = q\<lparr>wq_shuttingDown := True\<rparr>"

subsection \<open>The contract of a queue\<close>

text \<open>\<open>todo\<close> are the keys that wait for a worker, \<open>busy\<close> those that one has.\<close>

locale key_queue =
  fixes add :: "'k \<Rightarrow> 'q \<Rightarrow> 'q" and get :: "'q \<Rightarrow> 'k got \<times> 'q" and finish :: "'k \<Rightarrow> 'q \<Rightarrow> 'q"
    and ok :: "'q \<Rightarrow> bool" and todo :: "'q \<Rightarrow> 'k set" and busy :: "'q \<Rightarrow> 'k set" and closed :: "'q \<Rightarrow> bool"
  assumes added: "ok q \<Longrightarrow> ok (add k q) \<and> busy (add k q) = busy q \<and> closed (add k q) = closed q
      \<and> todo (add k q) = (if closed q then todo q else insert k (todo q))"
    and got: "ok q \<Longrightarrow> get q = (Got k, q') \<Longrightarrow> ok q' \<and> k \<in> todo q \<and> k \<notin> busy q
      \<and> todo q' = todo q - {k} \<and> busy q' = insert k (busy q) \<and> closed q' = closed q"
    and empty: "ok q \<Longrightarrow> get q = (Waits, q') \<or> get q = (Ended, q') \<Longrightarrow> q' = q \<and> todo q \<subseteq> busy q"
    and ended: "get q = (Ended, q') \<Longrightarrow> closed q"
    and finished: "ok q \<Longrightarrow> k \<in> busy q \<Longrightarrow> ok (finish k q) \<and> busy (finish k q) = busy q - {k}
      \<and> todo (finish k q) = todo q \<and> closed (finish k q) = closed q"
    and finite_todo: "ok q \<Longrightarrow> finite (todo q)"
begin

text \<open>No operation drops a key: it stays to do until it is got.\<close>

lemma todo_kept:
  assumes "ok q" and "k \<in> todo q"
  shows "k \<in> todo (add j q)" and "j \<in> busy q \<Longrightarrow> k \<in> todo (finish j q)"
    and "get q = (Got j, q') \<Longrightarrow> j \<noteq> k \<Longrightarrow> k \<in> todo q'"
  using assms added [OF assms(1), of j] finished [OF assms(1), of j] got [OF assms(1), of j q'] by auto

lemma card_added: "ok q \<Longrightarrow> card (todo (add k q)) \<le> Suc (card (todo q))"
  using added [of q k] finite_todo [of q] by (simp add: card_insert_if)

lemma card_got:
  assumes "ok q" and "get q = (Got k, q')"
  shows "card (todo q) = Suc (card (todo q'))"
proof -
  note g = got [OF assms]
  have "Suc (card (todo q - {k})) = card (todo q)"
    by (rule card_Suc_Diff1 [OF finite_todo [OF assms(1)]]) (rule g [THEN conjunct2, THEN conjunct1])
  then show ?thesis using g by simp
qed

lemma idle_empty: "ok q \<Longrightarrow> busy q = {} \<Longrightarrow> get q = (Waits, q') \<or> get q = (Ended, q') \<Longrightarrow> todo q = {}"
  using empty by blast

end

definition wq_ok :: "'k typed_queue \<Rightarrow> bool" where
  "wq_ok q \<longleftrightarrow> distinct (wq_queue q) \<and> set (wq_queue q) = wq_dirty q - wq_processing q \<and> finite (wq_dirty q)"

interpretation wq: key_queue wq_Add wq_Get wq_Done wq_ok wq_dirty wq_processing wq_shuttingDown
proof (unfold_locales, goal_cases)
  case (1 q k)
  then show ?case by (auto simp: wq_ok_def wq_Add_def Let_def)
next
  case (2 q k q')
  then obtain rest where l: "wq_queue q = k # rest"
    and q': "q' = q\<lparr>wq_queue := rest, wq_processing := insert k (wq_processing q), wq_dirty := wq_dirty q - {k}\<rparr>"
    by (cases "wq_queue q") (simp_all add: wq_Get_def split: if_split_asm)
  have s: "insert k (set rest) = wq_dirty q - wq_processing q" "k \<notin> set rest" using 2(1) l by (simp_all add: wq_ok_def)
  then have "set rest = wq_dirty q - {k} - insert k (wq_processing q)" by blast
  moreover have "k \<in> wq_dirty q" "k \<notin> wq_processing q" using s by blast+
  ultimately show ?case using 2(1) l by (simp add: q' wq_ok_def)
next
  case (3 q q')
  then show ?case by (cases "wq_queue q") (auto simp: wq_ok_def wq_Get_def)
next
  case (4 q q')
  then show ?case by (cases "wq_queue q") (simp_all add: wq_Get_def split: if_split_asm)
next
  case (5 q k)
  then show ?case by (auto simp: wq_ok_def wq_Done_def Let_def)
next
  case (6 q)
  then show ?case by (simp add: wq_ok_def)
qed

lemma newQueue_sel [simp]:
  "wq_queue newQueue = []" "wq_dirty newQueue = {}" "wq_processing newQueue = {}" "\<not> wq_shuttingDown newQueue" "wq_ok newQueue"
  by (simp_all add: newQueue_def wq_ok_def)

lemma wq_ShutDown_sel [simp]:
  "wq_queue (wq_ShutDown q) = wq_queue q" "wq_dirty (wq_ShutDown q) = wq_dirty q"
  "wq_processing (wq_ShutDown q) = wq_processing q" "wq_shuttingDown (wq_ShutDown q)" "wq_ok (wq_ShutDown q) = wq_ok q"
  by (simp_all add: wq_ShutDown_def wq_ok_def)

subsection \<open>Two lanes\<close>

text \<open>
  The goroutine that empties a lane: it waits in \<open>Get\<close>, calls \<open>Done\<close>, waits for the consumer to
  receive, or has closed its channel.
\<close>

datatype 'k producer = Getting | Doing 'k | Sending 'k | Closed

record 'k two_lane =
  tl_fastLane :: "'k typed_queue"
  tl_slowLane :: "'k typed_queue"
  tl_consumerQueue :: "'k typed_queue"
  tl_fastChan :: "'k producer"
  tl_slowChan :: "'k producer"
  tl_fast :: bool
  tl_slow :: bool

definition newTwoLaneWorkQueue :: "'k two_lane" where
  "newTwoLaneWorkQueue =
     \<lparr>tl_fastLane = newQueue, tl_slowLane = newQueue, tl_consumerQueue = newQueue, tl_fastChan = Getting,
      tl_slowChan = Getting, tl_fast = True, tl_slow = True\<rparr>"

fun process_step :: "'k producer \<times> 'k typed_queue \<Rightarrow> ('k producer \<times> 'k typed_queue) option" where
  "process_step (Getting, q) =
     (case wq_Get q of
        (Waits, _) \<Rightarrow> None
      | (Ended, q') \<Rightarrow> Some (Closed, q')
      | (Got i, q') \<Rightarrow> Some (Doing i, q'))"
| "process_step (Doing i, q) = Some (Sending i, wq_Done i q)"
| "process_step (Sending i, q) = None"
| "process_step (Closed, q) = None"

text \<open>
  The consumer, while one of its flags is set: it receives from a channel, or finds it closed. Which of
  two ready channels it reads is left open, although it prefers the fast one.
\<close>

inductive consumer_step :: "'k two_lane \<Rightarrow> 'k two_lane \<Rightarrow> bool" where
  from_fast: "tl_fast t \<or> tl_slow t \<Longrightarrow> tl_fastChan t = Sending item \<Longrightarrow>
    consumer_step t (t\<lparr>tl_fastChan := Getting, tl_consumerQueue := wq_Add item (tl_consumerQueue t)\<rparr>)"
| fast_closed: "tl_fast t \<Longrightarrow> tl_fastChan t = Closed \<Longrightarrow> consumer_step t (t\<lparr>tl_fast := False\<rparr>)"
| from_slow: "tl_fast t \<or> tl_slow t \<Longrightarrow> tl_slowChan t = Sending item \<Longrightarrow>
    consumer_step t (t\<lparr>tl_slowChan := Getting, tl_consumerQueue := wq_Add item (tl_consumerQueue t)\<rparr>)"
| slow_closed: "tl_slow t \<Longrightarrow> tl_slowChan t = Closed \<Longrightarrow> consumer_step t (t\<lparr>tl_slow := False\<rparr>)"
| both_closed: "\<not> tl_fast t \<Longrightarrow> \<not> tl_slow t \<Longrightarrow> \<not> wq_shuttingDown (tl_consumerQueue t) \<Longrightarrow>
    consumer_step t (t\<lparr>tl_consumerQueue := wq_ShutDown (tl_consumerQueue t)\<rparr>)"

definition tl_Add :: "'k \<Rightarrow> 'k two_lane \<Rightarrow> 'k two_lane" where
  "tl_Add item t = t\<lparr>tl_fastLane := wq_Add item (tl_fastLane t)\<rparr>"

definition tl_AddSlow :: "'k \<Rightarrow> 'k two_lane \<Rightarrow> 'k two_lane" where
  "tl_AddSlow item t = t\<lparr>tl_slowLane := wq_Add item (tl_slowLane t)\<rparr>"

definition tl_Get :: "'k two_lane \<Rightarrow> 'k got \<times> 'k two_lane" where
  "tl_Get t = (case wq_Get (tl_consumerQueue t) of (g, q) \<Rightarrow> (g, t\<lparr>tl_consumerQueue := q\<rparr>))"

definition tl_Done :: "'k \<Rightarrow> 'k two_lane \<Rightarrow> 'k two_lane" where
  "tl_Done item t = t\<lparr>tl_consumerQueue := wq_Done item (tl_consumerQueue t)\<rparr>"

definition tl_ShutDown :: "'k two_lane \<Rightarrow> 'k two_lane" where
  "tl_ShutDown t = t\<lparr>tl_fastLane := wq_ShutDown (tl_fastLane t), tl_slowLane := wq_ShutDown (tl_slowLane t)\<rparr>"

definition tl_ShuttingDown :: "'k two_lane \<Rightarrow> bool" where
  "tl_ShuttingDown t \<longleftrightarrow> wq_shuttingDown (tl_fastLane t) \<or> wq_shuttingDown (tl_slowLane t)"

subsection \<open>Delays and workers\<close>

text \<open>The keys that are not due yet, and the keys of the workers that are in \<open>processNextWorkItem\<close>.\<close>

record 'k work_state =
  ws_queue :: "'k two_lane"
  ws_waiting :: "'k set"
  ws_workers :: "'k list"

definition delaying_AddAfter :: "'k \<Rightarrow> duration \<Rightarrow> 'k work_state \<Rightarrow> 'k work_state" where
  "delaying_AddAfter item d s =
     (if tl_ShuttingDown (ws_queue s) then s
      else if d \<le> 0 then s\<lparr>ws_queue := tl_Add item (ws_queue s)\<rparr>
      else s\<lparr>ws_waiting := insert item (ws_waiting s)\<rparr>)"

text \<open>
  What \<open>handleErr\<close> does with a key after its reconciliation; \<open>backoff\<close> is the delay the rate limiter gives.
  Later \<open>processNextWorkItem\<close> calls \<open>Done\<close>, and the worker is free.
\<close>

fun apply_action :: "queue_action \<Rightarrow> duration \<Rightarrow> 'k \<Rightarrow> 'k work_state \<Rightarrow> 'k work_state" where
  "apply_action Forget backoff key s = s"
| "apply_action (AddAfter d) backoff key s = delaying_AddAfter key d s"
| "apply_action AddRateLimited backoff key s = delaying_AddAfter key backoff s"

definition handle_result :: "go_error option \<Rightarrow> duration \<Rightarrow> 'k \<Rightarrow> 'k work_state \<Rightarrow> 'k work_state" where
  "handle_result err backoff key s =
     apply_action (processNextWorkItem (tl_ShuttingDown (ws_queue s)) err) backoff key s"

definition finish_item :: "'k \<Rightarrow> 'k work_state \<Rightarrow> 'k work_state" where
  "finish_item key s = s\<lparr>ws_queue := tl_Done key (ws_queue s), ws_workers := remove1 key (ws_workers s)\<rparr>"

text \<open>
  A worker handles the result of its reconciliation once, then finishes; here it may do so any number of
  times, which allows more histories than there are.
\<close>

datatype 'k work_event =
  Enqueue 'k | EnqueueSlow 'k | Due 'k | Internal | Take 'k | Handle 'k | Finish 'k | Stop

inductive work_step :: "'k work_state \<Rightarrow> 'k work_event \<Rightarrow> 'k work_state \<Rightarrow> bool" where
  enqueue: "work_step s (Enqueue k) (s\<lparr>ws_queue := tl_Add k (ws_queue s)\<rparr>)"
| enqueue_slow: "work_step s (EnqueueSlow k) (s\<lparr>ws_queue := tl_AddSlow k (ws_queue s)\<rparr>)"
| due: "k \<in> ws_waiting s \<Longrightarrow> \<not> tl_ShuttingDown (ws_queue s) \<Longrightarrow>
    work_step s (Due k) (s\<lparr>ws_queue := tl_Add k (ws_queue s), ws_waiting := ws_waiting s - {k}\<rparr>)"
| fast_lane: "process_step (tl_fastChan (ws_queue s), tl_fastLane (ws_queue s)) = Some (p, q) \<Longrightarrow>
    work_step s Internal (s\<lparr>ws_queue := (ws_queue s)\<lparr>tl_fastChan := p, tl_fastLane := q\<rparr>\<rparr>)"
| slow_lane: "process_step (tl_slowChan (ws_queue s), tl_slowLane (ws_queue s)) = Some (p, q) \<Longrightarrow>
    work_step s Internal (s\<lparr>ws_queue := (ws_queue s)\<lparr>tl_slowChan := p, tl_slowLane := q\<rparr>\<rparr>)"
| consume: "consumer_step (ws_queue s) t \<Longrightarrow> work_step s Internal (s\<lparr>ws_queue := t\<rparr>)"
| take: "tl_Get (ws_queue s) = (Got k, t) \<Longrightarrow> work_step s (Take k) (s\<lparr>ws_queue := t, ws_workers := k # ws_workers s\<rparr>)"
| handle: "k \<in> set (ws_workers s) \<Longrightarrow> work_step s (Handle k) (handle_result err backoff k s)"
| finish: "k \<in> set (ws_workers s) \<Longrightarrow> work_step s (Finish k) (finish_item k s)"
| stop: "work_step s Stop (s\<lparr>ws_queue := tl_ShutDown (ws_queue s)\<rparr>)"

inductive_cases work_stepE: "work_step s e s'"
inductive_cases consumer_stepE: "consumer_step t t'"

inductive work_run :: "'k work_state \<Rightarrow> 'k work_event list \<Rightarrow> 'k work_state \<Rightarrow> bool" where
  none: "work_run s [] s"
| more: "work_step s e s1 \<Longrightarrow> work_run s1 es s2 \<Longrightarrow> work_run s (e # es) s2"

definition idle_work :: "'k work_state" where
  "idle_work = \<lparr>ws_queue = newTwoLaneWorkQueue, ws_waiting = {}, ws_workers = []\<rparr>"

definition work_reachable :: "'k work_state \<Rightarrow> bool" where
  "work_reachable s \<longleftrightarrow> (\<exists>es. work_run idle_work es s)"

end
