(* ===== verification/Work_Facts.thy ===== *)
theory Work_Facts
  imports Work_Queue
begin

text \<open>
  What the work queue guarantees the controller in every order of the steps of its goroutines: a key is
  never with two workers, a key that was queued is not lost before a worker takes it, and the
  steps that bring it to a worker come to an end.
\<close>

subsection \<open>The invariant\<close>

fun in_hand :: "'k producer \<Rightarrow> 'k set" where
  "in_hand (Doing k) = {k}"
| "in_hand _ = {}"

fun on_way :: "'k producer \<Rightarrow> 'k set" where
  "on_way (Doing k) = {k}"
| "on_way (Sending k) = {k}"
| "on_way _ = {}"

definition lane_ok :: "'k producer \<Rightarrow> 'k typed_queue \<Rightarrow> bool" where
  "lane_ok p q \<longleftrightarrow> wq_ok q \<and> wq_processing q = in_hand p
     \<and> (p = Closed \<longrightarrow> wq_shuttingDown q \<and> wq_dirty q = {})"

definition lanes_ok :: "'k two_lane \<Rightarrow> bool" where
  "lanes_ok t \<longleftrightarrow> lane_ok (tl_fastChan t) (tl_fastLane t) \<and> lane_ok (tl_slowChan t) (tl_slowLane t)
     \<and> wq_ok (tl_consumerQueue t) \<and> (tl_fast t \<or> tl_fastChan t = Closed) \<and> (tl_slow t \<or> tl_slowChan t = Closed)
     \<and> (wq_shuttingDown (tl_consumerQueue t) \<longrightarrow> \<not> tl_fast t \<and> \<not> tl_slow t)"

definition work_inv :: "'k work_state \<Rightarrow> bool" where
  "work_inv s \<longleftrightarrow> lanes_ok (ws_queue s) \<and> wq_processing (tl_consumerQueue (ws_queue s)) = set (ws_workers s)
     \<and> distinct (ws_workers s)"

lemma lane_Add: "lane_ok p q \<Longrightarrow> lane_ok p (wq_Add k q)"
  using wq.added [of q k] by (auto simp: lane_ok_def)

lemma lane_ShutDown: "lane_ok p q \<Longrightarrow> lane_ok p (wq_ShutDown q)"
  by (simp add: lane_ok_def)

lemma lane_process:
  assumes "lane_ok p q" and "process_step (p, q) = Some (p', q')"
  shows "lane_ok p' q'" and "on_way p \<union> wq_dirty q = on_way p' \<union> wq_dirty q'" and "p \<noteq> Closed"
proof (atomize (full), cases p)
  case Getting
  obtain g q1 where g: "wq_Get q = (g, q1)" by (cases "wq_Get q")
  have ok: "wq_ok q" "wq_processing q = {}" using assms(1) Getting by (simp_all add: lane_ok_def)
  show "lane_ok p' q' \<and> on_way p \<union> wq_dirty q = on_way p' \<union> wq_dirty q' \<and> p \<noteq> Closed"
  proof (cases g)
    case Waits
    then show ?thesis using assms(2) Getting g by simp
  next
    case Ended
    then have "p' = Closed" "q' = q1" using assms(2) Getting g by simp_all
    then show ?thesis
      using wq.empty [OF ok(1), of q1] wq.ended [of q q1] ok g Ended Getting by (simp add: lane_ok_def)
  next
    case (Got i)
    then have "p' = Doing i" "q' = q1" using assms(2) Getting g by simp_all
    moreover note wq.got [OF ok(1), of i q1]
    ultimately show ?thesis using ok g Got Getting by (auto simp: lane_ok_def)
  qed
next
  case (Doing i)
  then have "p' = Sending i" "q' = wq_Done i q" using assms(2) by simp_all
  then show "lane_ok p' q' \<and> on_way p \<union> wq_dirty q = on_way p' \<union> wq_dirty q' \<and> p \<noteq> Closed"
    using wq.finished [of q i] assms(1) Doing by (auto simp: lane_ok_def)
qed (use assms(2) in simp_all)

lemma lane_sent: "lane_ok (Sending i) q \<Longrightarrow> lane_ok Getting q"
  by (simp add: lane_ok_def)

lemma consumer_ok:
  assumes "lanes_ok t" and "consumer_step t t'"
  shows "lanes_ok t'" and "wq_processing (tl_consumerQueue t') = wq_processing (tl_consumerQueue t)"
  using assms(2,1) wq.added [of "tl_consumerQueue t"]
  by (induction rule: consumer_step.induct) (auto simp: lanes_ok_def lane_sent)

lemma lanes_consumer [simp]:
  "tl_consumerQueue (tl_Add k t) = tl_consumerQueue t" "tl_consumerQueue (tl_AddSlow k t) = tl_consumerQueue t"
  "tl_consumerQueue (tl_ShutDown t) = tl_consumerQueue t"
  by (simp_all add: tl_Add_def tl_AddSlow_def tl_ShutDown_def)

lemma lanes_Add [simp]:
  assumes "lanes_ok t"
  shows "lanes_ok (tl_Add k t)" and "lanes_ok (tl_AddSlow k t)" and "lanes_ok (tl_ShutDown t)"
  using assms by (auto simp: lanes_ok_def tl_Add_def tl_AddSlow_def tl_ShutDown_def lane_Add lane_ShutDown)

lemma inv_AddAfter:
  assumes "work_inv s"
  shows "work_inv (apply_action a b k s)" and "ws_workers (apply_action a b k s) = ws_workers s"
  using assms by (cases a; simp add: work_inv_def delaying_AddAfter_def)+

lemma inv_handle:
  assumes "work_inv s"
  shows "work_inv (handle_result err b k s)" and "ws_workers (handle_result err b k s) = ws_workers s"
  using inv_AddAfter [OF assms] by (simp_all add: handle_result_def)

lemma inv_finish:
  assumes "work_inv s" and "k \<in> set (ws_workers s)"
  shows "work_inv (finish_item k s)"
proof -
  let ?q = "tl_consumerQueue (ws_queue s)"
  have "wq_ok ?q" "k \<in> wq_processing ?q" using assms by (simp_all add: work_inv_def lanes_ok_def)
  note f = wq.finished [OF this]
  have "finish_item k s = s\<lparr>ws_queue := (ws_queue s)\<lparr>tl_consumerQueue := wq_Done k ?q\<rparr>,
      ws_workers := remove1 k (ws_workers s)\<rparr>"
    by (simp add: finish_item_def tl_Done_def)
  with assms f show ?thesis by (simp add: work_inv_def lanes_ok_def)
qed

lemma work_step_inv:
  assumes "work_step s e s'" and "work_inv s"
  shows "work_inv s'"
  using assms
proof (induction rule: work_step.induct)
  case (fast_lane s p q)
  then show ?case
    using lane_process [OF _ fast_lane(1)] by (auto simp: work_inv_def lanes_ok_def)
next
  case (slow_lane s p q)
  then show ?case
    using lane_process [OF _ slow_lane(1)] by (auto simp: work_inv_def lanes_ok_def)
next
  case (consume s t)
  then show ?case using consumer_ok [of "ws_queue s" t] by (simp add: work_inv_def)
next
  case (take s k t)
  then obtain q where q: "wq_Get (tl_consumerQueue (ws_queue s)) = (Got k, q)" "t = (ws_queue s)\<lparr>tl_consumerQueue := q\<rparr>"
    by (auto simp: tl_Get_def split: prod.splits)
  then show ?case using take.prems wq.got [of "tl_consumerQueue (ws_queue s)" k q] by (simp add: work_inv_def lanes_ok_def)
next
  case (handle k s err backoff)
  then show ?case by (simp add: inv_handle)
next
  case (finish k s)
  then show ?case by (simp add: inv_finish)
qed (simp_all add: work_inv_def)

lemma run_work_inv: "work_run s es s' \<Longrightarrow> work_inv s \<Longrightarrow> work_inv s'"
  by (induction rule: work_run.induct) (use work_step_inv in blast)+

lemma idle_inv: "work_inv idle_work"
  by (simp add: work_inv_def idle_work_def newTwoLaneWorkQueue_def lanes_ok_def lane_ok_def)

lemma reachable_work_inv: "work_reachable s \<Longrightarrow> work_inv s"
  unfolding work_reachable_def using run_work_inv idle_inv by blast


subsection \<open>Keys on their way\<close>

text \<open>The keys that are queued, in either lane, on the way to the consumer, or behind it.\<close>

definition pending_keys :: "'k work_state \<Rightarrow> 'k set" where
  "pending_keys s =
     (let t = ws_queue s
      in wq_dirty (tl_fastLane t) \<union> on_way (tl_fastChan t) \<union> wq_dirty (tl_slowLane t) \<union> on_way (tl_slowChan t)
         \<union> wq_dirty (tl_consumerQueue t))"

lemma pending_Add:
  assumes "lanes_ok (ws_queue s)"
  shows "pending_keys s \<subseteq> pending_keys (s\<lparr>ws_queue := tl_Add k (ws_queue s)\<rparr>)"
    and "pending_keys s \<subseteq> pending_keys (s\<lparr>ws_queue := tl_AddSlow k (ws_queue s)\<rparr>)"
    and "\<not> tl_ShuttingDown (ws_queue s) \<Longrightarrow> k \<in> pending_keys (s\<lparr>ws_queue := tl_Add k (ws_queue s)\<rparr>)"
proof -
  have "wq_ok (tl_fastLane (ws_queue s))" "wq_ok (tl_slowLane (ws_queue s))"
    using assms by (simp_all add: lanes_ok_def lane_ok_def)
  note a = wq.added [OF this(1), of k] wq.added [OF this(2), of k]
  show "pending_keys s \<subseteq> pending_keys (s\<lparr>ws_queue := tl_Add k (ws_queue s)\<rparr>)"
    "pending_keys s \<subseteq> pending_keys (s\<lparr>ws_queue := tl_AddSlow k (ws_queue s)\<rparr>)"
    "\<not> tl_ShuttingDown (ws_queue s) \<Longrightarrow> k \<in> pending_keys (s\<lparr>ws_queue := tl_Add k (ws_queue s)\<rparr>)"
    using a by (auto simp: pending_keys_def tl_Add_def tl_AddSlow_def tl_ShuttingDown_def Let_def)
qed

lemma pending_consumer:
  assumes "lanes_ok (ws_queue s)" and "consumer_step (ws_queue s) t"
  shows "pending_keys (s\<lparr>ws_queue := t\<rparr>) = pending_keys s"
proof -
  let ?c = "tl_consumerQueue (ws_queue s)"
  have ok: "wq_ok ?c" using assms(1) by (simp add: lanes_ok_def)
  have open': "\<not> wq_shuttingDown ?c" if "tl_fast (ws_queue s) \<or> tl_slow (ws_queue s)"
    using assms(1) that by (auto simp: lanes_ok_def)
  from assms(2) show ?thesis
  proof (cases rule: consumer_step.cases)
    case (from_fast item)
    then show ?thesis using wq.added [OF ok, of item] open' by (auto simp: pending_keys_def Let_def)
  next
    case (from_slow item)
    then show ?thesis using wq.added [OF ok, of item] open' by (auto simp: pending_keys_def Let_def)
  qed (simp_all add: pending_keys_def Let_def)
qed

lemma pending_AddAfter:
  assumes "lanes_ok (ws_queue s)"
  shows "pending_keys s \<subseteq> pending_keys (delaying_AddAfter k d s)"
  using pending_Add(1) [OF assms, of k] by (simp add: delaying_AddAfter_def) (simp add: pending_keys_def)

lemma pending_handle:
  assumes "work_inv s"
  shows "pending_keys s \<subseteq> pending_keys (handle_result err b k s)"
  using pending_AddAfter [of s k] assms
  by (cases "processNextWorkItem (tl_ShuttingDown (ws_queue s)) err") (simp_all add: handle_result_def work_inv_def)

lemma pending_finish:
  assumes "work_inv s" and "k \<in> set (ws_workers s)"
  shows "pending_keys (finish_item k s) = pending_keys s"
proof -
  have "wq_ok (tl_consumerQueue (ws_queue s))" "k \<in> wq_processing (tl_consumerQueue (ws_queue s))"
    using assms by (simp_all add: work_inv_def lanes_ok_def)
  note f = wq.finished [OF this]
  show ?thesis using f by (simp add: finish_item_def pending_keys_def tl_Done_def Let_def)
qed

text \<open>Only being taken by a worker ends the wait of a key.\<close>

lemma step_pending:
  assumes "work_step s e s'" and "work_inv s" and "k \<in> pending_keys s" and "e \<noteq> Take k"
  shows "k \<in> pending_keys s'"
  using assms
proof (induction rule: work_step.induct)
  case (enqueue s j)
  then show ?case using pending_Add(1) [of s j] by (auto simp: work_inv_def)
next
  case (enqueue_slow s j)
  then show ?case using pending_Add(2) [of s j] by (auto simp: work_inv_def)
next
  case (due j s)
  then have "k \<in> pending_keys (s\<lparr>ws_queue := tl_Add j (ws_queue s)\<rparr>)"
    using pending_Add(1) [of s j] by (auto simp: work_inv_def)
  then show ?case by (simp add: pending_keys_def)
next
  case (fast_lane s p q)
  then have "on_way (tl_fastChan (ws_queue s)) \<union> wq_dirty (tl_fastLane (ws_queue s)) = on_way p \<union> wq_dirty q"
    by (intro lane_process(2)) (simp_all add: work_inv_def lanes_ok_def)
  then show ?case using fast_lane.prems(2) by (auto simp: pending_keys_def Let_def)
next
  case (slow_lane s p q)
  then have "on_way (tl_slowChan (ws_queue s)) \<union> wq_dirty (tl_slowLane (ws_queue s)) = on_way p \<union> wq_dirty q"
    by (intro lane_process(2)) (simp_all add: work_inv_def lanes_ok_def)
  then show ?case using slow_lane.prems(2) by (auto simp: pending_keys_def Let_def)
next
  case (consume s t)
  then show ?case using pending_consumer [of s t] by (simp add: work_inv_def)
next
  case (take s j t)
  then obtain q where q: "wq_Get (tl_consumerQueue (ws_queue s)) = (Got j, q)" "t = (ws_queue s)\<lparr>tl_consumerQueue := q\<rparr>"
    by (auto simp: tl_Get_def split: prod.splits)
  have "wq_ok (tl_consumerQueue (ws_queue s))" using take.prems(1) by (simp add: work_inv_def lanes_ok_def)
  note g = wq.got [OF this q(1)]
  show ?case using take.prems g q(2) by (auto simp: pending_keys_def Let_def)
next
  case (handle j s err backoff)
  then show ?case using pending_handle [OF handle.prems(1)] by blast
next
  case (finish j s)
  then show ?case using pending_finish [OF finish.prems(1) finish.hyps] by blast
next
  case (stop s)
  then show ?case by (simp add: pending_keys_def tl_ShutDown_def Let_def)
qed

lemma run_pending:
  "work_run s es s' \<Longrightarrow> work_inv s \<Longrightarrow> k \<in> pending_keys s \<Longrightarrow> Take k \<notin> set es \<Longrightarrow> k \<in> pending_keys s'"
proof (induction rule: work_run.induct)
  case (more s e s1 es s2)
  then have "k \<in> pending_keys s1" using step_pending [of s e s1 k] by auto
  then show ?case using more work_step_inv by auto
qed

subsection \<open>The way ends at a worker\<close>

text \<open>When the goroutines of the queue have nothing to do and nothing can be taken, what waits is in hand.\<close>

lemma stuck_lane:
  assumes "lane_ok p q" and "process_step (p, q) = None" and "\<And>i. p \<noteq> Sending i"
  shows "on_way p = {}" and "wq_dirty q = {}"
proof (atomize (full), cases p)
  case Getting
  obtain g q1 where g: "wq_Get q = (g, q1)" by (cases "wq_Get q")
  then have "g = Waits" using assms(2) Getting by (cases g) simp_all
  then show "on_way p = {} \<and> wq_dirty q = {}"
    using wq.idle_empty [of q q1] assms(1) g Getting by (simp add: lane_ok_def)
qed (use assms in \<open>simp_all add: lane_ok_def\<close>)

lemma stuck_pending:
  assumes "work_inv s" and "\<And>s'. \<not> work_step s Internal s'" and "\<And>k s'. \<not> work_step s (Take k) s'"
  shows "pending_keys s \<subseteq> set (ws_workers s)"
proof -
  let ?t = "ws_queue s" and ?c = "tl_consumerQueue (ws_queue s)"
  have l: "lane_ok (tl_fastChan ?t) (tl_fastLane ?t)" "lane_ok (tl_slowChan ?t) (tl_slowLane ?t)" and ok: "wq_ok ?c"
    and b: "wq_processing ?c = set (ws_workers s)"
    and fl: "tl_fast ?t \<or> tl_fastChan ?t = Closed" "tl_slow ?t \<or> tl_slowChan ?t = Closed"
    using assms(1) by (simp_all add: work_inv_def lanes_ok_def)
  have p: "process_step (tl_fastChan ?t, tl_fastLane ?t) = None" "process_step (tl_slowChan ?t, tl_slowLane ?t) = None"
    using assms(2) work_step.fast_lane [of s] work_step.slow_lane [of s] by (metis old.prod.exhaust option.exhaust)+
  have c: "\<not> consumer_step ?t t'" for t' using assms(2) work_step.consume [of s t'] by blast
  have "tl_fastChan ?t \<noteq> Sending i" "tl_slowChan ?t \<noteq> Sending i" for i
    using c consumer_step.from_fast [of ?t i] consumer_step.from_slow [of ?t i] fl by auto
  note n = stuck_lane [OF l(1) p(1) this(1)] stuck_lane [OF l(2) p(2) this(2)]
  obtain g q where g: "wq_Get ?c = (g, q)" by (cases "wq_Get ?c")
  have "g \<noteq> Got k" for k using assms(3) [of k] work_step.take [of s k "?t\<lparr>tl_consumerQueue := q\<rparr>"] g by (auto simp: tl_Get_def)
  then have "g = Waits \<or> g = Ended" by (cases g) blast+
  then have "wq_dirty ?c \<subseteq> set (ws_workers s)" using wq.empty [OF ok, of q] g b by auto
  with n show ?thesis by (simp add: pending_keys_def Let_def)
qed

text \<open>What is left to do before that: each of those steps takes from it.\<close>

fun hand_work :: "'k producer \<Rightarrow> nat" where
  "hand_work Getting = 1"
| "hand_work (Doing k) = 4"
| "hand_work (Sending k) = 3"
| "hand_work Closed = 0"

definition work_left :: "'k work_state \<Rightarrow> nat" where
  "work_left s =
     (let t = ws_queue s
      in 4 * card (wq_dirty (tl_fastLane t)) + hand_work (tl_fastChan t)
         + (4 * card (wq_dirty (tl_slowLane t)) + hand_work (tl_slowChan t)) + card (wq_dirty (tl_consumerQueue t))
         + of_bool (tl_fast t) + of_bool (tl_slow t) + of_bool (\<not> wq_shuttingDown (tl_consumerQueue t)))"

lemma lane_work:
  assumes "lane_ok p q" and "process_step (p, q) = Some (p', q')"
  shows "4 * card (wq_dirty q') + hand_work p' < 4 * card (wq_dirty q) + hand_work p"
proof (cases p)
  case Getting
  obtain g q1 where g: "wq_Get q = (g, q1)" by (cases "wq_Get q")
  have ok: "wq_ok q" using assms(1) by (simp add: lane_ok_def)
  show ?thesis
  proof (cases g)
    case (Got i)
    have "card (wq_dirty q) = Suc (card (wq_dirty q1))" by (rule wq.card_got [OF ok]) (use g Got in simp)
    then show ?thesis using assms(2) Getting g Got by auto
  next
    case Ended
    then have "q1 = q" using wq.empty [OF ok, of q1] g by simp
    then show ?thesis using assms(2) Getting g Ended by auto
  qed (use assms(2) Getting g in simp)
next
  case (Doing i)
  then have "wq_dirty q' = wq_dirty q" "p' = Sending i" using wq.finished [of q i] assms by (auto simp: lane_ok_def)
  then show ?thesis using Doing by simp
qed (use assms(2) in simp_all)

lemma consumer_work:
  assumes "lanes_ok (ws_queue s)" and "consumer_step (ws_queue s) t"
  shows "work_left (s\<lparr>ws_queue := t\<rparr>) < work_left s"
proof -
  have "wq_ok (tl_consumerQueue (ws_queue s))" using assms(1) by (simp add: lanes_ok_def)
  note c = wq.card_added [OF this] wq.added [OF this]
  from assms(2) show ?thesis
  proof (cases rule: consumer_step.cases)
    case (from_fast item)
    then show ?thesis using c [of item] by (simp add: work_left_def Let_def)
  next
    case (from_slow item)
    then show ?thesis using c [of item] by (simp add: work_left_def Let_def)
  qed (simp_all add: work_left_def Let_def)
qed

definition forward :: "'k work_event \<Rightarrow> bool" where
  "forward e \<longleftrightarrow> (e = Internal \<or> (\<exists>k. e = Take k))"

lemma forward_work:
  assumes "work_step s e s'" and "work_inv s" and "forward e"
  shows "work_left s' < work_left s"
  using assms
proof (induction rule: work_step.induct)
  case (fast_lane s p q)
  then have "4 * card (wq_dirty q) + hand_work p
      < 4 * card (wq_dirty (tl_fastLane (ws_queue s))) + hand_work (tl_fastChan (ws_queue s))"
    by (intro lane_work) (simp_all add: work_inv_def lanes_ok_def)
  then show ?case by (simp add: work_left_def Let_def)
next
  case (slow_lane s p q)
  then have "4 * card (wq_dirty q) + hand_work p
      < 4 * card (wq_dirty (tl_slowLane (ws_queue s))) + hand_work (tl_slowChan (ws_queue s))"
    by (intro lane_work) (simp_all add: work_inv_def lanes_ok_def)
  then show ?case by (simp add: work_left_def Let_def)
next
  case (consume s t)
  then show ?case by (intro consumer_work) (simp_all add: work_inv_def)
next
  case (take s k t)
  then obtain q where q: "wq_Get (tl_consumerQueue (ws_queue s)) = (Got k, q)" "t = (ws_queue s)\<lparr>tl_consumerQueue := q\<rparr>"
    by (auto simp: tl_Get_def split: prod.splits)
  have ok: "wq_ok (tl_consumerQueue (ws_queue s))" using take.prems(1) by (simp add: work_inv_def lanes_ok_def)
  show ?case using wq.card_got [OF ok q(1)] wq.got [OF ok q(1)] q(2) by (simp add: work_left_def Let_def)
qed (simp_all add: forward_def)

text \<open>Each event from outside adds at most one key, which is at most four steps of the queue.\<close>

lemma outside_work:
  assumes "work_step s e s'" and "work_inv s"
  shows "work_left s' \<le> work_left s + 4"
proof -
  have a: "work_left (s\<lparr>ws_queue := tl_Add k (ws_queue s)\<rparr>) \<le> work_left s + 4"
    "work_left (s\<lparr>ws_queue := tl_AddSlow k (ws_queue s)\<rparr>) \<le> work_left s + 4" if "work_inv s" for k and s :: "'a work_state"
  proof -
    have "wq_ok (tl_fastLane (ws_queue s))" "wq_ok (tl_slowLane (ws_queue s))"
      using that by (simp_all add: work_inv_def lanes_ok_def lane_ok_def)
    from wq.card_added [OF this(1), of k] wq.card_added [OF this(2), of k]
    show "work_left (s\<lparr>ws_queue := tl_Add k (ws_queue s)\<rparr>) \<le> work_left s + 4"
      "work_left (s\<lparr>ws_queue := tl_AddSlow k (ws_queue s)\<rparr>) \<le> work_left s + 4"
      by (simp_all add: work_left_def tl_Add_def tl_AddSlow_def Let_def)
  qed
  have w: "work_left (s\<lparr>ws_queue := t, ws_waiting := x\<rparr>) = work_left (s\<lparr>ws_queue := t\<rparr>)"
    "work_left (s\<lparr>ws_waiting := x\<rparr>) = work_left s" for t x
    by (simp_all add: work_left_def)
  have d: "work_left (delaying_AddAfter k x s) \<le> work_left s + 4" for k x
    using a(1) [OF assms(2), of k] w(2) by (simp add: delaying_AddAfter_def)
  show ?thesis
  proof (cases "forward e")
    case True
    then show ?thesis using forward_work [OF assms] by simp
  next
    case False
    from assms(1) show ?thesis
    proof (cases rule: work_step.cases)
      case (enqueue k)
      then show ?thesis using a(1) [OF assms(2)] by simp
    next
      case (enqueue_slow k)
      then show ?thesis using a(2) [OF assms(2)] by simp
    next
      case (due k)
      then show ?thesis using a(1) [OF assms(2), of k] w(1) by simp
    next
      case (handle k err b)
      then show ?thesis
        using d by (cases "processNextWorkItem (tl_ShuttingDown (ws_queue s)) err") (simp_all add: handle_result_def)
    next
      case (finish k)
      have "wq_ok (tl_consumerQueue (ws_queue s))" "k \<in> wq_processing (tl_consumerQueue (ws_queue s))"
        using assms(2) finish(3) by (simp_all add: work_inv_def lanes_ok_def)
      note f = wq.finished [OF this]
      show ?thesis using f by (simp add: finish(2) finish_item_def work_left_def tl_Done_def Let_def)
    next
      case stop
      then show ?thesis by (simp add: work_left_def tl_ShutDown_def Let_def)
    qed (use False in \<open>simp_all add: forward_def\<close>)
  qed
qed

lemma run_work:
  "work_run s es s' \<Longrightarrow> work_inv s
    \<Longrightarrow> length (filter forward es) + work_left s' \<le> work_left s + 4 * length (filter (\<lambda>e. \<not> forward e) es)"
proof (induction rule: work_run.induct)
  case (more s e s1 es s2)
  then show ?case
    using forward_work [of s e s1] outside_work [of s e s1] work_step_inv [of s e s1] by (cases "forward e") auto
qed simp

text \<open>A worker has a key because it took it, and until it finishes it.\<close>

lemma step_worker:
  assumes "work_step s e s'" and "work_inv s" and "k \<in> set (ws_workers s')" and "e \<noteq> Take k"
  shows "k \<in> set (ws_workers s) \<and> e \<noteq> Finish k"
  using assms(1)
proof (cases rule: work_step.cases)
  case (handle j err b)
  then show ?thesis using assms(3) inv_handle(2) [OF assms(2)] by simp
next
  case (finish j)
  have "distinct (ws_workers s)" using assms(2) by (simp add: work_inv_def)
  then show ?thesis using assms(3) finish(1) by (auto simp: finish(2) finish_item_def)
qed (use assms(3,4) in auto)

lemma run_worker:
  "work_run s es s' \<Longrightarrow> work_inv s \<Longrightarrow> k \<in> set (ws_workers s') \<Longrightarrow> Take k \<notin> set es
    \<Longrightarrow> k \<in> set (ws_workers s) \<and> Finish k \<notin> set es"
proof (induction rule: work_run.induct)
  case (more s e s1 es s2)
  then show ?case using step_worker [of s e s1 k] work_step_inv [of s e s1] by auto
qed simp

text \<open>
  A key that the queue is told to schedule again after its reconciliation is not forgotten, and remains
  so until a worker takes it.
\<close>

lemma handle_keeps:
  assumes "work_inv s" and "\<not> tl_ShuttingDown (ws_queue s)" and "processNextWorkItem False err \<noteq> Forget"
  shows "key \<in> ws_waiting (handle_result err b key s) \<union> pending_keys (handle_result err b key s)"
proof -
  have l: "lanes_ok (ws_queue s)" using assms(1) by (simp add: work_inv_def)
  have "key \<in> ws_waiting (delaying_AddAfter key x s) \<union> pending_keys (delaying_AddAfter key x s)" for x
    using pending_Add(3) [OF l assms(2), of key] assms(2) by (simp add: delaying_AddAfter_def)
  then show ?thesis
    using assms(2,3) by (cases "processNextWorkItem False err") (simp_all add: handle_result_def)
qed

lemma step_scheduled:
  assumes "work_step s e s'" and "work_inv s" and "k \<in> ws_waiting s \<union> pending_keys s" and "e \<noteq> Take k"
  shows "k \<in> ws_waiting s' \<union> pending_keys s'"
proof (cases "k \<in> pending_keys s")
  case True
  then show ?thesis using step_pending [OF assms(1,2) _ assms(4)] by blast
next
  case False
  then have w: "k \<in> ws_waiting s" using assms(3) by blast
  have h: "ws_waiting s \<subseteq> ws_waiting (handle_result err b j s)" for err b j
    by (cases "processNextWorkItem (tl_ShuttingDown (ws_queue s)) err") (auto simp: handle_result_def delaying_AddAfter_def)
  from assms(1) show ?thesis
  proof (cases rule: work_step.cases)
    case (due j)
    have "lanes_ok (ws_queue s)" using assms(2) by (simp add: work_inv_def)
    then have "j \<in> pending_keys (s\<lparr>ws_queue := tl_Add j (ws_queue s)\<rparr>)" by (rule pending_Add(3) [OF _ due(4)])
    then have "j \<in> pending_keys s'" by (simp add: due(2) pending_keys_def)
    then show ?thesis using w by (cases "j = k") (simp_all add: due(2))
  next
    case (handle j err b)
    then show ?thesis using w h by blast
  qed (use w in \<open>simp_all add: finish_item_def\<close>)
qed

lemma run_scheduled:
  "work_run s es s' \<Longrightarrow> work_inv s \<Longrightarrow> k \<in> ws_waiting s \<union> pending_keys s \<Longrightarrow> Take k \<notin> set es
    \<Longrightarrow> k \<in> ws_waiting s' \<union> pending_keys s'"
proof (induction rule: work_run.induct)
  case (more s e s1 es s2)
  then have "k \<in> ws_waiting s1 \<union> pending_keys s1" by (intro step_scheduled [of s e s1]) auto
  then show ?case using more work_step_inv by auto
qed

end
