(* ===== verification/Work_Properties.thy ===== *)
theory Work_Properties
  imports Work_Facts Sync_Properties
begin

text \<open>
  Properties of the work queue, alone and with the reconciliations its workers do.
\<close>

text \<open>
  C17. A key is never reconciled by two workers at once, in whatever order the goroutines of the queue,
  the event handlers, the timers and the workers take their steps. The histories of single keys
  elsewhere in this library rest on this.
\<close>

theorem one_worker_per_key:
  assumes "work_reachable s"
  shows "distinct (ws_workers s)"
  using reachable_work_inv [OF assms] by (simp add: work_inv_def)

text \<open>One key on its way through the queue.\<close>

definition one_key :: "'k \<Rightarrow> 'k typed_queue" where
  "one_key k = \<lparr>wq_queue = [k], wq_dirty = {k}, wq_processing = {}, wq_shuttingDown = False\<rparr>"

definition key_in_hand :: "'k \<Rightarrow> 'k typed_queue" where
  "key_in_hand k = \<lparr>wq_queue = [], wq_dirty = {}, wq_processing = {k}, wq_shuttingDown = False\<rparr>"

definition work_at :: "'k typed_queue \<Rightarrow> 'k producer \<Rightarrow> 'k typed_queue \<Rightarrow> 'k list \<Rightarrow> 'k work_state" where
  "work_at l p c ks =
     \<lparr>ws_queue = newTwoLaneWorkQueue\<lparr>tl_fastLane := l, tl_fastChan := p, tl_consumerQueue := c\<rparr>, ws_waiting = {},
      ws_workers = ks\<rparr>"

lemmas work_at_defs = work_at_def newTwoLaneWorkQueue_def newQueue_def one_key_def key_in_hand_def

lemma queue_samples:
  "wq_Add k newQueue = one_key k" "wq_Get (one_key k) = (Got k, key_in_hand k)" "wq_Done k (key_in_hand k) = newQueue"
  "wq_Get newQueue = (Waits, newQueue)" "wq_Get (key_in_hand k) = (Waits, key_in_hand k)"
  by (simp_all add: wq_Add_def wq_Get_def wq_Done_def newQueue_def one_key_def key_in_hand_def)

lemma key_steps:
  "work_step idle_work (Enqueue k) (work_at (one_key k) Getting newQueue [])"
  "work_step (work_at (one_key k) Getting newQueue []) Internal (work_at (key_in_hand k) (Doing k) newQueue [])"
  "work_step (work_at (key_in_hand k) (Doing k) newQueue []) Internal (work_at newQueue (Sending k) newQueue [])"
  "work_step (work_at newQueue (Sending k) newQueue []) Internal (work_at newQueue Getting (one_key k) [])"
  "work_step (work_at newQueue Getting (one_key k) []) (Take k) (work_at newQueue Getting (key_in_hand k) [k])"
proof -
  show "work_step idle_work (Enqueue k) (work_at (one_key k) Getting newQueue [])"
    using work_step.enqueue [of idle_work k]
    by (simp add: idle_work_def work_at_def tl_Add_def newTwoLaneWorkQueue_def queue_samples)
  show "work_step (work_at (one_key k) Getting newQueue []) Internal (work_at (key_in_hand k) (Doing k) newQueue [])"
    using work_step.fast_lane [of "work_at (one_key k) Getting newQueue []" "Doing k" "key_in_hand k"]
    by (simp add: work_at_def newTwoLaneWorkQueue_def queue_samples)
  show "work_step (work_at (key_in_hand k) (Doing k) newQueue []) Internal (work_at newQueue (Sending k) newQueue [])"
    using work_step.fast_lane [of "work_at (key_in_hand k) (Doing k) newQueue []" "Sending k" newQueue]
    by (simp add: work_at_def newTwoLaneWorkQueue_def queue_samples)
  show "work_step (work_at newQueue (Sending k) newQueue []) Internal (work_at newQueue Getting (one_key k) [])"
    using work_step.consume [OF consumer_step.from_fast, of "work_at newQueue (Sending k) newQueue []" k]
    by (simp add: work_at_def newTwoLaneWorkQueue_def queue_samples)
  show "work_step (work_at newQueue Getting (one_key k) []) (Take k) (work_at newQueue Getting (key_in_hand k) [k])"
    using work_step.take [of "work_at newQueue Getting (one_key k) []" k
        "newTwoLaneWorkQueue\<lparr>tl_fastLane := newQueue, tl_fastChan := Getting, tl_consumerQueue := key_in_hand k\<rparr>"]
    by (simp add: work_at_def newTwoLaneWorkQueue_def queue_samples tl_Get_def)
qed

lemma key_runs:
  "work_run idle_work [Enqueue k] (work_at (one_key k) Getting newQueue [])"
  "work_run (work_at (one_key k) Getting newQueue []) [Internal, Internal, Internal, Take k] (work_at newQueue Getting (key_in_hand k) [k])"
  "work_reachable (work_at newQueue Getting (key_in_hand k) [k])"
proof -
  show "work_run idle_work [Enqueue k] (work_at (one_key k) Getting newQueue [])"
    by (rule work_run.more [OF key_steps(1) work_run.none])
  show r: "work_run (work_at (one_key k) Getting newQueue []) [Internal, Internal, Internal, Take k]
      (work_at newQueue Getting (key_in_hand k) [k])"
    by (rule work_run.more [OF key_steps(2) work_run.more [OF key_steps(3) work_run.more [OF key_steps(4)
          work_run.more [OF key_steps(5) work_run.none]]]])
  show "work_reachable (work_at newQueue Getting (key_in_hand k) [k])"
    unfolding work_reachable_def using work_run.more [OF key_steps(1) r] by blast
qed

lemma in_hand_quiet:
  "\<not> work_step (work_at newQueue Getting (key_in_hand k) [k]) Internal s'"
  "\<not> work_step (work_at newQueue Getting (key_in_hand k) [k]) (Take j) s'"
  by (auto elim!: work_step.cases consumer_step.cases
      simp: work_at_def newTwoLaneWorkQueue_def queue_samples tl_Get_def)

theorem one_worker_per_key_witness:
  "work_reachable (work_at newQueue Getting (key_in_hand ''k'') [''k''])
    \<and> distinct (ws_workers (work_at newQueue Getting (key_in_hand ''k'') [''k'']))"
  using key_runs(3) [of "''k''"] one_worker_per_key [OF key_runs(3) [of "''k''"]] by blast

text \<open>
  C18. No wake-up is lost: a key that is queued by an event, whether or not a worker has the key at that
  moment and whatever else happens afterwards, is given to a worker before the queue comes to rest, unless
  the worker that had it when it was queued still has it. And the queue does come to rest: the steps that
  its own goroutines and the workers' takes can make are no more than \<open>work_left\<close>, which is known
  beforehand, and four for every other event.
\<close>

theorem queued_key_served:
  assumes "work_reachable s" and "\<not> tl_ShuttingDown (ws_queue s)" and "work_step s (Enqueue k) s1"
    and "work_run s1 es s2"
    and "\<And>s'. \<not> work_step s2 Internal s'" and "\<And>j s'. \<not> work_step s2 (Take j) s'"
  shows "(Take k \<in> set es \<or> k \<in> set (ws_workers s) \<and> Finish k \<notin> set es)
    \<and> length (filter forward es) \<le> work_left s1 + 4 * length (filter (\<lambda>e. \<not> forward e) es)"
proof -
  have s1: "s1 = s\<lparr>ws_queue := tl_Add k (ws_queue s)\<rparr>" using assms(3) by (cases rule: work_step.cases) simp_all
  have i: "work_inv s" by (rule reachable_work_inv [OF assms(1)])
  then have i1: "work_inv s1" by (rule work_step_inv [OF assms(3)])
  have p: "k \<in> pending_keys s1" using pending_Add(3) [of s k] i assms(2) by (simp add: s1 work_inv_def)
  have "k \<in> set (ws_workers s) \<and> Finish k \<notin> set es" if n: "Take k \<notin> set es"
  proof -
    have "k \<in> set (ws_workers s2)"
      using run_pending [OF assms(4) i1 p n] stuck_pending [OF run_work_inv [OF assms(4) i1] assms(5,6)] by blast
    then show ?thesis using run_worker [OF assms(4) i1 _ n] by (simp add: s1)
  qed
  then show ?thesis using run_work [OF assms(4) i1] by auto
qed

text \<open>A key is queued again while a worker has it; it goes all the way, and waits for the worker to finish.\<close>

definition key_again :: "'k \<Rightarrow> 'k typed_queue" where
  "key_again k = \<lparr>wq_queue = [], wq_dirty = {k}, wq_processing = {k}, wq_shuttingDown = False\<rparr>"

definition again_events :: "'k \<Rightarrow> 'k work_event list" where
  "again_events k = [Internal, Internal, Internal, Finish k, Take k]"

lemma again_steps:
  "work_step (work_at newQueue Getting (key_in_hand k) [k]) (Enqueue k) (work_at (one_key k) Getting (key_in_hand k) [k])"
  "work_run (work_at (one_key k) Getting (key_in_hand k) [k]) (again_events k) (work_at newQueue Getting (key_in_hand k) [k])"
proof -
  have again: "wq_Add k (key_in_hand k) = key_again k" "wq_Done k (key_again k) = one_key k"
    by (simp_all add: wq_Add_def wq_Done_def key_in_hand_def key_again_def one_key_def)
  show "work_step (work_at newQueue Getting (key_in_hand k) [k]) (Enqueue k) (work_at (one_key k) Getting (key_in_hand k) [k])"
    using work_step.enqueue [of "work_at newQueue Getting (key_in_hand k) [k]" k]
    by (simp add: work_at_def tl_Add_def newTwoLaneWorkQueue_def queue_samples)
  have 1: "work_step (work_at (one_key k) Getting (key_in_hand k) [k]) Internal
      (work_at (key_in_hand k) (Doing k) (key_in_hand k) [k])"
    using work_step.fast_lane [of "work_at (one_key k) Getting (key_in_hand k) [k]" "Doing k" "key_in_hand k"]
    by (simp add: work_at_def newTwoLaneWorkQueue_def queue_samples)
  have 2: "work_step (work_at (key_in_hand k) (Doing k) (key_in_hand k) [k]) Internal
      (work_at newQueue (Sending k) (key_in_hand k) [k])"
    using work_step.fast_lane [of "work_at (key_in_hand k) (Doing k) (key_in_hand k) [k]" "Sending k" newQueue]
    by (simp add: work_at_def newTwoLaneWorkQueue_def queue_samples)
  have 3: "work_step (work_at newQueue (Sending k) (key_in_hand k) [k]) Internal (work_at newQueue Getting (key_again k) [k])"
    using work_step.consume [OF consumer_step.from_fast, of "work_at newQueue (Sending k) (key_in_hand k) [k]" k]
    by (simp add: work_at_def newTwoLaneWorkQueue_def again)
  have 4: "work_step (work_at newQueue Getting (key_again k) [k]) (Finish k) (work_at newQueue Getting (one_key k) [])"
    using work_step.finish [of k "work_at newQueue Getting (key_again k) [k]"]
    by (simp add: work_at_def newTwoLaneWorkQueue_def finish_item_def tl_Done_def again)
  show "work_run (work_at (one_key k) Getting (key_in_hand k) [k]) (again_events k) (work_at newQueue Getting (key_in_hand k) [k])"
    unfolding again_events_def
    by (rule work_run.more [OF 1 work_run.more [OF 2 work_run.more [OF 3 work_run.more [OF 4 work_run.more [OF key_steps(5)
          work_run.none]]]]])
qed

theorem queued_key_served_witness:
  "work_run (work_at (one_key ''k'') Getting (key_in_hand ''k'') [''k'']) (again_events ''k'')
      (work_at newQueue Getting (key_in_hand ''k'') [''k''])
    \<and> Take ''k'' \<in> set (again_events ''k'')
    \<and> length (filter forward (again_events ''k''))
        \<le> work_left (work_at (one_key ''k'') Getting (key_in_hand ''k'') [''k''])
          + 4 * length (filter (\<lambda>e. \<not> forward e) (again_events ''k''))"
proof -
  have o: "\<not> tl_ShuttingDown (ws_queue (work_at newQueue Getting (key_in_hand ''k'') [''k'']))"
    by (simp add: work_at_def newTwoLaneWorkQueue_def tl_ShuttingDown_def)
  have "Finish ''k'' \<in> set (again_events ''k'')" by (simp add: again_events_def)
  then show ?thesis
    using queued_key_served [OF key_runs(3) o again_steps in_hand_quiet] again_steps(2) [of "''k''"] by blast
qed

text \<open>The errors of an API for which the queue tries again.\<close>

definition answers_retried :: "'s run_client \<Rightarrow> bool" where
  "answers_retried rc \<longleftrightarrow> (\<forall>ns n s e s'. rc_Get rc ns n s = (Inl e, s') \<longrightarrow> retried e)
     \<and> (\<forall>ns r s e s'. rc_UpdateStatus rc ns r s = (Inl e, s') \<longrightarrow> retried e)"

lemma OnError_retried:
  assumes "OnError steps again f n lst s = (Some e, s')" and "\<And>x. lst = Some x \<Longrightarrow> retried x"
    and "\<And>n s e s'. f n s = (Some e, s') \<Longrightarrow> retried e"
  shows "retried e"
  using assms(1,2)
proof (induction steps arbitrary: n lst s)
  case (Suc steps)
  obtain r s1 where f: "f n s = (r, s1)" by (cases "f n s")
  show ?case
  proof (cases r)
    case (Some x)
    then have "retried x" using f assms(3) by blast
    then show ?thesis using Suc.IH [of "Suc n" "Some x" s1] Suc.prems(1) f Some by (auto split: if_splits)
  qed (use Suc.prems(1) f in simp)
qed simp

lemma updateStatus_retried:
  assumes "answers_retried rc" and "updateStatus rc old new s = (Some e, s')"
  shows "retried e"
proof -
  have g: "rc_Get rc ns n s = (Inl e, s') \<Longrightarrow> retried e" and u: "rc_UpdateStatus rc ns r s = (Inl e, s') \<Longrightarrow> retried e"
    for ns n r s e s' using assms(1) unfolding answers_retried_def by metis+
  have "update_attempt rc old new n s = (Some e, s') \<Longrightarrow> retried e" for n s e s'
    by (auto simp: update_attempt_def split: prod.splits sum.splits if_splits dest: g u)
  then show ?thesis
    using OnError_retried [of DefaultRetry_Steps IsConflict "update_attempt rc old new" 0 None s e s'] assms(2)
    by (simp add: updateStatus_def RetryUpdateConflicts_def)
qed

text \<open>
  C16. No undecided run is dropped: when a worker reconciles the key of a ready run and the reconciliation
  does not fail the run, then, whatever the API answered, from the moment the worker has handled the
  result the key waits for its time or is queued, in whatever order the goroutines go on, until a
  worker takes it again.
\<close>

theorem unfailed_run_comes_back:
  assumes "work_reachable s" and "\<not> tl_ShuttingDown (ws_queue s)"
    and "in_charge se r" and "key = object_key (cr_Meta (ro_Run r))" and "ready env (ro_Run r)" and "answers_retried rc"
    and "ReconcileKind env cl (ro_Run (PreProcessReconcile (se_now_pre se) r)) w = (err, run', w1)" and "\<not> IsFailure run'"
    and "Reconcile_key se env cl rc (safeKey key) w = (res, w')"
    and "work_run (handle_result res backoff key s) es s2" and "Take key \<notin> set es"
  shows "key \<in> ws_waiting s2 \<union> pending_keys s2"
proof -
  have rd: "ready env (ro_Run (PreProcessReconcile (se_now_pre se) r))" by (rule PreProcess_ready [OF disjI1 [OF assms(5)]])
  obtain x where x: "err = Some (multierror_Append None [Some x])" "retried x"
    using ReconcileKind_live [OF rd assms(7,8)] by blast
  let ?new = "PostProcessReconcile (se_now_post se) ((PreProcessReconcile (se_now_pre se) r)\<lparr>ro_Run := run'\<rparr>) r"
  have "reconcile_run_object se env cl r w = (err, ?new, w1)"
    using assms(3,7) by (simp add: reconcile_run_object_def in_charge_def Let_def)
  then have "res = err \<or> (\<exists>e s'. updateStatus rc r ?new (w_api w1) = (Some e, s') \<and> res = Some e)"
    using assms(3,9) in_charge_key [OF assms(3)] unfolding assms(4)
    by (auto simp: Reconcile_key_def in_charge_def split: if_splits prod.splits option.splits)
  then obtain e where "res = Some e" "retried e"
    using x flatten_retried [OF x(2)] updateStatus_retried [OF assms(6)] by blast
  then have "processNextWorkItem False res \<noteq> Forget" by (simp add: processNextWorkItem_def retried_not_forgotten)
  from handle_keeps [OF reachable_work_inv [OF assms(1)] assms(2) this, where key = key and b = backoff]
  show ?thesis by (rule run_scheduled [OF assms(10) inv_handle(1) [OF reachable_work_inv [OF assms(1)]] _ assms(11)])
qed

lemma fake_runs_retried: "answers_retried fake_runs"
  by (auto simp: answers_retried_def cluster_defs Let_def split: option.splits if_splits)

lemma half_task0_undecided: "found_state half_task0 \<noteq> approvedState" "found_state half_task0 \<noteq> rejectedState"
  by (simp_all add: found_state_def verdict_defs half_task0_def sample_defs)

definition key_now :: namespaced_name where
  "key_now = object_key (cr_Meta (ro_Run robj0))"

definition held :: "namespaced_name work_state" where
  "held = work_at newQueue Getting (key_in_hand key_now) [key_now]"

theorem unfailed_run_comes_back_witness:
  "\<exists>res w'. Reconcile_key se0 env0 fake_tasks fake_runs (safeKey key_now) (cluster0 half_task0) = (res, w')
     \<and> work_run (handle_result res 5 key_now held) [Finish key_now] (finish_item key_now (handle_result res 5 key_now held))
     \<and> key_now \<in> ws_waiting (finish_item key_now (handle_result res 5 key_now held))
         \<union> pending_keys (finish_item key_now (handle_result res 5 key_now held))"
proof -
  let ?r = "ro_Run (PreProcessReconcile (se_now_pre se0) robj0)"
  have rd0: "ready env0 (ro_Run robj0)" by (simp add: ready_run0)
  have rd: "ready env0 ?r" by (rule PreProcess_ready [OF disjI1 [OF rd0]])
  have m: "cr_Meta ?r = cr_Meta (ro_Run robj0)" and kd: "keyed ?r half_task0"
    using PreProcess_request(1) half_task0_ready(1) by (simp_all add: same_request_def keyed_def)
  have it: "in_time env0 ?r half_task0" using half_task0_ready(2) unfolding in_time_PreProcess by simp
  obtain w1 where k: "ReconcileKind env0 fake_tasks ?r (cluster0 half_task0) =
      (Some (MultiErr [RequeueErr (delay_of env0 ?r half_task0)]), next_run env0 ?r half_task0, w1)"
    using fakes.kind_stored [OF rd _ kd it] cluster0_lookup(2) [of half_task0] unfolding m by metis
  have "run_status (ro_Run robj0) \<noteq> ConditionFalse"
    using rd0 by (simp add: ready_def run_status_iff)
  moreover have "run_status ?r = ConditionUnknown"
    using PreProcess_status [of robj0] rd0 by (simp add: ready_def robj0_def)
  ultimately have nf: "\<not> IsFailure (next_run env0 ?r half_task0)"
    using next_run_status(3) [OF rd, of half_task0] half_task0_undecided by (simp add: run_status_iff)
  obtain res w' where q: "Reconcile_key se0 env0 fake_tasks fake_runs (safeKey key_now) (cluster0 half_task0) = (res, w')"
    by (cases "Reconcile_key se0 env0 fake_tasks fake_runs (safeKey key_now) (cluster0 half_task0)") auto
  have s: "work_reachable held" "\<not> tl_ShuttingDown (ws_queue held)" "key_now \<in> set (ws_workers held)"
    using key_runs(3) [of key_now] by (simp_all add: held_def work_at_defs tl_ShuttingDown_def)
  have f: "work_run (handle_result res 5 key_now held) [Finish key_now] (finish_item key_now (handle_result res 5 key_now held))"
    by (rule work_run.more [OF work_step.finish work_run.none])
      (simp add: inv_handle(2) [OF reachable_work_inv [OF s(1)]] s(3))
  have "Take key_now \<notin> set [Finish key_now]" by simp
  from unfailed_run_comes_back [OF s(1,2) in_charge0 key_now_def rd0 fake_runs_retried k nf q f this]
  show ?thesis using q f by blast
qed

end
