(* ===== verification/Api_Server.thy ===== *)
theory Api_Server
  imports Gate_Flow Client_Agreement
begin

text \<open>
  The API server as its users meet it: the store of tasks and runs behind the validating webhook. A user
  who creates or updates an ApprovalTask is answered by \<open>Admit\<close> first; reads are not admitted, and neither
  are writes of the subresource \<open>status\<close>, which the rules of \<open>reconcileValidatingWebhook\<close> do not name.
  The custom resource definition (\<open>config/kubernetes/300-taskgroup.yaml\<close>) makes the status a subresource:
  a creation and an update leave it alone, and a write of it leaves the rest alone.
\<close>

subsection \<open>Asking the webhook\<close>

definition review ::
  "(approval_task \<Rightarrow> string) \<Rightarrow> string \<Rightarrow> user_info \<Rightarrow> approval_task option \<Rightarrow> approval_task \<Rightarrow> admission_request" where
  "review encode op user old new =
     \<lparr>rq_Operation = op, rq_Object = encode new, rq_OldObject = (case old of None \<Rightarrow> [] | Some t \<Rightarrow> encode t),
      rq_UserInfo = user\<rparr>"

text \<open>A webhook that panics does not answer, which its \<open>failurePolicy\<close> makes a refusal.\<close>

definition admitted :: "(string \<Rightarrow> string + approval_task) \<Rightarrow> admission_request \<Rightarrow> bool" where
  "admitted decode rq \<longleftrightarrow> (case Admit decode rq of Panic \<Rightarrow> False | Ret r \<Rightarrow> resp_Allowed r)"

lemma admitted_iff: "admitted decode rq \<longleftrightarrow> (\<exists>r. Admit decode rq = Ret r \<and> resp_Allowed r)"
  by (simp add: admitted_def split: outcome.split)

definition codec :: "(approval_task \<Rightarrow> string) \<Rightarrow> (string \<Rightarrow> string + approval_task) \<Rightarrow> bool" where
  "codec encode decode \<longleftrightarrow> (\<forall>t. encode t \<noteq> [] \<and> decode (encode t) = Inr t)"

lemma decodeObject_encoded: "codec encode decode \<Longrightarrow> decodeObject decode (encode t) = Inr t"
  by (simp add: codec_def decodeObject_def)

lemma admitted_create:
  assumes "codec encode decode"
  shows "admitted decode (review encode ''CREATE'' u None t) \<longleftrightarrow> spec_ok (at_Spec t) \<and> all_pending (sp_Approvers (at_Spec t))"
  unfolding admitted_iff using Admit_create_iff [of "review encode ''CREATE'' u None t" decode]
  by (simp add: review_def decodeObject_encoded [OF assms])

lemma admitted_update:
  assumes "codec encode decode"
  shows "admitted decode (review encode ''UPDATE'' u (Some old) new) \<longleftrightarrow> admits old new u"
  unfolding admitted_iff using Admit_update_iff [of "review encode ''UPDATE'' u (Some old) new" decode]
  by (simp add: review_def decodeObject_encoded [OF assms])

subsection \<open>The interface\<close>

text \<open>
  \<open>cl\<close> is the store, \<open>as_user u\<close> the API as the user \<open>u\<close> meets it. A refused request is answered with an
  error and changes nothing.
\<close>

locale guarded_api = cluster cl lookup stamp rc runs
  for cl :: "'s at_client" and lookup stamp and rc :: "'s run_client" and runs +
  fixes as_user :: "user_info \<Rightarrow> 's at_client"
    and encode :: "approval_task \<Rightarrow> string" and decode :: "string \<Rightarrow> string + approval_task"
  assumes encoded: "codec encode decode"
    and guarded_Get: "cl_Get (as_user u) = cl_Get cl"
    and guarded_Create: "admitted decode (review encode ''CREATE'' u None t) \<Longrightarrow>
      cl_Create (as_user u) ns t s = cl_Create cl ns t s"
    and refused_Create: "\<not> admitted decode (review encode ''CREATE'' u None t) \<Longrightarrow>
      \<exists>e. cl_Create (as_user u) ns t s = (Inl e, s)"
    and guarded_Update: "lookup s ns (at_name t) = Some old \<Longrightarrow> at_Status t = at_Status old \<Longrightarrow>
      admitted decode (review encode ''UPDATE'' u (Some old) t) \<Longrightarrow> cl_Update (as_user u) ns t s = cl_Update cl ns t s"
    and refused_Update: "lookup s ns (at_name t) = Some old \<Longrightarrow> at_Status t = at_Status old \<Longrightarrow>
      \<not> admitted decode (review encode ''UPDATE'' u (Some old) t) \<Longrightarrow> \<exists>e. cl_Update (as_user u) ns t s = (Inl e, s)"
    and guarded_UpdateStatus: "cl_UpdateStatus (as_user u) = cl_UpdateStatus cl"
    and names_kept: "named ns n t \<Longrightarrow> \<forall>x. lookup s ns n = Some x \<longrightarrow> named ns n x \<Longrightarrow>
      lookup (snd (cl_UpdateStatus cl ns t s)) ns n = Some y \<Longrightarrow> named ns n y"

subsection \<open>The store of the custom resource\<close>

text \<open>A creation gets the time \<open>now\<close> of the server's clock.\<close>

definition crd_new :: "time \<Rightarrow> approval_task \<Rightarrow> approval_task" where
  "crd_new now t = t\<lparr>at_Meta := (at_Meta t)\<lparr>om_CreationTimestamp := now\<rparr>, at_Status := empty_status\<rparr>"

lemma crd_new_sel [simp]:
  "at_name (crd_new now t) = at_name t" "at_namespace (crd_new now t) = at_namespace t"
  "om_CreationTimestamp (at_Meta (crd_new now t)) = now"
  by (simp_all add: crd_new_def)

definition crd_Create :: "time \<Rightarrow> string \<Rightarrow> approval_task \<Rightarrow> tracker \<Rightarrow> (api_error + approval_task) \<times> tracker" where
  "crd_Create now ns t objs = react_Create ns (crd_new now t) objs"

definition crd_Update :: "string \<Rightarrow> approval_task \<Rightarrow> tracker \<Rightarrow> (api_error + approval_task) \<times> tracker" where
  "crd_Update ns t objs =
     react_Update ns (case tracker_lookup objs ns (at_name t) of None \<Rightarrow> t | Some old \<Rightarrow> t\<lparr>at_Status := at_Status old\<rparr>) objs"

definition crd_UpdateStatus :: "string \<Rightarrow> approval_task \<Rightarrow> tracker \<Rightarrow> (api_error + approval_task) \<times> tracker" where
  "crd_UpdateStatus ns t objs =
     react_Update ns
       (case tracker_lookup objs ns (at_name t) of None \<Rightarrow> t
        | Some old \<Rightarrow> old\<lparr>at_Meta := (at_Meta old)\<lparr>om_Namespace := at_namespace t\<rparr>, at_Status := at_Status t\<rparr>) objs"

definition crd_tasks :: "time \<Rightarrow> fake_cluster at_client" where
  "crd_tasks now =
     \<lparr>cl_Get = \<lambda>ns n. on_tasks (react_Get ns n), cl_Create = \<lambda>ns t. on_tasks (crd_Create now ns t),
      cl_Update = \<lambda>ns t. on_tasks (crd_Update ns t), cl_UpdateStatus = \<lambda>ns t. on_tasks (crd_UpdateStatus ns t)\<rparr>"

text \<open>The namespace of a request is the one of the stored object, as the server sees to.\<close>

definition behind_webhook ::
  "time \<Rightarrow> (approval_task \<Rightarrow> string) \<Rightarrow> (string \<Rightarrow> string + approval_task) \<Rightarrow> api_error \<Rightarrow> user_info
    \<Rightarrow> fake_cluster at_client" where
  "behind_webhook now encode decode refusal u = (crd_tasks now)
     \<lparr>cl_Create := \<lambda>ns t s.
        if admitted decode (review encode ''CREATE'' u None t) then cl_Create (crd_tasks now) ns t s else (Inl refusal, s),
      cl_Update := \<lambda>ns t s.
        (case cluster_task s ns (at_name t) of
           None \<Rightarrow> cl_Update (crd_tasks now) ns t s
         | Some old \<Rightarrow>
             if admitted decode (review encode ''UPDATE'' u (Some old) (t\<lparr>at_Status := at_Status old\<rparr>))
             then cl_Update (crd_tasks now) ns t s else (Inl refusal, s))\<rparr>"

lemmas crd_defs = crd_tasks_def crd_Create_def crd_Update_def crd_UpdateStatus_def tracker_defs cluster_task_def
  cluster_run_def on_tasks_def

text \<open>Requests of the program's kind are answered as by the plain store.\<close>

lemma crd_plain:
  "cl_Get (crd_tasks now) = cl_Get fake_tasks"
  "cl_Create (crd_tasks now) ns t s = cl_Create fake_tasks ns (crd_new now t) s"
  "cluster_task s ns (at_name t) = Some old \<Longrightarrow> at_Status t = at_Status old \<Longrightarrow>
     cl_Update (crd_tasks now) ns t s = cl_Update fake_tasks ns t s"
  "cluster_task s ns (at_name t) = Some old \<Longrightarrow> at_Meta t = at_Meta old \<Longrightarrow> at_Spec t = at_Spec old \<Longrightarrow>
     cl_UpdateStatus (crd_tasks now) ns t s = cl_UpdateStatus fake_tasks ns t s"
  "cluster_task s ns (at_name t) = None \<Longrightarrow> cl_UpdateStatus (crd_tasks now) ns t s = cl_UpdateStatus fake_tasks ns t s"
proof -
  show "cl_Get (crd_tasks now) = cl_Get fake_tasks"
    "cl_Create (crd_tasks now) ns t s = cl_Create fake_tasks ns (crd_new now t) s"
    by (simp_all add: crd_tasks_def crd_Create_def fake_tasks_def on_tasks_def)
next
  assume l: "cluster_task s ns (at_name t) = Some old"
  { assume "at_Status t = at_Status old"
    then have "t\<lparr>at_Status := at_Status old\<rparr> = t" by simp
    then have "crd_Update ns t (fst s) = react_Update ns t (fst s)" using l by (simp add: crd_Update_def cluster_task_def)
    then show "cl_Update (crd_tasks now) ns t s = cl_Update fake_tasks ns t s"
      by (simp add: crd_tasks_def fake_tasks_def on_tasks_def) }
  { assume "at_Meta t = at_Meta old" "at_Spec t = at_Spec old"
    then have "old\<lparr>at_Meta := (at_Meta old)\<lparr>om_Namespace := at_namespace t\<rparr>, at_Status := at_Status t\<rparr> = t" by simp
    then have "crd_UpdateStatus ns t (fst s) = react_Update ns t (fst s)"
      using l by (simp add: crd_UpdateStatus_def cluster_task_def)
    then show "cl_UpdateStatus (crd_tasks now) ns t s = cl_UpdateStatus fake_tasks ns t s"
      by (simp add: crd_tasks_def fake_tasks_def on_tasks_def) }
next
  assume "cluster_task s ns (at_name t) = None"
  then show "cl_UpdateStatus (crd_tasks now) ns t s = cl_UpdateStatus fake_tasks ns t s"
    by (simp add: crd_tasks_def fake_tasks_def on_tasks_def crd_UpdateStatus_def cluster_task_def)
qed

lemma crd_create_fresh:
  assumes "cluster_task s ns (at_name t) = None" and "at_namespace t = ns"
  shows "\<exists>t' s'. cl_Create (crd_tasks now) ns t s = (Inr t', s') \<and> same_sent t' t
    \<and> om_CreationTimestamp (at_Meta t') = now
    \<and> (\<forall>ns' n'. cluster_task s' ns' n' = (if ns' = ns \<and> n' = at_name t then Some t' else cluster_task s ns' n'))"
proof -
  let ?t = "crd_new now t"
  have "same_sent x ?t \<Longrightarrow> same_sent x t" for x by (simp add: same_sent_def crd_new_def)
  then show ?thesis using fakes.create_fresh [of s ns ?t] assms unfolding crd_plain(2) by fastforce
qed

interpretation crd: cluster "crd_tasks now" cluster_task "\<lambda>s c. now" fake_runs cluster_run
proof unfold_locales
  fix s :: fake_cluster and ns n :: string and t old :: approval_task
  show "cluster_task s ns n = Some t \<Longrightarrow> cl_Get (crd_tasks now) ns n s = (Inr t, s)"
    by (simp add: crd_plain fakes.get_hit)
  show "cluster_task s ns n = None \<Longrightarrow> \<exists>e. cl_Get (crd_tasks now) ns n s = (Inl e, s) \<and> IsNotFound (api_go e)"
    unfolding crd_plain by (rule fakes.get_miss)
  show "cluster_task s ns (at_name t) \<noteq> None \<Longrightarrow> at_namespace t = ns \<Longrightarrow>
      \<exists>e. cl_Create (crd_tasks now) ns t s = (Inl e, s) \<and> \<not> IsNotFound (api_go e)"
    unfolding crd_plain by (rule fakes.create_taken) simp_all
  show "cluster_task s ns (at_name t) = None \<Longrightarrow> at_namespace t = ns \<Longrightarrow> \<exists>e. cl_UpdateStatus (crd_tasks now) ns t s = (Inl e, s)"
    using fakes.status_miss [of s ns t] by (simp add: crd_plain)
  show "cluster_task s ns (at_name t) = None \<Longrightarrow> at_namespace t = ns \<Longrightarrow>
      \<exists>t' s'. cl_Create (crd_tasks now) ns t s = (Inr t', s') \<and> same_sent t' t
        \<and> om_CreationTimestamp (at_Meta t') = now
        \<and> (\<forall>ns' n'. cluster_task s' ns' n' = (if ns' = ns \<and> n' = at_name t then Some t' else cluster_task s ns' n'))"
    by (rule crd_create_fresh)
  show "cluster_task s ns (at_name t) = Some old \<Longrightarrow> at_namespace t = ns \<Longrightarrow> at_Meta t = at_Meta old \<Longrightarrow>
      at_Spec t = at_Spec old \<Longrightarrow> \<exists>s'. cl_UpdateStatus (crd_tasks now) ns t s = (Inr t, s')
        \<and> (\<forall>ns' n'. cluster_task s' ns' n' = (if ns' = ns \<and> n' = at_name t then Some t else cluster_task s ns' n'))"
    using fakes.status_hit [of s ns t old] crd_plain(4) [of s ns t old] by simp
  show "cluster_task s ns (at_name t) = Some old \<Longrightarrow> at_namespace t = ns \<Longrightarrow> at_Meta t = at_Meta old \<Longrightarrow>
      at_Status t = at_Status old \<Longrightarrow> \<exists>s'. cl_Update (crd_tasks now) ns t s = (Inr t, s')
        \<and> (\<forall>ns' n'. cluster_task s' ns' n' = (if ns' = ns \<and> n' = at_name t then Some t else cluster_task s ns' n'))"
    using fakes.update_hit [of s ns t old] crd_plain(3) [of s ns t old] by simp
  show "frames (crd_tasks now) cluster_run"
    by (auto simp: frames_def fun_eq_iff crd_tasks_def on_tasks_def cluster_run_def split: prod.splits)
  show "cluster_task (snd (rc_UpdateStatus fake_runs ns r s)) = cluster_task s" for r
    by (rule fakes.runs_frame)
qed

text \<open>An update stores an object under its own name.\<close>

lemma react_Update_named:
  assumes "tracker_lookup (snd (react_Update ns x objs)) ns' n = Some y"
  shows "tracker_lookup objs ns' n = Some y \<or> named ns' n y"
proof -
  define z where "z = (if at_namespace x = [] then x\<lparr>at_Meta := (at_Meta x)\<lparr>om_Namespace := ns\<rparr>\<rparr> else x)"
  obtain e objs' where a: "tracker_add x ns True objs = (e, objs')" by force
  have "objs' = objs \<or> objs' = fmupd (at_namespace z, at_name z) z objs"
    using a unfolding tracker_add_def Let_def z_def [symmetric] by (simp split: if_splits option.splits)
  moreover have "snd (react_Update ns x objs) = objs'" using a by (simp add: react_Update_def split: option.split)
  ultimately show ?thesis using assms by (auto simp: tracker_lookup_def named_def split: if_splits)
qed

lemma guarded_behind_webhook:
  assumes "codec encode decode"
  shows "guarded_api (crd_tasks now) cluster_task (\<lambda>s c. now) fake_runs cluster_run
    (behind_webhook now encode decode refusal) encode decode"
proof (unfold_locales, goal_cases)
  case 1
  then show ?case by (rule assms)
next
  case (5 s ns t old u)
  then have eq: "t\<lparr>at_Status := at_Status old\<rparr> = t" by simp
  show ?case by (simp add: behind_webhook_def 5(1,3) eq)
next
  case (6 s ns t old u)
  then have eq: "t\<lparr>at_Status := at_Status old\<rparr> = t" by simp
  show ?case by (simp add: behind_webhook_def 6(1,3) eq)
next
  case (8 ns n t s y)
  have "tracker_lookup (snd (crd_UpdateStatus ns t (fst s))) ns n = Some y"
    using 8(3) by (simp add: crd_tasks_def on_tasks_def cluster_task_def split: prod.splits)
  from react_Update_named [OF this [unfolded crd_UpdateStatus_def]] show ?case
    using 8(2) by (simp add: cluster_task_def) blast
qed (simp_all add: behind_webhook_def)

end
