(* ===== verification/Server_Facts.thy ===== *)
theory Server_Facts
  imports Api_Server
begin

text \<open>
  Behind the webhook the controller and the client do what they do against the plain store, as long as the
  webhook has no reason to refuse them: the controller creates tasks the webhook accepts and writes
  statuses only, and the update a client computes for a person who has not answered is admitted.
\<close>

subsection \<open>The controller\<close>

lemma PreProcess_same [simp]:
  "cr_Meta (ro_Run (PreProcessReconcile now r)) = cr_Meta (ro_Run r)"
  "cr_Params (ro_Run (PreProcessReconcile now r)) = cr_Params (ro_Run r)"
  "cr_CustomRef (ro_Run (PreProcessReconcile now r)) = cr_CustomRef (ro_Run r)"
  using PreProcess_request(1) [of now r] by (simp_all add: same_request_def)

lemma Reconcile_key_agrees:
  assumes "agree_about K C U (ro_namespace r) (ro_name r) cl cl'" and "K (w_api w)"
    and "SplitMetaNamespaceKey key = Inr (ro_namespace r, ro_name r)" and "se_Lister se (ro_namespace r) (ro_name r) = Inr r"
    and "cr_CustomRef (ro_Run r) \<noteq> None" and "creates_only C (ro_Run r)"
  shows "Reconcile_key se env cl' rc key w = Reconcile_key se env cl rc key w"
proof -
  let ?p = "PreProcessReconcile (se_now_pre se) r"
  have "creates_only C (ro_Run ?p)" using assms(6) creates_only_cong [of "ro_Run ?p" "ro_Run r"] by simp
  then have "ReconcileKind env cl' (ro_Run ?p) w = ReconcileKind env cl (ro_Run ?p) w"
    using assms(1,2,5) by (intro ReconcileKind_agrees [of K C U]) simp_all
  then have "reconcile_run_object se env cl' r w = reconcile_run_object se env cl r w"
    by (simp add: reconcile_run_object_def)
  then show ?thesis using assms(3,4) by (simp add: Reconcile_key_def)
qed

text \<open>A ready run is one whose task the webhook lets the controller create.\<close>

definition acceptable :: "approval_task \<Rightarrow> bool" where
  "acceptable t \<longleftrightarrow> spec_ok (at_Spec t) \<and> all_pending (sp_Approvers (at_Spec t))"

lemma ready_creates_acceptable: "ready env run \<Longrightarrow> creates_only acceptable run"
proof -
  assume "ready env run"
  then obtain acc where "create_params (cr_Params run) create_init = Inr acc" "acceptable (new_task run acc)"
    using valid_run_new_task [OF ready_valid_run] unfolding acceptable_def by metis
  then show ?thesis by (simp add: creates_only_def)
qed

definition kept :: "('s \<Rightarrow> string \<Rightarrow> string \<Rightarrow> approval_task option) \<Rightarrow> string \<Rightarrow> string \<Rightarrow> 's \<Rightarrow> bool" where
  "kept lookup ns n s \<longleftrightarrow> (\<forall>t. lookup s ns n = Some t \<longrightarrow> named ns n t)"

definition votable ::
  "('s \<Rightarrow> string \<Rightarrow> string \<Rightarrow> approval_task option) \<Rightarrow> user_info \<Rightarrow> 's \<Rightarrow> approval_task \<Rightarrow> bool" where
  "votable lookup u s t \<longleftrightarrow>
     (\<exists>old. lookup s (at_namespace t) (at_name t) = Some old \<and> at_Status t = at_Status old \<and> admits old t u)"

context guarded_api
begin

lemma kept_Create:
  assumes "kept lookup ns n s" and "named ns n t"
  shows "kept lookup ns n (snd (cl_Create cl ns t s))"
proof (cases "lookup s ns (at_name t)")
  case None
  then obtain t' s' where "cl_Create cl ns t s = (Inr t', s')" "same_sent t' t"
    "\<forall>ns' n'. lookup s' ns' n' = (if ns' = ns \<and> n' = at_name t then Some t' else lookup s ns' n')"
    using create_fresh [of s ns t] assms(2) by (auto simp: named_def)
  then show ?thesis using assms by (auto simp: kept_def named_def same_sent_def)
next
  case (Some x)
  then show ?thesis using create_taken [of s ns t] assms by (auto simp: named_def)
qed

lemma agrees_as_user: "agree_about (kept lookup ns n) acceptable (votable lookup u) ns n cl (as_user u)"
  unfolding agree_about_def
proof (intro allI impI conjI)
  fix s t assume k: "kept lookup ns n s"
  have g: "(\<exists>x. lookup s ns n = Some x \<and> cl_Get cl ns n s = (Inr x, s)) \<or> (\<exists>e. cl_Get cl ns n s = (Inl e, s))"
    using get_hit [of s ns n] get_miss [of s ns n] by (cases "lookup s ns n") auto
  show "cl_Get (as_user u) ns n s = cl_Get cl ns n s" by (simp add: guarded_Get)
  show "kept lookup ns n (snd (cl_Get cl ns n s))" using g k by auto
  show "fst (cl_Get cl ns n s) = Inr t \<Longrightarrow> named ns n t" using g k by (auto simp: kept_def)
  assume n: "named ns n t"
  { assume "acceptable t"
    then show "cl_Create (as_user u) ns t s = cl_Create cl ns t s"
      by (intro guarded_Create) (simp add: admitted_create [OF encoded] acceptable_def)
    show "kept lookup ns n (snd (cl_Create cl ns t s))" by (rule kept_Create [OF k n]) }
  { assume "votable lookup u s t"
    then obtain old where "lookup s ns (at_name t) = Some old" "at_Status t = at_Status old" "admits old t u"
      using n by (auto simp: votable_def named_def)
    then show "cl_Update (as_user u) ns t s = cl_Update cl ns t s"
      by (intro guarded_Update) (simp_all add: admitted_update [OF encoded]) }
  show "cl_UpdateStatus (as_user u) ns t s = cl_UpdateStatus cl ns t s" by (simp add: guarded_UpdateStatus)
  show "kept lookup ns n (snd (cl_UpdateStatus cl ns t s))"
    unfolding kept_def by (intro allI impI) (rule names_kept [OF n k [unfolded kept_def]])
qed

text \<open>The handling of a key is the same behind the webhook, whoever the controller is.\<close>

lemma Reconcile_key_guarded:
  assumes "in_charge se r" and "ready env (ro_Run r)" and "kept lookup (ro_namespace r) (ro_name r) (w_api w)"
  shows "Reconcile_key se env (as_user u) rc (safeKey (object_key (cr_Meta (ro_Run r)))) w =
    Reconcile_key se env cl rc (safeKey (object_key (cr_Meta (ro_Run r)))) w"
  by (rule Reconcile_key_agrees [OF agrees_as_user assms(3) in_charge_key [OF assms(1)]])
    (use assms ready_creates_acceptable in \<open>auto simp: in_charge_def ready_def\<close>)

subsection \<open>The client\<close>

lemma command_admitted:
  assumes "lookup s ns n = Some t" and "named ns n t"
    and "admits t (updated_task (command_options input n ns msg u) t) u"
  shows "decide_command input participle clients (Inr u) gvr (as_user u) n ns msg s =
    decide_command input participle clients (Inr u) gvr cl n ns msg s"
proof -
  have k: "kept lookup ns n s" using assms(1,2) by (simp add: kept_def)
  show ?thesis
  proof (rule decide_command_agrees [OF agrees_as_user k])
    fix x s' v
    assume "cl_Get cl ns n s = (Inr x, s')" "Inr u = (Inr v :: go_error + user_info)"
    then show "votable lookup u s' (updated_task (command_options input n ns msg v) x)"
      using assms get_hit [OF assms(1)] by (auto simp: votable_def named_def)
  qed
qed

text \<open>A refused command is an error and changes nothing.\<close>

lemma command_denied:
  assumes "lookup s ns n = Some t" and "named ns n t"
    and "\<not> admits t (updated_task (command_options input n ns msg u) t) u"
  shows "\<exists>e. decide_command input participle None (Inr u) (Inr g) (as_user u) n ns msg s = (Inl e, s)"
proof -
  let ?o = "command_options input n ns msg u"
  have o: "op_Namespace ?o = ns" "op_Name ?o = n" by (simp_all add: command_options_def)
  have g: "ApprovalTasks_Get (as_user u) ns n s = ((t, None), s)"
    using get_hit [OF assms(1)] by (simp add: ApprovalTasks_Get_def guarded_Get)
  obtain e where "cl_Update (as_user u) ns (updated_task ?o t) s = (Inl e, s)"
    using refused_Update [of s ns "updated_task ?o t" t u] assms by (auto simp: named_def admitted_update [OF encoded])
  then have "ApprovalTasks_Update (as_user u) ns (updated_task ?o t) s = ((empty_task, Some (api_go e)), s)"
    by (simp add: ApprovalTasks_Update_def)
  with g show ?thesis by (auto simp: decide_command_def Update_def cli_get_def cli_update_def o)
qed

end

end
