(* ===== verification/Vote_Rounds.thy ===== *)
theory Vote_Rounds
  imports Server_Facts Gate_System
begin

text \<open>
  A gate on its way to a decision: people vote one after the other through the API server, with the webhook
  asked each time, and each vote is followed by the handling of the run's key by the controller.
\<close>

subsection \<open>Rounds of a vote and a handling\<close>

text \<open>The informer's cache at the moment of a handling holds what is stored.\<close>

definition up_to_date :: "('s \<Rightarrow> string \<Rightarrow> string \<Rightarrow> run_object option) \<Rightarrow> sync_env \<Rightarrow> 's \<Rightarrow> sync_env" where
  "up_to_date runs se s = se\<lparr>se_Lister := \<lambda>ns n.
     case runs s ns n of None \<Rightarrow> Inl (StatusErr (NewNotFound ''customruns'' n)) | Some r \<Rightarrow> Inr r\<rparr>"

text \<open>\<open>None\<close>: some command was refused. Each round has its own clock readings and the like, an \<open>env\<close>.\<close>

fun rounds ::
  "(user_info \<Rightarrow> 's at_client) \<Rightarrow> user_info \<Rightarrow> 's run_client \<Rightarrow> ('s \<Rightarrow> string \<Rightarrow> string \<Rightarrow> run_object option) \<Rightarrow> sync_env
    \<Rightarrow> namespaced_name \<Rightarrow> string \<Rightarrow> (user_info \<times> env) list \<Rightarrow> 's world \<Rightarrow> 's world option" where
  "rounds as_user ctl rc runs se key msg [] w = Some w"
| "rounds as_user ctl rc runs se key msg ((u, env) # us) w =
     (case approve_command None (Inr u) (Inr ()) (as_user u) (nn_Name key) (nn_Namespace key) msg (w_api w) of
        (Inl e, s) \<Rightarrow> None
      | (Inr out, s) \<Rightarrow>
          rounds as_user ctl rc runs se key msg us
            (snd (Reconcile_key (up_to_date runs se s) env (as_user ctl) rc (safeKey key) (w\<lparr>w_api := s\<rparr>))))"

text \<open>Votes do not change who is asked.\<close>

lemma addressed_update [simp]: "addressed opts (update_approvers opts' as) = addressed opts as"
  by (auto simp: addressed_def update_approvers_eq)

abbreviation vote_of :: "namespaced_name \<Rightarrow> string \<Rightarrow> user_info \<Rightarrow> cli_options" where
  "vote_of key msg u \<equiv> command_options ''approve'' (nn_Name key) (nn_Namespace key) msg u"

text \<open>The approvers after the votes of some people.\<close>

definition voted :: "namespaced_name \<Rightarrow> string \<Rightarrow> user_info list \<Rightarrow> approver_details list \<Rightarrow> approver_details list" where
  "voted key msg us as = fold (\<lambda>u. update_approvers (vote_of key msg u)) us as"

subsection \<open>The run between two rounds\<close>

lemma mark_run_extra [simp]:
  "crs_ExtraFields (cr_Status (mark_run env state run)) = crs_ExtraFields (cr_Status run)"
  by (simp add: mark_run_def MarkCustomRunFailed_def MarkCustomRunSucceeded_def Let_def)

lemma next_run_kept:
  assumes "ready env run"
  shows "run_conditions_ok (next_run env run t)" and "crs_ExtraFields (cr_Status (next_run env run t)) = []"
proof -
  have ok: "run_conditions_ok (begun env run)" using assms by (simp add: ready_def begun_status)
  show "run_conditions_ok (next_run env run t)"
    using ok by (simp add: next_run_def marked_after_def mark_run_ok)
  show "crs_ExtraFields (cr_Status (next_run env run t)) = []"
    using assms initialize_extra [of env run "[]"]
    by (simp add: next_run_def marked_after_def propagateApprovalTaskLabelsAndAnnotations_def begun_def ready_def)
qed

lemma untimed_types: "untimed cs = untimed cs' \<Longrightarrow> map cond_Type cs = map cond_Type cs'"
proof -
  have "map cond_Type (untimed cs) = map cond_Type cs" for cs by (simp add: untimed_def o_def)
  then show "untimed cs = untimed cs' \<Longrightarrow> map cond_Type cs = map cond_Type cs'" by metis
qed

text \<open>A run whose status was written by a handling that decided nothing is ready for the next one.\<close>

lemma ready_again:
  assumes "ready env0 (ro_Run r)" and "ready env (ro_Run r)"
    and "status_equal r' (PostProcessReconcile now' ((PreProcessReconcile now r)
       \<lparr>ro_Run := next_run env0 (ro_Run (PreProcessReconcile now r)) t\<rparr>) r)"
    and "r' = with_status_of r r'" and "run_status (ro_Run r') = ConditionUnknown"
  shows "ready env (ro_Run r')"
proof -
  let ?n = "next_run env0 (ro_Run (PreProcessReconcile now r)) t"
  have rd: "ready env0 (ro_Run (PreProcessReconcile now r))" by (rule PreProcess_ready [OF disjI1 [OF assms(1)]])
  have q: "same_request (ro_Run r') (ro_Run r)" and tm: "cr_Timeout (ro_Run r') = cr_Timeout (ro_Run r)"
    by (subst assms(4), simp add: same_request_def with_status_of_def)+
  let ?res = "PostProcessReconcile now' ((PreProcessReconcile now r)\<lparr>ro_Run := ?n\<rparr>) r"
  have "run_conditions_ok (ro_Run ?res)" using next_run_kept(1) [OF rd] by simp
  moreover have "map cond_Type (ro_conditions r') = map cond_Type (ro_conditions ?res)"
    using assms(3) by (intro untimed_types) (simp add: status_equal_def)
  ultimately have ok: "run_conditions_ok (ro_Run r')" by (simp add: run_conditions_ok_def conditions_ok_def)
  have "crs_ExtraFields (cr_Status (ro_Run ?res)) = []"
    using next_run_kept(2) [OF rd]
    by (simp add: PostProcessReconcile_def groomConditionsTransitionTime_def with_conditions_def)
  then have "crs_ExtraFields (cr_Status (ro_Run r')) = []" using assms(3) by (simp add: status_equal_def)
  moreover have "\<not> IsDone (ro_Run r')" using assms(5) by (simp add: run_status_iff)
  moreover have "cr_Params (ro_Run r') = cr_Params (ro_Run r)" "cr_CustomRef (ro_Run r') = cr_CustomRef (ro_Run r)"
    using q by (simp_all add: same_request_def)
  ultimately show ?thesis
    using assms(2) ok same_request_checks [OF q] same_request_checks(3) [OF q tm] by (simp add: ready_def)
qed

lemma in_time_cong:
  assumes "same_request r' r" and "cr_Timeout r' = cr_Timeout r"
  shows "in_time env r' t = in_time env r t"
  using same_request_checks(3) [OF assms, of env] by (simp add: in_time_def timed_out_def run_timeout_def timeout_of_def)

lemma start_task_start:
  "st_StartTime (at_Status (start_task t)) =
     (case st_StartTime (at_Status t) of None \<Rightarrow> Some (om_CreationTimestamp (at_Meta t)) | Some x \<Rightarrow> Some x)"
  by (cases "st_StartTime (at_Status t)") (simp_all add: start_task_def HasStarted_def)

lemma in_time_stored [simp]: "in_time env run (stored_after env' t) = in_time env run t"
proof -
  have m: "at_Meta (start_task t) = at_Meta t" by (simp add: start_task_def)
  have "st_StartTime (at_Status (start_task (stored_after env' t))) = st_StartTime (at_Status (start_task t))"
  proof (cases "hash_changed env' t \<and> answered (sp_Approvers (at_Spec t))")
    case True
    then have "st_StartTime (at_Status (stored_after env' t)) = st_StartTime (at_Status (start_task t))"
      by (simp add: stored_after_def decideState_frame)
    then show ?thesis by (simp add: start_task_start split: option.split)
  next
    case False
    then have "stored_after env' t = t" unfolding stored_after_def by (rule if_not_P)
    then show ?thesis by simp
  qed
  then have "ApprovalTaskHasTimedOut (start_task (stored_after env' t)) now d = ApprovalTaskHasTimedOut (start_task t) now d" for now d
    unfolding ApprovalTaskHasTimedOut_def HasStarted_def by simp
  then show ?thesis by (simp add: in_time_def timed_out_def)
qed

subsection \<open>The task between two rounds\<close>

lemma response_of_votes:
  assumes "response_of proc a = Some r" and "m \<notin> votes_of hasApproved a" and "m \<notin> votes_of hasRejected a"
  shows "\<not> (DefaultedApproverType (as_Type r) = ''User'' \<and> as_Name r = m)"
    and "DefaultedApproverType (as_Type r) = ''Group'' \<Longrightarrow> x \<in> set (as_GroupMembers r) \<Longrightarrow> gm_Name x \<noteq> m"
proof -
  consider "is_user a" "responded a" "r = user_response a" | "is_group a" "\<not> is_user a" "group_response proc a = Some r"
    using assms(1) by (auto simp: response_of_def split: if_splits)
  note c = this
  show "\<not> (DefaultedApproverType (as_Type r) = ''User'' \<and> as_Name r = m)"
    using c assms(2,3)
    by (cases rule: c) (auto simp: user_response_sel votes_of_def responded_def group_response_Some DefaultedApproverType_def)
  show "DefaultedApproverType (as_Type r) = ''Group'' \<Longrightarrow> x \<in> set (as_GroupMembers r) \<Longrightarrow> gm_Name x \<noteq> m"
    using c assms(2,3)
    by (cases rule: c)
      (auto simp: user_response_sel votes_of_def group_response_Some member_states_def DefaultedApproverType_def)
qed

lemma recorded_unvoted:
  assumes "\<forall>xs. set (ord xs) = set xs" and "m \<notin> votes hasApproved (sp_Approvers (at_Spec t))"
    and "m \<notin> votes hasRejected (sp_Approvers (at_Spec t))"
  shows "recorded (st_ApproversResponse (at_Status (fst (decideState ord t)))) m = {}"
proof -
  let ?as = "sp_Approvers (at_Spec t)"
  have "\<exists>a \<in> set ?as. response_of (individual_names ?as) a = Some r"
    if "r \<in> set (st_ApproversResponse (at_Status (fst (decideState ord t))))" for r
  proof -
    have "r \<in> set (map snd (currentApprovers ?as))" using that assms(1) by (auto simp: decideState_response split: if_splits)
    then obtain k where "(k, r) \<in> set (currentApprovers ?as)" by auto
    then show ?thesis by (rule currentApprovers_entries) blast
  qed
  moreover have "m \<notin> votes_of hasApproved a" "m \<notin> votes_of hasRejected a" if "a \<in> set ?as" for a
    using that assms(2,3) by (auto simp: votes_def)
  ultimately have "\<not> (DefaultedApproverType (as_Type r) = ''User'' \<and> as_Name r = m)"
    "DefaultedApproverType (as_Type r) = ''Group'' \<Longrightarrow> x \<in> set (as_GroupMembers r) \<Longrightarrow> gm_Name x \<noteq> m"
    if "r \<in> set (st_ApproversResponse (at_Status (fst (decideState ord t))))" for r x
    using that response_of_votes by metis+
  then show ?thesis by (fastforce simp: recorded_def)
qed

text \<open>The people of \<open>D\<close> have approved, nobody has rejected, and the gate is open.\<close>

definition waiting_for :: "int \<Rightarrow> string set \<Rightarrow> approval_task \<Rightarrow> bool" where
  "waiting_for required D t \<longleftrightarrow>
     spec_ok (at_Spec t) \<and> sp_NumberOfApprovalsRequired (at_Spec t) = required
     \<and> \<not> rejects (sp_Approvers (at_Spec t)) \<and> finite D
     \<and> votes hasApproved (sp_Approvers (at_Spec t)) \<subseteq> D \<and> votes hasRejected (sp_Approvers (at_Spec t)) \<subseteq> D
     \<and> D \<subseteq> approved_users (sp_Approvers (at_Spec t)) \<and> \<not> final_state (st_State (at_Status t))
     \<and> (\<forall>m. m \<notin> D \<longrightarrow> recorded (st_ApproversResponse (at_Status t)) m = {})"

lemma initial_waiting:
  assumes "initial t" and "st_ApproversResponse (at_Status t) = []"
  shows "waiting_for (sp_NumberOfApprovalsRequired (at_Spec t)) {} t"
proof -
  have p: "all_pending (sp_Approvers (at_Spec t))" using assms(1) by (simp add: initial_def)
  have "\<not> rejects (sp_Approvers (at_Spec t))" using p by (auto simp: rejects_def all_pending_def)
  moreover have "\<not> final_state (st_State (at_Status t))" using assms(1) by (simp add: initial_def final_state_def)
  moreover have "recorded [] m = {}" for m by (simp add: recorded_def)
  ultimately show ?thesis using assms all_pending_votes [OF p] by (simp add: waiting_for_def initial_def)
qed

lemma waiting_approved:
  assumes "waiting_for required D t"
  shows "approved_users (sp_Approvers (at_Spec t)) = D" and "votes hasApproved (sp_Approvers (at_Spec t)) = D"
  using assms approved_users_votes [of "sp_Approvers (at_Spec t)"] by (auto simp: waiting_for_def)

lemma effective_vote:
  assumes "addressed opts as" and "op_Username opts \<notin> votes (op_Input opts) as"
  shows "effective opts as"
proof -
  have own: "op_Username opts \<notin> votes_of (op_Input opts) a" if "a \<in> set as" for a using that assms(2) by (auto simp: votes_def)
  have user: "ad_Input a \<noteq> op_Input opts" if "a \<in> set as" "is_user a" "ad_Name a = op_Username opts" for a
    using own [OF that(1)] that(2,3) by (auto simp: votes_of_def split: if_splits)
  have member: "ud_Input v \<noteq> op_Input opts"
    if "a \<in> set as" "is_group a" "find_user (op_Username opts) (ad_Users a) = Some v" for a v
  proof
    have v: "v \<in> set (ad_Users a)" "ud_Name v = op_Username opts" using find_user_Some [OF that(3)] by simp_all
    assume "ud_Input v = op_Input opts"
    then have "ud_Name v \<in> votes_of (op_Input opts) a"
      using v(1) that(2) is_group_not_user [OF that(2)] by (simp add: votes_of_def)
    then show False using own [OF that(1)] v(2) by simp
  qed
  show ?thesis
    using assms(1) user member unfolding effective_def addressed_def userProcessedAsIndividual_def list_ex_iff
    by (auto split: option.split)
qed

lemma vote_admitted:
  assumes "waiting_for required D t" and "int (card D) < required" and "op_Username opts \<notin> D"
    and "addressed opts (sp_Approvers (at_Spec t))" and "op_Input opts = hasApproved" and "user_name_ok (op_Username opts)"
  shows "admits t (updated_task opts t) (user_of opts)"
proof (rule cli_update_admitted)
  show "spec_ok (at_Spec t)" "recorded (st_ApproversResponse (at_Status t)) (op_Username opts) = {}"
    using assms(1,3) by (simp_all add: waiting_for_def)
  show "isApprovalRequired t"
    using assms(1,2) waiting_approved(1) [OF assms(1)]
    by (auto simp: isApprovalRequired_eq waiting_for_def final_state_def approvalTaskHasTrueInput_eq countApprovalsReceived_eq)
  show "effective opts (sp_Approvers (at_Spec t))"
    by (rule effective_vote [OF assms(4)]) (use assms(3,5) waiting_approved(2) [OF assms(1)] in simp)
qed (use assms(5,6) in \<open>simp_all add: decision_def\<close>)

text \<open>What a vote and the handling after it make of the task.\<close>

lemma vote_waiting:
  assumes "waiting_for required D t" and "int (card D) < required" and "op_Username opts \<notin> D"
    and "addressed opts (sp_Approvers (at_Spec t))" and "op_Input opts = hasApproved" and "user_name_ok (op_Username opts)"
    and "\<forall>xs. set (e_map_order env xs) = set xs"
  defines "t' \<equiv> stored_after env (updated_task opts t)" and "D' \<equiv> insert (op_Username opts) D"
  shows "approved_users (sp_Approvers (at_Spec t')) = D'"
    and "int (card D') < required \<Longrightarrow> waiting_for required D' t' \<and> task_verdict (updated_task opts t) = Undecided"
    and "int (card D') = required \<Longrightarrow> task_verdict (updated_task opts t) = Approved"
proof -
  let ?u = "updated_task opts t"
  have adm: "admits t ?u (user_of opts)" by (rule vote_admitted [OF assms(1-6)])
  have ok: "spec_ok (at_Spec t)" using assms(1) by (simp add: waiting_for_def)
  have v: "votes i (sp_Approvers (at_Spec ?u)) \<subseteq> insert (op_Username opts) (votes i (sp_Approvers (at_Spec t)))" for i
    using admits_votes [OF adm ok] by (simp add: update_same_shape)
  have sub: "votes hasApproved (sp_Approvers (at_Spec ?u)) \<subseteq> D'" "votes hasRejected (sp_Approvers (at_Spec ?u)) \<subseteq> D'"
    using v [of hasApproved] v [of hasRejected] assms(1) by (auto simp: waiting_for_def D'_def)
  have app: "D' \<subseteq> approved_users (sp_Approvers (at_Spec ?u))"
    using approval_adds [OF assms(5,4)] waiting_approved(1) [OF assms(1)] by (simp add: D'_def)
  have au: "approved_users (sp_Approvers (at_Spec ?u)) = D'" using app sub(1) approved_users_votes by blast
  have sp: "at_Spec t' = at_Spec ?u" by (simp add: t'_def)
  show "approved_users (sp_Approvers (at_Spec t')) = D'" using au sp by simp
  have rj: "\<not> rejects (sp_Approvers (at_Spec ?u))"
    using approval_rejects [OF assms(5)] assms(1) by (auto simp: waiting_for_def)
  have ans: "answered (sp_Approvers (at_Spec ?u))"
    using decision_answered [OF _ assms(4)] assms(5) by (simp add: decision_def)
  have n: "sp_NumberOfApprovalsRequired (at_Spec ?u) = required" using assms(1) by (simp add: waiting_for_def)
  have vd: "task_verdict ?u = (if required \<le> int (card D') then Approved else Undecided)"
    using au rj ans n by (simp add: task_verdict_def decide_def)
  show "int (card D') = required \<Longrightarrow> task_verdict ?u = Approved" using vd by simp
  assume lt: "int (card D') < required"
  have st: "st_State (at_Status t') = st_State (at_Status t)"
    using vd lt unfolding t'_def by (simp add: stored_after_state found_state_def)
  have rc: "recorded (st_ApproversResponse (at_Status t')) m = {}" if "m \<notin> D'" for m
  proof (cases "hash_changed env ?u \<and> answered (sp_Approvers (at_Spec ?u))")
    case True
    then have "t' = fst (decideState (e_map_order env) (start_task ?u))" by (simp add: t'_def stored_after_def)
    moreover have "sp_Approvers (at_Spec (start_task ?u)) = sp_Approvers (at_Spec ?u)" by (simp add: start_task_def)
    ultimately show ?thesis using recorded_unvoted [OF assms(7), of m "start_task ?u"] sub that by auto
  next
    case False
    then have "t' = ?u" unfolding t'_def stored_after_def by (rule if_not_P)
    then show ?thesis using assms(1) that by (simp add: waiting_for_def D'_def)
  qed
  have "spec_ok (at_Spec ?u)" using adm by (simp add: admits_def)
  then show "waiting_for required D' t' \<and> task_verdict ?u = Undecided"
    using assms(1) sub app rj n st rc vd lt sp by (simp add: waiting_for_def D'_def)
qed

subsection \<open>A round\<close>

definition gate_open :: "namespaced_name \<Rightarrow> env set \<Rightarrow> int \<Rightarrow> string set \<Rightarrow> run_object \<Rightarrow> approval_task \<Rightarrow> bool" where
  "gate_open key envs required D r t \<longleftrightarrow>
     key = object_key (cr_Meta (ro_Run r)) \<and> IsZero (ro_DeletionTimestamp r)
     \<and> CHR ''/'' \<notin> set (nn_Namespace key) \<and> CHR ''/'' \<notin> set (nn_Name key) \<and> keyed (ro_Run r) t
     \<and> (\<forall>env \<in> envs. ready env (ro_Run r) \<and> in_time env (ro_Run r) t \<and> (\<forall>xs. set (e_map_order env xs) = set xs))
     \<and> waiting_for required D t"

lemma key_sel [simp]: "nn_Namespace (object_key m) = om_Namespace m" "nn_Name (object_key m) = om_Name m"
  by (simp_all add: object_key_def)

lemma gate_open_key:
  assumes "gate_open key envs required D r t"
  shows "nn_Namespace key = ro_namespace r" and "nn_Name key = ro_name r" and "named (ro_namespace r) (ro_name r) t"
  using assms by (simp_all add: gate_open_def keyed_def named_def)

lemma up_to_date_in_charge:
  assumes "gate_open key envs required D r t" and "se_IsLeaderFor se (nn_Namespace key) (nn_Name key)"
    and "runs s (ro_namespace r) (ro_name r) = Some r"
  shows "in_charge (up_to_date runs se s) r"
  using assms by (auto simp: in_charge_def up_to_date_def gate_open_def)

text \<open>The next run and task of an open gate.\<close>

lemma gate_open_next:
  assumes "gate_open key envs required D r t" and "env \<in> envs" and "int (card D) < required" and "op_Username opts \<notin> D"
    and "addressed opts (sp_Approvers (at_Spec t))" and "op_Input opts = hasApproved" and "user_name_ok (op_Username opts)"
    and "r' = with_status_of r r'"
    and "status_equal r' (PostProcessReconcile now' ((PreProcessReconcile now r)
       \<lparr>ro_Run := next_run env (ro_Run (PreProcessReconcile now r)) (updated_task opts t)\<rparr>) r)"
  shows "int (Suc (card D)) < required \<Longrightarrow>
      gate_open key envs required (insert (op_Username opts) D) r' (stored_after env (updated_task opts t))"
    and "int (Suc (card D)) = required \<Longrightarrow> hash_changed env (updated_task opts t) \<Longrightarrow>
      IsSuccessful (ro_Run r') \<and> st_State (at_Status (stored_after env (updated_task opts t))) = approvedState"
proof -
  let ?u = "updated_task opts t" and ?p = "ro_Run (PreProcessReconcile now r)"
  have w: "waiting_for required D t" and rd: "ready env (ro_Run r)" and o: "\<forall>xs. set (e_map_order env xs) = set xs"
    using assms(1,2) by (simp_all add: gate_open_def)
  note v = vote_waiting [OF w assms(3-7) o]
  have "finite D" using w by (simp add: waiting_for_def)
  then have c: "card (insert (op_Username opts) D) = Suc (card D)" using assms(4) by simp
  have rp: "ready env ?p" by (rule PreProcess_ready [OF disjI1 [OF rd]])
  have st: "run_status (ro_Run r') = run_status (next_run env ?p ?u)" using status_equal_run_status [OF assms(9)] by simp
  have q: "same_request (ro_Run r') (ro_Run r)" "cr_Timeout (ro_Run r') = cr_Timeout (ro_Run r)"
    and dt: "ro_DeletionTimestamp r' = ro_DeletionTimestamp r"
    by (subst assms(8), simp add: same_request_def with_status_of_def)+
  { assume lt: "int (Suc (card D)) < required"
    then have n: "waiting_for required (insert (op_Username opts) D) (stored_after env ?u)" "task_verdict ?u = Undecided"
      using v(2) c by simp_all
    have "found_state ?u = st_State (at_Status t)" using n(2) by (simp add: found_state_def)
    moreover have "\<not> final_state (st_State (at_Status t))" using w by (simp add: waiting_for_def)
    ultimately have "run_status (ro_Run r') = run_status ?p"
      using next_run_status(3) [OF rp, of ?u] st by (simp add: final_state_def)
    also have "run_status ?p = ConditionUnknown" using rp by (simp add: ready_def run_status_iff)
    finally have "ready env' (ro_Run r')" if "env' \<in> envs" for env'
      using ready_again [OF rd _ assms(9,8)] assms(1) that by (simp add: gate_open_def)
    moreover have "in_time env' (ro_Run r') (stored_after env ?u)" if "env' \<in> envs" for env'
      using in_time_cong [OF q] assms(1) that by (simp add: gate_open_def)
    moreover have "cr_Meta (ro_Run r') = cr_Meta (ro_Run r)" using q(1) by (simp add: same_request_def)
    ultimately show "gate_open key envs required (insert (op_Username opts) D) r' (stored_after env ?u)"
      using assms(1) n(1) dt by (auto simp: gate_open_def keyed_def) }
  { assume "int (Suc (card D)) = required" "hash_changed env ?u"
    moreover from this have "found_state ?u = approvedState" using v(3) c by (simp add: found_state_def)
    ultimately show "IsSuccessful (ro_Run r') \<and> st_State (at_Status (stored_after env ?u)) = approvedState"
      using next_run_status(1) [OF rp, of ?u] st by (simp add: run_status_iff stored_after_state) }
qed

context guarded_api
begin

lemma vote_stored:
  assumes "lookup s ns n = Some t" and "named ns n t" and "addressed (command_options input n ns msg u) (sp_Approvers (at_Spec t))"
    and "admits t (updated_task (command_options input n ns msg u) t) u"
  obtains out s' where "decide_command input participle None (Inr u) (Inr g) (as_user u) n ns msg s = (Inr out, s')"
    "lookup s' ns n = Some (updated_task (command_options input n ns msg u) t)" "runs s' = runs s"
proof -
  obtain out s' where c: "decide_command input participle None (Inr u) (Inr g) cl n ns msg s = (Inr out, s')"
    and l: "lookup s' ns n = Some (updated_task (command_options input n ns msg u) t)"
    by (rule command_stores [OF assms(1), of input msg u participle g])
      (use assms(2) addressed_containsUsername [OF assms(3)] in \<open>simp_all add: named_def\<close>)
  have rs: "runs s' = runs s"
    using c frames_client [OF tasks_frame]
    by (auto simp: decide_command_def Update_def cli_get_def cli_update_def split: option.splits prod.splits if_splits sum.splits)
  have "decide_command input participle None (Inr u) (Inr g) (as_user u) n ns msg s = (Inr out, s')"
    unfolding command_admitted [OF assms(1,2,4)] by (rule c)
  then show ?thesis by (rule that [OF _ l rs])
qed

text \<open>One command that the webhook has no reason to refuse, and the handling of the key its event queues.\<close>

lemma vote_handled:
  assumes "in_charge se r" and "ready env (ro_Run r)"
    and "runs (w_api w) (ro_namespace r) (ro_name r) = Some r"
    and "lookup (w_api w) (ro_namespace r) (ro_name r) = Some t"
    and "keyed (ro_Run r) t" and "in_time env (ro_Run r) t"
    and o: "opts = command_options input (ro_name r) (ro_namespace r) msg u" and "decision input"
    and "spec_ok (at_Spec t)" and "isApprovalRequired t"
    and "addressed opts (sp_Approvers (at_Spec t))" and "user_name_ok (ui_Username u)"
    and "ui_Username u \<notin> votes input (sp_Approvers (at_Spec t))"
    and "recorded (st_ApproversResponse (at_Status t)) (ui_Username u) = {}"
    and "key \<in> set (task_handler (Updated t (updated_task opts t)))"
  obtains out s' w' r' where
    "decide_command input participle None (Inr u) (Inr g) (as_user u) (ro_name r) (ro_namespace r) msg (w_api w) = (Inr out, s')"
    "lookup s' (ro_namespace r) (ro_name r) = Some (updated_task opts t)"
    "Reconcile_key se env (as_user ctl) rc (safeKey key) (w\<lparr>w_api := s'\<rparr>) =
       (Some (MultiErr [RequeueErr (delay_of env (ro_Run r) (updated_task opts t))]), w')"
    "runs (w_api w') (ro_namespace r) (ro_name r) = Some r'" "r' = with_status_of r r'"
    "run_status (ro_Run r') =
       run_status (next_run env (ro_Run (PreProcessReconcile (se_now_pre se) r)) (updated_task opts t))"
    "lookup (w_api w') (ro_namespace r) (ro_name r) = Some (stored_after env (updated_task opts t))"
proof -
  have ops: "op_Input opts = input" "op_Username opts = ui_Username u" "user_of opts = u"
    by (simp_all add: o command_options_def user_of_def)
  have kt: "named (ro_namespace r) (ro_name r) t" using assms(5) by (simp add: keyed_def named_def)
  have "effective opts (sp_Approvers (at_Spec t))"
    by (rule effective_vote [OF assms(11)]) (use assms(13) ops in simp)
  then have adm: "admits t (updated_task opts t) u"
    using cli_update_admitted [OF assms(9,10), of opts] assms(8,12,14) ops by simp
  obtain out s' where c: "decide_command input participle None (Inr u) (Inr g) (as_user u) (ro_name r) (ro_namespace r) msg (w_api w) = (Inr out, s')"
    and l: "lookup s' (ro_namespace r) (ro_name r) = Some (updated_task opts t)" and rs: "runs s' = runs (w_api w)"
    by (rule vote_stored [OF assms(4) kt, of input msg u participle g]) (use assms(11) adm o in simp_all)
  have key: "key = object_key (cr_Meta (ro_Run r))"
    using assms(15) kt by (simp add: task_handler_def object_key_def named_def)
  have kd: "keyed (ro_Run r) (updated_task opts t)" and it: "in_time env (ro_Run r) (updated_task opts t)"
    using assms(5,6) by (simp_all add: keyed_def)
  obtain w' r' where h: "Reconcile_key se env cl rc (safeKey (object_key (cr_Meta (ro_Run r)))) (w\<lparr>w_api := s'\<rparr>) =
       (Some (MultiErr [RequeueErr (delay_of env (ro_Run r) (updated_task opts t))]), w')"
    and r': "runs (w_api w') (ro_namespace r) (ro_name r) = Some r'" "r' = with_status_of r r'"
      "run_status (ro_Run r') =
         run_status (next_run env (ro_Run (PreProcessReconcile (se_now_pre se) r)) (updated_task opts t))"
      "lookup (w_api w') (ro_namespace r) (ro_name r) = Some (stored_after env (updated_task opts t))"
    by (rule key_reconciled [OF assms(1,2) _ _ kd it, of "w\<lparr>w_api := s'\<rparr>"]) (use assms(3) rs l in simp_all)
  have "kept lookup (ro_namespace r) (ro_name r) s'"
    using l kt by (simp add: kept_def named_def)
  then have "Reconcile_key se env (as_user ctl) rc (safeKey key) (w\<lparr>w_api := s'\<rparr>) =
      (Some (MultiErr [RequeueErr (delay_of env (ro_Run r) (updated_task opts t))]), w')"
    using Reconcile_key_guarded [OF assms(1,2), of "w\<lparr>w_api := s'\<rparr>"] h unfolding key by simp
  then show thesis by (rule that [OF c l _ r'])
qed

lemma round_played:
  assumes "gate_open key envs required D r t" and "runs (w_api w) (nn_Namespace key) (nn_Name key) = Some r"
    and "lookup (w_api w) (nn_Namespace key) (nn_Name key) = Some t" and "se_IsLeaderFor se (nn_Namespace key) (nn_Name key)"
    and "env \<in> envs" and "int (card D) < required" and "ui_Username u \<notin> D"
    and "addressed (vote_of key msg u) (sp_Approvers (at_Spec t))" and "user_name_ok (ui_Username u)"
  obtains w' r' where
    "rounds as_user ctl rc runs se key msg ((u, env) # us) w = rounds as_user ctl rc runs se key msg us w'"
    "runs (w_api w') (nn_Namespace key) (nn_Name key) = Some r'"
    "lookup (w_api w') (nn_Namespace key) (nn_Name key) = Some (stored_after env (updated_task (vote_of key msg u) t))"
    "int (Suc (card D)) < required \<Longrightarrow>
       gate_open key envs required (insert (ui_Username u) D) r' (stored_after env (updated_task (vote_of key msg u) t))"
    "int (Suc (card D)) = required \<Longrightarrow> hash_changed env (updated_task (vote_of key msg u) t) \<Longrightarrow>
       IsSuccessful (ro_Run r') \<and> st_State (at_Status (stored_after env (updated_task (vote_of key msg u) t))) = approvedState"
proof -
  let ?o = "vote_of key msg u"
  note k = gate_open_key [OF assms(1)]
  have o: "op_Input ?o = hasApproved" "op_Username ?o = ui_Username u" and uo: "user_of ?o = u"
    by (simp_all add: command_options_def user_of_def)
  have w: "waiting_for required D t" and rd: "ready env (ro_Run r)" and it: "in_time env (ro_Run r) t" and kd: "keyed (ro_Run r) t"
    and ky: "key = object_key (cr_Meta (ro_Run r))"
    using assms(1,5) by (simp_all add: gate_open_def)
  have adm: "admits t (updated_task ?o t) u"
    using vote_admitted [OF w assms(6) _ assms(8) o(1)] assms(7,9) o(2) uo by simp
  obtain out s where c: "approve_command None (Inr u) (Inr ()) (as_user u) (nn_Name key) (nn_Namespace key) msg (w_api w) = (Inr out, s)"
    and l: "lookup s (ro_namespace r) (ro_name r) = Some (updated_task ?o t)" and rs: "runs s = runs (w_api w)"
    unfolding approve_command_def
    by (rule vote_stored [of "w_api w" "nn_Namespace key" "nn_Name key" t "''approve''" msg u "''approved''" "()"])
      (use assms(3,8) k adm in simp_all)
  let ?se = "up_to_date runs se s"
  have r: "runs s (ro_namespace r) (ro_name r) = Some r" using assms(2) k rs by simp
  have ic: "in_charge ?se r" by (rule up_to_date_in_charge [OF assms(1,4), where runs = runs, OF r])
  have kd': "keyed (ro_Run r) (updated_task ?o t)" and it': "in_time env (ro_Run r) (updated_task ?o t)"
    using kd it by (simp_all add: keyed_def)
  obtain w' r' where h: "Reconcile_key ?se env cl rc (safeKey (object_key (cr_Meta (ro_Run r)))) (w\<lparr>w_api := s\<rparr>) =
       (Some (MultiErr [RequeueErr (delay_of env (ro_Run r) (updated_task ?o t))]), w')"
    and r': "runs (w_api w') (ro_namespace r) (ro_name r) = Some r'" "r' = with_status_of r r'"
    and eq: "status_equal r' (PostProcessReconcile (se_now_post ?se) ((PreProcessReconcile (se_now_pre ?se) r)
       \<lparr>ro_Run := next_run env (ro_Run (PreProcessReconcile (se_now_pre ?se) r)) (updated_task ?o t)\<rparr>) r)"
    and l': "lookup (w_api w') (ro_namespace r) (ro_name r) = Some (stored_after env (updated_task ?o t))"
    by (rule key_reconciled_as [OF ic rd _ _ kd' it', of "w\<lparr>w_api := s\<rparr>"]) (use r l in simp_all)
  have "kept lookup (ro_namespace r) (ro_name r) s" using l k(3) by (simp add: kept_def named_def)
  then have h': "snd (Reconcile_key ?se env (as_user ctl) rc (safeKey key) (w\<lparr>w_api := s\<rparr>)) = w'"
    using Reconcile_key_guarded [OF ic rd, of "w\<lparr>w_api := s\<rparr>"] h ky by simp
  note n = gate_open_next [OF assms(1,5,6) _ assms(8) o(1) _ r'(2) eq, unfolded o(2), OF assms(7,9)]
  show thesis
    by (rule that [of w' r']) (use c h' r'(1) l' k n in simp_all)
qed

text \<open>As many people as are missing, one after the other, open the gate.\<close>

lemma rounds_open:
  assumes "gate_open key envs required D r t" and "runs (w_api w) (nn_Namespace key) (nn_Name key) = Some r"
    and "lookup (w_api w) (nn_Namespace key) (nn_Name key) = Some t" and "se_IsLeaderFor se (nn_Namespace key) (nn_Name key)"
    and "distinct (map (\<lambda>x. ui_Username (fst x)) us)" and "us \<noteq> []" and "int (card D + length us) = required"
    and "\<forall>x \<in> set us. snd x \<in> envs \<and> ui_Username (fst x) \<notin> D \<and> user_name_ok (ui_Username (fst x))
           \<and> addressed (vote_of key msg (fst x)) (sp_Approvers (at_Spec t))"
    and "Compute (voted key msg (map fst us) (sp_Approvers (at_Spec t)))
           \<noteq> map_index (om_Annotations (at_Meta t)) LastAppliedHashKey"
  shows "\<exists>w' r' t'. rounds as_user ctl rc runs se key msg us w = Some w'
    \<and> runs (w_api w') (nn_Namespace key) (nn_Name key) = Some r' \<and> IsSuccessful (ro_Run r')
    \<and> lookup (w_api w') (nn_Namespace key) (nn_Name key) = Some t' \<and> st_State (at_Status t') = approvedState
    \<and> sp_Approvers (at_Spec t') = voted key msg (map fst us) (sp_Approvers (at_Spec t))"
  using assms
proof (induction us arbitrary: D r t w)
  case (Cons x us)
  obtain u env where x: "x = (u, env)" by force
  let ?t = "updated_task (vote_of key msg u) t"
  have h: "env \<in> envs" "ui_Username u \<notin> D" "user_name_ok (ui_Username u)"
    "addressed (vote_of key msg u) (sp_Approvers (at_Spec t))"
    using Cons.prems(8) x by auto
  have lt: "int (card D) < required" using Cons.prems(7) by simp
  have fin: "finite D" using Cons.prems(1) by (simp add: gate_open_def waiting_for_def)
  have ap: "sp_Approvers (at_Spec ?t) = voted key msg [u] (sp_Approvers (at_Spec t))" by (simp add: voted_def)
  obtain w1 r1 where s: "rounds as_user ctl rc runs se key msg ((u, env) # us) w = rounds as_user ctl rc runs se key msg us w1"
    and r1: "runs (w_api w1) (nn_Namespace key) (nn_Name key) = Some r1"
    and t1: "lookup (w_api w1) (nn_Namespace key) (nn_Name key) = Some (stored_after env ?t)"
    and more: "int (Suc (card D)) < required \<Longrightarrow> gate_open key envs required (insert (ui_Username u) D) r1 (stored_after env ?t)"
    and full: "int (Suc (card D)) = required \<Longrightarrow> hash_changed env ?t \<Longrightarrow>
       IsSuccessful (ro_Run r1) \<and> st_State (at_Status (stored_after env ?t)) = approvedState"
    by (rule round_played [OF Cons.prems(1-4) h(1) lt h(2) h(4,3), where ctl = ctl and us = us]; rule that; blast)
  show ?case
  proof (cases us)
    case Nil
    then have "hash_changed env ?t" using Cons.prems(9) x by (simp add: hash_changed_def voted_def)
    then have "IsSuccessful (ro_Run r1) \<and> st_State (at_Status (stored_after env ?t)) = approvedState"
      using Nil Cons.prems(7) by (intro full) simp_all
    moreover have "rounds as_user ctl rc runs se key msg (x # us) w = Some w1" using s x Nil by simp
    ultimately show ?thesis using r1 t1 ap x Nil by auto
  next
    case (Cons y ys)
    have fresh: "ui_Username (fst z) \<noteq> ui_Username u" if "z \<in> set us" for z
      using Cons.prems(5) x that by (simp add: image_iff) metis
    have ok: "\<forall>z \<in> set us. snd z \<in> envs \<and> ui_Username (fst z) \<notin> insert (ui_Username u) D
        \<and> user_name_ok (ui_Username (fst z))
        \<and> addressed (vote_of key msg (fst z)) (sp_Approvers (at_Spec (stored_after env ?t)))"
      using Cons.prems(8) x fresh by simp
    have "\<exists>w' r' t'. rounds as_user ctl rc runs se key msg us w1 = Some w'
      \<and> runs (w_api w') (nn_Namespace key) (nn_Name key) = Some r' \<and> IsSuccessful (ro_Run r')
      \<and> lookup (w_api w') (nn_Namespace key) (nn_Name key) = Some t' \<and> st_State (at_Status t') = approvedState
      \<and> sp_Approvers (at_Spec t') = voted key msg (map fst us) (sp_Approvers (at_Spec (stored_after env ?t)))"
    proof (rule Cons.IH [OF _ r1 t1 Cons.prems(4) _ _ _ ok])
      show "gate_open key envs required (insert (ui_Username u) D) r1 (stored_after env ?t)"
        using Cons.prems(7) Cons by (intro more) simp
      show "int (card (insert (ui_Username u) D) + length us) = required" using Cons.prems(7) fin h(2) by simp
    qed (use Cons.prems(5,9) x Cons in \<open>simp_all add: voted_def\<close>)
    then show ?thesis using s x by (simp add: voted_def)
  qed
qed simp

text \<open>The first handling of a run's key creates the task through the webhook, and leaves an open gate.\<close>

lemma new_task_cong: "cr_Meta run = cr_Meta run' \<Longrightarrow> new_task run acc = new_task run' acc"
  by (simp add: new_task_def)

lemma gate_starts:
  assumes "runs (w_api w) (nn_Namespace key) (nn_Name key) = Some r" and "lookup (w_api w) (nn_Namespace key) (nn_Name key) = None"
    and "key = object_key (cr_Meta (ro_Run r))" and "IsZero (ro_DeletionTimestamp r)"
    and "CHR ''/'' \<notin> set (nn_Namespace key)" and "CHR ''/'' \<notin> set (nn_Name key)"
    and "se_IsLeaderFor se (nn_Namespace key) (nn_Name key)" and "env0 \<in> envs"
    and "\<forall>env \<in> envs. ready env (ro_Run r) \<and> (\<forall>xs. set (e_map_order env xs) = set xs)"
    and "\<And>t env. om_CreationTimestamp (at_Meta t) = stamp (w_api w) 0 \<Longrightarrow> st_StartTime (at_Status t) = None \<Longrightarrow>
           env \<in> envs \<Longrightarrow> in_time env (ro_Run r) t"
  obtains acc t r' w' where
    "snd (Reconcile_key (up_to_date runs se (w_api w)) env0 (as_user ctl) rc (safeKey key) w) = w'"
    "create_params (cr_Params (ro_Run r)) create_init = Inr acc" "same_sent t (new_task (ro_Run r) acc)"
    "runs (w_api w') (nn_Namespace key) (nn_Name key) = Some r'"
    "lookup (w_api w') (nn_Namespace key) (nn_Name key) = Some t"
    "gate_open key envs (ca_number acc) {} r' t"
proof -
  let ?se = "up_to_date runs se (w_api w)" and ?p = "ro_Run (PreProcessReconcile (se_now_pre (up_to_date runs se (w_api w))) r)"
  have rd: "ready env0 (ro_Run r)" using assms(8,9) by blast
  have rp: "ready env0 ?p" by (rule PreProcess_ready [OF disjI1 [OF rd]])
  have k: "nn_Namespace key = ro_namespace r" "nn_Name key = ro_name r" using assms(3) by simp_all
  have ic: "in_charge ?se r" using assms(1,4-7) k by (simp add: in_charge_def up_to_date_def)
  have miss: "lookup (w_api w) (run_ns ?p) (run_name ?p) = None" using assms(2) k by simp
  obtain acc t where acc: "create_params (cr_Params ?p) create_init = Inr acc" and c: "created_task env0 ?p acc t"
    and st: "om_CreationTimestamp (at_Meta t) = stamp (w_api w) 0"
    and kd: "in_time env0 ?p t \<Longrightarrow>
       \<exists>w'. ReconcileKind env0 cl ?p w = (Some (MultiErr [RequeueErr (delay_of env0 ?p t)]), next_run env0 ?p t, w')
         \<and> (\<forall>ns n. lookup (w_api w') ns n = (if ns = run_ns ?p \<and> n = run_name ?p then Some t else lookup (w_api w) ns n))"
    by (rule kind_fresh_as [OF rp miss]; rule that; blast)
  have s: "at_Status t = initial_status acc" and sent: "same_sent t (new_task (ro_Run r) acc)"
    using c new_task_cong [of ?p "ro_Run r"] by (simp_all add: created_task_def)
  have it: "in_time env (ro_Run r) t" if "env \<in> envs" for env
    by (rule assms(10) [OF st _ that]) (simp add: s initial_status_def)
  then obtain w1 where k1: "ReconcileKind env0 cl ?p w =
      (Some (MultiErr [RequeueErr (delay_of env0 ?p t)]), next_run env0 ?p t, w1)"
    and l1: "lookup (w_api w1) (ro_namespace r) (ro_name r) = Some t"
    using kd assms(8) by auto
  have r: "runs (w_api w) (ro_namespace r) (ro_name r) = Some r" using assms(1) k by simp
  obtain w' r' where h: "Reconcile_key ?se env0 cl rc (safeKey (object_key (cr_Meta (ro_Run r)))) w =
      (Some (MultiErr [RequeueErr (delay_of env0 ?p t)]), w')"
    and l: "lookup (w_api w') = lookup (w_api w1)" and r': "r' = with_status_of r r'"
    and eq: "status_equal r' (PostProcessReconcile (se_now_post ?se)
       ((PreProcessReconcile (se_now_pre ?se) r)\<lparr>ro_Run := next_run env0 ?p t\<rparr>) r)"
    and rs: "runs (w_api w') (ro_namespace r) (ro_name r) = Some r'"
    by (rule key_stores_status [OF ic r k1]) (rule that, assumption, assumption, assumption, assumption, simp)
  have "kept lookup (ro_namespace r) (ro_name r) (w_api w)" using assms(2) k by (simp add: kept_def)
  then have h': "snd (Reconcile_key ?se env0 (as_user ctl) rc (safeKey key) w) = w'"
    using Reconcile_key_guarded [OF ic rd, of w] h assms(3) by simp
  have f: "initial t" by (rule created_initial [OF ready_valid_run [OF rp] acc c])
  have "sp_NumberOfApprovalsRequired (at_Spec t) = ca_number acc"
    using created_task_facts(4) [OF c] by (simp add: new_task_def Let_def)
  then have "waiting_for (ca_number acc) {} t" using initial_waiting [OF f] s by (simp add: initial_status_def)
  moreover have q: "same_request (ro_Run r') (ro_Run r)" "cr_Timeout (ro_Run r') = cr_Timeout (ro_Run r)"
    and dt: "ro_DeletionTimestamp r' = ro_DeletionTimestamp r"
    by (subst r', simp add: same_request_def with_status_of_def)+
  moreover have "run_status (ro_Run r') = ConditionUnknown"
    using status_equal_run_status [OF eq] next_run_status(3) [OF rp, of t] created_task_facts(2) [OF c] rp
    by (simp add: ready_def run_status_iff)
  then have "ready env (ro_Run r')" if "env \<in> envs" for env
    using ready_again [OF rd _ eq r'] assms(9) that by blast
  moreover have "in_time env (ro_Run r') t" if "env \<in> envs" for env using in_time_cong [OF q] it [OF that] by simp
  moreover have "keyed (ro_Run r') t" using created_task_facts(1) [OF c] q(1) by (simp add: keyed_def same_request_def)
  ultimately have "gate_open key envs (ca_number acc) {} r' t"
    using assms(3-6,9) by (auto simp: gate_open_def same_request_def)
  then show thesis using that [OF h' _ sent _ _] acc rs l l1 k by simp
qed

end

end
