(* ===== verification/Task_Codec.thy ===== *)
theory Task_Codec
  imports Api_Server
begin

text \<open>
  A wire format for tasks, with which the assumption of the API server's interface on the codec of the
  requests is met: a printer and a parser per type, each parser reading back what its printer wrote and
  leaving what follows. Kubernetes sends JSON; what the program relies on is the round trip alone.
\<close>

subsection \<open>Printers with their parsers\<close>

type_synonym 'a wire = "('a \<Rightarrow> string) \<times> (string \<Rightarrow> ('a \<times> string) option)"

definition wire_ok :: "'a wire \<Rightarrow> bool" where
  "wire_ok w \<longleftrightarrow> (\<forall>x rest. snd w (fst w x @ rest) = Some (x, rest))"

lemma wire_okD [simp]: "wire_ok w \<Longrightarrow> snd w (fst w x @ rest) = Some (x, rest)"
  by (simp add: wire_ok_def)

named_theorems wires

fun read_char :: "string \<Rightarrow> (char \<times> string) option" where
  "read_char [] = None"
| "read_char (c # s) = Some (c, s)"

definition w_char :: "char wire" where
  "w_char = (\<lambda>c. [c], read_char)"

definition w_map :: "('a \<Rightarrow> 'b) \<Rightarrow> ('b \<Rightarrow> 'a) \<Rightarrow> 'b wire \<Rightarrow> 'a wire" where
  "w_map f g w = (\<lambda>x. fst w (f x), \<lambda>s. map_option (\<lambda>(y, rest). (g y, rest)) (snd w s))"

definition w_pair :: "'a wire \<Rightarrow> 'b wire \<Rightarrow> ('a \<times> 'b) wire" where
  "w_pair v w = (\<lambda>(x, y). fst v x @ fst w y,
     \<lambda>s. Option.bind (snd v s) (\<lambda>(x, s'). map_option (\<lambda>(y, rest). ((x, y), rest)) (snd w s')))"

fun read_nat :: "string \<Rightarrow> (nat \<times> string) option" where
  "read_nat [] = None"
| "read_nat (c # s) = (if c = CHR ''.'' then Some (0, s) else map_option (\<lambda>(n, rest). (Suc n, rest)) (read_nat s))"

definition w_nat :: "nat wire" where
  "w_nat = (\<lambda>n. replicate n CHR ''i'' @ ''.'', read_nat)"

definition w_bool :: "bool wire" where
  "w_bool = w_map (\<lambda>b. if b then CHR ''t'' else CHR ''f'') (\<lambda>c. c = CHR ''t'') w_char"

definition w_int :: "int wire" where
  "w_int = w_map (\<lambda>i. (i < 0, nat \<bar>i\<bar>)) (\<lambda>(neg, n). if neg then - int n else int n) (w_pair w_bool w_nat)"

text \<open>A list is its length and its items.\<close>

primrec read_items :: "'a wire \<Rightarrow> nat \<Rightarrow> string \<Rightarrow> ('a list \<times> string) option" where
  "read_items w 0 s = Some ([], s)"
| "read_items w (Suc n) s =
     Option.bind (snd w s) (\<lambda>(x, s'). map_option (\<lambda>(xs, rest). (x # xs, rest)) (read_items w n s'))"

definition w_list :: "'a wire \<Rightarrow> 'a list wire" where
  "w_list w = (\<lambda>xs. fst w_nat (length xs) @ concat (map (fst w) xs),
     \<lambda>s. Option.bind (snd w_nat s) (\<lambda>(n, s'). read_items w n s'))"

definition w_option :: "'a wire \<Rightarrow> 'a option wire" where
  "w_option w = w_map (\<lambda>x. case x of None \<Rightarrow> [] | Some y \<Rightarrow> [y]) (\<lambda>xs. case xs of [] \<Rightarrow> None | y # ys \<Rightarrow> Some y) (w_list w)"

lemma w_char_ok [wires]: "wire_ok w_char"
  by (simp add: wire_ok_def w_char_def)

lemma w_map_ok [wires]: "wire_ok w \<Longrightarrow> (\<And>x. g (f x) = x) \<Longrightarrow> wire_ok (w_map f g w)"
  by (simp add: wire_ok_def w_map_def)

lemma w_pair_ok [wires]: "wire_ok v \<Longrightarrow> wire_ok w \<Longrightarrow> wire_ok (w_pair v w)"
  by (simp add: wire_ok_def w_pair_def)

lemma read_nat_printed: "read_nat (replicate n CHR ''i'' @ CHR ''.'' # rest) = Some (n, rest)"
  by (induction n) simp_all

lemma w_nat_ok [wires]: "wire_ok w_nat"
  by (simp add: wire_ok_def w_nat_def read_nat_printed)

lemma w_bool_ok [wires]: "wire_ok w_bool"
  unfolding w_bool_def by (rule w_map_ok [OF w_char_ok]) simp

lemma w_int_ok [wires]: "wire_ok w_int"
  unfolding w_int_def by (rule w_map_ok [OF w_pair_ok [OF w_bool_ok w_nat_ok]]) simp

lemma read_items_printed:
  "wire_ok w \<Longrightarrow> read_items w (length xs) (concat (map (fst w) xs) @ rest) = Some (xs, rest)"
  by (induction xs) simp_all

lemma w_list_ok [wires]:
  assumes "wire_ok w"
  shows "wire_ok (w_list w)"
proof -
  have "snd (w_list w) (fst (w_list w) xs @ rest) = Some (xs, rest)" for xs rest
    by (simp add: w_list_def w_nat_ok read_items_printed [OF assms])
  then show ?thesis by (simp add: wire_ok_def)
qed

lemma w_option_ok [wires]: "wire_ok w \<Longrightarrow> wire_ok (w_option w)"
  unfolding w_option_def by (rule w_map_ok [OF w_list_ok]) (simp_all split: option.split)

subsection \<open>The fields of a task\<close>

abbreviation w_string :: "string wire" where "w_string \<equiv> w_list w_char"

definition w_str_map :: "str_map wire" where
  "w_str_map = w_map sorted_list_of_fmap fmap_of_list (w_list (w_pair w_string w_string))"

definition w_owner :: "owner_reference wire" where
  "w_owner = w_map (\<lambda>r. ((or_APIVersion r, or_Kind r), (or_Name r, or_UID r), or_BlockOwnerDeletion r, or_Controller r))
     (\<lambda>((a, k), (n, u), b, c). \<lparr>or_APIVersion = a, or_Kind = k, or_Name = n, or_UID = u, or_BlockOwnerDeletion = b,
        or_Controller = c\<rparr>)
     (w_pair (w_pair w_string w_string) (w_pair (w_pair w_string w_string) (w_pair w_bool w_bool)))"

definition w_meta :: "object_meta wire" where
  "w_meta = w_map (\<lambda>m. ((om_Name m, om_Namespace m), om_UID m, (om_Labels m, om_Annotations m), om_CreationTimestamp m,
        om_OwnerReferences m)
     ) (\<lambda>((n, ns), u, (l, a), c, os). \<lparr>om_Name = n, om_Namespace = ns, om_UID = u, om_Labels = l, om_Annotations = a,
        om_CreationTimestamp = c, om_OwnerReferences = os\<rparr>)
     (w_pair (w_pair w_string w_string) (w_pair w_string
       (w_pair (w_pair (w_option w_str_map) (w_option w_str_map)) (w_pair w_int (w_list w_owner)))))"

definition w_user :: "user_details wire" where
  "w_user = w_map (\<lambda>u. (ud_Name u, ud_Input u, ud_Message u)) (\<lambda>(n, i, m). \<lparr>ud_Name = n, ud_Input = i, ud_Message = m\<rparr>)
     (w_pair w_string (w_pair w_string w_string))"

definition w_approver :: "approver_details wire" where
  "w_approver = w_map (\<lambda>a. ((ad_Name a, ad_Input a), (ad_Message a, ad_Type a), ad_Users a))
     (\<lambda>((n, i), (m, t), us). \<lparr>ad_Name = n, ad_Input = i, ad_Message = m, ad_Type = t, ad_Users = us\<rparr>)
     (w_pair (w_pair w_string w_string) (w_pair (w_pair w_string w_string) (w_list w_user)))"

definition w_spec :: "approval_task_spec wire" where
  "w_spec = w_map (\<lambda>s. (sp_Approvers s, sp_NumberOfApprovalsRequired s, sp_Description s))
     (\<lambda>(as, n, d). \<lparr>sp_Approvers = as, sp_NumberOfApprovalsRequired = n, sp_Description = d\<rparr>)
     (w_pair (w_list w_approver) (w_pair w_int w_string))"

definition w_member :: "group_member_state wire" where
  "w_member = w_map (\<lambda>g. (gm_Name g, gm_Response g, gm_Message g))
     (\<lambda>(n, r, m). \<lparr>gm_Name = n, gm_Response = r, gm_Message = m\<rparr>) (w_pair w_string (w_pair w_string w_string))"

definition w_response :: "approver_state wire" where
  "w_response = w_map (\<lambda>r. ((as_Name r, as_Response r), (as_Message r, as_Type r), as_GroupMembers r))
     (\<lambda>((n, r), (m, t), gs). \<lparr>as_Name = n, as_Response = r, as_Message = m, as_Type = t, as_GroupMembers = gs\<rparr>)
     (w_pair (w_pair w_string w_string) (w_pair (w_pair w_string w_string) (w_list w_member)))"

definition w_status :: "approval_task_status wire" where
  "w_status = w_map (\<lambda>s. ((st_State s, st_Approvers s), (st_ApproversResponse s, st_StartTime s), st_ApprovalsRequired s,
        st_ApprovalsReceived s))
     (\<lambda>((s, as), (rs, t), n, k). \<lparr>st_State = s, st_Approvers = as, st_ApproversResponse = rs, st_StartTime = t,
        st_ApprovalsRequired = n, st_ApprovalsReceived = k\<rparr>)
     (w_pair (w_pair w_string (w_list w_string)) (w_pair (w_pair (w_list w_response) (w_option w_int)) (w_pair w_int w_int)))"

definition w_task :: "approval_task wire" where
  "w_task = w_map (\<lambda>t. (at_Meta t, at_Spec t, at_Status t))
     (\<lambda>(m, s, st). \<lparr>at_Meta = m, at_Spec = s, at_Status = st\<rparr>) (w_pair w_meta (w_pair w_spec w_status))"

lemma fmap_of_sorted [simp]: "fmap_of_list (sorted_list_of_fmap m) = m"
  by (rule fmap_ext) (simp add: fmlookup_of_list)

lemma w_task_ok: "wire_ok w_task"
  unfolding w_task_def w_status_def w_response_def w_member_def w_spec_def w_approver_def w_user_def w_meta_def w_owner_def
    w_str_map_def
  by (intro wires) simp_all

definition encode_task :: "approval_task \<Rightarrow> string" where
  "encode_task t = CHR ''{'' # fst w_task t"

definition decode_task :: "string \<Rightarrow> string + approval_task" where
  "decode_task s = (case snd w_task (drop 1 s) of Some (t, []) \<Rightarrow> Inr t | _ \<Rightarrow> Inl ''invalid object'')"

lemma task_codec: "codec encode_task decode_task"
  using wire_okD [OF w_task_ok, of _ "[]"] by (simp add: codec_def encode_task_def decode_task_def)

interpretation guarded: guarded_api "crd_tasks now" cluster_task "\<lambda>s c. now" fake_runs cluster_run
  "behind_webhook now encode_task decode_task refusal" encode_task decode_task
  by (rule guarded_behind_webhook [OF task_codec])

end
