(* ===== verification/Sha_Eval.thy ===== *)
theory Sha_Eval
  imports Go_Sha256
begin

text \<open>
  Evaluation of SHA-256 on concrete messages by rewriting: the message schedule as a list that grows at its
  head, and the operations of a round on numerals, with sums reduced to 32 bits at once and a rotation as
  two divisions. The rules are checked on the one-block message of FIPS 180-4's examples.
\<close>

subsection \<open>The schedule\<close>

definition next_word :: "u32 list \<Rightarrow> u32" where
  "next_word r = small_sigma1 (r ! 1) + r ! 6 + small_sigma0 (r ! 14) + r ! 15"

fun schedule :: "nat \<Rightarrow> u32 list \<Rightarrow> u32 list" where
  "schedule 0 r = r"
| "schedule (Suc n) r = schedule n (next_word r # r)"

lemma sha_extend_schedule: "16 \<le> length r \<Longrightarrow> sha_extend n (rev r) = rev (schedule n r)"
proof (induction n arbitrary: r)
  case (Suc n)
  have "next_word r = small_sigma1 (rev r ! (length r - 2)) + rev r ! (length r - 7)
      + small_sigma0 (rev r ! (length r - 15)) + rev r ! (length r - 16)"
    using Suc.prems by (simp add: next_word_def rev_nth)
  then show ?case using Suc.IH [of "next_word r # r"] Suc.prems by (simp add: Let_def)
qed simp

text \<open>A block given by its sixteen words.\<close>

definition sha_words :: "u32 list \<Rightarrow> u32 list \<Rightarrow> u32 list" where
  "sha_words ws st = map2 (+) st (fold sha_round (zip sha_K (rev (schedule 48 (rev ws)))) st)"

lemma sha_block_words:
  assumes "map be_word (chunks 16 4 blk) = ws" and "length ws = 16"
  shows "sha_block blk st = sha_words ws st"
  using sha_extend_schedule [of "rev ws" 48] assms by (simp add: sha_block_def sha_words_def)

definition message_words :: "string \<Rightarrow> u32 list list" where
  "message_words s = (let m = sha_pad s in map (\<lambda>blk. map be_word (chunks 16 4 blk)) (chunks (length m div 64) 64 m))"

lemma length_chunks [simp]: "length (chunks n k xs) = n"
  by (induction n arbitrary: xs) simp_all

lemma sha256_words: "sha256 s = concat (map word_bytes (fold sha_words (message_words s) sha_init))"
proof -
  have "fold sha_block bs st = fold sha_words (map (\<lambda>blk. map be_word (chunks 16 4 blk)) bs) st" for bs st
    by (induction bs arbitrary: st) (simp_all add: sha_block_words)
  then show ?thesis by (simp add: sha256_def message_words_def Let_def)
qed

subsection \<open>Numerals\<close>

lemma chunks_numeral: "chunks (numeral n) k xs = take k xs # chunks (pred_numeral n) k (drop k xs)"
  by (simp add: numeral_eq_Suc)

lemma replicate_numeral: "replicate (numeral n) x = x # replicate (pred_numeral n) x"
  by (simp add: numeral_eq_Suc)

lemma schedule_numeral: "schedule (numeral n) r = schedule (pred_numeral n) (next_word r # r)"
  by (simp add: numeral_eq_Suc)

definition reduced :: "u32 \<Rightarrow> u32" where
  "reduced w = w"

lemma uint_small: "0 \<le> x \<Longrightarrow> x < 4294967296 \<Longrightarrow> uint (word_of_int x :: u32) = x"
  by (simp add: uint_word_of_int)

lemma uint_numeral_small: "(numeral k :: int) < 4294967296 \<Longrightarrow> uint (numeral k :: u32) = numeral k"
  using uint_small [of "numeral k"] by (simp only: of_int_numeral zero_le_numeral simp_thms)

lemma word_of_mod: "word_of_int (x mod 2 ^ 32) = (word_of_int x :: u32)"
  by (rule word_uint_eqI) (simp add: uint_word_of_int)

text \<open>
  The quotient by a power of two is a \<open>drop_bit\<close>, and the remainder what the quotient leaves: both cost few
  rewrite steps on numerals.
\<close>

definition rest_of :: "int \<Rightarrow> nat \<Rightarrow> int \<Rightarrow> int" where
  "rest_of x n q = x - q * 2 ^ n"

lemma rest_of_drop: "rest_of x n (drop_bit n x) = x mod 2 ^ n"
  by (simp add: rest_of_def drop_bit_eq_div minus_div_mult_eq_mod)

definition glued :: "nat \<Rightarrow> int \<Rightarrow> int \<Rightarrow> int" where
  "glued n x q = q + rest_of x n q * 2 ^ (32 - n)"

lemma reduced_numeral: "reduced (numeral n) = word_of_int (rest_of (numeral n) 32 (drop_bit 32 (numeral n)))"
  unfolding rest_of_drop word_of_mod reduced_def by (simp only: of_int_numeral)

lemma uint_self: "take_bit 32 (uint w) = uint w" for w :: u32
  using uint_bounded [of w] by (subst take_bit_int_eq_self) simp_all

lemma uint_rotr:
  assumes "n \<le> 32"
  shows "uint (rotr n w) = uint w div 2 ^ n + uint w mod 2 ^ n * 2 ^ (32 - n)"
proof -
  have "uint (rotr n w) = take_bit (32 - n) (drop_bit n (uint w)) OR push_bit (32 - n) (take_bit n (uint w))"
    using assms uint_self [of w]
    by (simp add: rotr_def uint_or unsigned_push_bit_eq unsigned_drop_bit_eq take_bit_push_bit take_bit_drop_bit)
  also have "\<dots> = concat_bit (32 - n) (drop_bit n (uint w)) (take_bit n (uint w))" by (simp add: concat_bit_def)
  also have "\<dots> = drop_bit n (uint w) + push_bit (32 - n) (take_bit n (uint w))"
    using assms uint_self [of w] by (simp add: concat_bit_eq take_bit_drop_bit)
  finally show ?thesis by (simp add: drop_bit_eq_div push_bit_eq_mult take_bit_eq_mod)
qed

lemma rotr_numeral:
  assumes "(numeral k :: int) < 4294967296" and "numeral n \<le> (32::nat)"
  shows "rotr (numeral n) (numeral k) = word_of_int (glued (numeral n) (numeral k) (drop_bit (numeral n) (numeral k)))"
proof -
  have "uint (rotr (numeral n) (numeral k)) = glued (numeral n) (numeral k) (drop_bit (numeral n) (numeral k))"
    unfolding uint_rotr [OF assms(2)] uint_numeral_small [OF assms(1)] glued_def rest_of_drop
    by (simp only: drop_bit_eq_div)
  then show ?thesis by (metis word_of_int_uint)
qed

lemma rotr_small:
  "rotr m 0 = 0"
  "numeral n \<le> (32::nat) \<Longrightarrow> rotr (numeral n) 1 = word_of_int (glued (numeral n) 1 (drop_bit (numeral n) 1))"
  using rotr_numeral [of num.One n] by (simp add: rotr_def, simp only: numeral_One)

lemma drop_numeral:
  assumes "(numeral k :: int) < 4294967296"
  shows "drop_bit n (numeral k :: u32) = word_of_int (drop_bit n (numeral k))"
proof -
  have "uint (drop_bit n w) = drop_bit n (uint w)" for w :: u32
    unfolding unsigned_drop_bit_eq by (simp add: uint_self)
  then show ?thesis using uint_numeral_small [OF assms(1)] by (metis word_of_int_uint)
qed

lemma reduced_small: "reduced 0 = 0" "reduced 1 = 1"
  by (simp_all add: reduced_def)

lemma next_word_eval: "next_word r = reduced (small_sigma1 (r ! 1) + r ! 6 + small_sigma0 (r ! 14) + r ! 15)"
  by (simp add: next_word_def reduced_def)

lemma sha_round_eval:
  "sha_round (k, w) [a, b, c, d, e, f, g, h] =
     (let t1 = reduced (h + big_sigma1 e + sha_ch e f g + k + w);
          t2 = big_sigma0 a + sha_maj a b c
      in [reduced (t1 + t2), a, b, c, reduced (d + t1), e, f, g])"
  by (simp add: reduced_def)

lemma sha_words_eval:
  "sha_words ws st = map2 (\<lambda>x y. reduced (x + y)) st (fold sha_round (zip sha_K (rev (schedule 48 (rev ws)))) st)"
  by (simp add: sha_words_def reduced_def)

lemmas message_eval = message_words_def sha_pad_def be_bytes_def upt_conv_Cons be_word_def chunks_numeral replicate_numeral

lemmas sha_eval = big_sigma0_def big_sigma1_def small_sigma0_def small_sigma1_def sha_ch_def sha_maj_def
  rotr_numeral rotr_small glued_def rest_of_def drop_numeral reduced_numeral reduced_small next_word_eval sha_round_eval schedule_numeral
  sha_words_eval sha_K_def sha_init_def

lemma hex_digits:
  "hex_digit 0 = CHR ''0''"
  "hex_digit (Suc 0) = CHR ''1''"
  "hex_digit 2 = CHR ''2''"
  "hex_digit 3 = CHR ''3''"
  "hex_digit 4 = CHR ''4''"
  "hex_digit 5 = CHR ''5''"
  "hex_digit 6 = CHR ''6''"
  "hex_digit 7 = CHR ''7''"
  "hex_digit 8 = CHR ''8''"
  "hex_digit 9 = CHR ''9''"
  "hex_digit 10 = CHR ''a''"
  "hex_digit 11 = CHR ''b''"
  "hex_digit 12 = CHR ''c''"
  "hex_digit 13 = CHR ''d''"
  "hex_digit 14 = CHR ''e''"
  "hex_digit 15 = CHR ''f''"
  by (simp_all add: hex_digit_def char_of_def bit_0)

lemmas digest_eval = word_bytes_def be_bytes_def upt_conv_Cons hex_def hex_digits

subsection \<open>An example of the standard\<close>

lemma abc_words: "message_words ''abc'' = [[1633837952, 0, 0, 0, 0, 0, 0, 0, 0, 0, 0, 0, 0, 0, 0, 24]]"
  by (simp add: message_eval)

lemma abc_block:
  "sha_words [1633837952, 0, 0, 0, 0, 0, 0, 0, 0, 0, 0, 0, 0, 0, 0, 24] sha_init =
     [3128432319, 2399260650, 1094795486, 1571693091, 2953011619, 2518121116, 3021012833, 4060091821]"
  by (simp add: sha_eval del: sha_round.simps)

lemma sha256_abc: "hex (sha256 ''abc'') = ''ba7816bf8f01cfea414140de5dae2223b00361a396177a9cb410ff61f20015ad''"
  by (simp add: sha256_words abc_words abc_block digest_eval)

end
