(* ===== verification/Vote_Samples.thy ===== *)
theory Vote_Samples
  imports Gate_Samples Vote_Rounds Task_Codec Sha_Eval
begin

text \<open>
  A run that two people must approve, from its first handling to its success: what is asked of them, what
  their votes make of it, and the digests of both, which the controller compares.
\<close>

definition pair_run :: run_object where
  "pair_run = robj0\<lparr>ro_Run := run0\<lparr>cr_Params :=
     [ArrayParam ''approvers'' [''alice'', ''bob''], StringParam ''numberOfApprovalsRequired'' ''2'']\<rparr>\<rparr>"

definition asked_pair :: "approver_details list" where
  "asked_pair = [pending_user ''alice'', pending_user ''bob'']"

definition given_pair :: "approver_details list" where
  "given_pair = [(pending_user ''alice'')\<lparr>ad_Input := ''approve''\<rparr>, (pending_user ''bob'')\<lparr>ad_Input := ''approve''\<rparr>]"

definition alice0 :: user_info where
  "alice0 = \<lparr>ui_Username = ''alice'', ui_Groups = []\<rparr>"

definition bob0 :: user_info where
  "bob0 = \<lparr>ui_Username = ''bob'', ui_Groups = []\<rparr>"

definition pair_acc :: create_acc where
  "pair_acc = fold add_approver [''alice'', ''bob''] create_init\<lparr>ca_number := 2\<rparr>"

definition fresh_world :: "fake_cluster world" where
  "fresh_world = \<lparr>w_api = (fmempty, fmupd (''prod'', ''deploy'') pair_run fmempty), w_events = [], w_patches = []\<rparr>"

subsection \<open>The digests\<close>

text \<open>The two JSON texts are of 97 bytes, two blocks each.\<close>

definition asked_words :: "u32 list list" where
  "asked_words = [
     [1534796398, 1634559266, 975331692, 1768121634, 740452718, 1886745634, 975335525, 1852074350, 1730292770,
     1954115685, 574235221, 1936028194, 2100067106, 1851878757, 574235234, 1868702252], [577334896,
     1970545210, 577791342, 1684631143, 573317748, 2037409058, 975328627, 1701978749, 1568669696, 0, 0, 0, 0,
     0, 0, 776]]"

lemma asked_block1:
  "sha_words
     [1534796398, 1634559266, 975331692, 1768121634, 740452718, 1886745634, 975335525, 1852074350, 1730292770,
     1954115685, 574235221, 1936028194, 2100067106, 1851878757, 574235234, 1868702252]
     sha_init =
     [3108608823, 4287962497, 3046543211, 3576110287, 4259307482, 1384179437, 2695015046, 2795412073]"
  by (simp add: sha_eval del: sha_round.simps)

lemma asked_block2:
  "sha_words
     [577334896, 1970545210, 577791342, 1684631143, 573317748, 2037409058, 975328627, 1701978749, 1568669696,
     0, 0, 0, 0, 0, 0, 776]
     [3108608823, 4287962497, 3046543211, 3576110287, 4259307482, 1384179437, 2695015046, 2795412073] =
     [976563890, 595293529, 1984235155, 2169513997, 2321858969, 3164575418, 1787536175, 3056240778]"
  by (simp add: sha_eval del: sha_round.simps)

definition given_words :: "u32 list list" where
  "given_words = [
     [1534796398, 1634559266, 975331692, 1768121634, 740452718, 1886745634, 975331696, 1886547830, 1696738338,
     1954115685, 574235221, 1936028194, 2100067106, 1851878757, 574235234, 1868702252], [577334896,
     1970545210, 576811120, 1919907429, 573317748, 2037409058, 975328627, 1701978749, 1568669696, 0, 0, 0, 0,
     0, 0, 776]]"

lemma given_block1:
  "sha_words
     [1534796398, 1634559266, 975331692, 1768121634, 740452718, 1886745634, 975331696, 1886547830, 1696738338,
     1954115685, 574235221, 1936028194, 2100067106, 1851878757, 574235234, 1868702252]
     sha_init =
     [4029639296, 1682160166, 2892865927, 3569761332, 83727611, 1639972943, 1475476365, 2453013640]"
  by (simp add: sha_eval del: sha_round.simps)

lemma given_block2:
  "sha_words
     [577334896, 1970545210, 576811120, 1919907429, 573317748, 2037409058, 975328627, 1701978749, 1568669696,
     0, 0, 0, 0, 0, 0, 776]
     [4029639296, 1682160166, 2892865927, 3569761332, 83727611, 1639972943, 1475476365, 2453013640] =
     [2431621731, 758913435, 1685840682, 1313458848, 1124912646, 589304849, 1962020579, 3179539095]"
  by (simp add: sha_eval del: sha_round.simps)

lemmas pair_json = marshal_approvers_def marshal_array_def marshal_approver_details_def marshal_object_def omitempty_def
  marshal_string_plain

lemma asked_message: "message_words (marshal_approvers asked_pair) = asked_words"
  by (simp add: asked_pair_def pending_user_def pair_json asked_words_def message_eval)

lemma given_message: "message_words (marshal_approvers given_pair) = given_words"
  by (simp add: given_pair_def pending_user_def pair_json given_words_def message_eval)

lemma Compute_asked: "Compute asked_pair = ''3a352eb2237b7559764506938150280d8a64c199bc9f96ba6a8ba32fb62a888a''"
  by (simp add: Compute_def sha256_words asked_message asked_words_def asked_block1 asked_block2 digest_eval)

lemma Compute_given: "Compute given_pair = ''90ef9a632d3c199b647be32a4e49caa0430cce062320141174f20ee3bd83ea97''"
  by (simp add: Compute_def sha256_words given_message given_words_def given_block1 given_block2 digest_eval)

subsection \<open>The run and its voters\<close>

lemma pair_meta: "cr_Meta (ro_Run pair_run) = meta0" "ro_DeletionTimestamp pair_run = None"
  by (simp_all add: pair_run_def run0_def robj0_def)

lemma pair_ready: "ready env0 (ro_Run pair_run)"
  by (simp add: ready_def run_conditions_ok_def conditions_ok_def IsDone_def run_condition_def pair_run_def sample_defs go_defs)

lemma pair_timeout: "run_timeout (begun env0 (ro_Run pair_run)) = 3600000000000"
  by (simp add: run_timeout_def timeout_of_def parse_timeout_def pair_run_def sample_defs StringParam_def ArrayParam_def)

lemma pair_create: "create_params (cr_Params (ro_Run pair_run)) create_init = Inr pair_acc"
  by (simp add: pair_acc_def go_defs pair_run_def sample_defs fold_add_approver_other add_approver_other)

lemma pair_acc_sel: "ca_approvers pair_acc = asked_pair" "ca_number pair_acc = 2"
  by (simp_all add: pair_acc_def asked_pair_def pending_user_def add_approver_def approver_of_def create_init_def HasPrefix_def
      Let_def)

lemma pair_stored:
  "cluster_run (w_api fresh_world) ''prod'' ''deploy'' = Some pair_run"
  "cluster_task (w_api fresh_world) ''prod'' ''deploy'' = None"
  by (simp_all add: cluster_run_def cluster_task_def tracker_lookup_def fresh_world_def)

lemma pair_addressed:
  "addressed (vote_of key [] alice0) asked_pair" "addressed (vote_of key [] bob0) asked_pair"
  "user_name_ok (ui_Username alice0)" "user_name_ok (ui_Username bob0)" "ui_Username alice0 \<noteq> ui_Username bob0"
  using task0_ok(3,4)
  by (simp_all add: addressed_def asked_pair_def pending_user_def command_options_def alice0_def bob0_def
      is_user_def DefaultedApproverType_def)

lemma pair_voted: "voted key [] [alice0, bob0] asked_pair = given_pair"
  by (simp add: voted_def update_approvers_eq changed_def set_input_def command_options_def asked_pair_def given_pair_def
      pending_user_def alice0_def bob0_def is_user_def is_group_def DefaultedApproverType_def)

lemma pair_changes: "Compute given_pair \<noteq> Compute asked_pair"
  by (simp add: Compute_asked Compute_given)


definition key_pair :: namespaced_name where
  "key_pair = object_key meta0"

lemma key_pair_sel [simp]: "nn_Namespace key_pair = ''prod''" "nn_Name key_pair = ''deploy''"
  by (simp_all add: key_pair_def sample_defs)

text \<open>A task of the two people that records no digest, and the same after their votes.\<close>

definition pair_task :: approval_task where
  "pair_task = task0\<lparr>at_Spec := spec0\<lparr>sp_Approvers := asked_pair\<rparr>\<rparr>"

definition given_task :: approval_task where
  "given_task = pair_task\<lparr>at_Spec := spec0\<lparr>sp_Approvers := given_pair\<rparr>\<rparr>"

lemma pair_task_facts:
  "keyed run0 pair_task" "in_time env0 run0 pair_task" "waiting_for 2 {} pair_task"
  "sp_Approvers (at_Spec pair_task) = asked_pair" "map_index (om_Annotations (at_Meta pair_task)) k = []"
proof -
  have "initial pair_task"
    by (simp add: initial_def spec_ok_def approver_ok_def user_name_ok_def input_ok_def all_pending_def blank_def is_user_def
        is_group_def pair_task_def asked_pair_def sample_defs go_defs)
  moreover have "st_ApproversResponse (at_Status pair_task) = []" "sp_NumberOfApprovalsRequired (at_Spec pair_task) = 2"
    by (simp_all add: pair_task_def sample_defs)
  ultimately show "waiting_for 2 {} pair_task" using initial_waiting [of pair_task] by simp
  show "in_time env0 run0 pair_task"
    unfolding in_time_def timed_out_def timeout_run0
    by (simp add: ApprovalTaskHasTimedOut_def start_task_def HasStarted_def TimeSub_def pair_task_def sample_defs)
qed (simp_all add: keyed_def pair_task_def sample_defs)

end
