(* ===== verification/Vote_Properties.thy ===== *)
theory Vote_Properties
  imports Vote_Samples
begin

text \<open>
  Properties of a gate on its way to a decision, with the API server's webhook between everybody and the
  store: the votes of as many people as are asked for end with the run as succeeded.
\<close>

text \<open>
  C7. An open gate waits for people only: when as many people whom the task names as are still missing
  run \<open>approve\<close> one after the other, each with a handling of the run's key after it, then no command is
  refused by the webhook, and at the end the run is stored as succeeded and the task as approved, with
  exactly their votes added.
\<close>

theorem enough_people_open_gate:
  assumes "codec encode decode"
    and "gate_open key envs required D r t"
    and "cluster_run (w_api w) (nn_Namespace key) (nn_Name key) = Some r"
    and "cluster_task (w_api w) (nn_Namespace key) (nn_Name key) = Some t"
    and "se_IsLeaderFor se (nn_Namespace key) (nn_Name key)"
    and "distinct (map (\<lambda>x. ui_Username (fst x)) us)" and "us \<noteq> []" and "int (card D + length us) = required"
    and "\<forall>x \<in> set us. snd x \<in> envs \<and> ui_Username (fst x) \<notin> D \<and> user_name_ok (ui_Username (fst x))
           \<and> addressed (vote_of key msg (fst x)) (sp_Approvers (at_Spec t))"
    and "Compute (voted key msg (map fst us) (sp_Approvers (at_Spec t)))
           \<noteq> map_index (om_Annotations (at_Meta t)) LastAppliedHashKey"
  shows "\<exists>w' r' t'.
    rounds (behind_webhook now encode decode refusal) ctl fake_runs cluster_run se key msg us w = Some w'
    \<and> cluster_run (w_api w') (nn_Namespace key) (nn_Name key) = Some r' \<and> IsSuccessful (ro_Run r')
    \<and> cluster_task (w_api w') (nn_Namespace key) (nn_Name key) = Some t' \<and> st_State (at_Status t') = approvedState
    \<and> sp_Approvers (at_Spec t') = voted key msg (map fst us) (sp_Approvers (at_Spec t))"
  by (rule guarded_api.rounds_open [OF guarded_behind_webhook [OF assms(1)] assms(2-)])

theorem enough_people_open_gate_witness:
  "\<exists>w' r' t'.
    rounds (behind_webhook 1 encode_task decode_task (Unanswered ''denied'')) carol0 fake_runs cluster_run se0 key_pair []
      [(alice0, env0), (bob0, env0)] (cluster0 pair_task) = Some w'
    \<and> cluster_run (w_api w') ''prod'' ''deploy'' = Some r' \<and> IsSuccessful (ro_Run r')
    \<and> cluster_task (w_api w') ''prod'' ''deploy'' = Some t' \<and> st_State (at_Status t') = approvedState
    \<and> sp_Approvers (at_Spec t') = given_pair"
proof -
  have "gate_open key_pair {env0} 2 {} robj0 pair_task"
    using ready_run0 pair_task_facts by (simp add: gate_open_def) (simp add: key_pair_def robj0_def run0_def IsZero_def env0_def)
  note t = enough_people_open_gate [OF task_codec this, of "cluster0 pair_task" se0 "[(alice0, env0), (bob0, env0)]" "[]" 1
    "Unanswered ''denied''" carol0]
  show ?thesis
    using t cluster0_lookup [of pair_task] pair_addressed(1,2) [of key_pair] pair_addressed(3-5) pair_voted [of key_pair] pair_task_facts(4,5)
    by (simp add: se0_def robj0_def sample_defs del: rounds.simps)
qed

text \<open>
  C3. The whole story of a gate: a run is handled for the first time, when there is no task for it; then
  as many of the people that its parameters name as it asks for run \<open>approve\<close>, each with a handling after
  it. The task is created through the webhook, every command is admitted, and the run ends as succeeded.
\<close>

theorem fresh_run_approved:
  assumes "codec encode decode"
    and "cluster_run (w_api w) (nn_Namespace key) (nn_Name key) = Some r"
    and "cluster_task (w_api w) (nn_Namespace key) (nn_Name key) = None"
    and "key = object_key (cr_Meta (ro_Run r))" and "IsZero (ro_DeletionTimestamp r)"
    and "CHR ''/'' \<notin> set (nn_Namespace key)" and "CHR ''/'' \<notin> set (nn_Name key)"
    and "se_IsLeaderFor se (nn_Namespace key) (nn_Name key)"
    and "env \<in> envs"
    and "\<forall>e \<in> envs. ready e (ro_Run r) \<and> (\<forall>xs. set (e_map_order e xs) = set xs)
           \<and> TimeSub (e_clock_check e) now \<le> run_timeout (begun e (ro_Run r))"
    and "create_params (cr_Params (ro_Run r)) create_init = Inr acc"
    and "distinct (map (\<lambda>x. ui_Username (fst x)) us)" and "int (length us) = ca_number acc"
    and "\<forall>x \<in> set us. snd x \<in> envs \<and> user_name_ok (ui_Username (fst x))
           \<and> addressed (vote_of key msg (fst x)) (ca_approvers acc)"
    and "Compute (voted key msg (map fst us) (ca_approvers acc)) \<noteq> Compute (ca_approvers acc)"
  shows "\<exists>w' r' t'.
    rounds (behind_webhook now encode decode refusal) ctl fake_runs cluster_run se key msg us
      (snd (Reconcile_key (up_to_date cluster_run se (w_api w)) env (behind_webhook now encode decode refusal ctl)
        fake_runs (safeKey key) w)) = Some w'
    \<and> cluster_run (w_api w') (nn_Namespace key) (nn_Name key) = Some r' \<and> IsSuccessful (ro_Run r')
    \<and> cluster_task (w_api w') (nn_Namespace key) (nn_Name key) = Some t' \<and> st_State (at_Status t') = approvedState
    \<and> sp_Approvers (at_Spec t') = voted key msg (map fst us) (ca_approvers acc)"
proof -
  note g = guarded_behind_webhook [OF assms(1), of now refusal]
  have it: "in_time e (ro_Run r) t" if "om_CreationTimestamp (at_Meta t) = now" "st_StartTime (at_Status t) = None" "e \<in> envs" for t e
    using that assms(10)
    by (auto simp: in_time_def timed_out_def ApprovalTaskHasTimedOut_def start_task_start split: option.splits)
  have rd: "\<forall>e \<in> envs. ready e (ro_Run r) \<and> (\<forall>xs. set (e_map_order e xs) = set xs)" using assms(10) by blast
  obtain t r' w1 where
    w1: "snd (Reconcile_key (up_to_date cluster_run se (w_api w)) env (behind_webhook now encode decode refusal ctl)
        fake_runs (safeKey key) w) = w1"
    and s: "same_sent t (new_task (ro_Run r) acc)"
    and st: "cluster_run (w_api w1) (nn_Namespace key) (nn_Name key) = Some r'"
      "cluster_task (w_api w1) (nn_Namespace key) (nn_Name key) = Some t"
    and op: "gate_open key envs (ca_number acc) {} r' t"
    by (rule guarded_api.gate_starts [OF g assms(2-9) rd it]) (use assms(11) in auto)
  have t: "sp_Approvers (at_Spec t) = ca_approvers acc"
    "map_index (om_Annotations (at_Meta t)) LastAppliedHashKey = Compute (ca_approvers acc)"
    using s by (simp_all add: same_sent_def new_task_def Let_def)
  have "us \<noteq> []" using op assms(13) by (auto simp: gate_open_def waiting_for_def spec_ok_def)
  then show ?thesis
    using guarded_api.rounds_open [OF g op st assms(8,12)] assms(13-15) unfolding w1 t by simp
qed

theorem fresh_run_approved_witness:
  "\<exists>w' r' t'.
    rounds (behind_webhook 1 encode_task decode_task (Unanswered ''denied'')) carol0 fake_runs cluster_run se0 key_pair []
      [(alice0, env0), (bob0, env0)]
      (snd (Reconcile_key (up_to_date cluster_run se0 (w_api fresh_world)) env0
        (behind_webhook 1 encode_task decode_task (Unanswered ''denied'') carol0) fake_runs (safeKey key_pair) fresh_world)) = Some w'
    \<and> cluster_run (w_api w') ''prod'' ''deploy'' = Some r' \<and> IsSuccessful (ro_Run r')
    \<and> cluster_task (w_api w') ''prod'' ''deploy'' = Some t' \<and> st_State (at_Status t') = approvedState
    \<and> sp_Approvers (at_Spec t') = given_pair"
proof -
  have k: "key_pair = object_key (cr_Meta (ro_Run pair_run))" by (simp add: key_pair_def pair_meta)
  have e: "\<forall>e \<in> {env0}. ready e (ro_Run pair_run) \<and> (\<forall>xs. set (e_map_order e xs) = set xs)
      \<and> TimeSub (e_clock_check e) 1 \<le> run_timeout (begun e (ro_Run pair_run))"
    using pair_ready pair_timeout by (simp add: env0_def TimeSub_def)
  have l: "se_IsLeaderFor se0 ns n" for ns n by (simp add: se0_def)
  note t = fresh_run_approved [where key = key_pair and w = fresh_world and r = pair_run and se = se0 and env = env0
    and envs = "{env0}" and msg = "[]" and us = "[(alice0, env0), (bob0, env0)]" and now = 1
    and refusal = "Unanswered ''denied''" and ctl = carol0, OF task_codec _ _ k _ _ _ l _ e pair_create]
  show ?thesis
    using t pair_stored pair_addressed(1,2) [of key_pair] pair_addressed(3-5) pair_voted [of key_pair] pair_acc_sel pair_changes pair_meta(2)
    by (simp add: IsZero_def del: rounds.simps)
qed

text \<open>
  C13. No vote after the decision: once a task is approved or rejected, or as many people have approved as
  it asks for (even when the controller has not looked yet), a command by anybody ends with an error, and
  nothing is changed.
\<close>

theorem decided_gate_closed:
  assumes "codec encode decode" and "cluster_task s ns n = Some t" and "named ns n t"
    and "final_state (st_State (at_Status t))
      \<or> sp_NumberOfApprovalsRequired (at_Spec t) \<le> int (card (approved_users (sp_Approvers (at_Spec t))))"
  shows "\<exists>e. decide_command input participle None (Inr u) (Inr g) (behind_webhook now encode decode refusal u) n ns msg s
    = (Inl e, s)"
proof -
  have "\<not> admits t t' v" for t' v
    using assms(4) by (auto simp: admits_def isApprovalRequired_eq approvalTaskHasTrueInput_eq countApprovalsReceived_eq final_state_def)
  then show ?thesis
    by (rule guarded_api.command_denied [OF guarded_behind_webhook [OF assms(1)] assms(2,3)])
qed

theorem decided_gate_closed_witness:
  "\<exists>e. decide_command ''approve'' ''approved'' None (Inr carol0) (Inr ())
      (behind_webhook 1 encode_task decode_task (Unanswered ''denied'') carol0) ''deploy'' ''prod'' [] (w_api (cluster0 given_task))
    = (Inl e, w_api (cluster0 given_task))"
proof -
  have n: "named ''prod'' ''deploy'' given_task" by (simp add: named_def given_task_def pair_task_def sample_defs)
  have c: "sp_NumberOfApprovalsRequired (at_Spec given_task) \<le> int (card (approved_users (sp_Approvers (at_Spec given_task))))"
    by (simp add: given_task_def pair_task_def given_pair_def approved_users_fold add_approved_def is_user_def is_group_def
        sample_defs)
  have l: "cluster_task (w_api (cluster0 given_task)) ''prod'' ''deploy'' = Some given_task"
    using cluster0_lookup(2) [of given_task] by (simp add: sample_defs)
  show ?thesis by (rule decided_gate_closed [OF task_codec l n disjI2 [OF c]])
qed

text \<open>A task that Alice approved, and one more person is to.\<close>

lemma half_task0_open:
  "user_name_ok (ui_Username carol0)" "spec_ok (at_Spec half_task0)" "\<not> final_state (st_State (at_Status half_task0))"
  "recorded (st_ApproversResponse (at_Status half_task0)) (ui_Username carol0) = {}"
  "ui_Username carol0 \<notin> votes i (sp_Approvers (at_Spec half_task0))"
  "int (card (approved_users (sp_Approvers (at_Spec half_task0)))) = 1"
  "sp_NumberOfApprovalsRequired (at_Spec half_task0) = 2"
  "int (card (insert (ui_Username carol0) (approved_users (sp_Approvers (at_Spec half_task0))))) = 2"
proof -
  show "ui_Username carol0 \<notin> votes i (sp_Approvers (at_Spec half_task0))"
    by (auto simp: votes_def votes_of_def half_task0_def carol0_def is_user_def is_group_def sample_defs)
qed (simp_all add: half_task0_def carol0_def verdict_defs spec_ok_def approver_ok_def user_name_ok_def group_name_ok_def
    users_ok_def input_ok_def blank_def is_user_def is_group_def final_state_def recorded_def sample_defs go_defs)

text \<open>
  C8. A vote reaches the pipeline: on an open task to which exactly one more approval is missing and in which
  nobody rejects, \<open>approve\<close> by a user the task names (or a member of a group it names) who has no answer yet is
  admitted by the webhook and stored, its event queues a key, and the handling of this key stores the run
  as succeeded, with nothing but its status changed, and the task as approved.
\<close>

theorem vote_reaches_run:
  assumes "codec encode decode" and "in_charge se r" and "ready env (ro_Run r)"
    and "cluster_run (w_api w) (ro_namespace r) (ro_name r) = Some r"
    and "cluster_task (w_api w) (ro_namespace r) (ro_name r) = Some t"
    and "keyed (ro_Run r) t" and "in_time env (ro_Run r) t"
    and "opts = command_options ''approve'' (ro_name r) (ro_namespace r) msg u"
    and "addressed opts (sp_Approvers (at_Spec t))" and "user_name_ok (ui_Username u)"
    and "ui_Username u \<notin> votes ''approve'' (sp_Approvers (at_Spec t))"
    and "recorded (st_ApproversResponse (at_Status t)) (ui_Username u) = {}"
    and "spec_ok (at_Spec t)" and "\<not> final_state (st_State (at_Status t))"
    and "int (card (approved_users (sp_Approvers (at_Spec t)))) < sp_NumberOfApprovalsRequired (at_Spec t)"
    and "sp_NumberOfApprovalsRequired (at_Spec t)
           \<le> int (card (insert (ui_Username u) (approved_users (sp_Approvers (at_Spec t)))))"
    and "\<not> rejects (sp_Approvers (at_Spec t))"
    and "hash_changed env (updated_task opts t)"
    and "key \<in> set (task_handler (Updated t (updated_task opts t)))"
  shows "\<exists>out s' d w' r' t'.
    approve_command None (Inr u) (Inr g) (behind_webhook now encode decode refusal u) (ro_name r) (ro_namespace r) msg (w_api w)
      = (Inr out, s')
    \<and> cluster_task s' (ro_namespace r) (ro_name r) = Some (updated_task opts t)
    \<and> Reconcile_key se env (behind_webhook now encode decode refusal ctl) fake_runs (safeKey key) (w\<lparr>w_api := s'\<rparr>)
        = (Some (MultiErr [RequeueErr d]), w')
    \<and> cluster_run (w_api w') (ro_namespace r) (ro_name r) = Some r'
    \<and> IsSuccessful (ro_Run r') \<and> r' = with_status_of r r'
    \<and> cluster_task (w_api w') (ro_namespace r) (ro_name r) = Some t' \<and> st_State (at_Status t') = approvedState"
proof -
  have iar: "isApprovalRequired t"
    using assms(14,15)
    by (auto simp: isApprovalRequired_eq final_state_def approvalTaskHasTrueInput_eq countApprovalsReceived_eq)
  have dec: "decision ''approve''" by (simp add: decision_def)
  have o: "op_Input opts = hasApproved" "op_Username opts = ui_Username u"
    by (simp_all add: assms(8) command_options_def)
  have "task_verdict (updated_task opts t) = Approved"
    using approval_verdict [OF o(1) assms(9,17)] assms(16) o(2) by simp
  then have f: "found_state (updated_task opts t) = approvedState" by (simp add: found_state_def)
  obtain out s' w' r' where
    c: "approve_command None (Inr u) (Inr g) (behind_webhook now encode decode refusal u) (ro_name r) (ro_namespace r) msg (w_api w) = (Inr out, s')"
      "cluster_task s' (ro_namespace r) (ro_name r) = Some (updated_task opts t)"
    and h: "Reconcile_key se env (behind_webhook now encode decode refusal ctl) fake_runs (safeKey key) (w\<lparr>w_api := s'\<rparr>) =
       (Some (MultiErr [RequeueErr (delay_of env (ro_Run r) (updated_task opts t))]), w')"
    and r': "cluster_run (w_api w') (ro_namespace r) (ro_name r) = Some r'" "r' = with_status_of r r'"
      "run_status (ro_Run r') =
         run_status (next_run env (ro_Run (PreProcessReconcile (se_now_pre se) r)) (updated_task opts t))"
      "cluster_task (w_api w') (ro_namespace r) (ro_name r) = Some (stored_after env (updated_task opts t))"
    unfolding approve_command_def
    by (rule guarded_api.vote_handled [OF guarded_behind_webhook [OF assms(1)] assms(2-8) dec assms(13) iar assms(9-12)
          assms(19)])
  have "st_State (at_Status (stored_after env (updated_task opts t))) = approvedState"
    using assms(18) f by (simp add: stored_after_state)
  moreover have "IsSuccessful (ro_Run r')"
    using next_run_status(1) [OF PreProcess_ready [OF disjI1, OF assms(3)] assms(18) f] r'(3)
    by (simp add: run_status_iff)
  ultimately show ?thesis using c h r'(1,2,4) by blast
qed

theorem vote_reaches_run_witness:
  "\<exists>out s' d w' r' t'.
    approve_command None (Inr carol0) (Inr ()) (behind_webhook 1 encode_task decode_task (Unanswered ''denied'') carol0)
      (ro_name robj0) (ro_namespace robj0) ''ok'' (w_api (cluster0 half_task0)) = (Inr out, s')
    \<and> cluster_task s' (ro_namespace robj0) (ro_name robj0) =
        Some (updated_task (command_options ''approve'' (ro_name robj0) (ro_namespace robj0) ''ok'' carol0) half_task0)
    \<and> Reconcile_key se0 env0 (behind_webhook 1 encode_task decode_task (Unanswered ''denied'') alice0) fake_runs
        (safeKey key_pair) ((cluster0 half_task0)\<lparr>w_api := s'\<rparr>) = (Some (MultiErr [RequeueErr d]), w')
    \<and> cluster_run (w_api w') (ro_namespace robj0) (ro_name robj0) = Some r'
    \<and> IsSuccessful (ro_Run r') \<and> r' = with_status_of robj0 r'
    \<and> cluster_task (w_api w') (ro_namespace robj0) (ro_name robj0) = Some t' \<and> st_State (at_Status t') = approvedState"
proof (rule vote_reaches_run [OF task_codec in_charge0 _ cluster0_lookup, where t = half_task0 and u = carol0 and env = env0])
  show "ready env0 (ro_Run robj0)" by (simp add: ready_run0)
  show "key_pair \<in> set (task_handler (Updated half_task0
      (updated_task (command_options ''approve'' (ro_name robj0) (ro_namespace robj0) ''ok'' carol0) half_task0)))"
    by (simp add: task_handler_def key_pair_def object_key_def half_task0_def sample_defs)
qed (simp_all add: half_task0_ready half_task0_open)

text \<open>
  C9. A rejection reaches the pipeline: on an open task whose number of approvals is not yet reached, \<open>reject\<close>
  by a user the task names (or a member of a group it names) whose answer is not recorded yet is admitted
  by the webhook and stored, its event queues a key, and the handling of this key stores the run as failed, with
  nothing but its status changed, and the task as rejected, however many have approved.
\<close>

theorem rejection_reaches_run:
  assumes "codec encode decode" and "in_charge se r" and "ready env (ro_Run r)"
    and "cluster_run (w_api w) (ro_namespace r) (ro_name r) = Some r"
    and "cluster_task (w_api w) (ro_namespace r) (ro_name r) = Some t"
    and "keyed (ro_Run r) t" and "in_time env (ro_Run r) t"
    and "opts = command_options ''reject'' (ro_name r) (ro_namespace r) msg u"
    and "addressed opts (sp_Approvers (at_Spec t))" and "user_name_ok (ui_Username u)"
    and "ui_Username u \<notin> votes ''reject'' (sp_Approvers (at_Spec t))"
    and "recorded (st_ApproversResponse (at_Status t)) (ui_Username u) = {}"
    and "spec_ok (at_Spec t)" and "\<not> final_state (st_State (at_Status t))"
    and "int (card (approved_users (sp_Approvers (at_Spec t)))) < sp_NumberOfApprovalsRequired (at_Spec t)"
    and "hash_changed env (updated_task opts t)"
    and "key \<in> set (task_handler (Updated t (updated_task opts t)))"
  shows "\<exists>out s' d w' r' t'.
    reject_command None (Inr u) (Inr g) (behind_webhook now encode decode refusal u) (ro_name r) (ro_namespace r) msg (w_api w)
      = (Inr out, s')
    \<and> cluster_task s' (ro_namespace r) (ro_name r) = Some (updated_task opts t)
    \<and> Reconcile_key se env (behind_webhook now encode decode refusal ctl) fake_runs (safeKey key) (w\<lparr>w_api := s'\<rparr>)
        = (Some (MultiErr [RequeueErr d]), w')
    \<and> cluster_run (w_api w') (ro_namespace r) (ro_name r) = Some r'
    \<and> IsFailure (ro_Run r') \<and> r' = with_status_of r r'
    \<and> cluster_task (w_api w') (ro_namespace r) (ro_name r) = Some t' \<and> st_State (at_Status t') = rejectedState"
proof -
  have iar: "isApprovalRequired t"
    using assms(14,15)
    by (auto simp: isApprovalRequired_eq final_state_def approvalTaskHasTrueInput_eq countApprovalsReceived_eq)
  have dec: "decision ''reject''" by (simp add: decision_def)
  have "op_Input opts = hasRejected" by (simp add: assms(8) command_options_def)
  then have "task_verdict (updated_task opts t) = Rejected" by (rule rejection_verdict [OF _ assms(9)])
  then have f: "found_state (updated_task opts t) = rejectedState" by (simp add: found_state_def)
  obtain out s' w' r' where
    c: "reject_command None (Inr u) (Inr g) (behind_webhook now encode decode refusal u) (ro_name r) (ro_namespace r) msg (w_api w) = (Inr out, s')"
      "cluster_task s' (ro_namespace r) (ro_name r) = Some (updated_task opts t)"
    and h: "Reconcile_key se env (behind_webhook now encode decode refusal ctl) fake_runs (safeKey key) (w\<lparr>w_api := s'\<rparr>) =
       (Some (MultiErr [RequeueErr (delay_of env (ro_Run r) (updated_task opts t))]), w')"
    and r': "cluster_run (w_api w') (ro_namespace r) (ro_name r) = Some r'" "r' = with_status_of r r'"
      "run_status (ro_Run r') =
         run_status (next_run env (ro_Run (PreProcessReconcile (se_now_pre se) r)) (updated_task opts t))"
      "cluster_task (w_api w') (ro_namespace r) (ro_name r) = Some (stored_after env (updated_task opts t))"
    unfolding reject_command_def
    by (rule guarded_api.vote_handled [OF guarded_behind_webhook [OF assms(1)] assms(2-8) dec assms(13) iar assms(9-12)
          assms(17)])
  have "st_State (at_Status (stored_after env (updated_task opts t))) = rejectedState"
    using assms(16) f by (simp add: stored_after_state)
  moreover have "IsFailure (ro_Run r')"
    using next_run_status(2) [OF PreProcess_ready [OF disjI1, OF assms(3)] assms(16) f] r'(3)
    by (simp add: run_status_iff)
  ultimately show ?thesis using c h r'(1,2,4) by blast
qed

theorem rejection_reaches_run_witness:
  "\<exists>out s' d w' r' t'.
    reject_command None (Inr carol0) (Inr ()) (behind_webhook 1 encode_task decode_task (Unanswered ''denied'') carol0)
      (ro_name robj0) (ro_namespace robj0) ''no'' (w_api (cluster0 half_task0)) = (Inr out, s')
    \<and> cluster_task s' (ro_namespace robj0) (ro_name robj0) =
        Some (updated_task (command_options ''reject'' (ro_name robj0) (ro_namespace robj0) ''no'' carol0) half_task0)
    \<and> Reconcile_key se0 env0 (behind_webhook 1 encode_task decode_task (Unanswered ''denied'') alice0) fake_runs
        (safeKey key_pair) ((cluster0 half_task0)\<lparr>w_api := s'\<rparr>) = (Some (MultiErr [RequeueErr d]), w')
    \<and> cluster_run (w_api w') (ro_namespace robj0) (ro_name robj0) = Some r'
    \<and> IsFailure (ro_Run r') \<and> r' = with_status_of robj0 r'
    \<and> cluster_task (w_api w') (ro_namespace robj0) (ro_name robj0) = Some t' \<and> st_State (at_Status t') = rejectedState"
proof (rule rejection_reaches_run [OF task_codec in_charge0 _ cluster0_lookup, where t = half_task0 and u = carol0 and env = env0])
  show "ready env0 (ro_Run robj0)" by (simp add: ready_run0)
  show "key_pair \<in> set (task_handler (Updated half_task0
      (updated_task (command_options ''reject'' (ro_name robj0) (ro_namespace robj0) ''no'' carol0) half_task0)))"
    by (simp add: task_handler_def key_pair_def object_key_def half_task0_def sample_defs)
qed (simp_all add: half_task0_ready half_task0_open)

end
