(* ===== verification/Task_Validation.thy ===== *)
theory Task_Validation
  imports Event_Filters Rest_Client
begin

text \<open>
  \<open>approvaltask_validation.go\<close>: the validation of a task that \<open>apis.Validatable\<close> asks for, with what it
  uses of Tekton's \<open>validate.ObjectMetadata\<close>, of Kubernetes' \<open>IsDNS1123Subdomain\<close> and of Knative's
  \<open>FieldError\<close>. It looks at the name alone; the spec's validation accepts everything, and what a spec must
  be is the webhook's \<open>validateApprovalTask\<close>.
\<close>

subsection \<open>Names\<close>

definition dns_char :: "char \<Rightarrow> bool" where
  "dns_char c \<longleftrightarrow> (let n = (of_char c :: nat) in 97 \<le> n \<and> n \<le> 122 \<or> 48 \<le> n \<and> n \<le> 57)"

text \<open>\<open>[a-z0-9]([-a-z0-9]*[a-z0-9])?\<close>\<close>

definition dns_label :: "string \<Rightarrow> bool" where
  "dns_label s \<longleftrightarrow> s \<noteq> [] \<and> dns_char (hd s) \<and> dns_char (last s) \<and> list_all (\<lambda>c. dns_char c \<or> c = CHR ''-'') s"

definition dns_subdomain :: "string \<Rightarrow> bool" where
  "dns_subdomain s \<longleftrightarrow> length s \<le> 253 \<and> list_all dns_label (Split s CHR ''.'')"

subsection \<open>Errors of fields\<close>

text \<open>An error of the default level without details and without further errors, as both checks build it.\<close>

record field_error =
  fe_Message :: string
  fe_Paths :: "string list"

definition isIndex :: "string \<Rightarrow> bool" where
  "isIndex p \<longleftrightarrow> HasPrefix p ''['' \<and> p \<noteq> [] \<and> last p = CHR '']''"

fun flatten_parts :: "string list \<Rightarrow> string list \<Rightarrow> string list" where
  "flatten_parts [] acc = acc"
| "flatten_parts (p # ps) acc =
     flatten_parts ps
       (if p = [] then acc
        else if acc \<noteq> [] \<and> isIndex p then butlast acc @ [last acc @ p]
        else acc @ [p])"

definition flatten_path :: "string list \<Rightarrow> string" where
  "flatten_path path = Join (flatten_parts (concat (map (\<lambda>part. Split part CHR ''.'') path)) []) ''.''"

definition ViaField :: "string \<Rightarrow> field_error \<Rightarrow> field_error" where
  "ViaField prefix fe = fe\<lparr>fe_Paths := map (\<lambda>old. flatten_path [prefix, old]) (fe_Paths fe)\<rparr>"

subsection \<open>Validation\<close>

text \<open>\<open>strconv.Quote\<close> depends on the tables of Unicode; it is the argument \<open>q\<close>.\<close>

definition ObjectMetadata :: "(string \<Rightarrow> string) \<Rightarrow> object_meta \<Rightarrow> field_error option" where
  "ObjectMetadata q meta =
     (let name = om_Name meta
      in if \<not> dns_subdomain name
         then Some \<lparr>fe_Message = ''invalid resource name '' @ q name @ '': must be a valid DNS label'', fe_Paths = [''name'']\<rparr>
         else if 63 < length name
         then Some \<lparr>fe_Message = ''Invalid resource name: length must be no more than 63 characters'', fe_Paths = [''name'']\<rparr>
         else None)"

definition Spec_Validate :: "approval_task_spec \<Rightarrow> field_error option" where
  "Spec_Validate tgs = None"

definition Validate :: "(string \<Rightarrow> string) \<Rightarrow> approval_task \<Rightarrow> field_error option" where
  "Validate q tg =
     (case ObjectMetadata q (at_Meta tg) of
        Some err \<Rightarrow> Some (ViaField ''metadata'' err)
      | None \<Rightarrow> Spec_Validate (at_Spec tg))"

subsection \<open>What a valid task's name is\<close>

lemma Validate_iff: "Validate q t = None \<longleftrightarrow> dns_subdomain (at_name t) \<and> length (at_name t) \<le> 63"
  by (auto simp: Validate_def Spec_Validate_def ObjectMetadata_def Let_def split: option.split)

lemma Validate_paths: "Validate q t = Some err \<Longrightarrow> fe_Paths err = [''metadata.name'']"
  by (auto simp: Validate_def Spec_Validate_def ObjectMetadata_def ViaField_def flatten_path_def isIndex_def HasPrefix_def
      Let_def split: if_splits)

lemma Split_mem: "c \<in> set s \<Longrightarrow> c \<noteq> sep \<Longrightarrow> \<exists>p \<in> set (Split s sep). c \<in> set p"
  by (induction s sep rule: Split.induct) (auto split: list.split)

lemma dns_subdomain_chars:
  assumes "dns_subdomain s" and "c \<in> set s"
  shows "dns_char c \<or> c = CHR ''-'' \<or> c = CHR ''.''"
  using assms Split_mem [of c s "CHR ''.''"]
  by (fastforce simp: dns_subdomain_def dns_label_def list_all_iff)

text \<open>Such a name is one segment of a path, so the typed client sends it.\<close>

lemma valid_name_path:
  assumes "Validate q t = None"
  shows "path_name (at_name t)"
proof -
  have d: "dns_subdomain (at_name t)" using assms by (simp add: Validate_iff)
  have "\<not> dns_char CHR ''/''" "\<not> dns_char CHR ''%''" by (simp_all add: dns_char_def)
  then have "CHR ''/'' \<notin> set (at_name t)" "CHR ''%'' \<notin> set (at_name t)"
    using dns_subdomain_chars [OF d] by auto
  moreover have "at_name t \<noteq> []" "at_name t \<noteq> ''.''" "at_name t \<noteq> ''..''"
    using d by (auto simp: dns_subdomain_def dns_label_def)
  ultimately show ?thesis by (simp add: path_name_def IsValidPathSegmentName_def)
qed

end
