(* ===== verification/Fake_Watch.thy ===== *)
theory Fake_Watch
  imports Test_Support
begin

text \<open>
  The watches of the fake client set: the object tracker of \<open>client-go\<close> (\<open>fixture.go\<close>) with its watchers,
  which buffer the events of the writes (\<open>RaceFreeFakeWatcher\<close>), and the reactor with which
  \<open>NewSimpleClientset\<close> answers a watch. One resource is modelled, ApprovalTasks. What a watcher was sent,
  applied to what was listed when it began, is what the tracker holds.
\<close>

subsection \<open>Watchers\<close>

datatype task_event = Sent_Added approval_task | Sent_Modified approval_task | Sent_Deleted approval_task

record fake_watcher =
  fw_result :: "task_event list"
  fw_Stopped :: bool

definition NewRaceFreeFake :: fake_watcher where
  "NewRaceFreeFake = \<lparr>fw_result = [], fw_Stopped = False\<rparr>"

abbreviation (input) "DefaultChanSize \<equiv> 100 :: nat"

text \<open>The channel has a place for each of 100 events; sending one more panics.\<close>

definition send_event :: "task_event \<Rightarrow> fake_watcher \<Rightarrow> fake_watcher outcome" where
  "send_event ev f =
     (if fw_Stopped f then Ret f
      else if length (fw_result f) < DefaultChanSize then Ret (f\<lparr>fw_result := fw_result f @ [ev]\<rparr>)
      else Panic)"

definition watcher_Stop :: "fake_watcher \<Rightarrow> fake_watcher" where
  "watcher_Stop f = f\<lparr>fw_Stopped := True\<rparr>"

subsection \<open>The tracker with its watchers\<close>

record watched =
  wt_objects :: tracker
  wt_watchers :: "string \<Rightarrow> fake_watcher list"

text \<open>The caller of \<open>Watch\<close> gets the last watcher of its namespace.\<close>

definition tracker_Watch :: "string \<Rightarrow> watched \<Rightarrow> nat \<times> watched" where
  "tracker_Watch ns s =
     (length (wt_watchers s ns), s\<lparr>wt_watchers := (wt_watchers s)(ns := wt_watchers s ns @ [NewRaceFreeFake])\<rparr>)"

fun send_all :: "task_event \<Rightarrow> fake_watcher list \<Rightarrow> fake_watcher list outcome" where
  "send_all ev [] = Ret []"
| "send_all ev (f # fs) =
     (case send_event ev f of
        Panic \<Rightarrow> Panic
      | Ret f' \<Rightarrow> (case send_all ev fs of Panic \<Rightarrow> Panic | Ret fs' \<Rightarrow> Ret (f' # fs')))"

text \<open>The loop over \<open>getWatches\<close>: the watchers of the namespace, and those of all namespaces.\<close>

definition notify :: "string \<Rightarrow> task_event \<Rightarrow> watched \<Rightarrow> watched outcome" where
  "notify ns ev s =
     (case send_all ev (wt_watchers s ns) of
        Panic \<Rightarrow> Panic
      | Ret fs \<Rightarrow>
          let s' = s\<lparr>wt_watchers := (wt_watchers s)(ns := fs)\<rparr>
          in if ns = [] then Ret s'
             else case send_all ev (wt_watchers s' []) of
                    Panic \<Rightarrow> Panic
                  | Ret gs \<Rightarrow> Ret (s'\<lparr>wt_watchers := (wt_watchers s')([] := gs)\<rparr>))"

definition watched_add :: "approval_task \<Rightarrow> string \<Rightarrow> bool \<Rightarrow> watched \<Rightarrow> (api_error option \<times> watched) outcome" where
  "watched_add obj ns replaceExisting s =
     (let obj = (if at_namespace obj = [] then obj\<lparr>at_Meta := (at_Meta obj)\<lparr>om_Namespace := ns\<rparr>\<rparr> else obj)
      in if ns \<noteq> at_namespace obj then Ret (Some (Answered NewBadRequest), s)
         else let key = (at_namespace obj, at_name obj)
              in case fmlookup (wt_objects s) key of
                   Some _ \<Rightarrow>
                     if replaceExisting
                     then (case notify ns (Sent_Modified obj) s of
                             Panic \<Rightarrow> Panic
                           | Ret s' \<Rightarrow> Ret (None, s'\<lparr>wt_objects := fmupd key obj (wt_objects s')\<rparr>))
                     else Ret (Some (Answered (NewAlreadyExists ''approvaltasks'' (at_name obj))), s)
                 | None \<Rightarrow>
                     if replaceExisting then Ret (Some (Answered (NewNotFound ''approvaltasks'' (at_name obj))), s)
                     else (case notify ns (Sent_Added obj) (s\<lparr>wt_objects := fmupd key obj (wt_objects s)\<rparr>) of
                             Panic \<Rightarrow> Panic
                           | Ret s' \<Rightarrow> Ret (None, s')))"

definition watched_Delete :: "string \<Rightarrow> string \<Rightarrow> watched \<Rightarrow> (api_error option \<times> watched) outcome" where
  "watched_Delete ns name s =
     (case fmlookup (wt_objects s) (ns, name) of
        None \<Rightarrow> Ret (Some (Answered (NewNotFound ''approvaltasks'' name)), s)
      | Some obj \<Rightarrow>
          (case notify ns (Sent_Deleted obj) (s\<lparr>wt_objects := fmdrop (ns, name) (wt_objects s)\<rparr>) of
             Panic \<Rightarrow> Panic
           | Ret s' \<Rightarrow> Ret (None, s')))"

text \<open>The reactor that \<open>NewSimpleClientset\<close> adds for watches of any resource: it always handles them.\<close>

definition fake_WatchReaction :: "string \<Rightarrow> watched \<Rightarrow> (go_error + string \<times> nat) option \<times> watched" where
  "fake_WatchReaction ns s = (case tracker_Watch ns s of (i, s') \<Rightarrow> (Some (Inr (ns, i)), s'))"

subsection \<open>What is sent\<close>

definition sent :: "task_event \<Rightarrow> fake_watcher \<Rightarrow> fake_watcher" where
  "sent ev f = (if fw_Stopped f then f else f\<lparr>fw_result := fw_result f @ [ev]\<rparr>)"

lemma send_all_map: "send_all ev fs = Ret gs \<Longrightarrow> gs = map (sent ev) fs"
  by (induction fs arbitrary: gs) (auto simp: send_event_def sent_def split: outcome.splits if_splits)

lemma notify_sent:
  assumes "notify ns ev s = Ret s'"
  shows "wt_objects s' = wt_objects s"
    and "wt_watchers s' n = (if n = ns \<or> n = [] then map (sent ev) (wt_watchers s n) else wt_watchers s n)"
  using assms by (auto simp: notify_def Let_def dest!: send_all_map split: outcome.splits if_splits)

text \<open>Without its watchers the tracker is the one of the model of the API client.\<close>

lemma watched_add_tracker:
  assumes "watched_add obj ns replace s = Ret (e, s')"
  shows "tracker_add obj ns replace (wt_objects s) = (e, wt_objects s')"
  using assms notify_sent(1)
  by (fastforce simp: watched_add_def tracker_add_def Let_def split: outcome.splits if_splits option.splits)

subsection \<open>Replaying the events\<close>

fun replay :: "task_event \<Rightarrow> tracker \<Rightarrow> tracker" where
  "replay (Sent_Added t) objs = fmupd (at_namespace t, at_name t) t objs"
| "replay (Sent_Modified t) objs = fmupd (at_namespace t, at_name t) t objs"
| "replay (Sent_Deleted t) objs = fmdrop (at_namespace t, at_name t) objs"

text \<open>What \<open>List\<close> gives for a namespace, the empty one being all of them.\<close>

definition listed :: "string \<Rightarrow> tracker \<Rightarrow> tracker" where
  "listed ns objs = (if ns = [] then objs else fmfilter (\<lambda>k. fst k = ns) objs)"

definition keyed_objects :: "tracker \<Rightarrow> bool" where
  "keyed_objects objs \<longleftrightarrow> (\<forall>k t. fmlookup objs k = Some t \<longrightarrow> k = (at_namespace t, at_name t))"

definition follows :: "string \<Rightarrow> nat \<Rightarrow> tracker \<Rightarrow> task_event list \<Rightarrow> watched \<Rightarrow> bool" where
  "follows n i start seen s \<longleftrightarrow>
     i < length (wt_watchers s n) \<and> \<not> fw_Stopped (wt_watchers s n ! i)
     \<and> listed n (wt_objects s) = fold replay (seen @ fw_result (wt_watchers s n ! i)) start"

lemma listed_other: "n \<noteq> [] \<Longrightarrow> fst k \<noteq> n \<Longrightarrow> listed n (fmupd k t objs) = listed n objs \<and> listed n (fmdrop k objs) = listed n objs"
  by (auto simp: listed_def intro!: fmap_ext)

lemma listed_own: "n = [] \<or> fst k = n \<Longrightarrow> listed n (fmupd k t objs) = fmupd k t (listed n objs)
    \<and> listed n (fmdrop k objs) = fmdrop k (listed n objs)"
  by (auto simp: listed_def intro!: fmap_ext)

lemma notify_follows:
  assumes "follows n i start seen s0" and "notify ns ev s = Ret s'" and "wt_watchers s = wt_watchers s0"
    and "listed n objs = (if n = ns \<or> n = [] then replay ev (listed n (wt_objects s0)) else listed n (wt_objects s0))"
  shows "follows n i start seen (s'\<lparr>wt_objects := objs\<rparr>)"
  using assms(1,3,4) notify_sent(2) [OF assms(2), of n] by (auto simp: follows_def sent_def)

subsection \<open>Histories\<close>

text \<open>
  What can happen while a consumer has the watcher \<open>i\<close> of the namespace \<open>n\<close>, with the events it has seen:
  a write that does not panic, a further watch, the consumer taking an event, and whatever the consumers of
  other watchers do with theirs.
\<close>

inductive watch_step :: "string \<Rightarrow> nat \<Rightarrow> task_event list \<times> watched \<Rightarrow> task_event list \<times> watched \<Rightarrow> bool" for n i where
  write_task: "watched_add t ns replace s = Ret (e, s') \<Longrightarrow> watch_step n i (seen, s) (seen, s')"
| remove_task: "watched_Delete ns name s = Ret (e, s') \<Longrightarrow> watch_step n i (seen, s) (seen, s')"
| open_watch: "fake_WatchReaction ns s = (r, s') \<Longrightarrow> watch_step n i (seen, s) (seen, s')"
| take_event: "fw_result (wt_watchers s n ! i) = ev # evs \<Longrightarrow>
    watch_step n i (seen, s)
      (seen @ [ev], s\<lparr>wt_watchers := (wt_watchers s)(n := (wt_watchers s n)[i := (wt_watchers s n ! i)\<lparr>fw_result := evs\<rparr>])\<rparr>)"
| other: "(m, j) \<noteq> (n, i) \<Longrightarrow>
    watch_step n i (seen, s) (seen, s\<lparr>wt_watchers := (wt_watchers s)(m := (wt_watchers s m)[j := f])\<rparr>)"

inductive watch_run :: "string \<Rightarrow> nat \<Rightarrow> task_event list \<times> watched \<Rightarrow> task_event list \<times> watched \<Rightarrow> bool" for n i where
  stay: "watch_run n i c c"
| go_on: "watch_run n i c c' \<Longrightarrow> watch_step n i c' c'' \<Longrightarrow> watch_run n i c c''"

lemma follows_other_watchers:
  assumes "follows n i start seen s" and "wt_objects s' = wt_objects s"
    and "length (wt_watchers s n) \<le> length (wt_watchers s' n)" and "wt_watchers s' n ! i = wt_watchers s n ! i"
  shows "follows n i start seen s'"
  using assms by (simp add: follows_def)

lemma add_follows:
  assumes "follows n i start seen s" and "keyed_objects (wt_objects s)" and "watched_add t ns replace s = Ret (e, s')"
  shows "follows n i start seen s' \<and> keyed_objects (wt_objects s')"
proof -
  define obj where "obj = (if at_namespace t = [] then t\<lparr>at_Meta := (at_Meta t)\<lparr>om_Namespace := ns\<rparr>\<rparr> else t)"
  let ?k = "(at_namespace obj, at_name obj)"
  note d = assms(3) [unfolded watched_add_def Let_def, folded obj_def]
  have "s' = s \<or> ns = at_namespace obj \<and> (\<exists>ev s0 s1. ev \<in> {Sent_Added obj, Sent_Modified obj} \<and> notify ns ev s0 = Ret s1
      \<and> wt_watchers s0 = wt_watchers s \<and> s' = s1\<lparr>wt_objects := fmupd ?k obj (wt_objects s)\<rparr>)"
  proof (cases "ns = at_namespace obj \<and> (fmlookup (wt_objects s) ?k = None \<longleftrightarrow> \<not> replace)")
    case True
    show ?thesis
    proof (cases replace)
      case rep: True
      then obtain s1 where "notify ns (Sent_Modified obj) s = Ret s1" "s' = s1\<lparr>wt_objects := fmupd ?k obj (wt_objects s1)\<rparr>"
        using d True by (auto split: outcome.splits)
      with True notify_sent(1) show ?thesis by fastforce
    next
      case False
      let ?s0 = "s\<lparr>wt_objects := fmupd ?k obj (wt_objects s)\<rparr>"
      have a: "notify ns (Sent_Added obj) ?s0 = Ret s'" using d True False by (auto split: outcome.splits)
      then have "s' = s'\<lparr>wt_objects := fmupd ?k obj (wt_objects s)\<rparr>" using notify_sent(1) [OF a] by (cases s') simp
      with a True show ?thesis
        by (intro disjI2 conjI exI [of _ "Sent_Added obj"] exI [of _ ?s0] exI [of _ s']) simp_all
    qed
  next
    case False
    then show ?thesis using d by (auto split: option.splits if_splits)
  qed
  then consider "s' = s" | ev s0 s1 where "ns = at_namespace obj" "ev \<in> {Sent_Added obj, Sent_Modified obj}"
      "notify ns ev s0 = Ret s1" "wt_watchers s0 = wt_watchers s" "s' = s1\<lparr>wt_objects := fmupd ?k obj (wt_objects s)\<rparr>"
    by blast
  then show ?thesis
  proof cases
    case 2
    have "listed n (fmupd ?k obj (wt_objects s)) =
        (if n = ns \<or> n = [] then replay ev (listed n (wt_objects s)) else listed n (wt_objects s))"
      using listed_own [of n ?k obj "wt_objects s"] listed_other [of n ?k obj "wt_objects s"] 2(1,2) by auto
    with notify_follows [OF assms(1) 2(3,4)] have "follows n i start seen s'" unfolding 2(5) by blast
    moreover have "keyed_objects (wt_objects s')" using assms(2) by (simp add: 2(5) keyed_objects_def)
    ultimately show ?thesis ..
  qed (use assms(1,2) in simp)
qed

lemma delete_follows:
  assumes "follows n i start seen s" and "keyed_objects (wt_objects s)" and "watched_Delete ns name s = Ret (e, s')"
  shows "follows n i start seen s' \<and> keyed_objects (wt_objects s')"
proof (cases "fmlookup (wt_objects s) (ns, name)")
  case None
  then show ?thesis using assms by (simp add: watched_Delete_def)
next
  case (Some obj)
  have k: "at_namespace obj = ns" "at_name obj = name" using assms(2) Some by (auto simp: keyed_objects_def)
  let ?s0 = "s\<lparr>wt_objects := fmdrop (ns, name) (wt_objects s)\<rparr>"
  have d: "notify ns (Sent_Deleted obj) ?s0 = Ret s'" using assms(3) Some by (simp add: watched_Delete_def split: outcome.splits)
  have o: "wt_objects s' = fmdrop (ns, name) (wt_objects s)" using notify_sent(1) [OF d] by simp
  have "listed n (fmdrop (ns, name) (wt_objects s)) =
      (if n = ns \<or> n = [] then replay (Sent_Deleted obj) (listed n (wt_objects s)) else listed n (wt_objects s))"
    using listed_own [of n "(ns, name)" obj "wt_objects s"] listed_other [of n "(ns, name)" obj "wt_objects s"] k by auto
  with notify_follows [OF assms(1) d] have "follows n i start seen (s'\<lparr>wt_objects := fmdrop (ns, name) (wt_objects s)\<rparr>)" by simp
  moreover have "s'\<lparr>wt_objects := fmdrop (ns, name) (wt_objects s)\<rparr> = s'" using o by (cases s') simp
  ultimately show ?thesis using assms(2) o by (auto simp: keyed_objects_def)
qed

lemma step_follows:
  assumes "watch_step n i c c'" and "follows n i start (fst c) (snd c)" and "keyed_objects (wt_objects (snd c))"
  shows "follows n i start (fst c') (snd c') \<and> keyed_objects (wt_objects (snd c'))"
  using assms(1)
proof (cases rule: watch_step.cases)
  case (write_task t ns replace s e s' seen)
  then show ?thesis using add_follows [OF _ _ write_task(3)] assms(2,3) by simp
next
  case (remove_task ns name s e s' seen)
  then show ?thesis using delete_follows [OF _ _ remove_task(3)] assms(2,3) by simp
next
  case (open_watch ns s r s' seen)
  then have s': "s' = s\<lparr>wt_watchers := (wt_watchers s)(ns := wt_watchers s ns @ [NewRaceFreeFake])\<rparr>"
    by (simp add: fake_WatchReaction_def tracker_Watch_def)
  have "follows n i start seen s'"
    by (rule follows_other_watchers [of n i start seen s]) (use assms(2) open_watch s' in \<open>auto simp: follows_def nth_append\<close>)
  then show ?thesis using assms(3) open_watch s' by simp
next
  case (take_event s ev evs seen)
  then show ?thesis using assms(2,3) by (simp add: follows_def)
next
  case (other m j seen s f)
  let ?s = "s\<lparr>wt_watchers := (wt_watchers s)(m := (wt_watchers s m)[j := f])\<rparr>"
  have "follows n i start seen ?s"
    by (rule follows_other_watchers [of n i start seen s]) (use assms(2) other in auto)
  then show ?thesis using assms(3) other by simp
qed

text \<open>
  List and watch: whatever is written and whatever other consumers do, what the watcher was sent since it
  began, replayed on what was listed then, is what a list gives now.
\<close>

theorem list_then_watch:
  assumes "keyed_objects (wt_objects s)" and "fake_WatchReaction n s = (Some (Inr (n, i)), s0)"
    and "watch_run n i ([], s0) (seen, s')"
  shows "listed n (wt_objects s') = fold replay (seen @ fw_result (wt_watchers s' n ! i)) (listed n (wt_objects s))"
proof -
  have s0: "follows n i (listed n (wt_objects s)) [] s0 \<and> keyed_objects (wt_objects s0)"
    using assms(1,2) by (auto simp: fake_WatchReaction_def tracker_Watch_def follows_def NewRaceFreeFake_def)
  have "follows n i (listed n (wt_objects s)) (fst c') (snd c') \<and> keyed_objects (wt_objects (snd c'))"
    if "watch_run n i c c'" "follows n i (listed n (wt_objects s)) (fst c) (snd c) \<and> keyed_objects (wt_objects (snd c))" for c c'
    using that by (induction rule: watch_run.induct) (auto dest: step_follows)
  from this [OF assms(3)] s0 show ?thesis by (simp add: follows_def)
qed

end
