(* ===== verification/Spec2Isabelle.thy ===== *)
theory Spec2Isabelle
  imports Failure_Facts Samples Cli_Flow Event_Filters Webhook_Config Webhook_Gaps Gate_Properties Deep_Copy Informer_Facts
    Client_Facts Client_Properties Work_Properties Vote_Properties Task_Validation
    Fake_Watch "HOL-Library.Multiset"
begin

text \<open>
  A verification library for manual-approval-gate: a Kubernetes controller that lets people approve
  or reject a step of a Tekton pipeline.

  \<^bold>\<open>The program.\<close> A pipeline's \<open>CustomRun\<close> that references kind \<open>ApprovalTask\<close> makes the controller
  (\<open>pkg/reconciler/approvaltask\<close>) create an ApprovalTask object with the approvers of the run's
  parameters. People change their own input in that object, usually with the command line client
  (\<open>pkg/cli\<close>, \<open>pkg/actions\<close>); every creation and update passes the admission webhook
  (\<open>pkg/reconciler/webhook\<close>). Each change wakes the controller (\<open>NewController\<close>), which counts the
  answers, stores the decision in the task's status and marks the run as succeeded or failed; a
  timeout fails it as well. The parts share nothing but the API server's objects.

  \<^bold>\<open>Theories and the code they model\<close>, in the order of import.
  \<^item> Go and its library: \<open>Go_Prelude\<close> (strings as bytes, errors as options, panics as \<open>outcome\<close>, 64-bit
    wrap-around), \<open>Go_Strings\<close> (\<open>strings\<close>, \<open>strconv\<close>, \<open>utf8\<close>), \<open>Go_Fmt\<close> (\<open>Sprintf\<close> of a format without
    arguments), \<open>Go_Json\<close>, \<open>Go_Duration\<close> (\<open>time.ParseDuration\<close>), \<open>Go_Sha256\<close>.
  \<^item> Tekton and Knative, as vendored: \<open>Knative_Conditions\<close> (the condition set and its manager),
    \<open>Custom_Run\<close> (the run, its marks, extra fields and events), \<open>Go_Errors\<close> (status errors, wrapping,
    multierror, requeue errors and the work queue's \<open>handleErr\<close>).
  \<^item> \<open>Api_Types\<close>, \<open>Task_Validation\<close>: \<open>pkg/apis/approvaltask/v1alpha1\<close>; a record per struct.
  \<^item> \<open>At_Client\<close>: a client of ApprovalTasks as its callers see it, with errors that the server answered and errors
    that came before any answer, and the object tracker of the fake client set; \<open>Rest_Client\<close>: the
    requests that the controller's typed client builds (\<open>gentype\<close>, \<open>rest\<close>); \<open>Dynamic_Client\<close>: those of the
    dynamic client, with its checks of names, that the commands go through (\<open>c.Dynamic\<close>); \<open>Scheme_Registry\<close>:
    the schemes the types are added to.
  \<^item> The controller: \<open>Param_Validation\<close>, \<open>Create_Task\<close>, \<open>Approval_State\<close> (\<open>utils.go\<close>), \<open>Reconciler\<close>
    (\<open>approvaltask.go\<close>), \<open>Event_Filters\<close> (\<open>controller.go\<close>).
  \<^item> The webhook: \<open>Webhook_Validate\<close>, \<open>Webhook_Admit\<close>, \<open>Webhook_Config\<close> (\<open>webhook.go\<close>).
  \<^item> The client: \<open>Cli_Actions\<close> (\<open>actions.go\<close>), \<open>Cli_View\<close> and \<open>Cli_Commands\<close> (\<open>pkg/cli/cmd\<close>), \<open>Cli_Root\<close>
    (\<open>root.go\<close> and the main program).
  \<^item> Around the controller: \<open>Run_Sync\<close>, the reconciler that Tekton generates: it takes a key from the
    queue, calls \<open>ReconcileKind\<close> on a copy of the run and writes the status back; \<open>Informer_Factory\<close>,
    the generated shared informers; \<open>Go_Heap\<close> and \<open>Deep_Copy\<close>, the generated deep copies on a store of
    cells; \<open>Client_Setup\<close> (\<open>params.go\<close>, \<open>flags.go\<close>, the client set); \<open>Startup\<close> (the webhook's names, the
    factories put into a context, the listers); \<open>Injection\<close> (\<open>pkg/client/injection\<close> with the library's set-up
    that calls it, \<open>NewController\<close> and the controller's main program).
  \<^item> \<open>Work_Queue\<close>: the queue of \<open>client-go\<close>, the two lanes of \<open>knative.dev/pkg/controller\<close> with their goroutines,
    the delayed keys and the workers, as the step relation \<open>work_step\<close>.
  \<^item> \<open>Test_Support\<close>: the fake client set with its chain of reactors, and \<open>pkg/test\<close>; its lemmas show that the
    client of the tests is the plain object tracker, a \<open>task_editor\<close>. \<open>Fake_Watch\<close>: its watches; what a
    watcher was sent, replayed on what was listed when it began, is what the tracker holds.
  A function of the code has the definition of its name; where its name is taken or the code is a
  nested block, the definition is named after what the block does and the manifest's map gives its
  lines. A loop over a slice is a \<open>fun\<close> over the list with the loop's variables as an accumulator.

  \<^bold>\<open>What the lemmas show.\<close>
  \<^item> \<open>Verdict\<close> states what a decision is (undecided, approved, rejected as a function of the spec) and
    that \<open>decideState\<close>, with its maps and flags, refines it; webhook and client count by the same sets.
  \<^item> \<open>Webhook_Facts\<close> characterises an allowed update: the own vote is there and nobody else's is new;
    \<open>Webhook_Gaps\<close> shows what the webhook does not look at.
  \<^item> \<open>Create_Facts\<close>: the task of a validated run, which the webhook admits.
  \<^item> \<open>Reconcile_Facts\<close>, \<open>Timeout_Facts\<close>: one reconciliation against any API server;
    \<open>Reconcile_Store\<close>, \<open>Reconcile_Run\<close>: against a store nobody else writes to, proved in the locale
    \<open>task_store\<close>, which the tracker of the fake client set implements; \<open>Failure_Facts\<close>: what can fail a
    run, and what a read that fails does, again against any API server.
  \<^item> \<open>Lifecycle\<close>: every history of updates, reconciliations and timeouts, as an inductive step
    relation over the locale \<open>admission_policy\<close>, which the webhook's \<open>Admit_update\<close> implements. An update may
    change the spec in every way that the webhook lets pass; the history remembers who answered and who
    altered the list of approvers or the required number, which \<open>Webhook_Gaps\<close> shows to be possible.
  \<^item> \<open>Cli_Facts\<close>, \<open>Cli_Flow\<close>: the client's update is one the webhook admits, and what a command makes
    the next reconciliation do.
  \<^item> \<open>Run_Sync_Facts\<close>, \<open>Cluster\<close>, \<open>Gate_Flow\<close>, \<open>Sync_Properties\<close>: the composed program. \<open>Cluster\<close> puts the
    stores of tasks and runs together (the locale \<open>cluster\<close> over \<open>task_editor\<close> and \<open>run_store\<close>, implemented
    by the fake client sets); the reconciliation of a key ends in the stored run and status.
  \<^item> \<open>Gate_System\<close>: every history of one key in the composed program, as an inductive step relation of
    admitted updates, edits of the run and reconciliations from any version of the run a cache may still
    hold; its locale \<open>gate\<close> lets the write of a status fail in any way. A reconciliation is one step of it.
  \<^item> \<open>Gate_Concurrent\<close>: the same with others at work between any two calls of a reconciliation, by rely
    and guarantee. \<open>gate_move\<close> is what a vote, an edit, another replica or a handling may do to the task
    and the run of a key; the locale \<open>busy_gate\<close> says that every call is a number of such moves with the
    call's own effect among them, where a write of a status is checked for the version it was read
    at; a handling as a whole then is a sequence of moves. It is interpreted on a cluster that takes
    requests of others from a queue before each call. The properties stand in \<open>Gate_Properties\<close>.
  \<^item> \<open>Client_Agreement\<close>: two clients that agree about one task make the controller and the commands do the
    same, and the typed and the dynamic client over a server that keeps tasks by their paths agree with the
    fake one; \<open>Client_Properties\<close> states this (the typed client for a reconciliation, the dynamic one for
    the commands) and what the main program of the controller builds.
  \<^item> \<open>Work_Facts\<close>, \<open>Work_Properties\<close>: the work queue of \<open>Work_Queue\<close> in every order of the steps of its
    goroutines. The locale \<open>key_queue\<close> is the contract of one queue, which \<open>wq_Add\<close>, \<open>wq_Get\<close> and \<open>wq_Done\<close>
    keep; over it, no key is with two workers (so the histories of one key above may take its
    reconciliations one after the other), no queued key is lost, whatever else happens meanwhile and also
    when a worker still has the key, and the run of an undecided gate comes back.
  \<^item> \<open>Api_Server\<close>, \<open>Server_Facts\<close>, \<open>Vote_Rounds\<close>, \<open>Vote_Properties\<close>: the program with its own webhook between
    everybody and the store. The locale \<open>guarded_api\<close> states what the API server is documented to do (a
    creation or an update is answered by \<open>Admit\<close> first, reads and statuses are not, a status is a
    subresource, as \<open>config/kubernetes/300-taskgroup.yaml\<close> asks for); \<open>behind_webhook\<close> is an instance on the
    trackers, for any \<open>codec\<close> of the requests, and \<open>Task_Codec\<close> gives one codec. The controller and the
    client do behind the webhook what they do before the plain store; \<open>rounds\<close> lets people vote in turn with a
    handling after each, and the gate opens when the last one missing has voted. A single command that the
    webhook lets pass, the key its event queues and the handling of this key end in the stored run.
  \<^item> \<open>Informer_Facts\<close>: every history of an informer factory (the locale \<open>informer_source\<close>, which the
    factory's methods implement): each informer is launched once, and none after a shutdown began; \<open>Deep_Copy\<close>: each copy meets the locale \<open>copier\<close> (the same value in
    cells of its own); \<open>Client_Facts\<close>: what setting up the clients gives a command.
  \<^item> \<open>Task_Validation\<close>: a task that \<open>Validate\<close> accepts has a name that is one segment of a path.
  \<^item> \<open>Sha_Eval\<close>: rules that evaluate SHA-256 by rewriting, tried on an example of FIPS 180-4; \<open>Vote_Samples\<close>
    computes with them the two digests that the controller compares in a sample run.
  \<^item> \<open>Samples\<close>, \<open>Gate_Samples\<close>: the objects at which the properties are applied. The properties that span
    components stand below, in the order of the parts they are about; those of the composed program,
    of informers, deep copies and client set-up stand in the theories named above.

  \<^bold>\<open>Parameters.\<close> What is outside the repository is an argument: the API server (the record
  \<open>at_client\<close> of operations on a state the model never looks into; nothing is assumed of it unless a
  statement names a locale's laws), the clock readings, \<open>json.Unmarshal\<close>, the fraction of a duration
  (floating point in Go), the order in which a map is visited, the lister and the answer to a patch
  (fields of \<open>env\<close>), the update and the listers of the registration, discovery and the current user
  of the client, the colouring of its tables, what the client library makes of a configuration
  (\<open>client_lib\<close>), and the injectors that linked packages of other repositories register beside those of
  this one and of Tekton (\<open>linked\<close>).

  \<^bold>\<open>Bounds.\<close> Every definition is total and there is no fuel: loops over slices are structural, the
  parsers recurse on the rest of their text. Durations and counters are Go's \<open>int64\<close>, with
  \<open>wrap64\<close> where the code computes; SHA-256 is on 32-bit words. An index out of range is \<open>Panic\<close>.
  The generated reconciler writes a status at most five times (\<open>DefaultRetry_Steps\<close>, the library's
  constant); \<open>OnError\<close> recurses on the attempts left. A fake watcher holds 100 events, one more is \<open>Panic\<close>.

  \<^bold>\<open>Not modelled.\<close> Logging; the times of the delays of the work queue and its rate limiter;
  the alignment of the tables by \<open>tabwriter\<close>. Of starting up:
  cobra's parsing of the command line, reading a kubeconfig (its result is a parameter), the HTTP and
  TLS servers, and the conversion and defaulting functions of a scheme. Of requests: the encoding of
  options and bodies, throttling, and the library's own repetition of a request.
  The waits between retries; finalizers and observers, which the controller does not implement; in
  deep copies the embedded \<open>duckv1.Status\<close>, which nothing reads. What an informer does once it runs is
  library code, as is its resync period. The end-to-end tests under \<open>test/\<close>
  talk to a cluster.
\<close>

section \<open>The controller\<close>

text \<open>
  C1. A run that a reconciliation makes succeed has an ApprovalTask whose approvers gave the
  required number of approvals, counted by person, with no approver's input a rejection; the only
  other way is a task whose stored state was "approved" already and on which nothing new is
  decided. This holds whatever the API answers.
\<close>

theorem approved_run_has_quorum:
  assumes "ReconcileKind env cl run w = (err, run', w')"
    and "run_conditions_ok run" and "\<not> IsSuccessful run" and "IsSuccessful run'"
  shows "\<exists>task r s'. same_request r run \<and> getOrCreateApprovalTask env cl r (w_api w) = (Inr task, r, s')
    \<and> (sp_NumberOfApprovalsRequired (at_Spec task) \<le> int (card (approved_users (sp_Approvers (at_Spec task))))
         \<and> \<not> rejects (sp_Approvers (at_Spec task))
       \<or> task_verdict task = Undecided \<and> st_State (at_Status task) = approvedState)"
proof -
  obtain task where t: "approved_task env cl run (w_api w) task"
    using ReconcileKind_success [OF assms] ..
  then have "found_state task = approvedState" by (simp add: approved_task_def)
  with found_approved t show ?thesis unfolding approved_task_def by metis
qed

lemma approve_run0:
  obtains err run' w' where "ReconcileKind env0 fake_client run0 (world_of approved_task0) = (err, run', w')"
    "IsSuccessful run'"
proof -
  obtain w' where "ReconcileKind env0 fake_client run0 (world_of approved_task0) =
      (Some (MultiErr [RequeueErr (delay_of env0 run0 approved_task0)]), next_run env0 run0 approved_task0, w')"
    using fake.kind_stored [OF ready_run0 lookup_world_of keyed_samples(2) in_time_samples(2)] by metis
  moreover have "IsSuccessful (next_run env0 run0 approved_task0)"
    using next_run_status(1) [OF ready_run0 changed_samples(2)] verdict_samples(2) by (simp add: found_state_def)
  ultimately show ?thesis using that by blast
qed

theorem approved_run_has_quorum_witness:
  "\<exists>task r s'. same_request r run0
    \<and> getOrCreateApprovalTask env0 fake_client r (w_api (world_of approved_task0)) = (Inr task, r, s')
    \<and> (sp_NumberOfApprovalsRequired (at_Spec task) \<le> int (card (approved_users (sp_Approvers (at_Spec task))))
         \<and> \<not> rejects (sp_Approvers (at_Spec task))
       \<or> task_verdict task = Undecided \<and> st_State (at_Status task) = approvedState)"
  by (rule approve_run0) (rule approved_run_has_quorum [OF _ run0_fresh(1,2)])

text \<open>
  C5. What it takes to make a run fail: a run that has not failed and that a reconciliation leaves failed
  is faulty itself (its parameters, its timeout, its stored status or its embedded spec do not parse or
  are not valid), or its task is past the timeout, or its task has changed and somebody rejects it, or
  the task was stored as rejected before. No error of the API fails a run.
\<close>

theorem failed_run_has_cause:
  assumes "ReconcileKind env cl run w = (err, run', w')"
    and "run_conditions_ok run" and "\<not> IsFailure run" and "IsFailure run'"
  shows "faulty_run env run
    \<or> (\<exists>task d. obtained_task env cl run (w_api w) task \<and> parse_timeout env run = Inr d
         \<and> (ApprovalTaskHasTimedOut (start_task task) (e_clock_check env) (run_timeout (run\<lparr>cr_Timeout := d\<rparr>))
            \<or> hash_changed env task
              \<and> (rejects (sp_Approvers (at_Spec task))
                 \<or> task_verdict task = Undecided \<and> st_State (at_Status task) = rejectedState)))"
  using ReconcileKind_failure [OF assms] by (elim disjE exE conjE) (auto elim!: refused_task_cases)

lemma reject_run0:
  obtains err run' w' where "ReconcileKind env0 fake_client run0 (world_of rejected_task0) = (err, run', w')"
    "IsFailure run'"
proof -
  obtain w' where "ReconcileKind env0 fake_client run0 (world_of rejected_task0) =
      (Some (MultiErr [RequeueErr (delay_of env0 run0 rejected_task0)]), next_run env0 run0 rejected_task0, w')"
    using fake.kind_stored [OF ready_run0 lookup_world_of keyed_samples(3) in_time_samples(3)] by metis
  moreover have "IsFailure (next_run env0 run0 rejected_task0)"
    using next_run_status(2) [OF ready_run0 changed_samples(3)] verdict_samples(3) by (simp add: found_state_def)
  ultimately show ?thesis using that by blast
qed

theorem failed_run_has_cause_witness:
  "faulty_run env0 run0
    \<or> (\<exists>task d. obtained_task env0 fake_client run0 (w_api (world_of rejected_task0)) task \<and> parse_timeout env0 run0 = Inr d
         \<and> (ApprovalTaskHasTimedOut (start_task task) (e_clock_check env0) (run_timeout (run0\<lparr>cr_Timeout := d\<rparr>))
            \<or> hash_changed env0 task
              \<and> (rejects (sp_Approvers (at_Spec task))
                 \<or> task_verdict task = Undecided \<and> st_State (at_Status task) = rejectedState)))"
  by (rule reject_run0) (rule failed_run_has_cause [OF _ run0_fresh(1,3)])

text \<open>
  C10. A read that fails does no harm: when the task cannot be read, for any reason but that there is none,
  the reconciliation writes nothing at all, leaves the run in the condition it was in, and asks for the
  key again. This holds against any API server, although the code drops the error.
\<close>

theorem failed_read_changes_nothing:
  assumes "ready env run" and "ApprovalTasks_Get cl (run_ns run) (run_name run) (w_api w) = ((got, Some e), s1)"
    and "\<not> IsNotFound e" and "ReconcileKind env cl run w = (err, run', w')"
  shows "w_api w' = s1 \<and> run_status run' = run_status run \<and> (\<exists>d. err = Some (MultiErr [RequeueErr d]))"
  by (rule failed_read [OF assms])

theorem failed_read_changes_nothing_witness:
  "\<exists>err run' w'. ReconcileKind env0 (fake_client\<lparr>cl_Get := \<lambda>ns n s. (Inl (Unanswered ''connection refused''), s)\<rparr>) run0
      (world_of approved_task0) = (err, run', w')
    \<and> w_api w' = w_api (world_of approved_task0) \<and> run_status run' = run_status run0"
proof -
  let ?cl = "fake_client\<lparr>cl_Get := \<lambda>ns n s. (Inl (Unanswered ''connection refused''), s)\<rparr>"
  obtain err run' w' where k: "ReconcileKind env0 ?cl run0 (world_of approved_task0) = (err, run', w')"
    by (metis prod.collapse)
  have g: "ApprovalTasks_Get ?cl (run_ns run0) (run_name run0) (w_api (world_of approved_task0)) =
      ((empty_task, Some (api_go (Unanswered ''connection refused''))), w_api (world_of approved_task0))"
    by (simp add: ApprovalTasks_Get_def typed_result_def)
  have "\<not> IsNotFound (api_go (Unanswered ''connection refused''))" by (simp add: IsNotFound_def reasonAndCodeForError_def)
  from failed_read_changes_nothing [OF ready_run0 g this k] k show ?thesis by auto
qed

text \<open>
  Enough approvals and no rejection: the reconciliation that finds them marks the run as
  succeeded and stores the task as approved with its spec unchanged. The store is the object
  tracker of the fake client set.
\<close>

theorem approval_succeeds:
  assumes "ready env run" and "tracker_lookup (w_api w) (run_ns run) (run_name run) = Some t"
    and "keyed run t" and "in_time env run t" and "hash_changed env t" and "task_verdict t = Approved"
  shows "\<exists>d run' w' t'. ReconcileKind env fake_client run w = (Some (MultiErr [RequeueErr d]), run', w')
    \<and> IsSuccessful run' \<and> tracker_lookup (w_api w') (run_ns run) (run_name run) = Some t'
    \<and> st_State (at_Status t') = approvedState \<and> at_Spec t' = at_Spec t"
proof -
  have f: "found_state t = approvedState" using assms(6) by (simp add: found_state_def)
  obtain w' where "ReconcileKind env fake_client run w = (Some (MultiErr [RequeueErr (delay_of env run t)]), next_run env run t, w')"
    and "tracker_lookup (w_api w') (run_ns run) (run_name run) = Some (stored_after env t)"
    using fake.kind_stored [OF assms(1-4)] by metis
  with next_run_status(1) [OF assms(1,5) f] assms(5) f show ?thesis
    by (auto simp: stored_after_state)
qed

theorem approval_succeeds_witness:
  "\<exists>d run' w' t'. ReconcileKind env0 fake_client run0 (world_of approved_task0) = (Some (MultiErr [RequeueErr d]), run', w')
    \<and> IsSuccessful run' \<and> tracker_lookup (w_api w') (run_ns run0) (run_name run0) = Some t'
    \<and> st_State (at_Status t') = approvedState \<and> at_Spec t' = at_Spec approved_task0"
  by (rule approval_succeeds [OF ready_run0 lookup_world_of keyed_samples(2) in_time_samples(2)
        changed_samples(2) verdict_samples(2)])

text \<open>
  Any approver's rejection that counts fails the run and stores the task as rejected, however
  many approvals there are.
\<close>

theorem rejection_fails:
  assumes "ready env run" and "tracker_lookup (w_api w) (run_ns run) (run_name run) = Some t"
    and "keyed run t" and "in_time env run t" and "hash_changed env t"
    and "answered (sp_Approvers (at_Spec t))" and "rejects (sp_Approvers (at_Spec t))"
  shows "\<exists>d run' w' t'. ReconcileKind env fake_client run w = (Some (MultiErr [RequeueErr d]), run', w')
    \<and> IsFailure run' \<and> tracker_lookup (w_api w') (run_ns run) (run_name run) = Some t'
    \<and> st_State (at_Status t') = rejectedState \<and> at_Spec t' = at_Spec t"
proof -
  have f: "found_state t = rejectedState"
    using assms(6,7) by (simp add: found_state_def task_verdict_def decide_def)
  obtain w' where "ReconcileKind env fake_client run w = (Some (MultiErr [RequeueErr (delay_of env run t)]), next_run env run t, w')"
    and "tracker_lookup (w_api w') (run_ns run) (run_name run) = Some (stored_after env t)"
    using fake.kind_stored [OF assms(1-4)] by metis
  with next_run_status(2) [OF assms(1,5) f] assms(5) f show ?thesis
    by (auto simp: stored_after_state)
qed

lemma rejected_sample: "answered (sp_Approvers (at_Spec rejected_task0))" "rejects (sp_Approvers (at_Spec rejected_task0))"
  by (simp_all add: verdict_defs sample_defs)

theorem rejection_fails_witness:
  "\<exists>d run' w' t'. ReconcileKind env0 fake_client run0 (world_of rejected_task0) = (Some (MultiErr [RequeueErr d]), run', w')
    \<and> IsFailure run' \<and> tracker_lookup (w_api w') (run_ns run0) (run_name run0) = Some t'
    \<and> st_State (at_Status t') = rejectedState \<and> at_Spec t' = at_Spec rejected_task0"
  by (rule rejection_fails [OF ready_run0 lookup_world_of keyed_samples(3) in_time_samples(3)
        changed_samples(3) rejected_sample])

text \<open>
  C11. A run whose task does not exist yet: the reconciliation creates it, under the run's name,
  with the approvers the parameters name, pending and with nobody's answer; the run stays
  undecided and its key comes back to the queue.
\<close>

theorem fresh_run_creates_task:
  assumes "ready env run" and "tracker_lookup (w_api w) (run_ns run) (run_name run) = None"
  shows "\<exists>acc t d run' w'. create_params (cr_Params run) create_init = Inr acc
    \<and> ReconcileKind env fake_client run w = (Some (MultiErr [RequeueErr d]), run', w')
    \<and> tracker_lookup (w_api w') (run_ns run) (run_name run) = Some t
    \<and> created_task env run acc t \<and> initial t
    \<and> run_status run' = run_status run \<and> 0 < d"
proof -
  obtain acc t where a: "create_params (cr_Params run) create_init = Inr acc" and c: "created_task env run acc t"
    and z: "om_CreationTimestamp (at_Meta t) = 0"
    and k: "in_time env run t \<Longrightarrow>
       \<exists>run' w'. ReconcileKind env fake_client run w = (Some (MultiErr [RequeueErr (delay_of env run t)]), run', w')
         \<and> run_status run' = run_status run
         \<and> (\<forall>ns n. tracker_lookup (w_api w') ns n =
              (if ns = run_ns run \<and> n = run_name run then Some t else tracker_lookup (w_api w) ns n))"
    using fake.kind_fresh [OF assms] by metis
  have "in_time env run t"
    using c z by (simp add: in_time_def timed_out_def ApprovalTaskHasTimedOut_def start_task_def
        HasStarted_def created_task_def initial_status_def)
  moreover have "initial t" by (rule created_initial [OF ready_valid_run [OF assms(1)] a c])
  moreover have "0 < delay_of env run t" using requeue_delay_range by (simp add: delay_of_def)
  ultimately show ?thesis using a c k by auto
qed

theorem fresh_run_creates_task_witness:
  "\<exists>acc t d run' w'. create_params (cr_Params run0) create_init = Inr acc
    \<and> ReconcileKind env0 fake_client run0 empty_world = (Some (MultiErr [RequeueErr d]), run', w')
    \<and> tracker_lookup (w_api w') (run_ns run0) (run_name run0) = Some t
    \<and> created_task env0 run0 acc t \<and> initial t
    \<and> run_status run' = run_status run0 \<and> 0 < d"
  by (rule fresh_run_creates_task [OF ready_run0]) (simp add: tracker_lookup_def empty_world_def)

text \<open>
  C12. Past its timeout, a run fails with the timeout as its message, and its task is stored as
  rejected, whatever its approvers have answered.
\<close>

theorem timeout_rejects:
  assumes "ready env run" and "tracker_lookup (w_api w) (run_ns run) (run_name run) = Some t"
    and "keyed run t" and "\<not> in_time env run t"
  shows "\<exists>err run' w' t'. ReconcileKind env fake_client run w = (err, run', w')
    \<and> run_marked run' ConditionFalse ''Failed'' (Sprintf0 (timeout_message (run_name run)))
    \<and> tracker_lookup (w_api w') (run_ns run) (run_name run) = Some t'
    \<and> st_State (at_Status t') = rejectedState \<and> at_Spec t' = at_Spec t"
proof -
  obtain err run' w' where "ReconcileKind env fake_client run w = (err, run', w')"
    and "run_marked run' ConditionFalse ''Failed'' (Sprintf0 (timeout_message (run_name run)))"
    and "tracker_lookup (w_api w') (run_ns run) (run_name run) = Some (expired_task t)"
    using fake.kind_expired [OF assms] by metis
  then show ?thesis by (auto simp: expired_task_sel)
qed

lemma late_sample: "\<not> in_time (env0\<lparr>e_clock_check := 3600000000002\<rparr>) run0 approved_task0"
  unfolding in_time_def timed_out_def timeout_run0
  by (simp add: ApprovalTaskHasTimedOut_def start_task_def HasStarted_def TimeSub_def sample_defs)

lemma ready_late: "ready (env0\<lparr>e_clock_check := c\<rparr>) run0"
  by (simp add: ready_def run_conditions_ok_def conditions_ok_def IsDone_def run_condition_def sample_defs go_defs)

theorem timeout_rejects_witness:
  "\<exists>err run' w' t'. ReconcileKind (env0\<lparr>e_clock_check := 3600000000002\<rparr>) fake_client run0 (world_of approved_task0) = (err, run', w')
    \<and> run_marked run' ConditionFalse ''Failed'' (Sprintf0 (timeout_message (run_name run0)))
    \<and> tracker_lookup (w_api w') (run_ns run0) (run_name run0) = Some t'
    \<and> st_State (at_Status t') = rejectedState \<and> at_Spec t' = at_Spec approved_task0"
  by (rule timeout_rejects [OF ready_late lookup_world_of keyed_samples(2) late_sample])

text \<open>
  While the approvers are as they were last applied, a reconciliation changes neither the store
  nor the status of the run: it only asks for the key to come back.
\<close>

theorem unchanged_task_waits:
  assumes "ready env run" and "tracker_lookup (w_api w) (run_ns run) (run_name run) = Some t"
    and "keyed run t" and "in_time env run t" and "\<not> hash_changed env t"
  shows "\<exists>d run' w'. ReconcileKind env fake_client run w = (Some (MultiErr [RequeueErr d]), run', w')
    \<and> run_status run' = run_status run \<and> 0 < d
    \<and> (\<forall>ns n. tracker_lookup (w_api w') ns n = tracker_lookup (w_api w) ns n)"
proof -
  obtain w' where "ReconcileKind env fake_client run w = (Some (MultiErr [RequeueErr (delay_of env run t)]), next_run env run t, w')"
    and "\<And>ns n. tracker_lookup (w_api w') ns n =
       (if ns = run_ns run \<and> n = run_name run then Some (stored_after env t) else tracker_lookup (w_api w) ns n)"
    using fake.kind_stored [OF assms(1-4)] by metis
  moreover have "stored_after env t = t" using assms(5) by (simp add: stored_after_def)
  moreover have "0 < delay_of env run t" using requeue_delay_range by (simp add: delay_of_def)
  ultimately show ?thesis using next_run_status(3) [OF assms(1)] assms(2,5) by auto
qed

definition applied_task0 :: approval_task where
  "applied_task0 = task0\<lparr>at_Meta := meta0\<lparr>om_Annotations :=
     Some (fmupd LastAppliedHashKey (Compute (sp_Approvers spec0)) fmempty)\<rparr>\<rparr>"

lemma applied_sample: "keyed run0 applied_task0" "in_time env0 run0 applied_task0" "\<not> hash_changed env0 applied_task0"
proof -
  show "keyed run0 applied_task0" by (simp add: keyed_def applied_task0_def sample_defs)
  show "in_time env0 run0 applied_task0"
    unfolding in_time_def timed_out_def timeout_run0
    by (simp add: ApprovalTaskHasTimedOut_def start_task_def HasStarted_def TimeSub_def applied_task0_def sample_defs)
  show "\<not> hash_changed env0 applied_task0"
    by (simp add: hash_changed_def applied_task0_def task0_def)
qed

theorem unchanged_task_waits_witness:
  "\<exists>d run' w'. ReconcileKind env0 fake_client run0 (world_of applied_task0) = (Some (MultiErr [RequeueErr d]), run', w')
    \<and> run_status run' = run_status run0 \<and> 0 < d
    \<and> (\<forall>ns n. tracker_lookup (w_api w') ns n = tracker_lookup (w_api (world_of applied_task0)) ns n)"
  by (rule unchanged_task_waits [OF ready_run0 lookup_world_of applied_sample])

text \<open>
  No undecided run is lost: whatever the API answers, a reconciliation that leaves a ready run
  without a failure returns an error for which the work queue schedules the key again.
\<close>

theorem live_run_requeued:
  assumes "ready env run" and "ReconcileKind env cl run w = (err, run', w')" and "\<not> IsFailure run'"
  shows "processNextWorkItem False err \<noteq> Forget"
proof -
  obtain e where e: "err = Some (multierror_Append None [Some e])" "retried e"
    using ReconcileKind_live [OF assms] by blast
  from retried_not_forgotten [OF flatten_retried [OF e(2)]] e(1) show ?thesis
    by (simp add: processNextWorkItem_def)
qed

theorem live_run_requeued_witness:
  "\<exists>err run' w'. ReconcileKind env0 fake_client run0 (world_of applied_task0) = (err, run', w')
     \<and> processNextWorkItem False err \<noteq> Forget"
proof -
  obtain w' where k: "ReconcileKind env0 fake_client run0 (world_of applied_task0) =
      (Some (MultiErr [RequeueErr (delay_of env0 run0 applied_task0)]), next_run env0 run0 applied_task0, w')"
    using fake.kind_stored [OF ready_run0 lookup_world_of applied_sample(1,2)] by metis
  have "\<not> IsFailure (next_run env0 run0 applied_task0)"
    using next_run_status(3) [OF ready_run0, of applied_task0] applied_sample(3) run0_fresh by (simp add: run_status_iff)
  from live_run_requeued [OF ready_run0 k this] k show ?thesis by blast
qed

text \<open>
  C19. The timeout is enforced: when the queue processes the key no earlier than it was asked to,
  the task has timed out at the next reconciliation or at the one after it.
\<close>

theorem timeout_reached:
  assumes "st_StartTime (at_Status t) = Some s" and "0 < s" and "s \<le> e_clock_wait env1"
    and "0 \<le> run_timeout r" and "run_timeout r \<le> max_int64"
    and "e_clock_wait env1 + requeue_delay env1 r t \<le> e_clock_check env2"
    and "e_clock_check env2 \<le> e_clock_wait env2"
    and "e_clock_wait env2 + requeue_delay env2 r t \<le> e_clock_check env3"
    and "e_clock_check env3 - s \<le> max_int64"
  shows "timed_out env2 r t \<or> timed_out env3 r t"
  by (rule requeue_expires [OF assms(1-4,6-9,5)])

definition started_task0 :: approval_task where
  "started_task0 = task0\<lparr>at_Status := status0\<lparr>st_StartTime := Some 1\<rparr>\<rparr>"

theorem timeout_reached_witness:
  "let env2 = env0\<lparr>e_clock_check := 3600000000001, e_clock_wait := 3600000000001\<rparr>;
       env3 = env0\<lparr>e_clock_check := 3601000000001\<rparr>
   in timed_out env2 run0 started_task0 \<or> timed_out env3 run0 started_task0"
  unfolding Let_def
  by (rule timeout_reached [where s = 1 and ?env1.0 = env0])
    (simp_all add: started_task0_def requeue_delay_def TimeSub_def wrap64_def run_timeout_def sample_defs)

text \<open>A reconciliation of a run that is done changes nothing and asks for nothing.\<close>

theorem done_run_untouched:
  assumes "checkCustomRunReferencesApprovalTask run = None" and "run_HasStarted run" and "IsDone run"
  shows "ReconcileKind env cl run w = (None, run, w) \<and> processNextWorkItem False None = Forget"
  by (simp add: ReconcileKind_done [OF assms] processNextWorkItem_def)

definition done_run0 :: custom_run where
  "done_run0 = run0\<lparr>cr_Status := \<lparr>crs_Conditions = [new_condition ConditionSucceeded ConditionTrue '''' ''Succeeded'' ''''],
     crs_StartTime = Some 3, crs_CompletionTime = Some 4, crs_ExtraFields = []\<rparr>\<rparr>"

theorem done_run_untouched_witness:
  "ReconcileKind env0 fake_client done_run0 empty_world = (None, done_run0, empty_world)
   \<and> processNextWorkItem False None = Forget"
  by (rule done_run_untouched)
    (simp_all add: done_run0_def run_HasStarted_def IsZero_def IsDone_def run_condition_def go_defs sample_defs)

text \<open>A run keeps at most one condition of each type through every reconciliation.\<close>

theorem run_conditions_invariant:
  assumes "ReconcileKind env cl run w = (err, run', w')" and "conditions_ok (crs_Conditions (cr_Status run))"
  shows "conditions_ok (crs_Conditions (cr_Status run'))"
  using ReconcileKind_conditions_ok [OF assms(1)] assms(2) by (simp add: run_conditions_ok_def)

theorem run_conditions_invariant_witness:
  "\<exists>err run' w'. ReconcileKind env0 fake_client run0 empty_world = (err, run', w')
     \<and> conditions_ok (crs_Conditions (cr_Status run'))"
proof -
  obtain err run' w' where k: "ReconcileKind env0 fake_client run0 empty_world = (err, run', w')"
    by (cases "ReconcileKind env0 fake_client run0 empty_world") auto
  from run_conditions_invariant [OF k] run0_fresh(1) k show ?thesis
    by (auto simp: run_conditions_ok_def)
qed

section \<open>Creation\<close>

text \<open>
  C23. The controller's validation and the webhook agree: the task made from a run whose parameters
  were accepted, with its approvers given as arrays, is one the webhook admits for creation.
\<close>

theorem validated_run_admitted:
  assumes "ValidateCustomRunParameters unmarshal run = None"
    and "\<forall>p \<in> set (cr_Params run). p_Name p = ''approvers'' \<longrightarrow> array_only p"
    and "create_params (cr_Params run) create_init = Inr acc"
    and "rq_Operation rq = ''CREATE''" and "decodeObject decode (rq_Object rq) = Inr (new_task run acc)"
  shows "\<exists>r. Admit decode rq = Ret r \<and> resp_Allowed r"
proof -
  obtain acc' where "create_params (cr_Params run) create_init = Inr acc'"
    "spec_ok (at_Spec (new_task run acc'))" "all_pending (sp_Approvers (at_Spec (new_task run acc')))"
    using valid_run_new_task [OF valid_runI [OF assms(1,2)]] .
  then show ?thesis unfolding Admit_create_iff [OF assms(4)] using assms(3,5) by auto
qed

theorem validated_run_admitted_witness:
  "\<exists>r. Admit (\<lambda>b. Inr (new_task run0 acc0))
      \<lparr>rq_Operation = ''CREATE'', rq_Object = ''task'', rq_OldObject = '''', rq_UserInfo = \<lparr>ui_Username = ''alice'', ui_Groups = []\<rparr>\<rparr>
      = Ret r \<and> resp_Allowed r"
  by (rule validated_run_admitted [where unmarshal = "e_unmarshal_json env0", OF _ _ create_run0])
    (use ready_run0 in \<open>auto simp: ready_def decodeObject_def\<close>)

text \<open>
  The task of a validated run has exactly the named approvers: the first of each bare name, in
  order, all pending and without users, and at least one approval to give.
\<close>

theorem created_approvers:
  assumes "valid_run run" and "create_params (cr_Params run) create_init = Inr acc"
  shows "ca_approvers acc = first_by ad_Name (map approver_of (all_names (cr_Params run)))
    \<and> distinct (map ad_Name (ca_approvers acc))
    \<and> ad_Name ` set (ca_approvers acc) = (ad_Name \<circ> approver_of) ` set (all_names (cr_Params run))
    \<and> all_pending (ca_approvers acc) \<and> 0 < ca_number acc"
proof -
  have as: "ca_approvers acc = first_by ad_Name (map approver_of (all_names (cr_Params run)))"
    using create_params_valid(1) [OF _ assms(2)] assms(1) by (simp add: valid_run_def)
  obtain acc' where "create_params (cr_Params run) create_init = Inr acc'"
    "spec_ok (at_Spec (new_task run acc'))" "all_pending (sp_Approvers (at_Spec (new_task run acc')))"
    using valid_run_new_task [OF assms(1)] .
  with assms(2) have "all_pending (ca_approvers acc)" "0 < ca_number acc" by (auto simp: spec_ok_def)
  with as show ?thesis by (simp add: distinct_first_by image_comp)
qed

theorem created_approvers_witness:
  "ca_approvers acc0 = first_by ad_Name (map approver_of (all_names (cr_Params run0)))
    \<and> distinct (map ad_Name (ca_approvers acc0))
    \<and> ad_Name ` set (ca_approvers acc0) = (ad_Name \<circ> approver_of) ` set (all_names (cr_Params run0))
    \<and> all_pending (ca_approvers acc0) \<and> 0 < ca_number acc0"
  by (rule created_approvers [OF ready_valid_run [OF ready_run0] create_run0])

section \<open>The webhook\<close>

text \<open>
  A creation is allowed exactly when the object decodes, its spec is well formed (positive
  quorum, some approvers, valid and different names, valid inputs) and every input is pending.
\<close>

theorem creation_admitted_iff:
  "(\<exists>r. Admit decode (rq\<lparr>rq_Operation := ''CREATE''\<rparr>) = Ret r \<and> resp_Allowed r) \<longleftrightarrow>
    (\<exists>new. decodeObject decode (rq_Object rq) = Inr new \<and> spec_ok (at_Spec new)
        \<and> all_pending (sp_Approvers (at_Spec new)))"
  using Admit_create_iff [of "rq\<lparr>rq_Operation := ''CREATE''\<rparr>" decode] by simp

text \<open>
  C24. An allowed update leaves a well-formed spec, is made while the task is open and its quorum
  not met, by somebody the task names who has not rejected before, and contains a decision of this
  user at some approver: an own entry, or a group the user belongs to.
\<close>

theorem update_admitted_facts:
  assumes "Admit decode rq = Ret r" and "resp_Allowed r" and "rq_Operation rq = ''UPDATE''"
  shows "\<exists>old new. decodeObject decode (rq_OldObject rq) = Inr old \<and> decodeObject decode (rq_Object rq) = Inr new
    \<and> spec_ok (at_Spec new) \<and> \<not> final_state (st_State (at_Status old)) \<and> \<not> approvalTaskHasTrueInput old
    \<and> ifUserExists (sp_Approvers (at_Spec old)) (rq_UserInfo rq)
    \<and> ''rejected'' \<notin> recorded (st_ApproversResponse (at_Status old)) (ui_Username (rq_UserInfo rq))
    \<and> (\<exists>i < length (sp_Approvers (at_Spec old)). i < length (sp_Approvers (at_Spec new))
         \<and> own_change (sp_Approvers (at_Spec old) ! i) (sp_Approvers (at_Spec new) ! i) (rq_UserInfo rq))"
proof -
  obtain old new where "decodeObject decode (rq_OldObject rq) = Inr old"
    "decodeObject decode (rq_Object rq) = Inr new" and a: "admits old new (rq_UserInfo rq)"
    using Admit_update_iff [OF assms(3), of decode] assms(1,2) by blast
  with admits_facts [OF a] show ?thesis by (auto simp: final_state_def)
qed

definition decode0 :: "string \<Rightarrow> string + approval_task" where
  "decode0 b = Inr (if b = ''old'' then task0 else updated_task opts0 task0)"

definition update0 :: admission_request where
  "update0 = \<lparr>rq_Operation = ''UPDATE'', rq_Object = ''new'', rq_OldObject = ''old'',
     rq_UserInfo = \<lparr>ui_Username = ''alice'', ui_Groups = []\<rparr>\<rparr>"

lemma update0_allowed: "\<exists>r. Admit decode0 update0 = Ret r \<and> resp_Allowed r"
  using opts0_admitted
  by (subst Admit_update_iff) (simp_all add: update0_def decodeObject_def decode0_def user_of_def opts0_def)

theorem update_admitted_facts_witness:
  "\<exists>old new. decodeObject decode0 (rq_OldObject update0) = Inr old \<and> decodeObject decode0 (rq_Object update0) = Inr new
    \<and> spec_ok (at_Spec new) \<and> \<not> final_state (st_State (at_Status old)) \<and> \<not> approvalTaskHasTrueInput old
    \<and> ifUserExists (sp_Approvers (at_Spec old)) (rq_UserInfo update0)
    \<and> ''rejected'' \<notin> recorded (st_ApproversResponse (at_Status old)) (ui_Username (rq_UserInfo update0))
    \<and> (\<exists>i < length (sp_Approvers (at_Spec old)). i < length (sp_Approvers (at_Spec new))
         \<and> own_change (sp_Approvers (at_Spec old) ! i) (sp_Approvers (at_Spec new) ! i) (rq_UserInfo update0))"
proof -
  obtain r where r: "Admit decode0 update0 = Ret r" "resp_Allowed r" using update0_allowed by blast
  show ?thesis by (rule update_admitted_facts [OF r]) (simp add: update0_def)
qed

text \<open>
  C25. Nobody acts for somebody else: when an update keeps the approvers' names and types, every
  vote, of either kind, that the new object holds is the user's or was in the old object.
\<close>

theorem update_only_own_vote:
  assumes "Admit decode rq = Ret r" and "resp_Allowed r" and "rq_Operation rq = ''UPDATE''"
    and "decodeObject decode (rq_OldObject rq) = Inr old" and "decodeObject decode (rq_Object rq) = Inr new"
    and "spec_ok (at_Spec old)" and "same_shape (sp_Approvers (at_Spec old)) (sp_Approvers (at_Spec new))"
  shows "votes i (sp_Approvers (at_Spec new))
    \<subseteq> insert (ui_Username (rq_UserInfo rq)) (votes i (sp_Approvers (at_Spec old)))"
proof -
  have "admits old new (rq_UserInfo rq)"
    using Admit_update_iff [OF assms(3), of decode] assms(1,2,4,5) by auto
  then show ?thesis by (rule admits_votes [OF _ assms(6,7)])
qed

theorem update_only_own_vote_witness:
  "votes ''approve'' (sp_Approvers (at_Spec (updated_task opts0 task0)))
    \<subseteq> insert (ui_Username (rq_UserInfo update0)) (votes ''approve'' (sp_Approvers (at_Spec task0)))"
proof -
  obtain r where r: "Admit decode0 update0 = Ret r" "resp_Allowed r" using update0_allowed by blast
  show ?thesis
    by (rule update_only_own_vote [OF r _ _ _ task0_ok(1)])
      (simp_all add: update0_def decode0_def decodeObject_def update_same_shape)
qed

text \<open>
  An update cannot make the webhook panic unless it shortens the list of approvers.
\<close>

theorem update_no_panic:
  assumes "decodeObject decode (rq_OldObject rq) = Inr old" and "decodeObject decode (rq_Object rq) = Inr new"
    and "length (sp_Approvers (at_Spec old)) \<le> length (sp_Approvers (at_Spec new))"
  shows "Admit decode rq \<noteq> Panic"
  using Admit_update_no_panic [OF assms(3)] assms(1,2)
  by (auto simp: Admit_def split: option.split)

theorem update_no_panic_witness: "Admit decode0 update0 \<noteq> Panic"
  by (rule update_no_panic [where old = task0 and new = "updated_task opts0 task0"])
    (simp_all add: update0_def decode0_def decodeObject_def update_approvers_eq)

text \<open>
  C26. The structural checks accept exactly the well-formed specs: the loops with their maps of
  seen names and their error texts decide \<open>spec_ok\<close>.
\<close>

theorem spec_validation_iff: "validateApprovalTaskSpec spec = nil \<longleftrightarrow> spec_ok spec"
  by (rule validateApprovalTaskSpec_iff)

section \<open>The decision\<close>

text \<open>
  C27. \<open>decideState\<close> refines the abstract verdict: the state it gives a task is the one the verdict
  says, an undecided task keeps its state, and it has something to write exactly when somebody's
  answer counts.
\<close>

theorem decision_refines_verdict:
  "st_State (at_Status (fst (decideState ord t))) = verdict_state (task_verdict t) (st_State (at_Status t))
   \<and> snd (decideState ord t) = answered (sp_Approvers (at_Spec t))
   \<and> at_Spec (fst (decideState ord t)) = at_Spec t \<and> at_Meta (fst (decideState ord t)) = at_Meta t"
  by (simp add: decideState_refines decideState_writes)

text \<open>Deciding is idempotent: a decided task decides to itself.\<close>

theorem decision_idempotent:
  "decideState ord (fst (decideState ord t)) = decideState ord t"
  by (rule decideState_idem)

text \<open>
  C28. The recorded responses, in whatever order Go visits the map: one per name, each approved or
  rejected and of an approver of the task; a group's response lists the members it counts, none of
  whom answered as an individual.
\<close>

theorem responses_well_formed:
  assumes "\<forall>xs. mset (ord xs) = mset xs"
  shows "let rs = st_ApproversResponse (at_Status (fst (decideState ord t))) in
    distinct (map as_Name rs)
    \<and> (\<forall>r \<in> set rs. (as_Response r = approvedState \<or> as_Response r = rejectedState)
         \<and> (\<exists>a \<in> set (sp_Approvers (at_Spec t)). as_Name r = ad_Name a \<and> responded a)
         \<and> (as_Type r = ''Group'' \<longrightarrow> as_GroupMembers r \<noteq> []
              \<and> (\<forall>m \<in> set (as_GroupMembers r). gm_Name m \<notin> individual_names (sp_Approvers (at_Spec t)))))"
proof -
  let ?as = "sp_Approvers (at_Spec t)"
  let ?cur = "currentApprovers ?as" and ?rs = "st_ApproversResponse (at_Status (fst (decideState ord t)))"
  have rs: "mset ?rs = (if answered ?as then mset (map snd ?cur) else {#})"
    using assms by (simp add: decideState_response)
  have names: "map as_Name (map snd ?cur) = map fst ?cur"
    using currentApprovers_name by (auto simp: map_eq_conv)
  have "distinct (map as_Name ?rs)"
  proof -
    have "mset (map as_Name ?rs) = (if answered ?as then mset (map fst ?cur) else {#})"
      unfolding names [symmetric] mset_map [of as_Name] by (simp add: rs)
    then show ?thesis
      using currentApprovers_distinct [of ?as] by (metis distinct.simps(1) mset.simps(1) mset_eq_imp_distinct_iff)
  qed
  moreover have "(as_Response r = approvedState \<or> as_Response r = rejectedState)
      \<and> (\<exists>a \<in> set ?as. as_Name r = ad_Name a \<and> responded a)
      \<and> (as_Type r = ''Group'' \<longrightarrow> as_GroupMembers r \<noteq> []
           \<and> (\<forall>m \<in> set (as_GroupMembers r). gm_Name m \<notin> individual_names ?as))"
    if "r \<in> set ?rs" for r
  proof -
    have "r \<in># mset ?rs" using that by simp
    then obtain k where "(k, r) \<in> set ?cur" using rs by (auto split: if_splits)
    then obtain a where a: "a \<in> set ?as" "response_of (individual_names ?as) a = Some r"
      by (rule currentApprovers_entries)
    note sel = response_of_sel [OF a(2)]
    have "as_GroupMembers r \<noteq> [] \<and> (\<forall>m \<in> set (as_GroupMembers r). gm_Name m \<notin> individual_names ?as)"
      if "as_Type r = ''Group''"
    proof -
      have "group_response (individual_names ?as) a = Some r"
        using a(2) that user_response_sel(2) [of a] by (auto simp: response_of_def split: if_splits)
      from group_response_Some(4,5) [OF this] show ?thesis by (auto dest: member_states_name)
    qed
    with sel a(1) show ?thesis by blast
  qed
  ultimately show ?thesis unfolding Let_def by blast
qed

theorem responses_well_formed_witness:
  "let rs = st_ApproversResponse (at_Status (fst (decideState rev approved_task0))) in
    distinct (map as_Name rs)
    \<and> (\<forall>r \<in> set rs. (as_Response r = approvedState \<or> as_Response r = rejectedState)
         \<and> (\<exists>a \<in> set (sp_Approvers (at_Spec approved_task0)). as_Name r = ad_Name a \<and> responded a)
         \<and> (as_Type r = ''Group'' \<longrightarrow> as_GroupMembers r \<noteq> []
              \<and> (\<forall>m \<in> set (as_GroupMembers r). gm_Name m \<notin> individual_names (sp_Approvers (at_Spec approved_task0)))))"
  by (rule responses_well_formed) simp

text \<open>
  Controller and webhook count alike, and count people: the number the controller records,
  the quorum test of the controller and the webhook's test of whether more is needed all go by the
  size of the set of people who approved, however many entries they approved in.
\<close>

theorem counts_agree:
  "countApprovalsReceived t = int (card (approved_users (sp_Approvers (at_Spec t))))
   \<and> (approvalTaskHasTrueInput t \<longleftrightarrow> sp_NumberOfApprovalsRequired (at_Spec t) \<le> countApprovalsReceived t)
   \<and> (isApprovalRequired t \<longleftrightarrow> \<not> final_state (st_State (at_Status t)) \<and> \<not> approvalTaskHasTrueInput t)"
  using countApprovalsReceived_eq approvalTaskHasTrueInput_eq isApprovalRequired_eq
  by (auto simp: final_state_def)

section \<open>The life of a task\<close>

text \<open>
  C6. Safety of the gate: in every history of updates that the webhook admits (all that it admits, changes of the
  approvers and of the number required included), reconciliations and timeouts from a fresh task, a task in
  state approved has at least as many different people approving as it asks for by then and no approver entry
  whose input is a rejection (a member's rejection within a group can be overruled), and somebody had
  an update admitted. Unless somebody among these changed the approvers or the number required, the number
  is that of the fresh task and everybody who is counted had an update of their own admitted.
\<close>

theorem approved_needs_people:
  assumes "reachable admits t0 (t, A, X)" and "st_State (at_Status t) = approvedState"
  shows "sp_NumberOfApprovalsRequired (at_Spec t) \<le> int (card (approved_users (sp_Approvers (at_Spec t))))
    \<and> \<not> rejects (sp_Approvers (at_Spec t)) \<and> A \<noteq> {} \<and> X \<subseteq> A
    \<and> (X \<noteq> {}
       \<or> sp_NumberOfApprovalsRequired (at_Spec t) = sp_NumberOfApprovalsRequired (at_Spec t0)
         \<and> approved_users (sp_Approvers (at_Spec t)) \<subseteq> A)"
proof -
  have inv: "life_inv t0 (t, A, X)" by (rule webhook.inv_reachable [OF assms(1)])
  then have "task_verdict t = Approved" using assms(2) by (simp add: life_inv_def)
  from approved_people [OF inv this] show ?thesis by (simp add: quorum_of_people_def)
qed

theorem approved_needs_people_witness:
  "let t = stored_after env0 (updated_task opts0 single0) in
    sp_NumberOfApprovalsRequired (at_Spec single0) \<le> int (card (approved_users (sp_Approvers (at_Spec t))))
    \<and> approved_users (sp_Approvers (at_Spec t)) \<subseteq> {''alice''} \<and> \<not> rejects (sp_Approvers (at_Spec t))"
  using approved_needs_people [OF single0_approved] unfolding Let_def by auto

text \<open>
  In every such history in which nobody changed the approvers or the number required, somebody who has
  not acted has no vote in the task.
\<close>

theorem no_vote_without_action:
  assumes "reachable admits t0 (t, A, {})" and "n \<notin> A"
  shows "n \<notin> votes hasApproved (sp_Approvers (at_Spec t)) \<and> n \<notin> votes hasRejected (sp_Approvers (at_Spec t))"
  by (rule webhook.no_vote_unacted [OF assms])

theorem no_vote_without_action_witness:
  "''bob'' \<notin> votes hasApproved (sp_Approvers (at_Spec (stored_after env0 (updated_task opts0 single0))))
   \<and> ''bob'' \<notin> votes hasRejected (sp_Approvers (at_Spec (stored_after env0 (updated_task opts0 single0))))"
  by (rule no_vote_without_action [OF single0_approved(1)]) simp

text \<open>Once a task is approved or rejected, no step changes its approvers or their inputs.\<close>

theorem decided_task_frozen:
  assumes "life_step admits (t, H) (t', H')" and "final_state (st_State (at_Status t))"
  shows "at_Spec t' = at_Spec t \<and> H' = H"
  by (rule webhook.final_frozen [OF assms])

theorem decided_task_frozen_witness:
  "at_Spec (expired_task (stored_after env0 (updated_task opts0 single0)))
     = at_Spec (stored_after env0 (updated_task opts0 single0)) \<and> ({''alice''}, {} :: string set) = ({''alice''}, {})"
  by (rule decided_task_frozen [OF expired]) (simp add: final_state_def single0_approved(2))

section \<open>The command line client\<close>

text \<open>
  What the client sends is what the webhook admits: for a user with a valid name who has not
  answered yet, on an open task, a change that makes a difference is allowed.
\<close>

theorem client_update_admitted:
  assumes "spec_ok (at_Spec t)" and "isApprovalRequired t"
    and "user_name_ok (op_Username opts)" and "decision (op_Input opts)"
    and "effective opts (sp_Approvers (at_Spec t))"
    and "recorded (st_ApproversResponse (at_Status t)) (op_Username opts) = {}"
    and "rq_Operation rq = ''UPDATE''" and "rq_UserInfo rq = user_of opts"
    and "decodeObject decode (rq_OldObject rq) = Inr t"
    and "decodeObject decode (rq_Object rq) = Inr (updated_task opts t)"
  shows "\<exists>r. Admit decode rq = Ret r \<and> resp_Allowed r"
  using cli_update_admitted [OF assms(1-6)] Admit_update_iff [OF assms(7), of decode] assms(8-10) by auto

definition opts_group0 :: cli_options where
  "opts_group0 = opts0\<lparr>op_Username := ''dave'', op_Input := ''reject'', op_Groups := [''devs'']\<rparr>"

theorem client_update_admitted_witness:
  "\<exists>r. Admit (\<lambda>b. Inr (if b = ''old'' then task0 else updated_task opts_group0 task0))
         (update0\<lparr>rq_UserInfo := user_of opts_group0\<rparr>) = Ret r \<and> resp_Allowed r"
  by (rule client_update_admitted [OF task0_ok(1,2), of opts_group0])
    (simp_all add: opts_group0_def opts0_def user_name_ok_def blank_def decision_def effective_def recorded_def
      userProcessedAsIndividual_def is_user_def is_group_def find_user_def update0_def decodeObject_def
      sample_defs go_defs)

text \<open>
  The pending approvals the client lists for a freshly decided task with different approver
  names and no rejection are those required less those the controller counted.
\<close>

theorem pending_matches_status:
  assumes "distinct (map ad_Name (sp_Approvers (at_Spec t)))" and "no_rejection (sp_Approvers (at_Spec t))"
    and "answered (sp_Approvers (at_Spec t))" and "\<forall>xs. set (ord xs) = set xs"
  shows "pendingApprovals (fst (decideState ord t)) =
     st_ApprovalsRequired (at_Status (fst (decideState ord t))) - st_ApprovalsReceived (at_Status (fst (decideState ord t)))"
  by (rule pending_after_decision [OF assms])

theorem pending_matches_status_witness:
  "pendingApprovals (fst (decideState rev approved_task0)) =
     st_ApprovalsRequired (at_Status (fst (decideState rev approved_task0)))
       - st_ApprovalsReceived (at_Status (fst (decideState rev approved_task0)))"
  by (rule pending_matches_status)
    (simp_all add: no_rejection_def verdict_defs sample_defs)

text \<open>
  The rejections the client lists are people: the counter of the loop is the number of
  different names that rejected, individually or in a group.
\<close>

theorem rejected_counts_people:
  "rejected t = int (card (\<Union>r \<in> set (st_ApproversResponse (at_Status t)). rejecters r))"
  by (rule rejected_eq)

text \<open>
  The groups that \<open>describe\<close> shows for a user are those whose recorded response lists the
  user, in the order of the responses, separated by commas.
\<close>

theorem described_groups:
  assumes "fmlookup (userGroups rs) n = Some info"
  shows "ug_Groups info = groups_of n rs \<and> ug_GroupsStr info = Join (groups_of n rs) '', ''"
  using userGroups_groups(1) [of rs n] userGroups_groups(2) [OF assms] assms by (simp add: map_groups_def)

definition two_groups0 :: "approver_state list" where
  "two_groups0 =
     [\<lparr>as_Name = ''devs'', as_Response = ''approved'', as_Message = '''', as_Type = ''Group'',
       as_GroupMembers = [\<lparr>gm_Name = ''carol'', gm_Response = ''approved'', gm_Message = ''''\<rparr>]\<rparr>,
      \<lparr>as_Name = ''ops'', as_Response = ''approved'', as_Message = '''', as_Type = ''Group'',
       as_GroupMembers = [\<lparr>gm_Name = ''carol'', gm_Response = ''approved'', gm_Message = ''''\<rparr>]\<rparr>]"

theorem described_groups_witness:
  "ug_Groups (the (fmlookup (userGroups two_groups0) ''carol'')) = groups_of ''carol'' two_groups0
   \<and> ug_GroupsStr (the (fmlookup (userGroups two_groups0) ''carol'')) = Join (groups_of ''carol'' two_groups0) '', ''"
  by (rule described_groups) (simp add: userGroups_def group_members_map_def add_member_def two_groups0_def)

text \<open>
  A command and its effect: when one more approval is enough and nobody rejects, \<open>approve\<close> by a
  user the task names (or a member of a group it names) succeeds, and the next reconciliation marks
  the run as succeeded.
\<close>

theorem approve_completes:
  assumes "ready env run" and "tracker_lookup (w_api w) (run_ns run) (run_name run) = Some t"
    and "keyed run t" and "in_time env run t"
    and "opts = command_options ''approve'' (run_name run) (run_ns run) msg u"
    and "addressed opts (sp_Approvers (at_Spec t))" and "\<not> rejects (sp_Approvers (at_Spec t))"
    and "sp_NumberOfApprovalsRequired (at_Spec t)
           \<le> int (card (insert (ui_Username u) (approved_users (sp_Approvers (at_Spec t)))))"
    and "hash_changed env (updated_task opts t)"
  shows "\<exists>out s' d run' w'.
    approve_command None (Inr u) (Inr g) fake_client (run_name run) (run_ns run) msg (w_api w) = (Inr out, s')
    \<and> ReconcileKind env fake_client run (w\<lparr>w_api := s'\<rparr>) = (Some (MultiErr [RequeueErr d]), run', w')
    \<and> IsSuccessful run'"
proof -
  have o: "op_Input opts = hasApproved" "op_Username opts = ui_Username u"
    by (simp_all add: assms(5) command_options_def)
  have v: "task_verdict (updated_task opts t) = Approved"
    using approval_verdict [OF o(1) assms(6,7)] assms(8) o(2) by simp
  obtain out s' w' where
    "approve_command None (Inr u) (Inr g) fake_client (run_name run) (run_ns run) msg (w_api w) = (Inr out, s')"
    "ReconcileKind env fake_client run (w\<lparr>w_api := s'\<rparr>) =
       (Some (MultiErr [RequeueErr (delay_of env run (updated_task opts t))]), next_run env run (updated_task opts t), w')"
    unfolding approve_command_def by (rule fake_edit.command_reconciled [OF assms(1-6)])
  moreover have "IsSuccessful (next_run env run (updated_task opts t))"
    using next_run_status(1) [OF assms(1,9)] v by (simp add: found_state_def)
  ultimately show ?thesis by blast
qed

theorem approve_completes_witness:
  "\<exists>out s' d run' w'.
    approve_command None (Inr carol0) (Inr ()) fake_client (run_name run0) (run_ns run0) ''ok'' (w_api (world_of half_task0))
      = (Inr out, s')
    \<and> ReconcileKind env0 fake_client run0 ((world_of half_task0)\<lparr>w_api := s'\<rparr>) = (Some (MultiErr [RequeueErr d]), run', w')
    \<and> IsSuccessful run'"
  by (rule approve_completes [OF ready_run0 lookup_world_of half_task0_ready(1,2) refl half_task0_ready(5,3) _
        half_task0_ready(4)])
    (simp add: half_task0_def carol0_def verdict_defs sample_defs)

text \<open>
  \<open>reject\<close> by a user the task names fails the run at the next reconciliation, whatever the
  approvals.
\<close>

theorem reject_stops:
  assumes "ready env run" and "tracker_lookup (w_api w) (run_ns run) (run_name run) = Some t"
    and "keyed run t" and "in_time env run t"
    and "opts = command_options ''reject'' (run_name run) (run_ns run) msg u"
    and "addressed opts (sp_Approvers (at_Spec t))"
    and "hash_changed env (updated_task opts t)"
  shows "\<exists>out s' d run' w'.
    reject_command None (Inr u) (Inr g) fake_client (run_name run) (run_ns run) msg (w_api w) = (Inr out, s')
    \<and> ReconcileKind env fake_client run (w\<lparr>w_api := s'\<rparr>) = (Some (MultiErr [RequeueErr d]), run', w')
    \<and> IsFailure run'"
proof -
  have "op_Input opts = hasRejected" by (simp add: assms(5) command_options_def)
  then have v: "task_verdict (updated_task opts t) = Rejected" by (rule rejection_verdict [OF _ assms(6)])
  obtain out s' w' where
    "reject_command None (Inr u) (Inr g) fake_client (run_name run) (run_ns run) msg (w_api w) = (Inr out, s')"
    "ReconcileKind env fake_client run (w\<lparr>w_api := s'\<rparr>) =
       (Some (MultiErr [RequeueErr (delay_of env run (updated_task opts t))]), next_run env run (updated_task opts t), w')"
    unfolding reject_command_def by (rule fake_edit.command_reconciled [OF assms(1-6)])
  moreover have "IsFailure (next_run env run (updated_task opts t))"
    using next_run_status(2) [OF assms(1,7)] v by (simp add: found_state_def)
  ultimately show ?thesis by blast
qed

theorem reject_stops_witness:
  "\<exists>out s' d run' w'.
    reject_command None (Inr carol0) (Inr ()) fake_client (run_name run0) (run_ns run0) ''no'' (w_api (world_of half_task0))
      = (Inr out, s')
    \<and> ReconcileKind env0 fake_client run0 ((world_of half_task0)\<lparr>w_api := s'\<rparr>) = (Some (MultiErr [RequeueErr d]), run', w')
    \<and> IsFailure run'"
  by (rule reject_stops [OF ready_run0 lookup_world_of half_task0_ready(1,2) refl half_task0_ready(5,4)])

text \<open>
  C30. A user the task does not name gets an error from \<open>approve\<close> or \<open>reject\<close>, as does a command on
  a task that is not there, and nothing is written.
\<close>

theorem command_without_right:
  assumes "case tracker_lookup s ns n of
      None \<Rightarrow> True
    | Some t \<Rightarrow> \<not> containsUsername (sp_Approvers (at_Spec t)) (command_options input n ns msg u)"
  shows "\<exists>e. decide_command input participle None (Inr u) (Inr g) fake_client n ns msg s = (Inl e, s)"
  using assms fake_edit.command_refused [of s ns n _ input msg u participle g]
    fake_edit.command_missing [of s ns n input participle u g msg]
  by (cases "tracker_lookup s ns n") auto

theorem command_without_right_witness:
  "\<exists>e. decide_command ''approve'' ''approved'' None (Inr \<lparr>ui_Username = ''mallory'', ui_Groups = [''ops'']\<rparr>) (Inr ())
     fake_client ''deploy'' ''prod'' [] (w_api (world_of half_task0)) = (Inl e, w_api (world_of half_task0))"
  by (rule command_without_right)
    (simp add: tracker_lookup_def containsUsername_def command_options_def half_task0_def sample_defs)

section \<open>Registration and events\<close>

text \<open>
  C31. Registering the webhook: with the certificate and the configuration at hand, one
  reconciliation sends (unless nothing differs) a configuration in which every webhook of the
  configuration's own name has the rules, the bundle and the path of this program, and every other
  webhook is as it was; and when that is the configuration found, nothing is sent any more.
\<close>

theorem webhook_configured:
  fixes c :: "'w webhook_configuration"
  assumes "secrets (wr_Namespace r) (wr_SecretName r) = Inr data" and "fmlookup data CACert = Some ca"
    and "lister (wr_Name r) = Inr c" and "has_service (vc_Name c) (vc_Webhooks c)"
  shows "\<exists>w. Reconcile_webhook r True secrets lister update key s =
      (if c = w then (None, s)
       else (map_option (WrapErr ''failed to update webhook'') (fst (update w s)), snd (update w s)))
    \<and> vc_Name w = vc_Name c \<and> vc_OwnerReferences w = None
    \<and> map vw_Name (vc_Webhooks w) = map vw_Name (vc_Webhooks c)
    \<and> (\<forall>i < length (vc_Webhooks c).
         if vw_Name (vc_Webhooks c ! i) = vc_Name c then installed (wr_Path r) ca (vc_Webhooks w ! i)
         else vc_Webhooks w ! i = vc_Webhooks c ! i)
    \<and> (\<forall>lister' s'. lister' (wr_Name r) = Inr w \<longrightarrow> Reconcile_webhook r True secrets lister' update key s' = (None, s'))"
proof -
  obtain whs where whs: "set_webhooks (vc_Name c) (wr_Path r) ca (vc_Webhooks c) = Inr whs"
    using assms(4) unfolding set_webhooks_total [where path = "wr_Path r" and caCert = ca] by blast
  let ?w = "c\<lparr>vc_OwnerReferences := None, vc_Webhooks := whs\<rparr>"
  have "Reconcile_webhook r True secrets lister update key s =
      (if c = ?w then (None, s)
       else (map_option (WrapErr ''failed to update webhook'') (fst (update ?w s)), snd (update ?w s)))"
    using assms(1-3) whs
    by (simp add: Reconcile_webhook_def reconcileValidatingWebhook_def Let_def split: prod.split option.split)
  moreover have "Reconcile_webhook r True secrets lister' update key s' = (None, s')"
    if "lister' (wr_Name r) = Inr ?w" for lister' and s'
    using that assms(1,2) set_webhooks_idem [OF whs]
    by (simp add: Reconcile_webhook_def reconcileValidatingWebhook_def)
  ultimately show ?thesis
    using set_webhooks_installs [OF whs] by (intro exI [of _ ?w]) simp
qed

definition webhook_reconciler0 :: webhook_reconciler where
  "webhook_reconciler0 = \<lparr>wr_Namespace = ''openshift-pipelines'', wr_Name = ''approvals'',
     wr_Path = ''/approval-validation'', wr_SecretName = ''certs''\<rparr>"

definition configuration0 :: "unit webhook_configuration" where
  "configuration0 = \<lparr>vc_Name = ''approvals'', vc_OwnerReferences = None, vc_Webhooks =
     [\<lparr>vw_Name = ''approvals'', vw_ClientConfig = \<lparr>cc_URL = None,
         cc_Service = Some \<lparr>svc_Namespace = ''openshift-pipelines'', svc_Name = ''webhook'', svc_Path = None, svc_Port = None\<rparr>,
         cc_CABundle = None\<rparr>, vw_Rules = []\<rparr>,
      \<lparr>vw_Name = ''other'', vw_ClientConfig = \<lparr>cc_URL = None, cc_Service = None, cc_CABundle = None\<rparr>, vw_Rules = []\<rparr>]\<rparr>"

theorem webhook_configured_witness:
  "\<exists>w. Reconcile_webhook webhook_reconciler0 True (\<lambda>ns n. Inr (fmupd CACert (Some ''pem'') fmempty))
      (\<lambda>n. Inr configuration0) (\<lambda>w ws. (None, ws @ [w])) ''key'' [] =
      (if configuration0 = w then (None, [])
       else (map_option (WrapErr ''failed to update webhook'') (fst (None :: go_error option, [] @ [w])), snd (None :: go_error option, [] @ [w])))
    \<and> vc_Name w = vc_Name configuration0 \<and> vc_OwnerReferences w = None
    \<and> map vw_Name (vc_Webhooks w) = map vw_Name (vc_Webhooks configuration0)
    \<and> (\<forall>i < length (vc_Webhooks configuration0).
         if vw_Name (vc_Webhooks configuration0 ! i) = vc_Name configuration0
         then installed (wr_Path webhook_reconciler0) (Some ''pem'') (vc_Webhooks w ! i)
         else vc_Webhooks w ! i = vc_Webhooks configuration0 ! i)
    \<and> (\<forall>lister' s'. lister' (wr_Name webhook_reconciler0) = Inr w \<longrightarrow>
         Reconcile_webhook webhook_reconciler0 True (\<lambda>ns n. Inr (fmupd CACert (Some ''pem'') fmempty))
           lister' (\<lambda>w ws. (None, ws @ [w])) ''key'' s' = (None, s'))"
  by (rule webhook_configured [where data = "fmupd CACert (Some ''pem'') fmempty" and ca = "Some ''pem''"
        and c = configuration0])
    (simp_all add: configuration0_def has_service_def)

text \<open>
  A change of a run wakes the controller exactly when the run passes the check that
  \<open>ReconcileKind\<close> makes of its reference; on an update the new version counts first.
\<close>

theorem run_events_wake:
  "key \<in> set (run_handler ev) \<longleftrightarrow>
     (case ev of
        Added r \<Rightarrow> checkCustomRunReferencesApprovalTask r = nil \<and> key = object_key (cr_Meta r)
      | Deleted r \<Rightarrow> checkCustomRunReferencesApprovalTask r = nil \<and> key = object_key (cr_Meta r)
      | Updated old new \<Rightarrow>
          (if checkCustomRunReferencesApprovalTask new = nil then key = object_key (cr_Meta new)
           else checkCustomRunReferencesApprovalTask old = nil \<and> key = object_key (cr_Meta old)))"
  by (rule run_handler_iff)

text \<open>
  C37. A vote wakes the run it is for: the key that an update of a run's task puts on the queue is
  read back as the namespace and the name of the run.
\<close>

theorem task_update_wakes_run:
  assumes "created_task env run acc t" and "at_Meta t' = at_Meta t"
    and "CHR ''/'' \<notin> set (run_ns run)" and "CHR ''/'' \<notin> set (run_name run)"
  shows "map (SplitMetaNamespaceKey \<circ> safeKey) (task_handler (Updated t t')) = [Inr (run_ns run, run_name run)]"
  by (rule task_handler_wakes [OF assms])

theorem task_update_wakes_run_witness:
  "map (SplitMetaNamespaceKey \<circ> safeKey)
     (task_handler (Updated ((new_task run0 acc0)\<lparr>at_Status := initial_status acc0\<rparr>)
        (updated_task opts0 ((new_task run0 acc0)\<lparr>at_Status := initial_status acc0\<rparr>))))
   = [Inr (run_ns run0, run_name run0)]"
  by (rule task_update_wakes_run [of env0 run0 acc0])
    (simp_all add: created_task_def same_sent_def sample_defs)

section \<open>The parameters of a run\<close>

text \<open>
  An approver named in the parameters is accepted exactly when it is not blank, has no space
  beside a colon, and, after a \<open>group:\<close> prefix, is a group name that is not blank and has neither a
  colon nor a space.
\<close>

theorem approver_param_iff:
  "validateApproverParameter v i = nil \<longleftrightarrow> approver_param_ok v"
  by (rule validateApproverParameter_ok)

text \<open>
  Approvers given as a string of JSON pass the validation of the parameters, but the creation
  of the task reads the array alone: the task has no approvers and the webhook refuses it.
\<close>

theorem string_approvers_denied:
  assumes "ValidateCustomRunParameters unmarshal run = nil"
    and "\<forall>p \<in> set (cr_Params run). p_Name p = allApprovers \<longrightarrow> pv_ArrayVal (p_Value p) = []"
    and "create_params (cr_Params run) create_init = Inr acc"
    and "rq_Operation rq = ''CREATE''" and "decodeObject decode (rq_Object rq) = Inr (new_task run acc)"
  shows "ca_approvers acc = [] \<and> (\<nexists>r. Admit decode rq = Ret r \<and> resp_Allowed r)"
proof -
  have "ca_approvers acc = []" by (rule create_params_no_array [OF assms(3,2)]) (simp add: create_init_def)
  then show ?thesis using assms(4,5) by (simp add: Admit_create_iff spec_ok_def)
qed

definition string_run0 :: custom_run where
  "string_run0 = run0\<lparr>cr_Params := [StringParam ''approvers'' ''[]'']\<rparr>"

theorem string_approvers_denied_witness:
  "ca_approvers create_init = []
    \<and> (\<nexists>r. Admit (\<lambda>b. Inr (new_task string_run0 create_init)) (update0\<lparr>rq_Operation := ''CREATE''\<rparr>) = Ret r \<and> resp_Allowed r)"
  by (rule string_approvers_denied [of "\<lambda>s. Inr (JArray [JString ''alice''])" string_run0])
    (simp_all add: string_run0_def update0_def decodeObject_def create_init_def go_defs)

section \<open>What the webhook leaves open\<close>

text \<open>
  C38. The number of approvals required is not among what the webhook compares: an allowed update
  is also allowed with any other positive number.
\<close>

theorem required_number_unchecked:
  assumes "rq_Operation rq = ''UPDATE''" and "Admit decode rq = Ret r" and "resp_Allowed r"
    and "decodeObject decode (rq_Object rq) = Inr new" and "0 < n"
    and "decodeObject decode bytes = Inr (with_required n new)"
  shows "\<exists>r. Admit decode (rq\<lparr>rq_Object := bytes\<rparr>) = Ret r \<and> resp_Allowed r"
proof -
  obtain old where "decodeObject decode (rq_OldObject rq) = Inr old" "admits old new (rq_UserInfo rq)"
    using Admit_update_iff [OF assms(1), of decode] assms(2-4) by auto
  with admits_with_required [OF _ assms(5)] assms(1,6) show ?thesis by (simp add: Admit_update_iff)
qed

definition decode_forged :: "approval_task \<Rightarrow> string \<Rightarrow> string + approval_task" where
  "decode_forged forged b =
     (if b = ''old'' then Inr task0 else if b = ''new'' then Inr (updated_task opts0 task0) else Inr forged)"

lemma update0_forgeable:
  obtains r where "Admit (decode_forged forged) update0 = Ret r" "resp_Allowed r"
  using opts0_admitted Admit_update_iff [of update0 "decode_forged forged"]
  by (auto simp: update0_def decodeObject_def decode_forged_def user_of_def opts0_def)

theorem required_number_unchecked_witness:
  "\<exists>r. Admit (decode_forged (with_required 1 (updated_task opts0 task0))) (update0\<lparr>rq_Object := ''forged''\<rparr>) = Ret r
     \<and> resp_Allowed r"
proof -
  obtain r where r: "Admit (decode_forged (with_required 1 (updated_task opts0 task0))) update0 = Ret r" "resp_Allowed r"
    by (rule update0_forgeable)
  show ?thesis
    by (rule required_number_unchecked [OF _ r, where new = "updated_task opts0 task0"]) (simp_all add: update0_def decodeObject_def decode_forged_def)
qed

text \<open>
  C39. Nor are approvers beyond the end of the old list: an update allowed to a user who has not
  answered is allowed with further well-formed approvers appended, whose inputs count as approvals.
\<close>

theorem appended_approvers_unchecked:
  assumes "rq_Operation rq = ''UPDATE''" and "Admit decode rq = Ret r" and "resp_Allowed r"
    and "decodeObject decode (rq_OldObject rq) = Inr old" and "decodeObject decode (rq_Object rq) = Inr new"
    and "length (sp_Approvers (at_Spec old)) \<le> length (sp_Approvers (at_Spec new))"
    and "recorded (st_ApproversResponse (at_Status old)) (ui_Username (rq_UserInfo rq)) = {}"
    and "spec_ok (at_Spec (with_appended extra new))"
    and "decodeObject decode bytes = Inr (with_appended extra new)"
  shows "(\<exists>r. Admit decode (rq\<lparr>rq_Object := bytes\<rparr>) = Ret r \<and> resp_Allowed r)
    \<and> countApprovalsReceived (with_appended extra new)
        = int (card (approved_users (sp_Approvers (at_Spec new)) \<union> approved_users extra))"
proof -
  have "admits old new (rq_UserInfo rq)"
    using Admit_update_iff [OF assms(1), of decode] assms(2-5) by auto
  from admits_with_appended [OF this assms(6-8)] assms(1,4,9) show ?thesis
    by (simp add: Admit_update_iff countApprovalsReceived_eq)
qed

definition mallory0 :: approver_details where
  "mallory0 = (pending_user ''mallory'')\<lparr>ad_Input := ''approve''\<rparr>"

theorem appended_approvers_unchecked_witness:
  "(\<exists>r. Admit (decode_forged (with_appended [mallory0] (updated_task opts0 task0))) (update0\<lparr>rq_Object := ''forged''\<rparr>) = Ret r
      \<and> resp_Allowed r)
    \<and> countApprovalsReceived (with_appended [mallory0] (updated_task opts0 task0))
        = int (card (approved_users (sp_Approvers (at_Spec (updated_task opts0 task0))) \<union> approved_users [mallory0]))"
proof -
  obtain r where r: "Admit (decode_forged (with_appended [mallory0] (updated_task opts0 task0))) update0 = Ret r" "resp_Allowed r"
    by (rule update0_forgeable)
  show ?thesis
    by (rule appended_approvers_unchecked [OF _ r, where old = task0 and new = "updated_task opts0 task0"])
      (simp_all add: update0_def decodeObject_def decode_forged_def mallory0_def update_approvers_eq changed_def opts0_def
        spec_ok_def approver_ok_def user_name_ok_def group_name_ok_def users_ok_def input_ok_def blank_def
        is_user_def is_group_def set_input_def recorded_def sample_defs go_defs)
qed

text \<open>A new list that is shorter than the old one can make the handler panic instead of answering.\<close>

definition short_task0 :: approval_task where
  "short_task0 = with_approvers [(pending_user ''alice'')\<lparr>ad_Input := ''approve''\<rparr>]"

theorem shorter_list_panics:
  "Admit (\<lambda>b. Inr (if b = ''old'' then task0 else short_task0)) update0 = Panic"
proof -
  have "validateApprovalTask short_task0 = nil"
    by (simp add: validateApprovalTask_iff short_task0_def spec_ok_def approver_ok_def user_name_ok_def users_ok_def
        input_ok_def blank_def is_user_def is_group_def sample_defs go_defs)
  moreover have "Admit_update task0 short_task0 (rq_UserInfo update0) = Panic"
    using task0_ok(2)
    by (simp add: Admit_update_def ifUserExists_def checkIfUserAlreadyDecided_def IsUserApprovalChanged_def
        CheckOtherUsersForInvalidChanges_def hasOnlyInputChanged_def nth_opt_def valid_change_def hasValidInputValue_def
        is_user_def is_group_def short_task0_def update0_def sample_defs)
  ultimately show ?thesis by (simp add: Admit_def decodeObject_def) (simp add: update0_def)
qed

text \<open>A group of which one member rejects and then another approves.\<close>

definition group_task0 :: approval_task where
  "group_task0 = task0\<lparr>at_Spec := \<lparr>sp_Approvers = [pending_group ''devs''], sp_NumberOfApprovalsRequired = 1,
     sp_Description = []\<rparr>\<rparr>"

definition dave_rejects :: cli_options where
  "dave_rejects = \<lparr>op_Namespace = ''prod'', op_Name = ''deploy'', op_Input = ''reject'', op_Username = ''dave'',
     op_Message = [], op_Groups = [''devs'']\<rparr>"

definition carol_approves :: cli_options where
  "carol_approves = \<lparr>op_Namespace = ''prod'', op_Name = ''deploy'', op_Input = ''approve'', op_Username = ''carol'',
     op_Message = [], op_Groups = [''devs'']\<rparr>"

lemmas group_story = group_task0_def dave_rejects_def carol_approves_def sample_defs

definition group_voted :: approval_task where
  "group_voted = updated_task carol_approves (updated_task dave_rejects group_task0)"

lemma group_voted_approvers:
  "sp_Approvers (at_Spec (updated_task dave_rejects group_task0)) =
     [(pending_group ''devs'')\<lparr>ad_Input := ''reject'', ad_Users := [\<lparr>ud_Name = ''dave'', ud_Input = ''reject'', ud_Message = []\<rparr>]\<rparr>]"
  "sp_Approvers (at_Spec group_voted) =
     [(pending_group ''devs'')\<lparr>ad_Input := ''approve'',
        ad_Users := [\<lparr>ud_Name = ''dave'', ud_Input = ''reject'', ud_Message = []\<rparr>,
                     \<lparr>ud_Name = ''carol'', ud_Input = ''approve'', ud_Message = []\<rparr>]\<rparr>]"
  by (simp_all add: group_voted_def update_approvers_eq changed_def group_changed_def update_group_def set_input_def
      userProcessedAsIndividual_def is_user_def is_group_def DefaultedApproverType_def Let_def group_story)

lemma group_task0_initial: "initial group_task0"
  by (simp add: initial_def spec_ok_def approver_ok_def group_name_ok_def users_ok_def input_ok_def all_pending_def
      blank_def is_user_def is_group_def group_story go_defs)

lemma dave_admitted: "admits group_task0 (updated_task dave_rejects group_task0) (user_of dave_rejects)"
  by (rule cli_update_admitted)
    (use group_task0_initial in \<open>simp_all add: initial_def isApprovalRequired_def user_name_ok_def blank_def decision_def
      effective_def recorded_def userProcessedAsIndividual_def is_user_def is_group_def find_user_def group_story go_defs\<close>)

lemma carol_admitted: "admits (updated_task dave_rejects group_task0) group_voted (user_of carol_approves)"
  unfolding group_voted_def
proof (rule cli_update_admitted)
  show "spec_ok (at_Spec (updated_task dave_rejects group_task0))" using dave_admitted by (simp add: admits_def)
  show "isApprovalRequired (updated_task dave_rejects group_task0)"
    by (simp add: isApprovalRequired_def group_voted_approvers is_user_def is_group_def del: updated_task_sel(3))
      (simp add: group_story)
  show "effective carol_approves (sp_Approvers (at_Spec (updated_task dave_rejects group_task0)))"
    by (simp add: effective_def group_voted_approvers is_user_def is_group_def del: updated_task_sel(3))
      (simp add: group_story)
qed (simp_all add: user_name_ok_def blank_def decision_def recorded_def group_story go_defs)

text \<open>
  C40. A rejection within a group can be overruled before the controller sees it: Dave rejects as a
  member of the group, Carol then approves as one; both updates are admitted, the group's input is
  Carol's, and the task ends approved although Dave's rejection is still in it.
\<close>

theorem group_rejection_overruled:
  "reachable admits group_task0 (stored_after env0 group_voted, {''carol'', ''dave''}, {})
    \<and> st_State (at_Status (stored_after env0 group_voted)) = approvedState
    \<and> ''dave'' \<in> votes hasRejected (sp_Approvers (at_Spec (stored_after env0 group_voted)))"
proof -
  have "reachable admits group_task0 (updated_task dave_rejects group_task0, {''dave''}, {})"
    using reachable.step [OF reachable.start [OF group_task0_initial] cli_update_step [OF dave_admitted, of "{}" "{}"]]
    by (simp add: dave_rejects_def)
  from reachable.step [OF this cli_update_step [OF carol_admitted [unfolded group_voted_def], of "{''dave''}" "{}"]]
  have "reachable admits group_task0 (group_voted, {''carol'', ''dave''}, {})"
    by (simp add: group_voted_def carol_approves_def)
  from reachable.step [OF this reconciled]
  have "reachable admits group_task0 (stored_after env0 group_voted, {''carol'', ''dave''}, {})" .
  moreover have "hash_changed env0 group_voted"
    by (simp add: hash_changed_def group_voted_def) (simp add: group_story)
  moreover have "task_verdict group_voted = Approved"
  proof -
    let ?as = "sp_Approvers (at_Spec group_voted)"
    have "individual_names ?as = {}"
      by (auto simp: individual_names_def group_voted_approvers is_user_def DefaultedApproverType_def pending_group_def)
    then have "answered ?as"
      by (simp add: answered_def)
        (simp add: group_voted_approvers response_of_def responded_def group_response_eq member_states_def is_user_def
          is_group_def DefaultedApproverType_def pending_group_def)
    moreover have "\<not> rejects ?as" "approved_users ?as = {''carol''}"
      by (simp_all add: rejects_def approved_users_fold add_approved_def add_approved_member_def group_voted_approvers
          is_user_def is_group_def DefaultedApproverType_def pending_group_def)
    moreover have "sp_NumberOfApprovalsRequired (at_Spec group_voted) = 1"
      by (simp add: group_voted_def group_task0_def)
    ultimately show ?thesis by (simp add: task_verdict_def decide_def)
  qed
  moreover have "''dave'' \<in> votes hasRejected (sp_Approvers (at_Spec group_voted))"
    by (simp add: group_voted_approvers votes_def votes_of_def is_user_def is_group_def group_story)
      (rule image_eqI [where x = "\<lparr>ud_Name = ''dave'', ud_Input = ''reject'', ud_Message = []\<rparr>"], simp_all)
  ultimately show ?thesis by (simp add: stored_after_state found_state_def)
qed

end
